(* ===== verification/Prelude.thy ===== *)
theory Prelude
  imports Complex_Main "HOL-Library.AList" "HOL-Library.Char_ord" "HOL-Library.List_Lexorder"
begin

text \<open>
  Shared vocabulary of the development: results of code that may raise (\<open>'e + 'a\<close> with
  \<open>Inl\<close> the exception), Python dictionaries as association lists with the insertion order the
  interpreter keeps, the string helpers the components share, and the collections their proofs
  use.  Strings are lists of \<open>char\<close>: a \<open>char\<close> stands for one code point below 256, so lengths and
  character classes are those of the Python \<open>str\<close> on that range.
\<close>

named_theorems result_simps \<open>evaluation and inversion of results\<close>
named_theorems dict_simps \<open>lookups and updates of dictionaries\<close>

section \<open>Results: code that may raise\<close>

definition bindR :: "'e + 'a \<Rightarrow> ('a \<Rightarrow> 'e + 'b) \<Rightarrow> 'e + 'b" where
  "bindR m f = (case m of Inl e \<Rightarrow> Inl e | Inr a \<Rightarrow> f a)"

definition require :: "bool \<Rightarrow> 'e \<Rightarrow> 'e + unit" where
  "require b e = (if b then Inr () else Inl e)"

definition catchR :: "'e + 'a \<Rightarrow> ('e \<Rightarrow> 'f) \<Rightarrow> 'f + 'a" where
  "catchR m h = (case m of Inl e \<Rightarrow> Inl (h e) | Inr a \<Rightarrow> Inr a)"

lemma bindR_Inl [simp, result_simps]: "bindR (Inl e) f = Inl e"
  by (simp add: bindR_def)

lemma bindR_Inr [simp, result_simps]: "bindR (Inr a) f = f a"
  by (simp add: bindR_def)

lemma bindR_eq_Inr [simp, result_simps]: "bindR m f = Inr b \<longleftrightarrow> (\<exists>a. m = Inr a \<and> f a = Inr b)"
  by (cases m) (auto simp: bindR_def)

lemma bindR_eq_Inl [result_simps]:
  "bindR m f = Inl e \<longleftrightarrow> m = Inl e \<or> (\<exists>a. m = Inr a \<and> f a = Inl e)"
  by (cases m) (auto simp: bindR_def)

lemma bindR_cong [fundef_cong]:
  "m = m' \<Longrightarrow> (\<And>a. m' = Inr a \<Longrightarrow> f a = g a) \<Longrightarrow> bindR m f = bindR m' g"
  by (cases m') (auto simp: bindR_def)

lemma require_eq_Inr [simp, result_simps]: "require b e = Inr u \<longleftrightarrow> b"
  by (simp add: require_def)

lemma require_eq_Inl [simp, result_simps]: "require b e = Inl e' \<longleftrightarrow> \<not> b \<and> e' = e"
  by (auto simp: require_def)

lemma require_True [simp]: "require True e = Inr ()"
  by (simp add: require_def)

lemma require_False [simp]: "require False e = Inl e"
  by (simp add: require_def)

lemma catchR_eq_Inr [simp, result_simps]: "catchR m h = Inr a \<longleftrightarrow> m = Inr a"
  by (cases m) (auto simp: catchR_def)

lemma catchR_Inr [simp]: "catchR (Inr a) h = Inr a"
  by (simp add: catchR_def)

lemma catchR_Inl [simp]: "catchR (Inl e) h = Inl (h e)"
  by (simp add: catchR_def)

text \<open>A \<open>for\<close> loop that collects, stopping at the first exception.\<close>

fun mapR :: "('a \<Rightarrow> 'e + 'b) \<Rightarrow> 'a list \<Rightarrow> 'e + 'b list" where
  "mapR f [] = Inr []"
| "mapR f (x # xs) = bindR (f x) (\<lambda>y. bindR (mapR f xs) (\<lambda>ys. Inr (y # ys)))"

lemma mapR_cong [fundef_cong]:
  "xs = ys \<Longrightarrow> (\<And>x. x \<in> set ys \<Longrightarrow> f x = g x) \<Longrightarrow> mapR f xs = mapR g ys"
  by (induction ys arbitrary: xs) (auto intro!: bindR_cong)

lemma mapR_Inr_iff [result_simps]:
  "mapR f xs = Inr ys \<longleftrightarrow> list_all2 (\<lambda>x y. f x = Inr y) xs ys"
proof (induction xs arbitrary: ys)
  case Nil
  show ?case by auto
next
  case (Cons x xs)
  then show ?case by (cases ys) auto
qed

lemma mapR_member: "mapR f xs = Inr ys \<Longrightarrow> x \<in> set xs \<Longrightarrow> \<exists>y \<in> set ys. f x = Inr y"
  by (induction xs arbitrary: ys) auto

lemma mapR_length: "mapR f xs = Inr ys \<Longrightarrow> length ys = length xs"
  by (auto simp: mapR_Inr_iff dest: list_all2_lengthD)

lemma mapR_all: "(\<And>x. x \<in> set xs \<Longrightarrow> f x = Inr (g x)) \<Longrightarrow> mapR f xs = Inr (map g xs)"
  by (induction xs) auto

text \<open>The state of a loop folded over a list, stopping at the first exception.\<close>

fun foldR :: "('s \<Rightarrow> 'a \<Rightarrow> 'e + 's) \<Rightarrow> 's \<Rightarrow> 'a list \<Rightarrow> 'e + 's" where
  "foldR f s [] = Inr s"
| "foldR f s (x # xs) = bindR (f s x) (\<lambda>s'. foldR f s' xs)"

lemma foldR_append: "foldR f s (xs @ ys) = bindR (foldR f s xs) (\<lambda>s'. foldR f s' ys)"
proof (induction xs arbitrary: s)
  case (Cons x xs)
  then show ?case by (cases "f s x") auto
qed simp

lemma foldR_invariant:
  assumes "foldR f s xs = Inr s'" and "P s"
    and "\<And>s x s'. x \<in> set xs \<Longrightarrow> P s \<Longrightarrow> f s x = Inr s' \<Longrightarrow> P s'"
  shows "P s'"
  using assms
proof (induction xs arbitrary: s)
  case (Cons x xs)
  then obtain s1 where "f s x = Inr s1" and "foldR f s1 xs = Inr s'" by auto
  with Cons.prems Cons.IH [of s1] show ?case by auto
qed simp

text \<open>
  The exceptions the modelled code raises itself, one constructor per class, with the message (its
  fixed part, where the source interpolates values into it).
\<close>

datatype exn =
    ValueError string
  | TypeError string
  | RuntimeError string
  | RequestError string
  | ArtifactVerificationError string
  | LaunchAuthorizationError string
  | RunnerIdentityError string
  | StatusRecordError string
  | TransferError string
  | TransferUnavailable string
  | ApplicationError string
  | ApprovalError string
  | BundleValidationError string
  | CanonicalJSONError string
  | ProtocolValidationError string
  | RunStoreError string
  | InvalidRunIdError string
  | RunNotFoundError string
  | RunAlreadyExistsError string
  | BudgetExceeded string
  | LifecycleConflictError string
  | InvalidTransitionError string
  | ProviderProtocolError string
  | IncrementalAckError string
  | OverflowError string
  | OSError string
  | KeyError string

text \<open>\<open>str(error)\<close>, up to the values the source interpolates.\<close>

primrec exn_text :: "exn \<Rightarrow> string" where
  "exn_text (ValueError m) = m"
| "exn_text (TypeError m) = m"
| "exn_text (RuntimeError m) = m"
| "exn_text (RequestError m) = m"
| "exn_text (ArtifactVerificationError m) = m"
| "exn_text (LaunchAuthorizationError m) = m"
| "exn_text (RunnerIdentityError m) = m"
| "exn_text (StatusRecordError m) = m"
| "exn_text (TransferError m) = m"
| "exn_text (TransferUnavailable m) = m"
| "exn_text (ApplicationError m) = m"
| "exn_text (ApprovalError m) = m"
| "exn_text (BundleValidationError m) = m"
| "exn_text (CanonicalJSONError m) = m"
| "exn_text (ProtocolValidationError m) = m"
| "exn_text (RunStoreError m) = m"
| "exn_text (InvalidRunIdError m) = m"
| "exn_text (RunNotFoundError m) = m"
| "exn_text (RunAlreadyExistsError m) = m"
| "exn_text (BudgetExceeded m) = m"
| "exn_text (LifecycleConflictError m) = m"
| "exn_text (InvalidTransitionError m) = m"
| "exn_text (ProviderProtocolError m) = m"
| "exn_text (IncrementalAckError m) = m"
| "exn_text (OverflowError m) = m"
| "exn_text (OSError m) = m"
| "exn_text (KeyError m) = m"

section \<open>Dictionaries\<close>

text \<open>
  \<open>d[k] = v\<close> keeps the position of an existing key and appends a new one, which is
  \<open>AList.update\<close>; \<open>d.pop(k, None)\<close> is \<open>AList.delete\<close>; \<open>d.setdefault(k, v)\<close> is below.
\<close>

type_synonym 'v dict = "(string \<times> 'v) list"

abbreviation dget :: "'v dict \<Rightarrow> string \<Rightarrow> 'v option" where
  "dget d k \<equiv> map_of d k"

abbreviation dput :: "string \<Rightarrow> 'v \<Rightarrow> 'v dict \<Rightarrow> 'v dict" where
  "dput k v d \<equiv> AList.update k v d"

abbreviation dkeys :: "'v dict \<Rightarrow> string list" where
  "dkeys d \<equiv> map fst d"

abbreviation dvalues :: "'v dict \<Rightarrow> 'v list" where
  "dvalues d \<equiv> map snd d"

abbreviation wf_dict :: "'v dict \<Rightarrow> bool" where
  "wf_dict d \<equiv> distinct (map fst d)"

lemma dget_dput [simp, dict_simps]: "dget (dput k v d) k' = (if k' = k then Some v else dget d k')"
  by (simp add: update_conv')

lemma wf_dict_dput [simp, dict_simps]: "wf_dict d \<Longrightarrow> wf_dict (dput k v d)"
  by (rule distinct_update)

lemma set_dputD: "p \<in> set (dput k v d) \<Longrightarrow> p = (k, v) \<or> p \<in> set d"
  by (induction d) (auto split: if_splits)

lemma dput_fresh: "dget d k = None \<Longrightarrow> dput k v d = d @ [(k, v)]"
  by (induction d) (auto split: if_splits)

lemma dvalues_dput_fresh: "dget d k = None \<Longrightarrow> dvalues (dput k v d) = dvalues d @ [v]"
  by (simp add: dput_fresh)

lemma dget_in_values: "dget d k = Some v \<Longrightarrow> v \<in> set (dvalues d)"
  by (force dest: map_of_SomeD)

section \<open>Strings\<close>

definition is_digit :: "char \<Rightarrow> bool" where
  "is_digit c \<longleftrightarrow> CHR ''0'' \<le> c \<and> c \<le> CHR ''9''"

definition is_lower :: "char \<Rightarrow> bool" where
  "is_lower c \<longleftrightarrow> CHR ''a'' \<le> c \<and> c \<le> CHR ''z''"

definition is_upper :: "char \<Rightarrow> bool" where
  "is_upper c \<longleftrightarrow> CHR ''A'' \<le> c \<and> c \<le> CHR ''Z''"

definition is_hex :: "char \<Rightarrow> bool" where
  "is_hex c \<longleftrightarrow> is_digit c \<or> (CHR ''a'' \<le> c \<and> c \<le> CHR ''f'')"

definition is_alnum :: "char \<Rightarrow> bool" where
  "is_alnum c \<longleftrightarrow> is_digit c \<or> is_lower c \<or> is_upper c"

lemmas char_class_defs = is_digit_def is_lower_def is_upper_def is_hex_def is_alnum_def

text \<open>\<open>str.isspace\<close> of one character, on code points below 256.\<close>

definition is_space :: "char \<Rightarrow> bool" where
  "is_space c \<longleftrightarrow> (of_char c :: nat) \<in> {9, 10, 11, 12, 13, 28, 29, 30, 31, 32, 133, 160}"

definition is_control :: "char \<Rightarrow> bool" where
  "is_control c \<longleftrightarrow> (of_char c :: nat) < 32 \<or> (of_char c :: nat) = 127"

definition strip :: "string \<Rightarrow> string" where
  "strip s = rev (dropWhile is_space (rev (dropWhile is_space s)))"

lemma dropWhile_none: "(\<And>x. x \<in> set xs \<Longrightarrow> \<not> P x) \<Longrightarrow> dropWhile P xs = xs"
  by (cases xs) auto

lemma strip_no_space:
  assumes "\<And>c. c \<in> set s \<Longrightarrow> \<not> is_space c"
  shows "strip s = s"
proof -
  have "dropWhile is_space s = s" and "dropWhile is_space (rev s) = rev s"
    using assms by (auto intro: dropWhile_none)
  then show ?thesis by (simp add: strip_def)
qed

definition is_sha256 :: "string \<Rightarrow> bool" where
  "is_sha256 s \<longleftrightarrow> length s = 64 \<and> list_all is_hex s"

text \<open>\<open>s.split(sep)\<close> on one separator character, and its inverse \<open>sep.join(parts)\<close>.\<close>

fun split_on :: "char \<Rightarrow> string \<Rightarrow> string list" where
  "split_on c [] = [[]]"
| "split_on c (x # xs) =
     (if x = c then [] # split_on c xs
      else (case split_on c xs of [] \<Rightarrow> [[x]] | p # ps \<Rightarrow> (x # p) # ps))"

fun join :: "char \<Rightarrow> string list \<Rightarrow> string" where
  "join c [] = []"
| "join c [p] = p"
| "join c (p # q # ps) = p @ c # join c (q # ps)"

lemma split_on_nonempty [simp]: "split_on c s \<noteq> []"
  by (induction s) (auto split: list.splits)

lemma join_split_on: "join c (split_on c s) = s"
proof (induction s)
  case (Cons x xs)
  then show ?case
    by (cases "split_on c xs"; cases "tl (split_on c xs)") auto
qed simp

lemma split_on_no_sep: "p \<in> set (split_on c s) \<Longrightarrow> c \<notin> set p"
  by (induction s arbitrary: p) (auto split: if_splits list.splits)

lemma split_on_single: "c \<notin> set p \<Longrightarrow> split_on c p = [p]"
  by (induction p) auto

lemma split_on_append: "c \<notin> set p \<Longrightarrow> split_on c (p @ c # s) = p # split_on c s"
  by (induction p) auto

lemma split_on_join:
  "ps \<noteq> [] \<Longrightarrow> (\<And>p. p \<in> set ps \<Longrightarrow> c \<notin> set p) \<Longrightarrow> split_on c (join c ps) = ps"
  by (induction c ps rule: join.induct) (auto simp: split_on_single split_on_append)

lemma set_join: "set (join c ps) \<subseteq> insert c (\<Union> (set ` set ps))"
  by (induction c ps rule: join.induct) auto

lemma mem_set_join: "p \<in> set ps \<Longrightarrow> x \<in> set p \<Longrightarrow> x \<in> set (join c ps)"
  by (induction c ps rule: join.induct) auto

end
