(* ===== verification/PyDecimal.thy ===== *)
theory PyDecimal
  imports Prelude
begin

text \<open>
  Python's \<open>decimal.Decimal\<close> in the default context: a coefficient and an exponent of ten, exact
  construction from text, exact comparison, addition rounded half-even to 28 digits, and the
  fixed-point rendering \<open>format(d, "f")\<close>.  The sign of a zero is not kept (no code of the program
  observes it) and the exponent range is not bounded.
\<close>

datatype decimal = Dec int int | DInf bool | DNaN

fun is_finite :: "decimal \<Rightarrow> bool" where
  "is_finite (Dec c e) = True"
| "is_finite _ = False"

section \<open>Value and comparison\<close>

fun dec_val :: "decimal \<Rightarrow> rat" where
  "dec_val (Dec c e) = of_int c * 10 powi e"
| "dec_val _ = 0"

text \<open>\<open>scaled x m\<close> is the coefficient of \<open>x\<close> at an exponent \<open>m\<close> not above its own.\<close>

fun dec_exp :: "decimal \<Rightarrow> int" where
  "dec_exp (Dec c e) = e"
| "dec_exp _ = 0"

fun scaled :: "decimal \<Rightarrow> int \<Rightarrow> int" where
  "scaled (Dec c e) m = c * 10 ^ nat (e - m)"
| "scaled _ m = 0"

definition common_exp :: "decimal \<Rightarrow> decimal \<Rightarrow> int" where
  "common_exp x y = min (dec_exp x) (dec_exp y)"

text \<open>Comparisons of finite values; the code never compares others.\<close>

definition dec_le :: "decimal \<Rightarrow> decimal \<Rightarrow> bool" where
  "dec_le x y \<longleftrightarrow> scaled x (common_exp x y) \<le> scaled y (common_exp x y)"

definition dec_lt :: "decimal \<Rightarrow> decimal \<Rightarrow> bool" where
  "dec_lt x y \<longleftrightarrow> scaled x (common_exp x y) < scaled y (common_exp x y)"

definition dec_eq :: "decimal \<Rightarrow> decimal \<Rightarrow> bool" where
  "dec_eq x y \<longleftrightarrow> scaled x (common_exp x y) = scaled y (common_exp x y)"

definition dec_zero :: decimal where
  "dec_zero = Dec 0 0"

lemma powi_split:
  assumes "m \<le> e"
  shows "(10::rat) powi e = 10 ^ nat (e - m) * 10 powi m"
proof -
  obtain n where n: "e = int n + m" using assms by (metis add.commute zle_iff_zadd)
  show ?thesis by (simp add: n power_int_add)
qed

lemma scaled_val:
  assumes "is_finite x" and "m \<le> dec_exp x"
  shows "dec_val x = of_int (scaled x m) * 10 powi m"
proof (cases x)
  case (Dec c e)
  with assms have "(10::rat) powi e = 10 ^ nat (e - m) * 10 powi m"
    by (simp only: dec_exp.simps powi_split)
  then show ?thesis using Dec by simp
qed (use assms in auto)

lemma common_scaled:
  assumes "is_finite x" and "is_finite y"
  shows "dec_val x = of_int (scaled x (common_exp x y)) * 10 powi common_exp x y"
    and "dec_val y = of_int (scaled y (common_exp x y)) * 10 powi common_exp x y"
  using assms by (auto intro: scaled_val simp: common_exp_def)

lemma powi_pos: "(0::rat) < 10 powi m"
  by simp

lemma dec_le_iff: "is_finite x \<Longrightarrow> is_finite y \<Longrightarrow> dec_le x y \<longleftrightarrow> dec_val x \<le> dec_val y"
  using powi_pos [of "common_exp x y"]
  by (simp only: common_scaled [of x y] dec_le_def mult_le_cancel_right_pos of_int_le_iff)

lemma dec_lt_iff: "is_finite x \<Longrightarrow> is_finite y \<Longrightarrow> dec_lt x y \<longleftrightarrow> dec_val x < dec_val y"
  using powi_pos [of "common_exp x y"]
  by (simp only: common_scaled [of x y] dec_lt_def mult_less_cancel_right_pos of_int_less_iff)

lemma dec_eq_iff: "is_finite x \<Longrightarrow> is_finite y \<Longrightarrow> dec_eq x y \<longleftrightarrow> dec_val x = dec_val y"
  using powi_pos [of "common_exp x y"]
  by (simp only: common_scaled [of x y] dec_eq_def mult_cancel_right of_int_eq_iff) auto

lemma dec_zero_simps [simp]: "is_finite dec_zero" "dec_val dec_zero = 0"
  by (simp_all add: dec_zero_def)

section \<open>Addition\<close>

fun ndigits :: "nat \<Rightarrow> nat" where
  "ndigits n = (if n < 10 then 1 else Suc (ndigits (n div 10)))"

declare ndigits.simps [simp del]

definition precision :: nat where
  "precision = 28"

text \<open>\<open>Context(prec=28, rounding=ROUND_HALF_EVEN)\<close> applied to an exact result.\<close>

definition round_context :: "int \<Rightarrow> int \<Rightarrow> decimal" where
  "round_context c e =
     (let n = nat \<bar>c\<bar> in
      if n < 10 ^ precision then Dec c e
      else
        let k = ndigits n - precision;
            q = n div 10 ^ k;
            r = n mod 10 ^ k;
            q' = (if 2 * r > 10 ^ k \<or> 2 * r = 10 ^ k \<and> odd q then Suc q else q)
        in Dec (sgn c * int q') (e + int k))"

text \<open>For evaluation: the common case decided on integers.\<close>

lemma round_context_code [code]:
  "round_context c e =
     (if \<bar>c\<bar> < 10 ^ precision then Dec c e
      else
        let n = nat \<bar>c\<bar>;
            k = ndigits n - precision;
            q = n div 10 ^ k;
            r = n mod 10 ^ k;
            q' = (if 2 * r > 10 ^ k \<or> 2 * r = 10 ^ k \<and> odd q then Suc q else q)
        in Dec (sgn c * int q') (e + int k))"
proof -
  have "nat \<bar>c\<bar> < 10 ^ precision \<longleftrightarrow> \<bar>c\<bar> < 10 ^ precision"
    by (metis abs_ge_zero nat_less_numeral_power_cancel_iff)
  then show ?thesis by (simp add: round_context_def Let_def)
qed

definition dec_add :: "decimal \<Rightarrow> decimal \<Rightarrow> decimal" where
  "dec_add x y =
     (let m = common_exp x y in round_context (scaled x m + scaled y m) m)"

fun dec_neg :: "decimal \<Rightarrow> decimal" where
  "dec_neg (Dec c e) = Dec (- c) e"
| "dec_neg d = d"

definition dec_sub :: "decimal \<Rightarrow> decimal \<Rightarrow> decimal" where
  "dec_sub x y = dec_add x (dec_neg y)"

definition dec_sum :: "decimal list \<Rightarrow> decimal" where
  "dec_sum ds = foldl dec_add dec_zero ds"

lemma is_finite_round [simp]: "is_finite (round_context c e)"
  by (simp add: round_context_def Let_def)

lemma is_finite_add [simp]: "is_finite (dec_add x y)"
  by (simp add: dec_add_def Let_def)

lemma is_finite_neg [simp]: "is_finite (dec_neg x) \<longleftrightarrow> is_finite x"
  by (cases x) auto

lemma is_finite_sub [simp]: "is_finite (dec_sub x y)"
  by (simp add: dec_sub_def)

lemma is_finite_sum [simp]: "is_finite (dec_sum ds)"
proof -
  have "is_finite a \<Longrightarrow> is_finite (foldl dec_add a ds)" for a
    by (induction ds arbitrary: a) auto
  then show ?thesis by (simp add: dec_sum_def)
qed

lemma scaled_neg: "scaled (dec_neg x) m = - scaled x m"
  by (cases x) auto

lemma dec_val_neg [simp]: "dec_val (dec_neg x) = - dec_val x"
  by (cases x) auto

lemma dec_exp_neg [simp]: "dec_exp (dec_neg x) = dec_exp x"
  by (cases x) auto

text \<open>
  Addition is exact where the exact coefficient fits in 28 digits.  \<open>cents k B x\<close> says that \<open>x\<close> is a
  multiple of \<open>10^-k\<close> with a coefficient of at most \<open>B\<close> there: amounts of money with \<open>k\<close> decimals.
\<close>

definition fits :: "nat \<Rightarrow> int \<Rightarrow> decimal \<Rightarrow> bool" where
  "fits k b x \<longleftrightarrow> is_finite x \<and> - int k \<le> dec_exp x \<and> \<bar>scaled x (- int k)\<bar> \<le> b"

lemma scaled_mono:
  assumes "is_finite x" and "m \<le> m'" and "m' \<le> dec_exp x"
  shows "scaled x m = scaled x m' * 10 ^ nat (m' - m)"
proof (cases x)
  case (Dec c e)
  with assms have "nat (e - m) = nat (e - m') + nat (m' - m)" by simp
  then show ?thesis using Dec by (simp add: power_add)
qed (use assms in auto)

lemma abs_scaled_le:
  assumes "is_finite x" and "m \<le> m'" and "m' \<le> dec_exp x"
  shows "\<bar>scaled x m'\<bar> \<le> \<bar>scaled x m\<bar>"
proof -
  have "(1::int) \<le> 10 ^ nat (m' - m)" by simp
  then have "\<bar>scaled x m'\<bar> * 1 \<le> \<bar>scaled x m'\<bar> * 10 ^ nat (m' - m)"
    by (rule mult_left_mono) simp
  then show ?thesis
    by (simp add: scaled_mono [OF assms] abs_mult)
qed

lemma dec_add_exact:
  assumes x: "fits k b x" and y: "fits k b' y" and small: "b + b' < 10 ^ precision"
  shows "dec_val (dec_add x y) = dec_val x + dec_val y" and "fits k (b + b') (dec_add x y)"
proof -
  let ?m = "common_exp x y" and ?k = "- int k"
  have fx: "is_finite x" and fy: "is_finite y" and km: "?k \<le> ?m"
    and mx: "?m \<le> dec_exp x" and my: "?m \<le> dec_exp y"
    using x y by (auto simp: fits_def common_exp_def)
  have bx: "\<bar>scaled x ?m\<bar> \<le> b" and by': "\<bar>scaled y ?m\<bar> \<le> b'"
    using abs_scaled_le [OF fx km mx] abs_scaled_le [OF fy km my] x y
    by (auto simp: fits_def)
  have "\<bar>scaled x ?m + scaled y ?m\<bar> < 10 ^ precision"
    using bx by' small abs_triangle_ineq [of "scaled x ?m" "scaled y ?m"] by linarith
  then have "nat \<bar>scaled x ?m + scaled y ?m\<bar> < 10 ^ precision"
    by (simp add: nat_less_iff)
  then have eq: "dec_add x y = Dec (scaled x ?m + scaled y ?m) ?m"
    by (simp add: dec_add_def round_context_def Let_def)
  show "dec_val (dec_add x y) = dec_val x + dec_val y"
    by (simp add: eq scaled_val [OF fx mx] scaled_val [OF fy my] algebra_simps)
  have "scaled (Dec (scaled x ?m + scaled y ?m) ?m) ?k = scaled x ?k + scaled y ?k"
    using scaled_mono [OF fx km mx] scaled_mono [OF fy km my] by (simp add: algebra_simps)
  then show "fits k (b + b') (dec_add x y)"
    using x y km by (auto simp: fits_def eq)
qed

lemma fits_zero: "0 \<le> b \<Longrightarrow> fits k b dec_zero"
  by (simp add: fits_def dec_zero_def)

lemma fits_mono: "fits k b x \<Longrightarrow> b \<le> b' \<Longrightarrow> fits k b' x"
  by (simp add: fits_def)

lemma fits_neg: "fits k b x \<Longrightarrow> fits k b (dec_neg x)"
  by (simp add: fits_def scaled_neg)

lemma fits_val_bound:
  assumes "fits k b x" and "0 \<le> dec_val x" and "dec_val x \<le> dec_val y" and "fits k b' y"
  shows "fits k b' x"
proof -
  have fx: "is_finite x" "- int k \<le> dec_exp x" and fy: "is_finite y" "- int k \<le> dec_exp y"
    using assms by (auto simp: fits_def)
  have "of_int (scaled x (- int k)) * (10::rat) powi (- int k)
      \<le> of_int (scaled y (- int k)) * 10 powi (- int k)"
    using assms(3) by (simp only: scaled_val [OF fx] scaled_val [OF fy])
  then have "scaled x (- int k) \<le> scaled y (- int k)" by simp
  moreover have "0 \<le> scaled x (- int k)"
    using assms(2) powi_pos [of "- int k"]
    by (simp only: scaled_val [OF fx] zero_le_mult_iff) (auto simp: not_le [symmetric])
  ultimately show ?thesis using assms(4) fx by (auto simp: fits_def)
qed

section \<open>Text\<close>

definition digit_char :: "nat \<Rightarrow> char" where
  "digit_char d = char_of (48 + d)"

definition char_digit :: "char \<Rightarrow> nat" where
  "char_digit c = of_char c - 48"

fun show_nat :: "nat \<Rightarrow> string" where
  "show_nat n = (if n < 10 then [digit_char n] else show_nat (n div 10) @ [digit_char (n mod 10)])"

declare show_nat.simps [simp del]

definition read_nat :: "string \<Rightarrow> nat" where
  "read_nat s = foldl (\<lambda>a c. 10 * a + char_digit c) 0 s"

text \<open>\<open>str(n)\<close> of an \<open>int\<close>.\<close>

definition show_int :: "int \<Rightarrow> string" where
  "show_int i = (if i < 0 then CHR ''-'' # show_nat (nat (- i)) else show_nat (nat i))"

lemma char_digit_digit_char [simp]: "d < 10 \<Longrightarrow> char_digit (digit_char d) = d"
  by (simp add: char_digit_def digit_char_def)

lemma is_digit_iff: "is_digit c \<longleftrightarrow> 48 \<le> (of_char c :: nat) \<and> (of_char c :: nat) \<le> 57"
  by (simp add: is_digit_def less_eq_char_def)

lemma is_digit_digit_char [simp]: "d < 10 \<Longrightarrow> is_digit (digit_char d)"
  by (simp add: is_digit_iff digit_char_def)

lemma show_nat_digits: "c \<in> set (show_nat n) \<Longrightarrow> is_digit c"
proof (induction n rule: show_nat.induct)
  case (1 n)
  then show ?case
    by (subst (asm) (2) show_nat.simps) (auto split: if_splits)
qed

lemma show_nat_nonempty [simp]: "show_nat n \<noteq> []"
  by (subst show_nat.simps) simp

lemma read_nat_snoc: "read_nat (s @ [c]) = 10 * read_nat s + char_digit c"
  by (simp add: read_nat_def)

lemma read_show_nat [simp]: "read_nat (show_nat n) = n"
proof (induction n rule: show_nat.induct)
  case (1 n)
  show ?case
  proof (cases "n < 10")
    case True
    then show ?thesis by (subst show_nat.simps) (simp add: read_nat_def)
  next
    case False
    with "1.IH" show ?thesis by (subst show_nat.simps) (simp add: read_nat_snoc)
  qed
qed

lemma read_nat_append_zeros: "read_nat (s @ replicate n (CHR ''0'')) = read_nat s * 10 ^ n"
proof (induction n)
  case (Suc n)
  have "s @ replicate (Suc n) (CHR ''0'') = (s @ replicate n (CHR ''0'')) @ [CHR ''0'']"
    by (simp add: replicate_append_same)
  moreover have "char_digit (CHR ''0'') = 0" by (simp add: char_digit_def)
  ultimately show ?case by (simp only: read_nat_snoc Suc) simp
qed simp

lemma read_nat_zeros_prefix: "read_nat (replicate n (CHR ''0'') @ s) = read_nat s"
proof -
  have z: "foldl (\<lambda>a c. 10 * a + char_digit c) 0 (replicate n (CHR ''0'')) = 0"
    by (induction n) (simp_all add: char_digit_def)
  show ?thesis by (simp add: read_nat_def z)
qed

text \<open>\<open>format(d, "f")\<close> of a finite decimal.\<close>

fun format_f :: "decimal \<Rightarrow> string" where
  "format_f (Dec c e) =
     (let ds = show_nat (nat \<bar>c\<bar>);
          sign = (if c < 0 then ''-'' else '''');
          n = nat (- e);
          pad = replicate (Suc n - length ds) (CHR ''0'') @ ds
      in if 0 \<le> e then sign @ (if c = 0 then ds else ds @ replicate (nat e) (CHR ''0''))
         else sign @ take (length pad - n) pad @ CHR ''.'' # drop (length pad - n) pad)"
| "format_f (DInf s) = (if s then ''-Infinity'' else ''Infinity'')"
| "format_f DNaN = ''NaN''"

text \<open>
  \<open>Decimal(text)\<close>: surrounding white space and underscores are dropped, then an optional sign,
  digits with an optional point, an optional exponent, or one of the special values; \<open>None\<close> is
  \<open>InvalidOperation\<close>.
\<close>

definition lower_char :: "char \<Rightarrow> char" where
  "lower_char c = (if is_upper c then char_of (of_char c + 32 :: nat) else c)"

fun read_exponent :: "string \<Rightarrow> int option" where
  "read_exponent [] = Some 0"
| "read_exponent (c # s) =
     (if c \<noteq> CHR ''e'' \<and> c \<noteq> CHR ''E'' then None
      else
        let neg = (case s of [] \<Rightarrow> False | d # _ \<Rightarrow> d = CHR ''-'');
            ds = (case s of [] \<Rightarrow> [] | d # t \<Rightarrow> if d = CHR ''-'' \<or> d = CHR ''+'' then t else s)
        in if ds \<noteq> [] \<and> list_all is_digit ds
           then Some (if neg then - int (read_nat ds) else int (read_nat ds)) else None)"

definition read_special :: "bool \<Rightarrow> string \<Rightarrow> decimal option" where
  "read_special neg s =
     (let t = map lower_char s in
      if t = ''inf'' \<or> t = ''infinity'' then Some (DInf neg)
      else if take 3 t = ''nan'' \<and> list_all is_digit (drop 3 t) then Some DNaN
      else if take 4 t = ''snan'' \<and> list_all is_digit (drop 4 t) then Some DNaN
      else None)"

definition read_unsigned :: "bool \<Rightarrow> string \<Rightarrow> decimal option" where
  "read_unsigned neg s =
     (let ip = takeWhile is_digit s;
          r = dropWhile is_digit s;
          point = (r \<noteq> [] \<and> hd r = CHR ''.'');
          fp = (if point then takeWhile is_digit (tl r) else []);
          r' = (if point then dropWhile is_digit (tl r) else r)
      in if ip = [] \<and> fp = [] then read_special neg s
         else (case read_exponent r' of
             None \<Rightarrow> None
           | Some x \<Rightarrow>
               Some (Dec ((if neg then - 1 else 1) * int (read_nat (ip @ fp))) (x - int (length fp)))))"

definition dec_of_string :: "string \<Rightarrow> decimal option" where
  "dec_of_string s =
     (let t = filter (\<lambda>c. c \<noteq> CHR ''_'') (strip s) in
      case t of
        [] \<Rightarrow> None
      | c # r \<Rightarrow> if c = CHR ''-'' then read_unsigned True r
               else if c = CHR ''+'' then read_unsigned False r
               else read_unsigned False t)"

section \<open>Rendering and reading back\<close>

lemma digit_not_point [simp]: "\<not> is_digit (CHR ''.'')" "\<not> is_digit (CHR ''-'')"
    "\<not> is_digit (CHR ''+'')" "\<not> is_digit (CHR ''_'')"
  by (simp_all add: is_digit_iff)

lemma digit_not_space: "is_digit c \<Longrightarrow> \<not> is_space c"
  by (auto simp: is_digit_iff is_space_def)

lemma read_unsigned_int:
  assumes "list_all is_digit ds" and "ds \<noteq> []"
  shows "read_unsigned neg ds = Some (Dec ((if neg then - 1 else 1) * int (read_nat ds)) 0)"
proof -
  have tw: "takeWhile is_digit ds = ds" and dw: "dropWhile is_digit ds = []"
    using assms by (simp_all add: list_all_iff)
  show ?thesis using assms unfolding read_unsigned_def Let_def tw dw by simp
qed

lemma read_unsigned_point:
  assumes "list_all is_digit ip" and "ip \<noteq> []" and "list_all is_digit fp"
  shows "read_unsigned neg (ip @ CHR ''.'' # fp) =
     Some (Dec ((if neg then - 1 else 1) * int (read_nat (ip @ fp))) (- int (length fp)))"
proof -
  have tw: "takeWhile is_digit (ip @ CHR ''.'' # fp) = ip"
    and dw: "dropWhile is_digit (ip @ CHR ''.'' # fp) = CHR ''.'' # fp"
    using assms by (simp_all add: list_all_iff takeWhile_append dropWhile_append)
  have tf: "takeWhile is_digit fp = fp" and df: "dropWhile is_digit fp = []"
    using assms by (simp_all add: list_all_iff)
  show ?thesis using assms unfolding read_unsigned_def Let_def tw dw by (simp only: list.sel tf df) simp
qed

definition unsigned_text :: "string \<Rightarrow> bool" where
  "unsigned_text s \<longleftrightarrow> s \<noteq> [] \<and> is_digit (hd s) \<and> list_all (\<lambda>c. is_digit c \<or> c = CHR ''.'') s"

lemma unsigned_text_point:
  "list_all is_digit ip \<Longrightarrow> ip \<noteq> [] \<Longrightarrow> list_all is_digit fp \<Longrightarrow> unsigned_text (ip @ CHR ''.'' # fp)"
  by (cases ip) (auto simp: unsigned_text_def list_all_iff)

lemma strip_clean:
  assumes "list_all (\<lambda>c. is_digit c \<or> c = CHR ''.'' \<or> c = CHR ''-'') s"
  shows "filter (\<lambda>c. c \<noteq> CHR ''_'') (strip s) = s"
proof -
  have "\<not> is_space c \<and> c \<noteq> CHR ''_''" if "c \<in> set s" for c
    using assms that digit_not_space by (auto simp: list_all_iff is_space_def)
  then show ?thesis by (simp add: strip_no_space filter_id_conv)
qed

lemma dec_of_string_unsigned:
  assumes "unsigned_text s"
  shows "dec_of_string s = read_unsigned False s"
    and "dec_of_string (CHR ''-'' # s) = read_unsigned True s"
proof -
  have "list_all (\<lambda>c. is_digit c \<or> c = CHR ''.'' \<or> c = CHR ''-'') s"
    using assms by (auto simp: unsigned_text_def list_all_iff)
  then have s: "filter (\<lambda>c. c \<noteq> CHR ''_'') (strip s) = s"
    and m: "filter (\<lambda>c. c \<noteq> CHR ''_'') (strip (CHR ''-'' # s)) = CHR ''-'' # s"
    by (auto intro: strip_clean simp del: filter.simps)
  obtain c t where c: "s = c # t" "is_digit c"
    using assms by (cases s) (auto simp: unsigned_text_def)
  then have "c \<noteq> CHR ''-''" and "c \<noteq> CHR ''+''" by auto
  with c show "dec_of_string s = read_unsigned False s"
    unfolding dec_of_string_def s by (simp add: Let_def)
  show "dec_of_string (CHR ''-'' # s) = read_unsigned True s"
    unfolding dec_of_string_def m by (simp add: Let_def)
qed

lemma format_int_part:
  assumes "0 \<le> e"
  shows "\<exists>s. format_f (Dec c e) = (if c < 0 then CHR ''-'' # s else s) \<and> unsigned_text s \<and>
      read_unsigned neg s = Some (Dec ((if neg then - 1 else 1) * (\<bar>c\<bar> * 10 ^ nat e)) 0)"
proof -
  let ?ds = "show_nat (nat \<bar>c\<bar>)"
  let ?s = "if c = 0 then ?ds else ?ds @ replicate (nat e) (CHR ''0'')"
  have dig: "list_all is_digit ?s" and ne: "?s \<noteq> []"
    by (auto simp: list_all_iff is_digit_iff dest: show_nat_digits)
  have "int (read_nat ?s) = \<bar>c\<bar> * 10 ^ nat e"
    by (simp add: read_nat_append_zeros)
  moreover have "unsigned_text ?s"
    using dig ne by (auto simp: unsigned_text_def list_all_iff)
  moreover have "format_f (Dec c e) = (if c < 0 then CHR ''-'' # ?s else ?s)"
    using assms by (simp add: Let_def)
  ultimately show ?thesis
    using read_unsigned_int [OF dig ne] by (intro exI [of _ ?s]) simp
qed

lemma format_frac_part:
  assumes "e < 0"
  shows "\<exists>s. format_f (Dec c e) = (if c < 0 then CHR ''-'' # s else s) \<and> unsigned_text s \<and>
      read_unsigned neg s = Some (Dec ((if neg then - 1 else 1) * \<bar>c\<bar>) e)"
proof -
  let ?ds = "show_nat (nat \<bar>c\<bar>)"
  let ?n = "nat (- e)"
  let ?pad = "replicate (Suc ?n - length ?ds) (CHR ''0'') @ ?ds"
  let ?ip = "take (length ?pad - ?n) ?pad" and ?fp = "drop (length ?pad - ?n) ?pad"
  have len: "Suc ?n \<le> length ?pad" by simp
  have dig: "list_all is_digit ?pad"
    by (auto simp: list_all_iff is_digit_iff dest: show_nat_digits)
  have ip: "list_all is_digit ?ip" and fp: "list_all is_digit ?fp"
    using dig unfolding list_all_iff by (blast dest: in_set_takeD in_set_dropD)+
  have ne: "?ip \<noteq> []" and lf: "length ?fp = ?n"
    using len by (simp only: take_eq_Nil length_drop; fastforce)+
  have read: "read_unsigned neg (?ip @ CHR ''.'' # ?fp) =
      Some (Dec ((if neg then - 1 else 1) * \<bar>c\<bar>) e)"
    using read_unsigned_point [OF ip ne fp, of neg] assms
    unfolding lf append_take_drop_id read_nat_zeros_prefix read_show_nat by simp
  moreover have "unsigned_text (?ip @ CHR ''.'' # ?fp)"
    by (rule unsigned_text_point [OF ip ne fp])
  moreover have "format_f (Dec c e) =
      (if c < 0 then CHR ''-'' # (?ip @ CHR ''.'' # ?fp) else ?ip @ CHR ''.'' # ?fp)"
    using assms by (simp add: Let_def)
  ultimately show ?thesis by blast
qed

theorem dec_of_format:
  "dec_of_string (format_f (Dec c e)) = Some (Dec (c * 10 ^ nat e) (min e 0))"
proof (cases "0 \<le> e")
  case True
  obtain s where "format_f (Dec c e) = (if c < 0 then CHR ''-'' # s else s)" "unsigned_text s"
      "read_unsigned (c < 0) s = Some (Dec ((if c < 0 then - 1 else 1) * (\<bar>c\<bar> * 10 ^ nat e)) 0)"
    using format_int_part [OF True] by blast
  with True show ?thesis by (auto simp: dec_of_string_unsigned)
next
  case False
  then have "e < 0" by simp
  then obtain s where "format_f (Dec c e) = (if c < 0 then CHR ''-'' # s else s)" "unsigned_text s"
      "read_unsigned (c < 0) s = Some (Dec ((if c < 0 then - 1 else 1) * \<bar>c\<bar>) e)"
    using format_frac_part by blast
  with \<open>e < 0\<close> show ?thesis by (auto simp: dec_of_string_unsigned)
qed

text \<open>The decimal that a rendering reads back to: the same value with no positive exponent.\<close>

fun canonical :: "decimal \<Rightarrow> decimal" where
  "canonical (Dec c e) = Dec (c * 10 ^ nat e) (min e 0)"
| "canonical d = d"

lemma dec_of_format_canonical: "is_finite d \<Longrightarrow> dec_of_string (format_f d) = Some (canonical d)"
  by (cases d) (simp_all only: is_finite.simps canonical.simps dec_of_format)

lemma canonical_simps [simp]:
  "is_finite (canonical d) \<longleftrightarrow> is_finite d" "dec_val (canonical d) = dec_val d"
proof -
  show "dec_val (canonical d) = dec_val d"
  proof (cases d)
    case (Dec c e)
    show ?thesis
    proof (cases "0 \<le> e")
      case True
      then have "(10::rat) powi e = 10 ^ nat e"
        by (metis int_nat_eq power_int_of_nat)
      with True Dec show ?thesis by simp
    qed (simp add: Dec)
  qed simp_all
qed (cases d, auto)

lemma fits_canonical [simp]: "fits k b d \<Longrightarrow> fits k b (canonical d)"
proof (cases d)
  case (Dec c e)
  moreover assume "fits k b d"
  moreover have "nat (e + int k) = nat e + k" if "0 \<le> e" using that by simp
  ultimately show ?thesis
    by (cases "0 \<le> e") (auto simp: fits_def power_add mult.assoc)
qed (auto simp: fits_def)

text \<open>Sums that stay within an authorised total are computed exactly.\<close>

lemma dec_fold_exact:
  assumes "2 * b < 10 ^ precision" and "fits k b t" and "fits k b a" and "0 \<le> dec_val a"
    and "\<forall>d \<in> set ds. fits k b d \<and> 0 \<le> dec_val d"
    and "dec_val a + sum_list (map dec_val ds) \<le> dec_val t"
  shows "dec_val (foldl dec_add a ds) = dec_val a + sum_list (map dec_val ds) \<and>
    fits k b (foldl dec_add a ds)"
  using assms(3-)
proof (induction ds arbitrary: a)
  case (Cons d ds)
  have nn: "0 \<le> sum_list (map dec_val ds)"
    using Cons.prems(3) by (intro sum_list_nonneg) auto
  have add: "dec_val (dec_add a d) = dec_val a + dec_val d" "fits k (b + b) (dec_add a d)"
    using dec_add_exact [of k b a b d] Cons.prems assms(1) by auto
  have "fits k b (dec_add a d)"
    using fits_val_bound [OF add(2) _ _ assms(2)] add(1) Cons.prems nn by auto
  with add(1) Cons show ?case by (auto simp: add.assoc)
qed simp

lemma dec_sum_exact:
  assumes "2 * b < 10 ^ precision" and "fits k b t"
    and "\<forall>d \<in> set ds. fits k b d \<and> 0 \<le> dec_val d"
    and "sum_list (map dec_val ds) \<le> dec_val t"
  shows "dec_val (dec_sum ds) = sum_list (map dec_val ds)" and "fits k b (dec_sum ds)"
proof -
  have "fits k b dec_zero" using assms(2) by (intro fits_zero) (auto simp: fits_def)
  then show "dec_val (dec_sum ds) = sum_list (map dec_val ds)" and "fits k b (dec_sum ds)"
    using dec_fold_exact [OF assms(1,2), of dec_zero ds] assms(3,4) by (auto simp: dec_sum_def)
qed

end
