(* ===== verification/PyRegex.thy ===== *)
theory PyRegex
  imports Prelude
begin

text \<open>
  The patterns of the \<open>re\<close> module as the program uses them, always through \<open>fullmatch\<close>: a regular
  expression datatype, the language it denotes, and an executable matcher by derivatives that is
  proved to decide the language.  Each pattern of the program is transcribed into \<open>rx\<close> where its
  component uses it.
\<close>

section \<open>Syntax and language\<close>

datatype rx =
    RNone
  | REmpty
  | RChar "char \<Rightarrow> bool"
  | RAlt rx rx
  | RSeq rx rx
  | RStar rx

inductive matches :: "rx \<Rightarrow> string \<Rightarrow> bool" where
  m_empty: "matches REmpty []"
| m_char: "p c \<Longrightarrow> matches (RChar p) [c]"
| m_alt1: "matches r s \<Longrightarrow> matches (RAlt r r') s"
| m_alt2: "matches r' s \<Longrightarrow> matches (RAlt r r') s"
| m_seq: "matches r s \<Longrightarrow> matches r' s' \<Longrightarrow> matches (RSeq r r') (s @ s')"
| m_star0: "matches (RStar r) []"
| m_star1: "matches r s \<Longrightarrow> matches (RStar r) s' \<Longrightarrow> matches (RStar r) (s @ s')"

inductive_simps matches_None [simp]: "matches RNone s"
inductive_simps matches_Empty [simp]: "matches REmpty s"
inductive_simps matches_Char: "matches (RChar p) s"
inductive_simps matches_Alt [simp]: "matches (RAlt r r') s"
inductive_simps matches_Seq: "matches (RSeq r r') s"

section \<open>The matcher\<close>

fun nullable :: "rx \<Rightarrow> bool" where
  "nullable RNone = False"
| "nullable REmpty = True"
| "nullable (RChar p) = False"
| "nullable (RAlt r s) = (nullable r \<or> nullable s)"
| "nullable (RSeq r s) = (nullable r \<and> nullable s)"
| "nullable (RStar r) = True"

text \<open>Smart constructors keep the derivatives small.\<close>

fun alt :: "rx \<Rightarrow> rx \<Rightarrow> rx" where
  "alt RNone s = s"
| "alt r RNone = r"
| "alt r s = RAlt r s"

fun seq :: "rx \<Rightarrow> rx \<Rightarrow> rx" where
  "seq RNone s = RNone"
| "seq REmpty s = s"
| "seq r s = RSeq r s"

fun deriv :: "char \<Rightarrow> rx \<Rightarrow> rx" where
  "deriv c RNone = RNone"
| "deriv c REmpty = RNone"
| "deriv c (RChar p) = (if p c then REmpty else RNone)"
| "deriv c (RAlt r s) = alt (deriv c r) (deriv c s)"
| "deriv c (RSeq r s) =
     (if nullable r then alt (seq (deriv c r) s) (deriv c s) else seq (deriv c r) s)"
| "deriv c (RStar r) = seq (deriv c r) (RStar r)"

fun fullmatch :: "rx \<Rightarrow> string \<Rightarrow> bool" where
  "fullmatch r [] = nullable r"
| "fullmatch r (c # s) = fullmatch (deriv c r) s"

lemma nullable_iff: "nullable r \<longleftrightarrow> matches r []"
  by (induction r) (auto simp: matches_Seq matches_Char intro: m_star0)

lemma matches_alt [simp]: "matches (alt r s) w \<longleftrightarrow> matches r w \<or> matches s w"
  by (induction r s rule: alt.induct) auto

lemma matches_seq [simp]: "matches (seq r s) w \<longleftrightarrow> matches (RSeq r s) w"
  by (cases r) (auto simp: matches_Seq)

lemma star_Cons:
  "matches (RStar r) (c # w) \<longleftrightarrow> (\<exists>u v. w = u @ v \<and> matches r (c # u) \<and> matches (RStar r) v)"
proof
  assume "matches (RStar r) (c # w)"
  then show "\<exists>u v. w = u @ v \<and> matches r (c # u) \<and> matches (RStar r) v"
  proof (induction "RStar r" "c # w" arbitrary: w rule: matches.induct)
    case (m_star1 s s')
    then show ?case by (cases s) auto
  qed
next
  assume "\<exists>u v. w = u @ v \<and> matches r (c # u) \<and> matches (RStar r) v"
  then show "matches (RStar r) (c # w)"
    using m_star1 [of r "c # _"] by fastforce
qed

lemma seq_Cons:
  "matches (RSeq r s) (c # w) \<longleftrightarrow>
     (\<exists>u v. w = u @ v \<and> matches r (c # u) \<and> matches s v) \<or> matches r [] \<and> matches s (c # w)"
  (is "?lhs \<longleftrightarrow> ?rhs")
proof
  assume ?lhs
  then obtain u v where "c # w = u @ v" "matches r u" "matches s v"
    by (auto simp: matches_Seq)
  then show ?rhs by (cases u) auto
next
  assume ?rhs
  then show ?lhs
    by (auto simp: matches_Seq) (metis append_Cons append_Nil)+
qed

lemma matches_deriv: "matches (deriv c r) w \<longleftrightarrow> matches r (c # w)"
proof (induction r arbitrary: w)
  case (RSeq r s)
  have "matches (RSeq (deriv c r) s) w \<longleftrightarrow>
      (\<exists>u v. w = u @ v \<and> matches r (c # u) \<and> matches s v)"
    by (auto simp: matches_Seq RSeq.IH)
  then show ?case
    by (simp add: seq_Cons nullable_iff RSeq.IH)
next
  case (RStar r)
  then show ?case by (auto simp: star_Cons matches_Seq)
qed (auto simp: matches_Char)

theorem fullmatch_iff: "fullmatch r s \<longleftrightarrow> matches r s"
  by (induction s arbitrary: r) (auto simp: nullable_iff matches_deriv)

section \<open>Derived forms\<close>

definition rchar :: "char \<Rightarrow> rx" where
  "rchar c = RChar (\<lambda>x. x = c)"

fun rlit :: "string \<Rightarrow> rx" where
  "rlit [] = REmpty"
| "rlit (c # s) = RSeq (rchar c) (rlit s)"

definition ropt :: "rx \<Rightarrow> rx" where
  "ropt r = RAlt r REmpty"

definition rplus :: "rx \<Rightarrow> rx" where
  "rplus r = RSeq r (RStar r)"

text \<open>\<open>r{n}\<close> and \<open>r{0,n}\<close>.\<close>

fun rtimes :: "nat \<Rightarrow> rx \<Rightarrow> rx" where
  "rtimes 0 r = REmpty"
| "rtimes (Suc n) r = RSeq r (rtimes n r)"

fun rupto :: "nat \<Rightarrow> rx \<Rightarrow> rx" where
  "rupto 0 r = REmpty"
| "rupto (Suc n) r = RAlt (RSeq r (rupto n r)) REmpty"

lemma matches_char_Seq:
  "matches (RSeq (RChar p) r) s \<longleftrightarrow> (\<exists>c t. s = c # t \<and> p c \<and> matches r t)"
  by (cases s) (auto simp: seq_Cons matches_Char matches_Seq [of _ _ "[]"])

lemma matches_rlit [simp]: "matches (rlit t) s \<longleftrightarrow> s = t"
  by (induction t arbitrary: s) (auto simp: matches_char_Seq rchar_def)

lemma matches_times_char:
  "matches (rtimes n (RChar p)) s \<longleftrightarrow> length s = n \<and> list_all p s"
proof (induction n arbitrary: s)
  case (Suc n)
  then show ?case by (cases s) (auto simp: matches_char_Seq)
qed auto

lemma matches_upto_char:
  "matches (rupto n (RChar p)) s \<longleftrightarrow> length s \<le> n \<and> list_all p s"
proof (induction n arbitrary: s)
  case (Suc n)
  then show ?case by (cases s) (auto simp: matches_char_Seq)
qed auto

lemma matches_star_char: "matches (RStar (RChar p)) s \<longleftrightarrow> list_all p s"
proof (induction s)
  case (Cons c s)
  then show ?case by (auto simp: star_Cons matches_Char)
qed (auto intro: m_star0)

lemma matches_plus_char: "matches (rplus (RChar p)) s \<longleftrightarrow> s \<noteq> [] \<and> list_all p s"
  by (cases s) (auto simp: rplus_def matches_char_Seq matches_star_char)

lemmas matches_simps =
  matches_char_Seq matches_Char matches_times_char matches_upto_char matches_star_char matches_plus_char

text \<open>A search with a pattern anchored at both ends: its \<open>$\<close> also matches before a final newline.\<close>

definition before_final_newline :: "(string \<Rightarrow> bool) \<Rightarrow> string \<Rightarrow> bool" where
  "before_final_newline m s \<longleftrightarrow> m s \<or> (s \<noteq> [] \<and> last s = CHR 10 \<and> m (butlast s))"

section \<open>Identifiers shared by several components\<close>

text \<open>
  \<open>[A-Za-z0-9][A-Za-z0-9._-]{0,127}\Z\<close>: \<open>_RUN_ID\<close> of \<open>run_store.py\<close>, \<open>_RUN_ID_PATTERN\<close> of
  \<open>runner.py\<close> and \<open>_SCOPE\<close> of \<open>budget.py\<close> are this one pattern.
\<close>

definition id_char :: "char \<Rightarrow> bool" where
  "id_char c \<longleftrightarrow> is_alnum c \<or> c = CHR ''.'' \<or> c = CHR ''_'' \<or> c = CHR ''-''"

definition safe_id_rx :: rx where
  "safe_id_rx = RSeq (RChar is_alnum) (rupto 127 (RChar id_char))"

definition safe_id :: "string \<Rightarrow> bool" where
  "safe_id s \<longleftrightarrow> fullmatch safe_id_rx s"

lemma safe_id_iff:
  "safe_id s \<longleftrightarrow> s \<noteq> [] \<and> length s \<le> 128 \<and> is_alnum (hd s) \<and> list_all id_char (tl s)"
proof (cases s)
  case (Cons c t)
  then show ?thesis
    by (auto simp: safe_id_def fullmatch_iff safe_id_rx_def matches_simps)
qed (auto simp: safe_id_def fullmatch_iff safe_id_rx_def matches_simps)

lemma safe_id_no_slash: "safe_id s \<Longrightarrow> CHR ''/'' \<notin> set s"
proof (cases s)
  case (Cons c t)
  moreover assume "safe_id s"
  ultimately have "is_alnum c" and "list_all id_char t"
    by (auto simp: safe_id_iff)
  moreover have "\<not> is_alnum (CHR ''/'')" and "\<not> id_char (CHR ''/'')"
    by (simp_all add: id_char_def char_class_defs less_eq_char_def)
  ultimately show ?thesis
    using Cons by (auto simp: list_all_iff)
qed simp

end
