(* ===== verification/PyValue.thy ===== *)
theory PyValue
  imports PyDecimal PyRegex
begin

text \<open>
  Dynamically typed values, as \<open>json.loads\<close>, the YAML loader and the code's own dictionaries build
  them: the datatype, the \<open>isinstance\<close> tests and \<open>dict.get\<close>, and Python's \<open>==\<close> on them.  A finite
  \<open>float\<close> is the rational number it denotes.  Dictionary keys are strings, which JSON guarantees.
\<close>

datatype pyfloat = Fin rat | PosInf | NegInf | NotANumber

datatype pyval =
    PNone
  | PBool bool
  | PInt int
  | PFloat pyfloat
  | PDec decimal
  | PStr string
  | PList "pyval list"
  | PDict "(string \<times> pyval) list"

type_synonym pydict = "pyval dict"

text \<open>\<open>d.get(k)\<close>, with \<open>None\<close> for a missing key, and \<open>d.get(k, default)\<close>.\<close>

definition get :: "pydict \<Rightarrow> string \<Rightarrow> pyval" where
  "get d k = (case dget d k of None \<Rightarrow> PNone | Some v \<Rightarrow> v)"

definition get_or :: "pydict \<Rightarrow> string \<Rightarrow> pyval \<Rightarrow> pyval" where
  "get_or d k v0 = (case dget d k of None \<Rightarrow> v0 | Some v \<Rightarrow> v)"

lemma get_Nil [simp, dict_simps]: "get [] k = PNone"
  by (simp add: get_def)

lemma get_Cons [simp, dict_simps]: "get ((k', v) # d) k = (if k = k' then v else get d k)"
  by (simp add: get_def)

lemma get_append [dict_simps]:
  "get (d @ d') k = (case dget d k of None \<Rightarrow> get d' k | Some v \<Rightarrow> v)"
  by (simp add: get_def map_add_def split: option.splits)

lemma get_dput [simp, dict_simps]: "get (dput k v d) k' = (if k' = k then v else get d k')"
  by (simp add: get_def)

lemma get_not_PNone: "get d k \<noteq> PNone \<Longrightarrow> dget d k = Some (get d k)"
  by (auto simp: get_def split: option.splits)

section \<open>isinstance\<close>

fun as_str :: "pyval \<Rightarrow> string option" where
  "as_str (PStr s) = Some s"
| "as_str _ = None"

text \<open>\<open>isinstance(v, int) and not isinstance(v, bool)\<close>.\<close>

fun as_int :: "pyval \<Rightarrow> int option" where
  "as_int (PInt i) = Some i"
| "as_int _ = None"

fun as_bool :: "pyval \<Rightarrow> bool option" where
  "as_bool (PBool b) = Some b"
| "as_bool _ = None"

fun as_list :: "pyval \<Rightarrow> pyval list option" where
  "as_list (PList xs) = Some xs"
| "as_list _ = None"

fun as_dict :: "pyval \<Rightarrow> pydict option" where
  "as_dict (PDict d) = Some d"
| "as_dict _ = None"

text \<open>\<open>float(v)\<close> where \<open>v\<close> is an \<open>int\<close> or \<open>float\<close> and not a \<open>bool\<close>.\<close>

fun as_number :: "pyval \<Rightarrow> pyfloat option" where
  "as_number (PInt i) = Some (Fin (of_int i))"
| "as_number (PFloat f) = Some f"
| "as_number _ = None"

lemma as_str_iff [simp]: "as_str v = Some s \<longleftrightarrow> v = PStr s"
  by (cases v) auto

lemma as_int_iff [simp]: "as_int v = Some i \<longleftrightarrow> v = PInt i"
  by (cases v) auto

lemma as_bool_iff [simp]: "as_bool v = Some b \<longleftrightarrow> v = PBool b"
  by (cases v) auto

lemma as_list_iff [simp]: "as_list v = Some xs \<longleftrightarrow> v = PList xs"
  by (cases v) auto

lemma as_dict_iff [simp]: "as_dict v = Some d \<longleftrightarrow> v = PDict d"
  by (cases v) auto

section \<open>Comparisons of floats\<close>

fun fle :: "pyfloat \<Rightarrow> pyfloat \<Rightarrow> bool" where
  "fle (Fin x) (Fin y) = (x \<le> y)"
| "fle NotANumber _ = False"
| "fle _ NotANumber = False"
| "fle NegInf _ = True"
| "fle _ PosInf = True"
| "fle _ _ = False"

fun flt :: "pyfloat \<Rightarrow> pyfloat \<Rightarrow> bool" where
  "flt (Fin x) (Fin y) = (x < y)"
| "flt NotANumber _ = False"
| "flt _ NotANumber = False"
| "flt NegInf y = (y \<noteq> NegInf)"
| "flt x PosInf = (x \<noteq> PosInf)"
| "flt _ _ = False"

fun feq :: "pyfloat \<Rightarrow> pyfloat \<Rightarrow> bool" where
  "feq (Fin x) (Fin y) = (x = y)"
| "feq PosInf PosInf = True"
| "feq NegInf NegInf = True"
| "feq _ _ = False"

fun isfinite :: "pyfloat \<Rightarrow> bool" where
  "isfinite (Fin x) = True"
| "isfinite _ = False"

section \<open>Equality\<close>

text \<open>
  Python's \<open>==\<close>: numbers compare by value across \<open>bool\<close>, \<open>int\<close>, \<open>float\<close> and \<open>Decimal\<close>, lists
  element by element, dictionaries as sets of items.
\<close>

fun num_of :: "pyval \<Rightarrow> pyfloat option" where
  "num_of (PBool b) = Some (Fin (if b then 1 else 0))"
| "num_of (PInt i) = Some (Fin (of_int i))"
| "num_of (PFloat f) = Some f"
| "num_of (PDec (Dec c e)) = Some (Fin (of_int c * 10 powi e))"
| "num_of (PDec (DInf neg)) = Some (if neg then NegInf else PosInf)"
| "num_of (PDec DNaN) = Some NotANumber"
| "num_of _ = None"

definition num_eq :: "pyval \<Rightarrow> pyval \<Rightarrow> bool" where
  "num_eq v w = (case num_of v of None \<Rightarrow> False
     | Some x \<Rightarrow> (case num_of w of None \<Rightarrow> False | Some y \<Rightarrow> feq x y))"

fun pyeq :: "pyval \<Rightarrow> pyval \<Rightarrow> bool"
and pyeq_list :: "pyval list \<Rightarrow> pyval list \<Rightarrow> bool"
and pyeq_items :: "(string \<times> pyval) list \<Rightarrow> pydict \<Rightarrow> bool" where
  "pyeq PNone w = (w = PNone)"
| "pyeq (PStr s) w = (w = PStr s)"
| "pyeq (PList xs) w = (case as_list w of None \<Rightarrow> False | Some ys \<Rightarrow> pyeq_list xs ys)"
| "pyeq (PDict d) w =
     (case as_dict w of None \<Rightarrow> False
      | Some d' \<Rightarrow> length d = length d' \<and> pyeq_items d d')"
| "pyeq v w = num_eq v w"
| "pyeq_list [] ys = (ys = [])"
| "pyeq_list (x # xs) ys = (case ys of [] \<Rightarrow> False | y # ys' \<Rightarrow> pyeq x y \<and> pyeq_list xs ys')"
| "pyeq_items [] d' = True"
| "pyeq_items ((k, v) # d) d' =
     ((case dget d' k of None \<Rightarrow> False | Some w \<Rightarrow> pyeq v w) \<and> pyeq_items d d')"

lemma pyeq_PStr_right [simp]: "pyeq v (PStr s) \<longleftrightarrow> v = PStr s"
  by (cases v) (auto simp: num_eq_def split: option.splits)

lemma pyeq_PNone_right [simp]: "pyeq v PNone \<longleftrightarrow> v = PNone"
  by (cases v) (auto simp: num_eq_def split: option.splits)

text \<open>Values without floats or non-finite decimals equal themselves.\<close>

fun plain :: "pyval \<Rightarrow> bool" where
  "plain (PFloat f) = isfinite f"
| "plain (PDec d) = is_finite d"
| "plain (PList xs) = list_all plain xs"
| "plain (PDict d) = (wf_dict d \<and> list_all (\<lambda>p. plain (snd p)) d)"
| "plain _ = True"

lemma num_eq_refl: "plain v \<Longrightarrow> num_of v \<noteq> None \<Longrightarrow> num_eq v v"
  by (cases v rule: num_of.cases) (auto simp: num_eq_def elim: isfinite.elims)

lemma pyeq_refl_aux:
  "w = v \<Longrightarrow> plain v \<Longrightarrow> pyeq v w"
  "ys = xs \<Longrightarrow> list_all plain xs \<Longrightarrow> pyeq_list xs ys"
  "list_all (\<lambda>p. plain (snd p)) d \<Longrightarrow> \<forall>(k, v) \<in> set d. dget d' k = Some v \<Longrightarrow> pyeq_items d d'"
  by (induction v w and xs ys and d d' rule: pyeq_pyeq_list_pyeq_items.induct)
    (auto simp: num_eq_refl elim: isfinite.elims is_finite.elims)

lemma pyeq_refl [simp]: "plain v \<Longrightarrow> pyeq v v"
  by (rule pyeq_refl_aux(1)) auto

text \<open>\<open>x in xs\<close> for a list of values.\<close>

definition py_in :: "pyval \<Rightarrow> pyval list \<Rightarrow> bool" where
  "py_in x xs \<longleftrightarrow> list_ex (\<lambda>y. pyeq y x) xs"

end
