(* ===== verification/Budget.thy ===== *)
theory Budget
  imports PyValue
begin

text \<open>
  \<open>budget.py\<close>: the aggregate authorization ledger.  A ledger file is the decoded JSON of
  \<open><scope>.json\<close>, or text that does not decode; the directory maps a scope to its file.  The lock of
  \<open>reserve\<close> serialises its calls, so a history is a sequence of them.
\<close>

datatype ledger_file = Corrupt | Json pyval

type_synonym ledger_dir = "string \<Rightarrow> ledger_file option"

section \<open>Operations\<close>

definition positive_amount :: "decimal \<Rightarrow> string \<Rightarrow> exn + decimal" where
  "positive_amount d name =
     (if \<not> is_finite d \<or> dec_le d dec_zero then Inl (ValueError name) else Inr d)"

definition budget_money :: "pyval \<Rightarrow> string \<Rightarrow> exn + decimal" where
  "budget_money v name =
     (case v of
        PStr s \<Rightarrow> (case dec_of_string s of None \<Rightarrow> Inl (ValueError name)
                                         | Some d \<Rightarrow> positive_amount d name)
      | PDec d \<Rightarrow> positive_amount d name
      | _ \<Rightarrow> Inl (TypeError name))"

definition budget_paths :: "string \<Rightarrow> exn + string" where
  "budget_paths scope =
     (if safe_id scope then Inr scope else Inl (ValueError ''budget scope must be a safe identifier''))"

definition read_ledger :: "ledger_file \<Rightarrow> exn + pydict" where
  "read_ledger f =
     (case f of
        Corrupt \<Rightarrow> Inl (ValueError ''budget ledger is unavailable or corrupt'')
      | Json v \<Rightarrow> (case as_dict v of None \<Rightarrow> Inl (ValueError ''budget ledger is corrupt'')
                                 | Some d \<Rightarrow> Inr d))"

definition reservations_of :: "pydict \<Rightarrow> exn + pydict" where
  "reservations_of st =
     (case as_dict (get st ''reservations'') of
        None \<Rightarrow> Inl (ValueError ''budget reservations are corrupt'')
      | Some r \<Rightarrow> Inr r)"

definition reserved_amounts :: "pydict \<Rightarrow> exn + decimal list" where
  "reserved_amounts r = mapR (\<lambda>v. budget_money v ''stored run reservation'') (dvalues r)"

text \<open>\<open>_projection\<close>.  A ledger comes from JSON, where an amount that \<open>_money\<close> accepts is text, so
  \<open>str(total_value)\<close> is the stored text.\<close>

definition projection :: "pydict \<Rightarrow> exn + pydict" where
  "projection st =
     bindR (require (get st ''protocol'' = PStr ''budget-ledger/1'')
              (ValueError ''unsupported budget ledger protocol'')) (\<lambda>_.
     bindR (budget_money (get st ''total_authorized_usd'') ''stored total authorization'') (\<lambda>authority.
     bindR (reservations_of st) (\<lambda>r.
     bindR (reserved_amounts r) (\<lambda>amounts.
       let reserved = dec_sum amounts in
       Inr [(''protocol'', PStr ''budget-ledger/1''),
            (''scope'', get st ''scope''),
            (''total_authorized_usd'', get st ''total_authorized_usd''),
            (''reserved_usd'', PStr (format_f reserved)),
            (''remaining_usd'', PStr (format_f (dec_sub authority reserved))),
            (''reservations'', PDict r)]))))"

definition new_ledger :: "string \<Rightarrow> decimal \<Rightarrow> pydict" where
  "new_ledger scope authority =
     [(''protocol'', PStr ''budget-ledger/1''),
      (''scope'', PStr scope),
      (''total_authorized_usd'', PStr (format_f authority)),
      (''reservations'', PDict [])]"

text \<open>The ledger \<open>reserve\<close> works on: the stored one, with an unchanged total, or a new one.\<close>

definition open_ledger :: "ledger_dir \<Rightarrow> string \<Rightarrow> decimal \<Rightarrow> exn + pydict" where
  "open_ledger files scope authority =
     (case files scope of
        None \<Rightarrow> Inr (new_ledger scope authority)
      | Some f \<Rightarrow>
          bindR (read_ledger f) (\<lambda>st.
          bindR (budget_money (get st ''total_authorized_usd'') ''stored total authorization'')
            (\<lambda>existing.
          bindR (require (dec_eq existing authority)
                   (BudgetExceeded ''budget total authority cannot change in place'')) (\<lambda>_.
            Inr st))))"

text \<open>
  \<open>reserve\<close> up to the write: the ledger it leaves (\<open>None\<close> when the run is already reserved and
  nothing is written) with the state the projection is taken of.
\<close>

definition admit :: "pydict \<Rightarrow> decimal \<Rightarrow> string \<Rightarrow> decimal \<Rightarrow> exn + pydict option" where
  "admit st authority run_id cap =
     bindR (reservations_of st) (\<lambda>r.
       if get r run_id \<noteq> PNone then
         bindR (budget_money (get r run_id) ''stored run reservation'') (\<lambda>existing.
         bindR (require (dec_eq existing cap)
                  (BudgetExceeded ''run already reserved with a different cap'')) (\<lambda>_.
           Inr None))
       else
         bindR (reserved_amounts r) (\<lambda>amounts.
         bindR (require (\<not> dec_lt authority (dec_add (dec_sum amounts) cap))
                  (BudgetExceeded ''run cap would exceed aggregate authority'')) (\<lambda>_.
           Inr (Some (dput ''reservations'' (PDict (dput run_id (PStr (format_f cap)) r)) st)))))"

definition reserve ::
  "string \<Rightarrow> pyval \<Rightarrow> string \<Rightarrow> pyval \<Rightarrow> ledger_dir \<Rightarrow> (exn + pydict) \<times> ledger_dir" where
  "reserve scope total_authorized run_id run_cap files =
     (case bindR (budget_paths scope) (\<lambda>_.
           bindR (budget_money total_authorized ''total authorization'') (\<lambda>authority.
           bindR (budget_money run_cap ''run cap'') (\<lambda>cap.
           bindR (open_ledger files scope authority) (\<lambda>st.
           bindR (admit st authority run_id cap) (\<lambda>written. Inr (st, written)))))) of
        Inl e \<Rightarrow> (Inl e, files)
      | Inr (st, None) \<Rightarrow> (projection st, files)
      | Inr (st, Some st') \<Rightarrow> (projection st', files(scope \<mapsto> Json (PDict st'))))"

definition budget_status :: "string \<Rightarrow> ledger_dir \<Rightarrow> exn + pydict" where
  "budget_status scope files =
     bindR (budget_paths scope) (\<lambda>_.
       case files scope of
         None \<Rightarrow> Inl (ValueError ''budget ledger is unavailable or corrupt'')
       | Some f \<Rightarrow> bindR (read_ledger f) projection)"

section \<open>The ledger's meaning\<close>

text \<open>The authorised total and the reservations a ledger stands for.\<close>

definition ledger_amounts :: "pydict \<Rightarrow> exn + decimal \<times> decimal list" where
  "ledger_amounts st =
     bindR (budget_money (get st ''total_authorized_usd'') ''stored total authorization'') (\<lambda>authority.
     bindR (reservations_of st) (\<lambda>r.
     bindR (reserved_amounts r) (\<lambda>amounts. Inr (authority, amounts))))"

text \<open>
  \<open>ledger_within k b st\<close>: the ledger reads as positive amounts with at most \<open>k\<close> decimals and a scaled
  value of at most \<open>b\<close>, and what is reserved stays within the total.
\<close>

definition amounts_within :: "nat \<Rightarrow> int \<Rightarrow> decimal \<Rightarrow> decimal list \<Rightarrow> bool" where
  "amounts_within k b authority ds \<longleftrightarrow>
     fits k b authority \<and> 0 < dec_val authority \<and> (\<forall>d \<in> set ds. fits k b d \<and> 0 < dec_val d) \<and>
     sum_list (map dec_val ds) \<le> dec_val authority"

definition ledger_within :: "nat \<Rightarrow> int \<Rightarrow> pydict \<Rightarrow> bool" where
  "ledger_within k b st \<longleftrightarrow>
     get st ''protocol'' = PStr ''budget-ledger/1'' \<and>
     (\<exists>authority ds. ledger_amounts st = Inr (authority, ds) \<and> amounts_within k b authority ds)"

lemma positive_amount_Inr [simp]:
  "positive_amount d name = Inr d' \<longleftrightarrow> d' = d \<and> is_finite d \<and> 0 < dec_val d"
  by (cases "is_finite d") (auto simp: positive_amount_def dec_le_iff not_le)

lemma budget_money_positive: "budget_money v name = Inr d \<Longrightarrow> is_finite d \<and> 0 < dec_val d"
  by (auto simp: budget_money_def split: pyval.splits option.splits)

lemma budget_money_format [simp]:
  "is_finite d \<Longrightarrow> 0 < dec_val d \<Longrightarrow> budget_money (PStr (format_f d)) name = Inr (canonical d)"
  by (simp add: budget_money_def dec_of_format_canonical)

lemma reserved_amounts_snoc:
  "reserved_amounts (r @ [(k, v)]) =
     bindR (reserved_amounts r) (\<lambda>ds. bindR (budget_money v ''stored run reservation'') (\<lambda>d.
       Inr (ds @ [d])))"
  unfolding reserved_amounts_def
  by (induction r) (auto simp: bindR_def split: sum.splits)

text \<open>A key bound to \<open>None\<close> makes the sum of the reservations raise, so a readable ledger has none.\<close>

lemma reserved_amounts_absent:
  assumes "reserved_amounts r = Inr ds" and "get r k = PNone"
  shows "dget r k = None"
proof (rule ccontr)
  assume "dget r k \<noteq> None"
  then obtain v where v: "dget r k = Some v" by auto
  then have "v = PNone" using assms(2) by (simp add: get_def)
  with v have "PNone \<in> set (dvalues r)" using dget_in_values by metis
  with assms(1) show False
    unfolding reserved_amounts_def by (auto dest!: mapR_member simp: budget_money_def)
qed

text \<open>One admission keeps the ledger within its total.\<close>

lemma admit_keeps_within:
  assumes b: "2 * b < 10 ^ precision"
    and amounts: "ledger_amounts st = Inr (t, ds)" "amounts_within k b t ds"
    and authority: "is_finite authority" "dec_val authority = dec_val t"
    and cap: "fits k b cap" "0 < dec_val cap"
    and admit: "admit st authority run_id cap = Inr (Some st')"
  shows "\<exists>ds'. ledger_amounts st' = Inr (t, ds') \<and> amounts_within k b t ds' \<and>
    ds' = ds @ [canonical cap]"
proof -
  obtain r where r: "reservations_of st = Inr r" "reserved_amounts r = Inr ds"
    and t: "budget_money (get st ''total_authorized_usd'') ''stored total authorization'' = Inr t"
    using amounts(1) by (auto simp: ledger_amounts_def)
  from admit r have none: "get r run_id = PNone"
    and room: "\<not> dec_lt authority (dec_add (dec_sum ds) cap)"
    and st': "st' = dput ''reservations'' (PDict (dput run_id (PStr (format_f cap)) r)) st"
    by (auto simp: admit_def split: if_splits)
  have fin: "is_finite cap" using cap by (simp add: fits_def)
  have ds: "\<forall>d \<in> set ds. fits k b d \<and> 0 \<le> dec_val d" "sum_list (map dec_val ds) \<le> dec_val t"
      "fits k b t"
    using amounts(2) by (auto simp: amounts_within_def)
  note sum = dec_sum_exact [OF b ds(3,1,2)]
  have "dec_val (dec_add (dec_sum ds) cap) = sum_list (map dec_val ds) + dec_val cap"
    using dec_add_exact(1) [OF sum(2) cap(1)] b sum(1) by simp
  then have bound: "sum_list (map dec_val ds) + dec_val cap \<le> dec_val t"
    using room authority by (simp add: dec_lt_iff not_less)
  have fresh: "dput run_id (PStr (format_f cap)) r = r @ [(run_id, PStr (format_f cap))]"
    using reserved_amounts_absent [OF r(2) none] by (rule dput_fresh)
  have "ledger_amounts st' = Inr (t, ds @ [canonical cap])"
    using t r(2) cap(2) fin
    by (simp add: ledger_amounts_def reservations_of_def st' fresh reserved_amounts_snoc)
  moreover have "amounts_within k b t (ds @ [canonical cap])"
    using amounts(2) bound cap by (auto simp: amounts_within_def)
  ultimately show ?thesis by blast
qed

section \<open>Histories of reservations\<close>

record reserve_call =
  rc_scope :: string
  rc_total :: pyval
  rc_run :: string
  rc_cap :: pyval

definition reserve_call_on :: "reserve_call \<Rightarrow> ledger_dir \<Rightarrow> (exn + pydict) \<times> ledger_dir" where
  "reserve_call_on c = reserve (rc_scope c) (rc_total c) (rc_run c) (rc_cap c)"

fun reserve_all :: "reserve_call list \<Rightarrow> ledger_dir \<Rightarrow> ledger_dir" where
  "reserve_all [] files = files"
| "reserve_all (c # cs) files = reserve_all cs (snd (reserve_call_on c files))"

text \<open>An amount of at most \<open>k\<close> decimals, at most \<open>b\<close> when scaled (or one that \<open>_money\<close> refuses).\<close>

definition amount_fits :: "nat \<Rightarrow> int \<Rightarrow> pyval \<Rightarrow> bool" where
  "amount_fits k b v = (case budget_money v [] of Inl _ \<Rightarrow> True | Inr d \<Rightarrow> fits k b d)"

definition call_fits :: "nat \<Rightarrow> int \<Rightarrow> reserve_call \<Rightarrow> bool" where
  "call_fits k b c \<longleftrightarrow> amount_fits k b (rc_total c) \<and> amount_fits k b (rc_cap c)"

definition dir_within :: "nat \<Rightarrow> int \<Rightarrow> ledger_dir \<Rightarrow> bool" where
  "dir_within k b files \<longleftrightarrow>
     (\<forall>scope f. files scope = Some f \<longrightarrow> (\<exists>st. f = Json (PDict st) \<and> ledger_within k b st))"

lemma budget_money_name: "budget_money v n = Inr d \<Longrightarrow> budget_money v n' = Inr d"
  by (auto simp: budget_money_def split: pyval.splits option.splits)

lemma amount_fitsD: "amount_fits k b v \<Longrightarrow> budget_money v n = Inr d \<Longrightarrow> fits k b d"
  by (drule budget_money_name [of _ _ _ "[]"]) (simp add: amount_fits_def)

lemma new_ledger_amounts:
  assumes "is_finite authority" and "0 < dec_val authority"
  shows "ledger_amounts (new_ledger scope authority) = Inr (canonical authority, [])"
  using assms by (simp add: ledger_amounts_def new_ledger_def reservations_of_def reserved_amounts_def)

text \<open>The ledger \<open>reserve\<close> opens is within its total, and its total equals the one asked for.\<close>

lemma open_ledger_within:
  assumes files: "dir_within k b files" and opened: "open_ledger files scope authority = Inr st"
    and authority: "fits k b authority" "0 < dec_val authority"
  shows "\<exists>t ds. ledger_amounts st = Inr (t, ds) \<and> amounts_within k b t ds \<and>
    dec_val t = dec_val authority \<and> get st ''protocol'' = PStr ''budget-ledger/1''"
proof (cases "files scope")
  case None
  with opened have st: "st = new_ledger scope authority" by (simp add: open_ledger_def)
  have "is_finite authority" using authority by (simp add: fits_def)
  then show ?thesis
    using authority by (simp add: st new_ledger_amounts amounts_within_def) (simp add: new_ledger_def)
next
  case (Some f)
  with files obtain st0 where f: "f = Json (PDict st0)" and w: "ledger_within k b st0"
    by (auto simp: dir_within_def)
  from opened Some f obtain existing where
    e: "budget_money (get st0 ''total_authorized_usd'') ''stored total authorization'' = Inr existing"
    and eq: "dec_eq existing authority" and st: "st = st0"
    by (auto simp: open_ledger_def read_ledger_def)
  from w obtain t ds where t: "ledger_amounts st0 = Inr (t, ds)" "amounts_within k b t ds"
      "get st0 ''protocol'' = PStr ''budget-ledger/1''"
    by (auto simp: ledger_within_def)
  with e have "existing = t" by (auto simp: ledger_amounts_def)
  moreover have "is_finite existing" using budget_money_positive [OF e] by simp
  moreover have "is_finite authority" using authority by (simp add: fits_def)
  ultimately show ?thesis using eq t st by (simp add: dec_eq_iff)
qed

lemma admit_protocol: "admit st authority run_id cap = Inr (Some st') \<Longrightarrow>
    get st' ''protocol'' = get st ''protocol''"
  by (auto simp: admit_def split: if_splits)

lemma projection_total:
  assumes "ledger_within k b st"
  obtains p where "projection st = Inr p"
  using assms by (auto simp: ledger_within_def projection_def ledger_amounts_def Let_def)

lemma reserve_step:
  assumes b: "2 * b < 10 ^ precision" and files: "dir_within k b files"
    and amounts: "amount_fits k b total_authorized" "amount_fits k b run_cap"
  shows "dir_within k b (snd (reserve scope total_authorized run_id run_cap files)) \<and>
    ((\<exists>e. fst (reserve scope total_authorized run_id run_cap files) = Inl e) \<longrightarrow>
      snd (reserve scope total_authorized run_id run_cap files) = files)"
proof -
  define body where "body = bindR (budget_paths scope) (\<lambda>_.
           bindR (budget_money total_authorized ''total authorization'') (\<lambda>authority.
           bindR (budget_money run_cap ''run cap'') (\<lambda>cap.
           bindR (open_ledger files scope authority) (\<lambda>st.
           bindR (admit st authority run_id cap) (\<lambda>written. Inr (st, written))))))"
  have reserve: "reserve scope total_authorized run_id run_cap files =
      (case body of Inl e \<Rightarrow> (Inl e, files)
       | Inr (st, None) \<Rightarrow> (projection st, files)
       | Inr (st, Some st') \<Rightarrow> (projection st', files(scope \<mapsto> Json (PDict st'))))"
    by (simp add: reserve_def body_def)
  show ?thesis
  proof (cases body)
    case (Inl e)
    then show ?thesis using files by (simp add: reserve)
  next
    case (Inr res)
    obtain st written where res: "res = (st, written)" by (cases res)
    from Inr res obtain authority cap where
      money: "budget_money total_authorized ''total authorization'' = Inr authority"
        "budget_money run_cap ''run cap'' = Inr cap"
      and opened: "open_ledger files scope authority = Inr st"
      and adm: "admit st authority run_id cap = Inr written"
      by (auto simp: body_def)
    have fits: "fits k b authority" "fits k b cap"
      using amounts money by (auto intro: amount_fitsD)
    have pos: "0 < dec_val authority" "0 < dec_val cap" and fin: "is_finite authority"
      using money budget_money_positive by blast+
    obtain t ds where st: "ledger_amounts st = Inr (t, ds)" "amounts_within k b t ds"
        "dec_val t = dec_val authority" "get st ''protocol'' = PStr ''budget-ledger/1''"
      using open_ledger_within [OF files opened fits(1) pos(1)] by blast
    show ?thesis
    proof (cases written)
      case None
      moreover have "ledger_within k b st" using st by (auto simp: ledger_within_def)
      then obtain p where "projection st = Inr p" by (rule projection_total)
      ultimately show ?thesis using Inr res files by (simp add: reserve)
    next
      case (Some st')
      obtain ds' where "ledger_amounts st' = Inr (t, ds')" "amounts_within k b t ds'"
        using admit_keeps_within [OF b st(1,2) fin st(3) [symmetric] fits(2) pos(2)] adm Some by blast
      moreover have "get st' ''protocol'' = PStr ''budget-ledger/1''"
        using admit_protocol adm Some st(4) by simp
      ultimately have w: "ledger_within k b st'" by (auto simp: ledger_within_def)
      then obtain p where "projection st' = Inr p" by (rule projection_total)
      with w show ?thesis
        using Inr res Some files by (auto simp: reserve dir_within_def)
    qed
  qed
qed

lemma reserve_all_within:
  assumes "2 * b < 10 ^ precision" and "dir_within k b files" and "list_all (call_fits k b) calls"
  shows "dir_within k b (reserve_all calls files)"
  using assms(2,3)
proof (induction calls arbitrary: files)
  case (Cons c cs)
  have "dir_within k b (snd (reserve_call_on c files))"
    using reserve_step [OF assms(1)] Cons.prems by (simp add: reserve_call_on_def call_fits_def)
  with Cons show ?case by simp
qed simp

lemma dir_within_empty: "dir_within k b Map.empty"
  by (simp add: dir_within_def)

text \<open>A reservation is never dropped or changed by a later call on any scope.\<close>

definition reservation :: "ledger_dir \<Rightarrow> string \<Rightarrow> string \<Rightarrow> pyval" where
  "reservation files scope run_id =
     (case files scope of
        Some (Json (PDict st)) \<Rightarrow>
          (case get st ''reservations'' of PDict r \<Rightarrow> get r run_id | _ \<Rightarrow> PNone)
      | _ \<Rightarrow> PNone)"

lemma open_ledger_same:
  assumes "open_ledger files scope authority = Inr st" and "files scope = Some (Json (PDict st0))"
  shows "st = st0"
  using assms by (auto simp: open_ledger_def read_ledger_def)

lemma reserve_keeps_reservation:
  assumes "reservation files scope run_id \<noteq> PNone"
  shows "reservation (snd (reserve scope' t run_id' c files)) scope run_id =
    reservation files scope run_id"
proof -
  from assms obtain st0 r0 where st0: "files scope = Some (Json (PDict st0))"
      "get st0 ''reservations'' = PDict r0" "get r0 run_id \<noteq> PNone"
    by (auto simp: reservation_def split: option.splits ledger_file.splits pyval.splits)
  show ?thesis
  proof (cases "snd (reserve scope' t run_id' c files) = files")
    case False
    then obtain authority cap st st' where
      o: "open_ledger files scope' authority = Inr st"
      and a: "admit st authority run_id' cap = Inr (Some st')"
      and f: "snd (reserve scope' t run_id' c files) = files(scope' \<mapsto> Json (PDict st'))"
      by (auto simp: reserve_def split: sum.splits option.splits prod.splits)
    show ?thesis
    proof (cases "scope' = scope")
      case True
      then have "st = st0" using open_ledger_same [OF o] st0 by simp
      with a st0 have "run_id' \<noteq> run_id"
          "st' = dput ''reservations'' (PDict (dput run_id' (PStr (format_f cap)) r0)) st0"
        by (auto simp: admit_def reservations_of_def split: if_splits)
      then show ?thesis using f True st0 by (simp add: reservation_def)
    next
      case False
      then show ?thesis using f by (simp add: reservation_def)
    qed
  qed simp
qed

lemma reserve_all_keeps_reservation:
  "reservation files scope run_id \<noteq> PNone \<Longrightarrow>
     reservation (reserve_all cs files) scope run_id = reservation files scope run_id"
proof (induction cs arbitrary: files)
  case (Cons c cs)
  then show ?case
    using reserve_keeps_reservation [OF Cons.prems] by (simp add: reserve_call_on_def)
qed simp

section \<open>Properties\<close>

lemma reserve_writes:
  assumes "reserve scope t run_id c files = (Inr p, files')"
  obtains authority cap st where
    "safe_id scope" "budget_money t ''total authorization'' = Inr authority"
    "budget_money c ''run cap'' = Inr cap" "open_ledger files scope authority = Inr st"
    "admit st authority run_id cap = Inr None \<and> files' = files \<and> projection st = Inr p \<or>
     (\<exists>st'. admit st authority run_id cap = Inr (Some st') \<and>
        files' = files(scope \<mapsto> Json (PDict st')) \<and> projection st' = Inr p)"
  using assms
  by (auto simp: reserve_def budget_paths_def split: sum.splits prod.splits option.splits if_splits)

lemma admit_again:
  assumes "admit st authority run_id cap = Inr (Some st')" and "is_finite cap" and "0 < dec_val cap"
  shows "admit st' authority run_id cap = Inr None"
proof -
  from assms(1) obtain r where "get st ''reservations'' = PDict r"
    and st': "st' = dput ''reservations'' (PDict (dput run_id (PStr (format_f cap)) r)) st"
    by (auto simp: admit_def reservations_of_def split: if_splits option.splits)
  then have "reservations_of st' = Inr (dput run_id (PStr (format_f cap)) r)"
    by (simp add: reservations_of_def)
  then show ?thesis using assms(2,3) by (simp add: admit_def dec_eq_iff)
qed

lemma admit_total: "admit st authority run_id cap = Inr (Some st') \<Longrightarrow>
    get st' ''total_authorized_usd'' = get st ''total_authorized_usd''"
  by (auto simp: admit_def split: if_splits)

lemma open_ledger_total:
  assumes "open_ledger files scope authority = Inr st" and "is_finite authority" "0 < dec_val authority"
  shows "\<exists>t. budget_money (get st ''total_authorized_usd'') n = Inr t \<and> dec_eq t authority"
proof (cases "files scope")
  case None
  with assms have "st = new_ledger scope authority" by (simp add: open_ledger_def)
  then have "get st ''total_authorized_usd'' = PStr (format_f authority)"
    by (simp add: new_ledger_def)
  then show ?thesis using assms by (simp add: dec_eq_iff)
next
  case (Some f)
  with assms obtain t where
    "budget_money (get st ''total_authorized_usd'') ''stored total authorization'' = Inr t"
    and "dec_eq t authority"
    by (auto simp: open_ledger_def)
  then show ?thesis using budget_money_name by blast
qed

text \<open>
  C6: over any sequence of \<open>reserve\<close> calls, on any scopes, that starts from an empty ledger
  directory and whose amounts have at most \<open>k\<close> decimals and a scaled value \<open>b\<close> below half of
  \<open>10^28\<close> (the range in which Python's decimal context is exact), every ledger on disk reads back and
  the caps reserved in it add up to at most its authorised total.
\<close>

theorem budget_authority_never_exceeded:
  assumes "2 * b < 10 ^ precision" and "list_all (call_fits k b) calls"
    and "reserve_all calls Map.empty scope = Some f"
  shows "\<exists>st authority ds. f = Json (PDict st) \<and> ledger_amounts st = Inr (authority, ds) \<and>
    sum_list (map dec_val ds) \<le> dec_val authority"
  using reserve_all_within [OF assms(1) dir_within_empty assms(2)] assms(3)
  unfolding dir_within_def ledger_within_def amounts_within_def by blast

theorem budget_authority_never_exceeded_witness:
  "\<exists>st authority ds.
     the (reserve_all [\<lparr>rc_scope = ''s'', rc_total = PStr ''10'', rc_run = ''a'', rc_cap = PStr ''7.5''\<rparr>,
       \<lparr>rc_scope = ''s'', rc_total = PStr ''10'', rc_run = ''b'', rc_cap = PStr ''4''\<rparr>] Map.empty ''s'') =
       Json (PDict st) \<and>
     ledger_amounts st = Inr (authority, ds) \<and> sum_list (map dec_val ds) \<le> dec_val authority"
proof (rule budget_authority_never_exceeded [of "100000"])
  show "2 * (100000::int) < 10 ^ precision" by (simp add: precision_def)
  let ?calls = "[\<lparr>rc_scope = ''s'', rc_total = PStr ''10'', rc_run = ''a'', rc_cap = PStr ''7.5''\<rparr>,
       \<lparr>rc_scope = ''s'', rc_total = PStr ''10'', rc_run = ''b'', rc_cap = PStr ''4''\<rparr>]"
  show "list_all (call_fits 2 100000) ?calls" by code_simp
  have "reserve_all ?calls Map.empty ''s'' \<noteq> None" by code_simp
  then show "reserve_all ?calls Map.empty ''s'' = Some (the (reserve_all ?calls Map.empty ''s''))"
    by simp
qed

text \<open>
  A \<open>reserve\<close> that succeeded can be repeated: the same call on the directory it left returns the
  same projection and writes nothing.
\<close>

theorem reserve_idempotent:
  assumes "reserve scope t run_id c files = (Inr p, files')"
  shows "reserve scope t run_id c files' = (Inr p, files')"
  using assms
proof (cases rule: reserve_writes)
  case (1 authority cap st)
  have pos: "is_finite cap" "0 < dec_val cap" "is_finite authority" "0 < dec_val authority"
    using 1(2,3) budget_money_positive by blast+
  from 1(5) show ?thesis
  proof
    assume "admit st authority run_id cap = Inr None \<and> files' = files \<and> projection st = Inr p"
    then show ?thesis using assms by simp
  next
    assume "\<exists>st'. admit st authority run_id cap = Inr (Some st') \<and>
      files' = files(scope \<mapsto> Json (PDict st')) \<and> projection st' = Inr p"
    then obtain st' where st': "admit st authority run_id cap = Inr (Some st')"
      "files' = files(scope \<mapsto> Json (PDict st'))" "projection st' = Inr p" by blast
    obtain t' where "budget_money (get st' ''total_authorized_usd'') ''stored total authorization'' = Inr t'"
      "dec_eq t' authority"
      using open_ledger_total [OF 1(4) pos(3,4)] admit_total [OF st'(1)] by metis
    then have "open_ledger files' scope authority = Inr st'"
      by (simp add: open_ledger_def read_ledger_def st'(2))
    then show ?thesis
      using 1(1-3) admit_again [OF st'(1) pos(1,2)] st'(3) by (simp add: reserve_def budget_paths_def)
  qed
qed

theorem reserve_idempotent_witness:
  "let files' = snd (reserve ''s'' (PStr ''10'') ''a'' (PStr ''7.5'') Map.empty);
       p = projr (fst (reserve ''s'' (PStr ''10'') ''a'' (PStr ''7.5'') Map.empty))
   in reserve ''s'' (PStr ''10'') ''a'' (PStr ''7.5'') files' = (Inr p, files')"
  unfolding Let_def
proof (rule reserve_idempotent)
  let ?r = "reserve ''s'' (PStr ''10'') ''a'' (PStr ''7.5'') Map.empty"
  have "\<not> isl (fst ?r)" by code_simp
  then have "fst ?r = Inr (projr (fst ?r))" by (rule sum.collapse(2) [symmetric])
  then show "?r = (Inr (projr (fst ?r)), snd ?r)" by (metis prod.collapse)
qed

text \<open>
  C26: no later call changes or drops a run's reservation, whatever its scope, run, total or cap, so
  spend that was once authorised stays accounted for.
\<close>

theorem reservations_are_permanent:
  assumes "reservation files scope run_id \<noteq> PNone"
  shows "reservation (reserve_all calls files) scope run_id = reservation files scope run_id"
  by (rule reserve_all_keeps_reservation [OF assms])

theorem reservations_are_permanent_witness:
  "let files = [''s'' \<mapsto> Json (PDict [(''reservations'', PDict [(''a'', PStr ''5'')])])];
       c = \<lparr>rc_scope = ''s'', rc_total = PStr ''10'', rc_run = ''a'', rc_cap = PStr ''9''\<rparr>
   in reservation (reserve_all [c, c] files) ''s'' ''a'' = reservation files ''s'' ''a''"
  unfolding Let_def by (rule reservations_are_permanent) code_simp

text \<open>
  A call that names another total for a scope with a ledger, or another cap for a run it already
  holds, is refused and leaves the directory as it was.
\<close>

theorem conflicting_reservation_refused:
  assumes "files scope = Some (Json (PDict st))" and "safe_id scope"
    and "ledger_amounts st = Inr (authority, ds)"
    and "budget_money t ''total authorization'' = Inr authority'"
    and "budget_money c ''run cap'' = Inr cap'"
    and "dec_val authority' \<noteq> dec_val authority \<or>
      (\<exists>cap. budget_money (reservation files scope run_id) ''stored run reservation'' = Inr cap \<and>
        dec_val cap' \<noteq> dec_val cap)"
  shows "\<exists>m. reserve scope t run_id c files = (Inl (BudgetExceeded m), files)"
proof -
  note pos = budget_money_positive [OF assms(4)] budget_money_positive [OF assms(5)]
  from assms(3) obtain r where
    a: "budget_money (get st ''total_authorized_usd'') ''stored total authorization'' = Inr authority"
    and r: "reservations_of st = Inr r"
    by (auto simp: ledger_amounts_def)
  note fin = budget_money_positive [OF a]
  show ?thesis
  proof (cases "dec_val authority' = dec_val authority")
    case False
    then have "\<not> dec_eq authority authority'" using pos fin by (simp add: dec_eq_iff)
    then show ?thesis using assms(1,2,4,5) a
      by (simp add: reserve_def budget_paths_def open_ledger_def read_ledger_def)
  next
    case True
    with assms(6) obtain cap where
      cap: "budget_money (reservation files scope run_id) ''stored run reservation'' = Inr cap"
        "dec_val cap' \<noteq> dec_val cap" by blast
    have "reservation files scope run_id = get r run_id"
      using r assms(1) by (auto simp: reservation_def reservations_of_def split: pyval.splits option.splits)
    with cap have g: "get r run_id \<noteq> PNone"
        "budget_money (get r run_id) ''stored run reservation'' = Inr cap"
      by (auto simp: budget_money_def)
    have "\<not> dec_eq cap cap'" using cap(2) pos budget_money_positive [OF g(2)] by (simp add: dec_eq_iff)
    moreover have "dec_eq authority authority'" using True pos fin by (simp add: dec_eq_iff)
    ultimately show ?thesis using assms(1,2,4,5) a r g
      by (simp add: reserve_def budget_paths_def open_ledger_def read_ledger_def admit_def)
  qed
qed

theorem conflicting_reservation_refused_witness:
  "let files = [''s'' \<mapsto> Json (PDict [(''total_authorized_usd'', PStr ''10''),
         (''reservations'', PDict [(''a'', PStr ''5'')])])]
   in \<exists>m. reserve ''s'' (PStr ''10'') ''a'' (PStr ''9'') files = (Inl (BudgetExceeded m), files)"
  unfolding Let_def
proof (rule conflicting_reservation_refused)
  let ?st = "[(''total_authorized_usd'', PStr ''10''), (''reservations'', PDict [(''a'', PStr ''5'')])]"
  show "[''s'' \<mapsto> Json (PDict ?st)] ''s'' = Some (Json (PDict ?st))" by simp
  show "safe_id ''s''" by code_simp
  show "ledger_amounts ?st = Inr (Dec 10 0, [Dec 5 0])" by code_simp
  show "budget_money (PStr ''10'') ''total authorization'' = Inr (Dec 10 0)" by code_simp
  show "budget_money (PStr ''9'') ''run cap'' = Inr (Dec 9 0)" by code_simp
  have "reservation [''s'' \<mapsto> Json (PDict ?st)] ''s'' ''a'' = PStr ''5''" by code_simp
  moreover have "budget_money (PStr ''5'') n = Inr (Dec 5 0)" for n by code_simp
  ultimately show "dec_val (Dec 10 0) \<noteq> dec_val (Dec 10 0) \<or>
      (\<exists>cap. budget_money (reservation [''s'' \<mapsto> Json (PDict ?st)] ''s'' ''a'')
         ''stored run reservation'' = Inr cap \<and> dec_val (Dec 9 0) \<noteq> dec_val cap)"
    by simp
qed

text \<open>The amounts of the counterexample below.\<close>

lemma read_1E28: "budget_money (PStr ''1E+28'') n = Inr (Dec 1 28)"
  by code_simp

lemma read_04: "budget_money (PStr ''0.4'') n = Inr (Dec 4 (- 1))"
  by code_simp

lemmas rounding_simps = dec_add_def common_exp_def round_context_def precision_def ndigits.simps

lemma first_28: "\<not> dec_lt (Dec 1 28) (dec_add (dec_sum []) (Dec 1 28))"
  by (simp add: dec_lt_def dec_sum_def dec_zero_def rounding_simps)

lemma second_28: "\<not> dec_lt (Dec 1 28) (dec_add (dec_sum [Dec (10 ^ 28) 0]) (Dec 4 (- 1)))"
  by (simp add: dec_lt_def dec_sum_def dec_zero_def rounding_simps)

lemma money_28: "budget_money (PStr (format_f (Dec 1 28))) n = Inr (Dec (10 ^ 28) 0)"
  "budget_money (PStr (format_f (Dec 4 (- 1)))) n = Inr (Dec 4 (- 1))"
  by (simp_all add: budget_money_format del: format_f.simps)

abbreviation call_28 :: "string \<Rightarrow> string \<Rightarrow> reserve_call" where
  "call_28 run cap \<equiv>
     \<lparr>rc_scope = ''s'', rc_total = PStr ''1E+28'', rc_run = run, rc_cap = PStr cap\<rparr>"

abbreviation ledger_28 :: "pydict \<Rightarrow> pydict" where
  "ledger_28 r \<equiv> dput ''reservations'' (PDict r) (new_ledger ''s'' (Dec 1 28))"

lemma scope_s: "budget_paths ''s'' = Inr ''s''"
  by code_simp

lemma first_call_28:
  "snd (reserve_call_on (call_28 ''a'' ''1E+28'') Map.empty) =
     [''s'' \<mapsto> Json (PDict (ledger_28 [(''a'', PStr (format_f (Dec 1 28)))]))]"
proof -
  have "admit (new_ledger ''s'' (Dec 1 28)) (Dec 1 28) ''a'' (Dec 1 28) =
      Inr (Some (ledger_28 [(''a'', PStr (format_f (Dec 1 28)))]))"
    using first_28 by (simp add: admit_def reservations_of_def reserved_amounts_def new_ledger_def
        del: format_f.simps)
  then show ?thesis
    by (simp add: reserve_call_on_def reserve_def scope_s read_1E28 open_ledger_def del: format_f.simps)
qed

lemma second_call_28:
  "snd (reserve_call_on (call_28 ''b'' ''0.4'')
     [''s'' \<mapsto> Json (PDict (ledger_28 [(''a'', PStr (format_f (Dec 1 28)))]))]) ''s'' =
   Some (Json (PDict (ledger_28
     [(''a'', PStr (format_f (Dec 1 28))), (''b'', PStr (format_f (Dec 4 (- 1))))])))"
proof -
  let ?st = "ledger_28 [(''a'', PStr (format_f (Dec 1 28)))]"
  have "dec_eq (Dec (10 ^ 28) 0) (Dec 1 28)" by (simp add: dec_eq_def common_exp_def)
  then have "open_ledger [''s'' \<mapsto> Json (PDict ?st)] ''s'' (Dec 1 28) = Inr ?st"
    by (simp add: open_ledger_def read_ledger_def new_ledger_def money_28 del: format_f.simps)
  moreover have "admit ?st (Dec 1 28) ''b'' (Dec 4 (- 1)) =
      Inr (Some (ledger_28 [(''a'', PStr (format_f (Dec 1 28))), (''b'', PStr (format_f (Dec 4 (- 1))))]))"
    using second_28 by (simp add: admit_def reservations_of_def reserved_amounts_def new_ledger_def
        money_28 del: format_f.simps)
  ultimately show ?thesis
    by (simp add: reserve_call_on_def reserve_def scope_s read_1E28 read_04 del: format_f.simps)
qed

text \<open>
  An example: beyond 28 significant digits the check rounds.  With a total of \<open>10^28\<close> and one run holding all of
  it, a second run with a cap of \<open>0.4\<close> is admitted, and the ledger then reserves more than its total.
\<close>

theorem rounding_admits_beyond_authority:
  "case reserve_all
       [\<lparr>rc_scope = ''s'', rc_total = PStr ''1E+28'', rc_run = ''a'', rc_cap = PStr ''1E+28''\<rparr>,
        \<lparr>rc_scope = ''s'', rc_total = PStr ''1E+28'', rc_run = ''b'', rc_cap = PStr ''0.4''\<rparr>]
       Map.empty ''s'' of
     Some (Json (PDict st)) \<Rightarrow>
       (case ledger_amounts st of
          Inr (authority, ds) \<Rightarrow> dec_val authority < sum_list (map dec_val ds)
        | Inl _ \<Rightarrow> False)
   | _ \<Rightarrow> False"
proof -
  have "ledger_amounts (ledger_28
      [(''a'', PStr (format_f (Dec 1 28))), (''b'', PStr (format_f (Dec 4 (- 1))))]) =
    Inr (Dec (10 ^ 28) 0, [Dec (10 ^ 28) 0, Dec 4 (- 1)])"
    by (simp add: ledger_amounts_def reservations_of_def reserved_amounts_def new_ledger_def money_28
        del: format_f.simps)
  then show ?thesis
    using second_call_28 by (simp add: first_call_28 del: format_f.simps)
qed

end
