(* ===== verification/RunStore.thy ===== *)
theory RunStore
  imports PyValue
begin

text \<open>
  \<open>run_store.py\<close>: the durable state of one run.  The files of a run directory are a record; the
  journal \<open>events.jsonl\<close> is a list of decoded lines with what follows the last newline, and every file
  \<open>_atomic_write_json\<close> replaces is either absent, undecodable, or holds a value.  The projection is
  polymorphic: the store reads only its sequence number and lifecycle.  Clock stamps of the events
  (\<open>recorded_at\<close>) are never read back and are left out; the run's lock makes each operation atomic
  with respect to the others.

  This is the store as the lifecycle and the engine see it.  What a line decodes to and whether a tail is torn are given here;
  \<open>RunJournal\<close> has the same operations on the bytes of the files, where the encoding, \<open>splitlines\<close> and the torn
  classifier decide them, and \<open>RunRefines\<close> shows that the two stores agree for texts that the encoding carries.
\<close>

section \<open>Lifecycle states\<close>

datatype lifecycle_state =
  PLANNED | PROVISIONING | STARTING | RUNNING | RECOVERING | DELETING | CLOSED

text \<open>The order in which a run passes through them.\<close>

fun lifecycle_rank :: "lifecycle_state \<Rightarrow> nat" where
  "lifecycle_rank PLANNED = 0"
| "lifecycle_rank PROVISIONING = 1"
| "lifecycle_rank STARTING = 2"
| "lifecycle_rank RUNNING = 3"
| "lifecycle_rank RECOVERING = 4"
| "lifecycle_rank DELETING = 5"
| "lifecycle_rank CLOSED = 6"

lemma lifecycle_rank_inj: "lifecycle_rank s = lifecycle_rank t \<Longrightarrow> s = t"
  by (cases s; cases t) auto

instantiation lifecycle_state :: linorder
begin

definition less_eq_lifecycle_state :: "lifecycle_state \<Rightarrow> lifecycle_state \<Rightarrow> bool" where
  "less_eq_lifecycle_state s t \<longleftrightarrow> lifecycle_rank s \<le> lifecycle_rank t"

definition less_lifecycle_state :: "lifecycle_state \<Rightarrow> lifecycle_state \<Rightarrow> bool" where
  "less_lifecycle_state s t \<longleftrightarrow> lifecycle_rank s < lifecycle_rank t"

instance
  by standard (auto simp: less_eq_lifecycle_state_def less_lifecycle_state_def
      intro: lifecycle_rank_inj)

end

lemmas lifecycle_order = less_eq_lifecycle_state_def less_lifecycle_state_def

section \<open>The files of a run\<close>

record projection =
  event_sequence :: int
  lifecycle :: lifecycle_state

record 'p run_event =
  ev_sequence :: int
  ev_kind :: string
  ev_payload :: pydict
  ev_projection :: 'p

text \<open>A journal line: an event, JSON that is not one, or text that does not decode.\<close>

datatype 'p line = Event "'p run_event" | NotAnEvent | NotJson

text \<open>
  What follows the last newline of the journal: nothing, a fragment \<open>_is_torn_json_fragment\<close>
  recognises as torn, or any other text (a complete record without its newline among them).
\<close>

datatype tail = NoTail | Torn | Unterminated

datatype 'b stored = Unreadable | Contents 'b

record 'p run_files =
  f_request :: "pydict stored option"
  f_lines :: "'p line list"
  f_tail :: tail
  f_state :: "'p stored option"
  f_receipt :: "'p stored option"

definition no_files :: "'p run_files" where
  "no_files = \<lparr>f_request = None, f_lines = [], f_tail = NoTail, f_state = None, f_receipt = None\<rparr>"

text \<open>\<open>RunStore.paths\<close>: the path components under \<open>runs_root\<close>.\<close>

record run_paths =
  rp_directory :: "string list"
  rp_request :: "string list"
  rp_state :: "string list"
  rp_events :: "string list"
  rp_provider :: "string list"
  rp_remote_status :: "string list"
  rp_artifact_manifest :: "string list"
  rp_receipts :: "string list"
  rp_closeout_receipt :: "string list"
  rp_lock :: "string list"

definition run_paths_of :: "string \<Rightarrow> exn + run_paths" where
  "run_paths_of run_id =
     (if run_id \<in> {''.'', ''..''} \<or> \<not> safe_id run_id then Inl (InvalidRunIdError ''invalid run ID'')
      else Inr \<lparr>rp_directory = [run_id], rp_request = [run_id, ''request.json''],
        rp_state = [run_id, ''state.json''], rp_events = [run_id, ''events.jsonl''],
        rp_provider = [run_id, ''provider.json''], rp_remote_status = [run_id, ''remote-status.json''],
        rp_artifact_manifest = [run_id, ''artifact-manifest.json''],
        rp_receipts = [run_id, ''receipts''],
        rp_closeout_receipt = [run_id, ''receipts'', ''closeout-receipt.json''],
        rp_lock = [run_id, ''.lock'']\<rparr>)"

section \<open>Reading\<close>

definition read_json_object :: "'b stored \<Rightarrow> exn + 'b" where
  "read_json_object f = (case f of Unreadable \<Rightarrow> Inl (ValueError ''corrupt JSON state'') | Contents b \<Rightarrow> Inr b)"

fun check_lines :: "int \<Rightarrow> 'a projection_scheme line list \<Rightarrow> exn + 'a projection_scheme run_event list" where
  "check_lines expected [] = Inr []"
| "check_lines expected (NotJson # ls) = Inl (ValueError ''corrupt event journal'')"
| "check_lines expected (NotAnEvent # ls) = Inl (ValueError ''corrupt event journal sequence'')"
| "check_lines expected (Event ev # ls) =
     (if ev_sequence ev \<noteq> expected then Inl (ValueError ''corrupt event journal sequence'')
      else if event_sequence (ev_projection ev) \<noteq> expected
      then Inl (ValueError ''corrupt event journal projection'')
      else bindR (check_lines (expected + 1) ls) (\<lambda>evs. Inr (ev # evs)))"

text \<open>\<open>_read_events\<close>, which truncates a torn tail before it reads the lines.\<close>

definition read_events ::
  "'a projection_scheme run_files \<Rightarrow>
     (exn + 'a projection_scheme run_event list) \<times> 'a projection_scheme run_files" where
  "read_events fs =
     (if f_tail fs = Unterminated then (Inl (ValueError ''corrupt event journal''), fs)
      else (check_lines 1 (f_lines fs), fs\<lparr>f_tail := NoTail\<rparr>))"

definition effective_state ::
  "'a projection_scheme run_files \<Rightarrow>
     (exn + 'a projection_scheme) \<times> 'a projection_scheme run_files" where
  "effective_state fs =
     (case read_events fs of (events, fs') \<Rightarrow>
       (bindR events (\<lambda>evs.
        bindR (case f_state fs' of None \<Rightarrow> Inr None
               | Some f \<Rightarrow> bindR (read_json_object f) (\<lambda>s. Inr (Some s))) (\<lambda>snapshot.
          if evs \<noteq> [] \<and>
             (case snapshot of None \<Rightarrow> True
              | Some s \<Rightarrow> event_sequence s \<le> event_sequence (ev_projection (last evs)))
          then Inr (ev_projection (last evs))
          else (case snapshot of Some s \<Rightarrow> Inr s
                | None \<Rightarrow> Inl (RunNotFoundError ''run state does not exist'')))), fs'))"

section \<open>Writing\<close>

text \<open>\<open>_make_closeout_receipt\<close>: \<open>valid\<close> is the closeout-receipt/1 schema, read on the projection.\<close>

definition make_closeout_receipt ::
  "('a projection_scheme \<Rightarrow> bool) \<Rightarrow> 'a projection_scheme \<Rightarrow> exn + 'a projection_scheme" where
  "make_closeout_receipt valid s =
     (if valid s then Inr s else Inl (ProtocolValidationError ''closeout receipt''))"

definition ensure_closeout_receipt ::
  "('a projection_scheme \<Rightarrow> bool) \<Rightarrow> 'a projection_scheme \<Rightarrow> 'a projection_scheme run_files \<Rightarrow>
     (exn + unit) \<times> 'a projection_scheme run_files" where
  "ensure_closeout_receipt valid s fs =
     (case make_closeout_receipt valid s of
        Inl e \<Rightarrow> (Inl e, fs)
      | Inr expected \<Rightarrow>
          (case f_receipt fs of
             None \<Rightarrow> (Inr (), fs\<lparr>f_receipt := Some (Contents expected)\<rparr>)
           | Some f \<Rightarrow>
               (bindR (read_json_object f) (\<lambda>recorded.
                bindR (require (valid recorded) (RunStoreError ''invalid durable closeout receipt'')) (\<lambda>_.
                  require (recorded = expected)
                    (RunStoreError ''durable closeout receipt does not match closed state''))), fs)))"

definition read_state ::
  "('a projection_scheme \<Rightarrow> bool) \<Rightarrow> 'a projection_scheme run_files \<Rightarrow>
     (exn + 'a projection_scheme) \<times> 'a projection_scheme run_files" where
  "read_state valid fs =
     (case effective_state fs of
        (Inl e, fs') \<Rightarrow> (Inl e, fs')
      | (Inr s, fs') \<Rightarrow>
          if lifecycle s = CLOSED then
            (case ensure_closeout_receipt valid s fs' of
               (Inl e, fs'') \<Rightarrow> (Inl e, fs'')
             | (Inr _, fs'') \<Rightarrow> (Inr s, fs''))
          else (Inr s, fs'))"

definition read_closeout_receipt ::
  "('a projection_scheme \<Rightarrow> bool) \<Rightarrow> 'a projection_scheme run_files \<Rightarrow>
     (exn + 'a projection_scheme) \<times> 'a projection_scheme run_files" where
  "read_closeout_receipt valid fs =
     (case read_state valid fs of
        (Inl e, fs') \<Rightarrow> (Inl e, fs')
      | (Inr s, fs') \<Rightarrow>
          (bindR (require (lifecycle s = CLOSED) (RunStoreError ''run is not closed'')) (\<lambda>_.
           bindR (case f_receipt fs' of None \<Rightarrow> Inl (ValueError ''corrupt JSON state'')
                                      | Some f \<Rightarrow> read_json_object f) (\<lambda>receipt.
           bindR (require (valid receipt) (RunStoreError ''invalid durable closeout receipt'')) (\<lambda>_.
             Inr receipt))), fs'))"

definition append_event ::
  "'p run_event \<Rightarrow> 'p run_files \<Rightarrow> 'p run_files" where
  "append_event ev fs = fs\<lparr>f_lines := f_lines fs @ [Event ev]\<rparr>"

text \<open>The event of a commit: the sequence number after the last one, and the stamped projection.\<close>

definition next_event ::
  "string \<Rightarrow> 'a projection_scheme \<Rightarrow> pydict \<Rightarrow> 'a projection_scheme run_event list \<Rightarrow>
     'a projection_scheme run_event" where
  "next_event kind state payload evs =
     (let sequence = (if evs = [] then 1 else ev_sequence (last evs) + 1)
      in \<lparr>ev_sequence = sequence, ev_kind = kind, ev_payload = payload,
          ev_projection = state\<lparr>event_sequence := sequence\<rparr>\<rparr>)"

definition commit_state ::
  "('a projection_scheme \<Rightarrow> bool) \<Rightarrow> string \<Rightarrow> 'a projection_scheme \<Rightarrow> pydict \<Rightarrow>
     'a projection_scheme run_files \<Rightarrow>
     (exn + 'a projection_scheme) \<times> 'a projection_scheme run_files" where
  "commit_state valid kind state payload fs =
     (case read_events fs of
        (Inl e, fs') \<Rightarrow> (Inl e, fs')
      | (Inr evs, fs') \<Rightarrow>
          let ev = next_event kind state payload evs;
              p = ev_projection ev;
              fs1 = append_event ev fs';
              fs2 = fs1\<lparr>f_state := Some (Contents p)\<rparr>
          in if lifecycle p = CLOSED then
               (case make_closeout_receipt valid p of
                  Inl e \<Rightarrow> (Inl e, fs')
                | Inr receipt \<Rightarrow> (Inr p, fs2\<lparr>f_receipt := Some (Contents receipt)\<rparr>))
             else (Inr p, fs2))"

definition create_run ::
  "('a projection_scheme \<Rightarrow> bool) \<Rightarrow> pydict \<Rightarrow> 'a projection_scheme \<Rightarrow>
     'a projection_scheme run_files \<Rightarrow>
     (exn + 'a projection_scheme) \<times> 'a projection_scheme run_files" where
  "create_run valid request initial fs =
     (case f_request fs of
        None \<Rightarrow> commit_state valid ''run_planned'' initial [] (fs\<lparr>f_request := Some (Contents request)\<rparr>)
      | Some f \<Rightarrow>
          (case read_json_object f of
             Inl e \<Rightarrow> (Inl e, fs)
           | Inr existing \<Rightarrow>
               if \<not> pyeq (PDict existing) (PDict request)
               then (Inl (RunAlreadyExistsError ''run already exists with a different request''), fs)
               else (case effective_state fs of
                       (Inl (RunNotFoundError m), fs') \<Rightarrow> commit_state valid ''run_planned'' initial [] fs'
                     | r \<Rightarrow> r)))"

definition read_request :: "'p run_files \<Rightarrow> exn + pydict" where
  "read_request fs =
     (case f_request fs of None \<Rightarrow> Inl (RunNotFoundError ''run has no request'')
      | Some f \<Rightarrow> read_json_object f)"

text \<open>\<open>active_run_ids\<close> over the directories of \<open>runs_root\<close>, which it visits in sorted order.\<close>

type_synonym 'p runs = "(string \<times> 'p run_files) list"

fun active_scan ::
  "('a projection_scheme \<Rightarrow> bool) \<Rightarrow> 'a projection_scheme runs \<Rightarrow>
     (exn + string list) \<times> 'a projection_scheme runs" where
  "active_scan valid [] = (Inr [], [])"
| "active_scan valid ((name, fs) # rest) =
     (if name \<noteq> [] \<and> hd name = CHR ''.'' then
        (case active_scan valid rest of (r, rest') \<Rightarrow> (r, (name, fs) # rest'))
      else (case run_paths_of name of
          Inl e \<Rightarrow> (Inl e, (name, fs) # rest)
        | Inr _ \<Rightarrow>
            (case read_state valid fs of
               (Inl e, fs') \<Rightarrow> (Inl e, (name, fs') # rest)
             | (Inr s, fs') \<Rightarrow>
                 (case active_scan valid rest of (r, rest') \<Rightarrow>
                    (bindR r (\<lambda>ids. Inr (if lifecycle s \<noteq> CLOSED then name # ids else ids)),
                     (name, fs') # rest')))))"

definition active_run_ids ::
  "('a projection_scheme \<Rightarrow> bool) \<Rightarrow> 'a projection_scheme runs \<Rightarrow>
     (exn + string list) \<times> 'a projection_scheme runs" where
  "active_run_ids valid runs = active_scan valid (sort_key fst runs)"

section \<open>Dying in the middle of a commit\<close>

text \<open>
  The points at which the process can die inside \<open>commit_state\<close>: while the event is appended (leaving a
  torn fragment, or the whole record without its newline), after the append, and after the replacement of
  \<open>state.json\<close>.  Each replacement is atomic.
\<close>

datatype crash_point = Mid_append | Before_newline | After_append | After_state

definition commit_crash ::
  "('a projection_scheme \<Rightarrow> bool) \<Rightarrow> crash_point \<Rightarrow> string \<Rightarrow> 'a projection_scheme \<Rightarrow> pydict \<Rightarrow>
     'a projection_scheme run_files \<Rightarrow> 'a projection_scheme run_files" where
  "commit_crash valid point kind state payload fs =
     (case read_events fs of
        (Inl e, fs') \<Rightarrow> fs'
      | (Inr evs, fs') \<Rightarrow>
          let ev = next_event kind state payload evs;
              fs1 = append_event ev fs'
          in if lifecycle state = CLOSED \<and> \<not> valid (ev_projection ev) then fs'
             else case point of
               Mid_append \<Rightarrow> fs'\<lparr>f_tail := Torn\<rparr>
             | Before_newline \<Rightarrow> fs'\<lparr>f_tail := Unterminated\<rparr>
             | After_append \<Rightarrow> fs1
             | After_state \<Rightarrow> fs1\<lparr>f_state := Some (Contents (ev_projection ev))\<rparr>)"

section \<open>What the files stand for\<close>

text \<open>The journal is authoritative: a run's state is the projection of its last event.\<close>

fun line_projection :: "'p line \<Rightarrow> 'p option" where
  "line_projection (Event ev) = Some (ev_projection ev)"
| "line_projection _ = None"

definition current :: "'p run_files \<Rightarrow> 'p option" where
  "current fs = (if f_lines fs = [] then None else line_projection (last (f_lines fs)))"

definition store_ok :: "'a projection_scheme run_files \<Rightarrow> bool" where
  "store_ok fs \<longleftrightarrow>
     f_tail fs \<noteq> Unterminated \<and> \<not> isl (check_lines 1 (f_lines fs)) \<and>
     (case f_state fs of
        None \<Rightarrow> True
      | Some Unreadable \<Rightarrow> False
      | Some (Contents s) \<Rightarrow> f_lines fs \<noteq> [] \<and> event_sequence s \<le> int (length (f_lines fs)))"

lemma current_tail [simp]: "current (fs\<lparr>f_tail := t\<rparr>) = current fs"
  by (simp add: current_def)

lemma store_ok_tail: "store_ok fs \<Longrightarrow> t \<noteq> Unterminated \<Longrightarrow> store_ok (fs\<lparr>f_tail := t\<rparr>)"
  by (auto simp: store_ok_def split: option.splits stored.splits)

lemma check_lines_snoc:
  "check_lines n (ls @ [Event ev]) =
     bindR (check_lines n ls) (\<lambda>evs.
       if ev_sequence ev \<noteq> n + int (length ls)
       then Inl (ValueError ''corrupt event journal sequence'')
       else if event_sequence (ev_projection ev) \<noteq> n + int (length ls)
       then Inl (ValueError ''corrupt event journal projection'')
       else Inr (evs @ [ev]))"
proof (induction n ls rule: check_lines.induct)
  case (4 n ev' ls)
  then show ?case
    by (cases "check_lines (n + 1) ls") (auto simp: algebra_simps)
qed auto

lemma check_lines_map: "check_lines n ls = Inr evs \<Longrightarrow> ls = map Event evs"
  by (induction n ls arbitrary: evs rule: check_lines.induct) (auto split: if_splits)

lemma check_lines_last:
  "check_lines n ls = Inr evs \<Longrightarrow> evs \<noteq> [] \<Longrightarrow>
     ev_sequence (last evs) = n + int (length ls) - 1 \<and>
     event_sequence (ev_projection (last evs)) = n + int (length ls) - 1"
proof (induction n ls arbitrary: evs rule: check_lines.induct)
  case (4 n ev ls)
  from 4(2) obtain evs' where e: "check_lines (n + 1) ls = Inr evs'" "evs = ev # evs'"
    and s: "ev_sequence ev = n" "event_sequence (ev_projection ev) = n"
    by (auto split: if_splits)
  show ?case
  proof (cases "evs' = []")
    case True
    then have "ls = []" using check_lines_map [OF e(1)] by simp
    then show ?thesis using e s True by simp
  next
    case False
    then show ?thesis using 4(1) [OF _ _ e(1)] e(2) s by simp
  qed
qed simp_all

text \<open>The facts a usable directory gives, in the form the operations consult them.\<close>

lemma store_ok_events:
  assumes "store_ok fs"
  obtains evs where "check_lines 1 (f_lines fs) = Inr evs" "f_lines fs = map Event evs"
    "read_events fs = (Inr evs, fs\<lparr>f_tail := NoTail\<rparr>)"
    "current fs = (if evs = [] then None else Some (ev_projection (last evs)))"
proof -
  obtain evs where e: "check_lines 1 (f_lines fs) = Inr evs"
    using assms unfolding store_ok_def by (metis sum.collapse(2))
  note m = check_lines_map [OF e]
  have "read_events fs = (Inr evs, fs\<lparr>f_tail := NoTail\<rparr>)"
    using assms e by (simp add: read_events_def store_ok_def)
  moreover have "current fs = (if evs = [] then None else Some (ev_projection (last evs)))"
    by (simp add: current_def m last_map)
  ultimately show ?thesis using that e m by blast
qed

lemma effective_ok:
  assumes "store_ok fs"
  shows "effective_state fs =
    (case current fs of None \<Rightarrow> Inl (RunNotFoundError ''run state does not exist'')
                      | Some s \<Rightarrow> Inr s, fs\<lparr>f_tail := NoTail\<rparr>)"
proof -
  obtain evs where evs: "check_lines 1 (f_lines fs) = Inr evs" "f_lines fs = map Event evs"
    "read_events fs = (Inr evs, fs\<lparr>f_tail := NoTail\<rparr>)"
    "current fs = (if evs = [] then None else Some (ev_projection (last evs)))"
    using assms by (rule store_ok_events)
  show ?thesis
  proof (cases "f_state fs")
    case None
    then show ?thesis using evs by (simp add: effective_state_def)
  next
    case (Some f)
    with assms obtain s where s: "f = Contents s" "evs \<noteq> []"
        "event_sequence s \<le> int (length (f_lines fs))"
      by (cases f) (auto simp: store_ok_def evs(2))
    have "event_sequence s \<le> event_sequence (ev_projection (last evs))"
      using check_lines_last [OF evs(1) s(2)] s(3) by simp
    then show ?thesis using evs Some s by (simp add: effective_state_def read_json_object_def)
  qed
qed

lemma next_event_ok:
  assumes "check_lines 1 ls = Inr evs"
  shows "next_event kind state payload evs =
      \<lparr>ev_sequence = int (length ls) + 1, ev_kind = kind, ev_payload = payload,
       ev_projection = state\<lparr>event_sequence := int (length ls) + 1\<rparr>\<rparr>"
    and "check_lines 1 (ls @ [Event (next_event kind state payload evs)]) =
      Inr (evs @ [next_event kind state payload evs])"
proof -
  show e: "next_event kind state payload evs =
      \<lparr>ev_sequence = int (length ls) + 1, ev_kind = kind, ev_payload = payload,
       ev_projection = state\<lparr>event_sequence := int (length ls) + 1\<rparr>\<rparr>"
    using check_lines_last [OF assms] check_lines_map [OF assms]
    by (auto simp: next_event_def Let_def)
  show "check_lines 1 (ls @ [Event (next_event kind state payload evs)]) =
      Inr (evs @ [next_event kind state payload evs])"
    unfolding check_lines_snoc assms by (simp add: e)
qed

text \<open>A commit on a usable directory.\<close>

definition stamped :: "'a projection_scheme run_files \<Rightarrow> 'a projection_scheme \<Rightarrow> 'a projection_scheme" where
  "stamped fs state = state\<lparr>event_sequence := int (length (f_lines fs)) + 1\<rparr>"

lemma commit_ok:
  assumes "store_ok fs" and "lifecycle state = CLOSED \<Longrightarrow> valid (stamped fs state)"
  obtains fs' where "commit_state valid kind state payload fs = (Inr (stamped fs state), fs')"
    "store_ok fs'" "current fs' = Some (stamped fs state)" "f_request fs' = f_request fs"
    "f_lines fs' = f_lines fs @ [Event \<lparr>ev_sequence = int (length (f_lines fs)) + 1, ev_kind = kind,
       ev_payload = payload, ev_projection = stamped fs state\<rparr>]"
    "f_receipt fs' = (if lifecycle state = CLOSED then Some (Contents (stamped fs state)) else f_receipt fs)"
proof -
  obtain evs where evs: "check_lines 1 (f_lines fs) = Inr evs" "f_lines fs = map Event evs"
    "read_events fs = (Inr evs, fs\<lparr>f_tail := NoTail\<rparr>)"
    using assms(1) by (rule store_ok_events)
  note n = next_event_ok [OF evs(1), of kind state payload]
  let ?ev = "next_event kind state payload evs"
  let ?fs = "fs\<lparr>f_tail := NoTail, f_lines := f_lines fs @ [Event ?ev],
    f_state := Some (Contents (stamped fs state))\<rparr>"
  have p: "ev_projection ?ev = stamped fs state" by (simp add: n(1) stamped_def)
  have ok: "store_ok (?fs\<lparr>f_receipt := r\<rparr>)" for r
    using n(2) by (simp add: store_ok_def stamped_def)
  have cur: "current (?fs\<lparr>f_receipt := r\<rparr>) = Some (stamped fs state)" for r
    by (simp add: current_def p)
  show ?thesis
  proof (cases "lifecycle state = CLOSED")
    case True
    then have "commit_state valid kind state payload fs =
        (Inr (stamped fs state), ?fs\<lparr>f_receipt := Some (Contents (stamped fs state))\<rparr>)"
      using assms(2) p evs(3)
      by (simp add: commit_state_def Let_def append_event_def make_closeout_receipt_def stamped_def)
    then show ?thesis by (rule that) (simp_all only: ok cur, simp_all add: True n(1) stamped_def)
  next
    case False
    then have "commit_state valid kind state payload fs =
        (Inr (stamped fs state), ?fs\<lparr>f_receipt := f_receipt fs\<rparr>)"
      using p evs(3) by (simp add: commit_state_def Let_def append_event_def stamped_def)
    then show ?thesis by (rule that) (simp_all only: ok cur, simp_all add: False n(1) stamped_def)
  qed
qed

lemma commit_refused:
  assumes "store_ok fs" and "lifecycle state = CLOSED" and "\<not> valid (stamped fs state)"
  shows "commit_state valid kind state payload fs =
    (Inl (ProtocolValidationError ''closeout receipt''), fs\<lparr>f_tail := NoTail\<rparr>)"
proof -
  obtain evs where evs: "check_lines 1 (f_lines fs) = Inr evs"
    "read_events fs = (Inr evs, fs\<lparr>f_tail := NoTail\<rparr>)"
    using assms(1) by (rule store_ok_events)
  have "ev_projection (next_event kind state payload evs) = stamped fs state"
    by (simp add: next_event_ok(1) [OF evs(1)] stamped_def)
  then show ?thesis
    using assms(2,3) evs(2)
    by (simp add: commit_state_def Let_def append_event_def make_closeout_receipt_def stamped_def)
qed

lemma commit_crash_ok:
  assumes "store_ok fs" and "point \<noteq> Before_newline"
  shows "store_ok (commit_crash valid point kind state payload fs) \<and>
    current (commit_crash valid point kind state payload fs) \<in>
      {current fs, Some (stamped fs state)} \<and>
    f_request (commit_crash valid point kind state payload fs) = f_request fs"
proof -
  obtain evs where evs: "check_lines 1 (f_lines fs) = Inr evs" "f_lines fs = map Event evs"
    "read_events fs = (Inr evs, fs\<lparr>f_tail := NoTail\<rparr>)"
    using assms(1) by (rule store_ok_events)
  note n = next_event_ok [OF evs(1), of kind state payload]
  let ?ev = "next_event kind state payload evs"
  have p: "ev_projection ?ev = stamped fs state" by (simp add: n(1) stamped_def)
  note tail = store_ok_tail [OF assms(1)]
  let ?fs1 = "fs\<lparr>f_tail := NoTail, f_lines := f_lines fs @ [Event ?ev]\<rparr>"
  have after: "store_ok ?fs1" "store_ok (?fs1\<lparr>f_state := Some (Contents (stamped fs state))\<rparr>)"
    using assms(1) n(2) by (auto simp: store_ok_def stamped_def split: option.splits stored.splits)
  have cur: "current (?fs1\<lparr>f_state := x\<rparr>) = Some (stamped fs state)" for x
    by (simp add: current_def p)
  show ?thesis
    using assms(2) tail after cur [of "f_state fs"] cur
    by (cases point) (simp_all add: commit_crash_def evs(3) Let_def append_event_def p)
qed

section \<open>The store as its clients see it\<close>

datatype 's store_op = Commit_op string 's pydict | Crash_op crash_point string 's pydict

fun store_history ::
  "(string \<Rightarrow> 's \<Rightarrow> pydict \<Rightarrow> 'f \<Rightarrow> (exn + 's) \<times> 'f) \<Rightarrow>
   (crash_point \<Rightarrow> string \<Rightarrow> 's \<Rightarrow> pydict \<Rightarrow> 'f \<Rightarrow> 'f) \<Rightarrow> 's store_op list \<Rightarrow> 'f \<Rightarrow> 'f" where
  "store_history commit crash [] f = f"
| "store_history commit crash (Commit_op k s p # ops) f =
     store_history commit crash ops (snd (commit k s p f))"
| "store_history commit crash (Crash_op c k s p # ops) f =
     store_history commit crash ops (crash c k s p f)"

fun op_state :: "'s store_op \<Rightarrow> 's" where
  "op_state (Commit_op k s p) = s"
| "op_state (Crash_op c k s p) = s"

fun recoverable :: "'s store_op \<Rightarrow> bool" where
  "recoverable (Commit_op k s p) = True"
| "recoverable (Crash_op c k s p) = (c \<noteq> Before_newline)"

text \<open>What a client may rely on: commits replace the state or are refused, crashes do one or neither.\<close>

locale state_store =
  fixes commit :: "string \<Rightarrow> 's \<Rightarrow> pydict \<Rightarrow> 'f \<Rightarrow> (exn + 's) \<times> 'f"
    and crash :: "crash_point \<Rightarrow> string \<Rightarrow> 's \<Rightarrow> pydict \<Rightarrow> 'f \<Rightarrow> 'f"
    and ok :: "'f \<Rightarrow> bool"
    and cur :: "'f \<Rightarrow> 's option"
    and stamp :: "'f \<Rightarrow> 's \<Rightarrow> 's"
  assumes commit_law: "ok f \<Longrightarrow>
      ok (snd (commit k s p f)) \<and> cur (snd (commit k s p f)) \<in> {cur f, Some (stamp f s)} \<and>
      (fst (commit k s p f) = Inr (stamp f s) \<longleftrightarrow> \<not> isl (fst (commit k s p f)))"
    and crash_law: "ok f \<Longrightarrow> c \<noteq> Before_newline \<Longrightarrow>
      ok (crash c k s p f) \<and> cur (crash c k s p f) \<in> {cur f, Some (stamp f s)}"
begin

text \<open>After any history the state is the one it started from or one that was being committed.\<close>

lemma history_state:
  assumes "ok f" and "list_all recoverable ops"
  shows "ok (store_history commit crash ops f) \<and>
    (cur (store_history commit crash ops f) = cur f \<or>
     (\<exists>op \<in> set ops. \<exists>g. cur (store_history commit crash ops f) = Some (stamp g (op_state op))))"
  using assms
proof (induction ops arbitrary: f)
  case (Cons op ops)
  define g where "g = (case op of Commit_op k s p \<Rightarrow> snd (commit k s p f)
                                | Crash_op c k s p \<Rightarrow> crash c k s p f)"
  have h: "store_history commit crash (op # ops) f = store_history commit crash ops g"
    by (cases op) (simp_all add: g_def)
  have g: "ok g \<and> cur g \<in> {cur f, Some (stamp f (op_state op))}"
    using commit_law [OF Cons.prems(1)] crash_law [OF Cons.prems(1)] Cons.prems(2)
    by (cases op) (simp_all add: g_def)
  then have "ok (store_history commit crash ops g) \<and>
    (cur (store_history commit crash ops g) = cur g \<or>
     (\<exists>op \<in> set ops. \<exists>g'. cur (store_history commit crash ops g) = Some (stamp g' (op_state op))))"
    using Cons.IH Cons.prems(2) by simp
  with g show ?case unfolding h by auto
qed simp

end

lemma commit_store_law:
  assumes "store_ok fs"
  shows "store_ok (snd (commit_state valid k s p fs)) \<and>
    current (snd (commit_state valid k s p fs)) \<in> {current fs, Some (stamped fs s)} \<and>
    (fst (commit_state valid k s p fs) = Inr (stamped fs s) \<longleftrightarrow>
      \<not> isl (fst (commit_state valid k s p fs)))"
proof (cases "lifecycle s = CLOSED \<and> \<not> valid (stamped fs s)")
  case True
  then show ?thesis
    using commit_refused [OF assms] store_ok_tail [OF assms] by simp
next
  case False
  then obtain fs' where "commit_state valid k s p fs = (Inr (stamped fs s), fs')"
    "store_ok fs'" "current fs' = Some (stamped fs s)"
    using commit_ok [OF assms, of s valid k p] by blast
  then show ?thesis by simp
qed

interpretation journal: state_store "commit_state valid" "commit_crash valid" store_ok current stamped
  for valid :: "'a projection_scheme \<Rightarrow> bool"
  by unfold_locales (rule commit_store_law, assumption, use commit_crash_ok in blast)

section \<open>Properties\<close>

text \<open>
  On decoded records the journal makes commits atomic.  After any sequence of commits on a fresh run directory, with the
  process dying inside any of them at any point except between a record and its newline, a read succeeds
  in recovering: it reports that there is no state, or a projection some commit of the history wrote.
\<close>

theorem commits_are_atomic:
  assumes "list_all recoverable ops"
  shows "case fst (effective_state (store_history (commit_state valid) (commit_crash valid) ops no_files)) of
      Inl e \<Rightarrow> e = RunNotFoundError ''run state does not exist''
    | Inr s \<Rightarrow> \<exists>op \<in> set ops. \<exists>n. s = op_state op\<lparr>event_sequence := n\<rparr>"
proof -
  have "store_ok (no_files :: 'a projection_scheme run_files)" "current no_files = None"
    by (simp_all add: store_ok_def no_files_def current_def)
  note h = journal.history_state [OF this(1) assms, of valid, unfolded this(2)]
  then show ?thesis
    unfolding effective_ok [OF h [THEN conjunct1]] stamped_def
    by (auto split: option.split) blast
qed

theorem commits_are_atomic_witness:
  "case fst (effective_state (store_history (commit_state (\<lambda>s. True)) (commit_crash (\<lambda>s. True))
      [Commit_op ''a'' \<lparr>event_sequence = 0, lifecycle = PLANNED\<rparr> [],
       Crash_op Mid_append ''b'' \<lparr>event_sequence = 0, lifecycle = PROVISIONING\<rparr> [],
       Crash_op After_append ''b'' \<lparr>event_sequence = 0, lifecycle = STARTING\<rparr> []] no_files)) of
      Inl e \<Rightarrow> e = RunNotFoundError ''run state does not exist''
    | Inr s \<Rightarrow> \<exists>op \<in> set [Commit_op ''a'' \<lparr>event_sequence = 0, lifecycle = PLANNED\<rparr> [],
       Crash_op Mid_append ''b'' \<lparr>event_sequence = 0, lifecycle = PROVISIONING\<rparr> [],
       Crash_op After_append ''b'' \<lparr>event_sequence = 0, lifecycle = STARTING\<rparr> []].
         \<exists>n. s = op_state op\<lparr>event_sequence := n\<rparr>"
  by (rule commits_are_atomic) simp

text \<open>
  Creating a run twice is harmless: with the request it was created with, \<open>create_run\<close> returns the
  run's present state and writes nothing; with another request it is refused and writes nothing.
\<close>

theorem create_run_idempotent:
  assumes "store_ok fs" and "current fs = Some s" and "f_tail fs = NoTail"
    and "f_request fs = Some (Contents existing)"
  shows "create_run valid request initial fs =
    (if pyeq (PDict existing) (PDict request) then Inr s
     else Inl (RunAlreadyExistsError ''run already exists with a different request''), fs)"
  using assms effective_ok [OF assms(1)]
  by (simp add: create_run_def read_json_object_def)

theorem create_run_idempotent_witness:
  "let request = [(''job'', PStr ''noop'')];
       planned = \<lparr>event_sequence = 0, lifecycle = PLANNED\<rparr>;
       fs = snd (create_run (\<lambda>s. True) request planned no_files)
   in create_run (\<lambda>s. True) [(''job'', PStr ''other'')] planned fs =
        (if pyeq (PDict request) (PDict [(''job'', PStr ''other'')]) then Inr (stamped no_files planned)
         else Inl (RunAlreadyExistsError ''run already exists with a different request''), fs)"
  unfolding Let_def
proof (rule create_run_idempotent)
  define r :: pydict where "r = [(''job'', PStr ''noop'')]"
  define s where "s = \<lparr>event_sequence = 0, lifecycle = PLANNED\<rparr>"
  have ok: "store_ok (no_files\<lparr>f_request := Some (Contents r)\<rparr>)"
    by (simp add: store_ok_def no_files_def)
  obtain fs' where c: "commit_state (\<lambda>s. True) ''run_planned'' s []
      (no_files\<lparr>f_request := Some (Contents r)\<rparr>) = (Inr (stamped no_files s), fs')"
    "store_ok fs'" "current fs' = Some (stamped no_files s)" "f_request fs' = Some (Contents r)"
    using commit_ok [OF ok, of s "\<lambda>s. True" "''run_planned''" "[]"] by (auto simp: stamped_def no_files_def)
  then have fs': "snd (create_run (\<lambda>s. True) r s no_files) = fs'"
    by (simp add: create_run_def no_files_def)
  have "f_tail fs' = NoTail"
    using c(1) by (auto simp: commit_state_def read_events_def no_files_def s_def next_event_def
        append_event_def Let_def)
  with c fs' show "store_ok (snd (create_run (\<lambda>s. True) [(''job'', PStr ''noop'')]
        \<lparr>event_sequence = 0, lifecycle = PLANNED\<rparr> no_files))"
    "current (snd (create_run (\<lambda>s. True) [(''job'', PStr ''noop'')]
        \<lparr>event_sequence = 0, lifecycle = PLANNED\<rparr> no_files)) =
      Some (stamped no_files \<lparr>event_sequence = 0, lifecycle = PLANNED\<rparr>)"
    "f_tail (snd (create_run (\<lambda>s. True) [(''job'', PStr ''noop'')]
        \<lparr>event_sequence = 0, lifecycle = PLANNED\<rparr> no_files)) = NoTail"
    "f_request (snd (create_run (\<lambda>s. True) [(''job'', PStr ''noop'')]
        \<lparr>event_sequence = 0, lifecycle = PLANNED\<rparr> no_files)) = Some (Contents [(''job'', PStr ''noop'')])"
    by (simp_all add: r_def s_def)
qed

end
