(* ===== verification/Provider.thy ===== *)
theory Provider
  imports PyValue
begin

text \<open>
  \<open>provider.py\<close>: the provider seam of the lifecycle, as a record of operations over a world \<open>'w\<close> (what
  the provider's side of the network keeps), with the exceptions its calls raise as values; the in-memory
  fake \<open>MemoryRunPod\<close>; and the contract a well-behaved provider keeps, discharged by the fake.
\<close>

section \<open>Types of the seam\<close>

text \<open>\<open>dict.fromkeys\<close>: first occurrences, in order.\<close>

fun dedup :: "'a list \<Rightarrow> 'a list" where
  "dedup [] = []"
| "dedup (x # xs) = x # filter (\<lambda>y. y \<noteq> x) (dedup xs)"

lemma set_dedup [simp]: "set (dedup xs) = set xs"
  by (induction xs) auto

lemma distinct_dedup [simp]: "distinct (dedup xs)"
  by (induction xs) auto

lemma dedup_eq_Nil [simp]: "dedup xs = [] \<longleftrightarrow> xs = []"
  by (cases xs) auto

lemma dedup_distinct [simp]: "distinct xs \<Longrightarrow> dedup xs = xs"
  by (induction xs) (auto simp: filter_id_conv)

text \<open>
  What a provider call raises: the classes of the \<open>ProviderError\<close> hierarchy, and \<open>Interrupted\<close> for
  everything else, the death of the process included.
\<close>

datatype provider_exn =
    PlainError string
  | OutcomeUnknown string string
  | ResourceNotFound string
  | ProtocolError string
  | Rejected string "string option" "string list"
  | Interrupted string

text \<open>\<open>ProviderRejected.__init__\<close>: the resource ids of the error, and its message.\<close>

definition rejected_ids :: "string option \<Rightarrow> string list \<Rightarrow> string list" where
  "rejected_ids resource_id resource_ids =
     dedup (if resource_ids \<noteq> [] then resource_ids
            else (case resource_id of None \<Rightarrow> [] | Some i \<Rightarrow> [i]))"

definition rejected_id :: "string option \<Rightarrow> string list \<Rightarrow> string option" where
  "rejected_id resource_id resource_ids =
     (case resource_id of
        Some i \<Rightarrow> if i \<noteq> [] then Some i
                  else (case rejected_ids resource_id resource_ids of [] \<Rightarrow> None | j # _ \<Rightarrow> Some j)
      | None \<Rightarrow> (case rejected_ids resource_id resource_ids of [] \<Rightarrow> None | j # _ \<Rightarrow> Some j))"

fun error_text :: "provider_exn \<Rightarrow> string" where
  "error_text (PlainError m) = m"
| "error_text (OutcomeUnknown kind operation_id) =
     ''provider '' @ kind @ '' outcome is unknown for operation '' @ operation_id"
| "error_text (ResourceNotFound m) = m"
| "error_text (ProtocolError m) = m"
| "error_text (Rejected m _ _) = m"
| "error_text (Interrupted m) = m"

datatype resource_state = Pod_PROVISIONED | Pod_STARTING | Pod_RUNNING | Pod_STOPPED

record provider_create_request =
  cr_run_id :: string
  cr_operation_id :: string
  cr_resource_name :: string
  cr_spec :: pydict

record provider_resource =
  res_id :: string
  res_run_id :: string
  res_create_operation_id :: string
  res_name :: string
  res_state :: resource_state
  res_hourly_rate_usd :: decimal

record delete_receipt =
  dr_operation_id :: string
  dr_acknowledged :: bool
  dr_already_absent :: bool

record provider_effect =
  eff_kind :: string
  eff_operation_id :: string
  eff_resource_id :: "string option"

text \<open>\<open>class Provider(Protocol)\<close>.\<close>

record 'w provider =
  p_find :: "string \<Rightarrow> 'w \<Rightarrow> (provider_exn + provider_resource list) \<times> 'w"
  p_create :: "provider_create_request \<Rightarrow> 'w \<Rightarrow> (provider_exn + provider_resource) \<times> 'w"
  p_get :: "string \<Rightarrow> 'w \<Rightarrow> (provider_exn + provider_resource option) \<times> 'w"
  p_start :: "string \<Rightarrow> string \<Rightarrow> 'w \<Rightarrow> (provider_exn + provider_resource) \<times> 'w"
  p_delete :: "string \<Rightarrow> string \<Rightarrow> 'w \<Rightarrow> (provider_exn + delete_receipt) \<times> 'w"
  p_spend :: "string option \<Rightarrow> 'w \<Rightarrow> (provider_exn + decimal) \<times> 'w"

section \<open>MemoryRunPod\<close>

text \<open>The fake, without its \<open>before_effect\<close> test hook (its default, \<open>None\<close>).\<close>

record memory_pod =
  mp_resources :: "provider_resource dict"
  mp_effects :: "provider_effect list"
  mp_forced_spend :: "decimal option"
  mp_fail_after_effect :: "string list"
  mp_next_resource_number :: nat

definition memory_init :: memory_pod where
  "memory_init = \<lparr>mp_resources = [], mp_effects = [], mp_forced_spend = None,
     mp_fail_after_effect = [], mp_next_resource_number = 1\<rparr>"

definition fail_next_after_effect :: "string \<Rightarrow> memory_pod \<Rightarrow> exn + memory_pod" where
  "fail_next_after_effect kind m =
     (if kind \<notin> {''provision'', ''start'', ''delete''}
      then Inl (ValueError ''unsupported provider effect'')
      else Inr (m\<lparr>mp_fail_after_effect := mp_fail_after_effect m @ [kind]\<rparr>))"

definition decimal_from_spec :: "pyval \<Rightarrow> provider_exn + decimal" where
  "decimal_from_spec v =
     (let checked = (\<lambda>d. if \<not> is_finite d \<or> dec_lt d dec_zero
                        then Inl (ProtocolError ''invalid provider money'') else Inr d)
      in case v of
           PStr s \<Rightarrow> (case dec_of_string s of None \<Rightarrow> Inl (ProtocolError ''invalid provider money'')
                                            | Some d \<Rightarrow> checked d)
         | PDec d \<Rightarrow> checked d
         | PInt i \<Rightarrow> checked (Dec i 0)
         | PBool b \<Rightarrow> checked (Dec (if b then 1 else 0) 0)
         | _ \<Rightarrow> Inl (ProtocolError ''provider money must be an integer, Decimal, or decimal string''))"

text \<open>\<open>f"memory-pod-{n:06d}"\<close>.\<close>

definition memory_id :: "nat \<Rightarrow> string" where
  "memory_id n = (let ds = show_nat n in ''memory-pod-'' @ replicate (6 - length ds) (CHR ''0'') @ ds)"

text \<open>\<open>_raise_if_injected\<close>: the injected unknown outcome of an effect that has happened.\<close>

definition raise_if_injected ::
  "string \<Rightarrow> string \<Rightarrow> 'a \<Rightarrow> memory_pod \<Rightarrow> (provider_exn + 'a) \<times> memory_pod" where
  "raise_if_injected kind operation_id a m =
     (if kind \<in> set (mp_fail_after_effect m)
      then (Inl (OutcomeUnknown kind operation_id),
            m\<lparr>mp_fail_after_effect := remove1 kind (mp_fail_after_effect m)\<rparr>)
      else (Inr a, m))"

definition memory_find ::
  "string \<Rightarrow> memory_pod \<Rightarrow> (provider_exn + provider_resource list) \<times> memory_pod" where
  "memory_find operation_id m =
     (Inr (filter (\<lambda>r. res_create_operation_id r = operation_id) (dvalues (mp_resources m))), m)"

definition memory_create ::
  "provider_create_request \<Rightarrow> memory_pod \<Rightarrow> (provider_exn + provider_resource) \<times> memory_pod" where
  "memory_create request m =
     (let resource_id = memory_id (mp_next_resource_number m);
          effect = \<lparr>eff_kind = ''provision'', eff_operation_id = cr_operation_id request,
                    eff_resource_id = Some resource_id\<rparr>;
          m1 = m\<lparr>mp_next_resource_number := mp_next_resource_number m + 1,
                 mp_effects := mp_effects m @ [effect]\<rparr>
      in case decimal_from_spec (get_or (cr_spec request) ''hourly_rate_usd'' (PStr ''1'')) of
           Inl e \<Rightarrow> (Inl e, m1)
         | Inr rate \<Rightarrow>
             let resource = \<lparr>res_id = resource_id, res_run_id = cr_run_id request,
                   res_create_operation_id = cr_operation_id request,
                   res_name = cr_resource_name request, res_state = Pod_PROVISIONED,
                   res_hourly_rate_usd = rate\<rparr>
             in raise_if_injected ''provision'' (cr_operation_id request) resource
                  (m1\<lparr>mp_resources := dput resource_id resource (mp_resources m1)\<rparr>))"

definition memory_get ::
  "string \<Rightarrow> memory_pod \<Rightarrow> (provider_exn + provider_resource option) \<times> memory_pod" where
  "memory_get resource_id m = (Inr (dget (mp_resources m) resource_id), m)"

definition memory_start ::
  "string \<Rightarrow> string \<Rightarrow> memory_pod \<Rightarrow> (provider_exn + provider_resource) \<times> memory_pod" where
  "memory_start resource_id operation_id m =
     (case dget (mp_resources m) resource_id of
        None \<Rightarrow> (Inl (ResourceNotFound (''provider resource is absent: '' @ resource_id)), m)
      | Some r \<Rightarrow>
          let effect = \<lparr>eff_kind = ''start'', eff_operation_id = operation_id,
                        eff_resource_id = Some resource_id\<rparr>;
              resource = r\<lparr>res_state := Pod_RUNNING\<rparr>
          in raise_if_injected ''start'' operation_id resource
               (m\<lparr>mp_effects := mp_effects m @ [effect],
                  mp_resources := dput resource_id resource (mp_resources m)\<rparr>))"

definition memory_delete ::
  "string \<Rightarrow> string \<Rightarrow> memory_pod \<Rightarrow> (provider_exn + delete_receipt) \<times> memory_pod" where
  "memory_delete resource_id operation_id m =
     (let effect = \<lparr>eff_kind = ''delete'', eff_operation_id = operation_id,
                    eff_resource_id = Some resource_id\<rparr>;
          already_absent = (dget (mp_resources m) resource_id = None)
      in raise_if_injected ''delete'' operation_id
           \<lparr>dr_operation_id = operation_id, dr_acknowledged = True,
            dr_already_absent = already_absent\<rparr>
           (m\<lparr>mp_effects := mp_effects m @ [effect],
              mp_resources := AList.delete resource_id (mp_resources m)\<rparr>))"

definition memory_spend ::
  "string option \<Rightarrow> memory_pod \<Rightarrow> (provider_exn + decimal) \<times> memory_pod" where
  "memory_spend resource_id m =
     (Inr (case mp_forced_spend m of
             Some d \<Rightarrow> d
           | None \<Rightarrow>
               (case resource_id of
                  None \<Rightarrow> dec_sum (map res_hourly_rate_usd (dvalues (mp_resources m)))
                | Some i \<Rightarrow>
                    (case dget (mp_resources m) i of
                       None \<Rightarrow> dec_zero
                     | Some r \<Rightarrow> if res_state r = Pod_STOPPED then dec_zero
                                 else res_hourly_rate_usd r))), m)"

definition memory_provider :: "memory_pod provider" where
  "memory_provider = \<lparr>p_find = memory_find, p_create = memory_create, p_get = memory_get,
     p_start = memory_start, p_delete = memory_delete, p_spend = memory_spend\<rparr>"

section \<open>The contract of a well-behaved provider\<close>

text \<open>
  \<open>pods w\<close> is the fleet of a world, \<open>ok w\<close> the worlds in which the provider neither fails nor
  lies, \<open>admits\<close> the create requests it accepts.
\<close>

locale provider_contract =
  fixes P :: "'w provider"
    and pods :: "'w \<Rightarrow> string \<Rightarrow> provider_resource option"
    and ok :: "'w \<Rightarrow> bool"
    and admits :: "provider_create_request \<Rightarrow> bool"
  assumes named: "ok w \<Longrightarrow> pods w i = Some r \<Longrightarrow> res_id r = i"
    and find_spec: "ok w \<Longrightarrow> \<exists>rs. p_find P operation_id w = (Inr rs, w) \<and> distinct (map res_id rs) \<and>
      set rs = {r. \<exists>i. pods w i = Some r \<and> res_create_operation_id r = operation_id}"
    and create_spec: "ok w \<Longrightarrow> admits request \<Longrightarrow>
      \<exists>r w'. p_create P request w = (Inr r, w') \<and> ok w' \<and> pods w (res_id r) = None \<and>
        pods w' = (pods w)(res_id r \<mapsto> r) \<and> res_run_id r = cr_run_id request \<and>
        res_create_operation_id r = cr_operation_id request"
    and get_spec: "ok w \<Longrightarrow> p_get P i w = (Inr (pods w i), w)"
    and start_spec: "ok w \<Longrightarrow> pods w i = Some r \<Longrightarrow>
      \<exists>w'. p_start P i operation_id w = (Inr (r\<lparr>res_state := Pod_RUNNING\<rparr>), w') \<and> ok w' \<and>
        pods w' = (pods w)(i \<mapsto> r\<lparr>res_state := Pod_RUNNING\<rparr>)"
    and delete_spec: "ok w \<Longrightarrow>
      \<exists>b w'. p_delete P i operation_id w =
        (Inr \<lparr>dr_operation_id = operation_id, dr_acknowledged = True, dr_already_absent = b\<rparr>, w') \<and>
        ok w' \<and> pods w' = (pods w)(i := None)"
    and spend_spec: "ok w \<Longrightarrow> pods w i = None \<Longrightarrow>
      \<exists>d. p_spend P (Some i) w = (Inr d, w) \<and> is_finite d \<and> dec_val d = 0"
begin

text \<open>What was created with an operation's id is what \<open>find_resources\<close> reports for it.\<close>

lemma found_after_create:
  assumes "ok w" and "admits request"
    and "\<And>i r. pods w i = Some r \<Longrightarrow> res_create_operation_id r \<noteq> cr_operation_id request"
    and "p_create P request w = (Inr r, w')"
  shows "p_find P (cr_operation_id request) w' = (Inr [r], w')"
proof -
  from create_spec [OF assms(1,2)] assms(4) have w': "ok w'" "pods w' = (pods w)(res_id r \<mapsto> r)"
      "res_create_operation_id r = cr_operation_id request"
    by auto
  obtain rs where rs: "p_find P (cr_operation_id request) w' = (Inr rs, w')" "distinct (map res_id rs)"
      "set rs = {q. \<exists>i. pods w' i = Some q \<and> res_create_operation_id q = cr_operation_id request}"
    using find_spec [OF w'(1)] by blast
  have "set rs = {r}" using rs(3) w'(2,3) assms(3) by (auto split: if_splits)
  moreover have "distinct rs" using rs(2) by (simp add: distinct_map)
  ultimately have "rs = [r]"
    by (cases rs; cases "tl rs") (auto simp: subset_singleton_iff)
  with rs(1) show ?thesis by simp
qed

lemma none_left_after_delete:
  assumes "ok w" and "\<And>j q. pods w j = Some q \<Longrightarrow> res_create_operation_id q = op \<Longrightarrow> j = i"
    and "p_delete P i d w = (Inr receipt, w')"
  shows "p_find P op w' = (Inr [], w') \<and> p_get P i w' = (Inr None, w')"
proof -
  from delete_spec [OF assms(1), of i d] assms(3) have w': "ok w'" "pods w' = (pods w)(i := None)"
    by auto
  obtain rs where rs: "p_find P op w' = (Inr rs, w')"
      "set rs = {q. \<exists>j. pods w' j = Some q \<and> res_create_operation_id q = op}"
    using find_spec [OF w'(1)] by blast
  have "set rs = {}"
    unfolding rs(2) using w'(2) assms(2) by (auto split: if_splits)
  then have "p_find P op w' = (Inr [], w')" using rs(1) by simp
  then show ?thesis using get_spec [OF w'(1)] w'(2) by simp
qed

end

section \<open>The fake keeps the contract\<close>

lemma memory_id_inj: "memory_id m = memory_id n \<Longrightarrow> m = n"
proof -
  assume "memory_id m = memory_id n"
  then have "read_nat (drop 11 (memory_id m)) = read_nat (drop 11 (memory_id n))" by simp
  then show "m = n" by (simp add: memory_id_def Let_def read_nat_zeros_prefix)
qed

definition memory_ok :: "memory_pod \<Rightarrow> bool" where
  "memory_ok m \<longleftrightarrow> mp_fail_after_effect m = [] \<and> mp_forced_spend m = None \<and>
     wf_dict (mp_resources m) \<and>
     (\<forall>(i, r) \<in> set (mp_resources m). res_id r = i \<and>
        (\<exists>n < mp_next_resource_number m. i = memory_id n))"

definition memory_admits :: "provider_create_request \<Rightarrow> bool" where
  "memory_admits request \<longleftrightarrow>
     \<not> isl (decimal_from_spec (get_or (cr_spec request) ''hourly_rate_usd'' (PStr ''1'')))"

lemma memory_ok_entry:
  assumes "memory_ok m" and "dget (mp_resources m) i = Some r"
  shows "res_id r = i" and "\<exists>n < mp_next_resource_number m. i = memory_id n"
  using assms by (auto simp: memory_ok_def dest!: map_of_SomeD)

lemma memory_ok_put:
  assumes "memory_ok m" and "res_id r = i" and "n < k" "i = memory_id n" "mp_next_resource_number m \<le> k"
    and "m' = m\<lparr>mp_resources := dput i r (mp_resources m), mp_next_resource_number := k, mp_effects := es\<rparr>"
  shows "memory_ok m'"
proof -
  have wf: "wf_dict (mp_resources m)" using assms(1) by (simp add: memory_ok_def)
  have old: "res_id q = j \<and> (\<exists>n<k. j = memory_id n)" if "(j, q) \<in> set (mp_resources m)" for j q
  proof -
    have "dget (mp_resources m) j = Some q" using wf that by (rule map_of_is_SomeI)
    note e = memory_ok_entry [OF assms(1) this]
    then obtain n where "n < mp_next_resource_number m" "j = memory_id n" by (elim exE conjE)
    with assms(5) e(1) show ?thesis by (intro conjI exI [of _ n]) simp_all
  qed
  have entry: "res_id q = j \<and> (\<exists>n<k. j = memory_id n)"
    if "(j, q) \<in> set (dput i r (mp_resources m))" for j q
    using set_dputD [OF that] assms(2-4) old [of j q] by auto
  have "wf_dict (dput i r (mp_resources m))" using assms(1) by (simp add: memory_ok_def)
  moreover have "mp_fail_after_effect m = []" "mp_forced_spend m = None"
    using assms(1) by (simp_all add: memory_ok_def)
  ultimately show ?thesis using entry unfolding memory_ok_def assms(6) by auto
qed

lemma memory_fresh:
  assumes "memory_ok m"
  shows "dget (mp_resources m) (memory_id (mp_next_resource_number m)) = None"
proof (rule ccontr)
  assume "dget (mp_resources m) (memory_id (mp_next_resource_number m)) \<noteq> None"
  then obtain r where "dget (mp_resources m) (memory_id (mp_next_resource_number m)) = Some r" by auto
  then obtain n where "n < mp_next_resource_number m"
      "memory_id (mp_next_resource_number m) = memory_id n"
    using memory_ok_entry(2) [OF assms] by blast
  then show False by (auto dest: memory_id_inj)
qed

lemma memory_find_spec:
  assumes "memory_ok m"
  shows "\<exists>rs. memory_find op m = (Inr rs, m) \<and> distinct (map res_id rs) \<and>
    set rs = {r. \<exists>i. dget (mp_resources m) i = Some r \<and> res_create_operation_id r = op}"
proof -
  have wf: "wf_dict (mp_resources m)" using assms by (simp add: memory_ok_def)
  have named: "res_id r = i" if "(i, r) \<in> set (mp_resources m)" for i r
    using memory_ok_entry(1) [OF assms map_of_is_SomeI [OF wf that]] .
  have "map res_id (dvalues (mp_resources m)) = dkeys (mp_resources m)"
    using named by (auto intro: map_cong)
  then have d: "distinct (map res_id (filter Q (dvalues (mp_resources m))))" for Q
    using wf by (metis distinct_map_filter)
  have s: "r \<in> set (dvalues (mp_resources m)) \<longleftrightarrow> (\<exists>i. dget (mp_resources m) i = Some r)" for r
    using wf by (force intro: dget_in_values)
  let ?rs = "filter (\<lambda>r. res_create_operation_id r = op) (dvalues (mp_resources m))"
  have "set ?rs = {r. \<exists>i. dget (mp_resources m) i = Some r \<and> res_create_operation_id r = op}"
    using s by (simp only: set_filter) blast
  moreover have "distinct (map res_id ?rs)" by (rule d)
  moreover have "memory_find op m = (Inr ?rs, m)" by (simp add: memory_find_def)
  ultimately show ?thesis by blast
qed

lemma memory_create_spec:
  assumes ok: "memory_ok m" and "memory_admits request"
  shows "\<exists>r m'. memory_create request m = (Inr r, m') \<and> memory_ok m' \<and>
    dget (mp_resources m) (res_id r) = None \<and>
    dget (mp_resources m') = (dget (mp_resources m))(res_id r \<mapsto> r) \<and>
    res_run_id r = cr_run_id request \<and> res_create_operation_id r = cr_operation_id request"
proof -
  let ?i = "memory_id (mp_next_resource_number m)"
  obtain rate where rate:
    "decimal_from_spec (get_or (cr_spec request) ''hourly_rate_usd'' (PStr ''1'')) = Inr rate"
    using assms(2) unfolding memory_admits_def by (metis sum.collapse(2))
  define r where "r = \<lparr>res_id = ?i, res_run_id = cr_run_id request,
    res_create_operation_id = cr_operation_id request, res_name = cr_resource_name request,
    res_state = Pod_PROVISIONED, res_hourly_rate_usd = rate\<rparr>"
  define m' where "m' = m\<lparr>mp_resources := dput ?i r (mp_resources m),
    mp_next_resource_number := mp_next_resource_number m + 1,
    mp_effects := mp_effects m @ [\<lparr>eff_kind = ''provision'', eff_operation_id = cr_operation_id request,
                    eff_resource_id = Some ?i\<rparr>]\<rparr>"
  have "mp_fail_after_effect m = []" using ok by (simp add: memory_ok_def)
  then have "memory_create request m = (Inr r, m')"
    by (simp add: memory_create_def Let_def rate raise_if_injected_def r_def m'_def)
  moreover have "memory_ok m'"
    by (rule memory_ok_put [OF ok _ _ refl _ m'_def]) (simp_all add: r_def)
  moreover have "dget (mp_resources m') = (dget (mp_resources m))(?i \<mapsto> r)"
    by (simp add: m'_def fun_eq_iff)
  ultimately show ?thesis
    using memory_fresh [OF ok]
    by (intro exI [of _ r] exI [of _ m']) (simp add: r_def fun_eq_iff)
qed

lemma memory_start_spec:
  assumes ok: "memory_ok m" and r: "dget (mp_resources m) i = Some r"
  shows "\<exists>m'. memory_start i op m = (Inr (r\<lparr>res_state := Pod_RUNNING\<rparr>), m') \<and> memory_ok m' \<and>
    dget (mp_resources m') = (dget (mp_resources m))(i \<mapsto> r\<lparr>res_state := Pod_RUNNING\<rparr>)"
proof -
  define m' where "m' = m\<lparr>mp_resources := dput i (r\<lparr>res_state := Pod_RUNNING\<rparr>) (mp_resources m),
    mp_next_resource_number := mp_next_resource_number m,
    mp_effects := mp_effects m @ [\<lparr>eff_kind = ''start'', eff_operation_id = op,
                    eff_resource_id = Some i\<rparr>]\<rparr>"
  obtain n where n: "n < mp_next_resource_number m" "i = memory_id n"
    using memory_ok_entry(2) [OF ok r] by (elim exE conjE)
  have "res_id (r\<lparr>res_state := Pod_RUNNING\<rparr>) = i" using memory_ok_entry(1) [OF ok r] by simp
  then have "memory_ok m'"
    by (rule memory_ok_put [OF ok _ n order_refl m'_def])
  moreover have "mp_fail_after_effect m = []" using ok by (simp add: memory_ok_def)
  then have "memory_start i op m = (Inr (r\<lparr>res_state := Pod_RUNNING\<rparr>), m')"
    using r by (cases m) (simp add: memory_start_def Let_def raise_if_injected_def m'_def)
  moreover have "dget (mp_resources m') = (dget (mp_resources m))(i \<mapsto> r\<lparr>res_state := Pod_RUNNING\<rparr>)"
    by (simp add: m'_def fun_eq_iff)
  ultimately show ?thesis by blast
qed

lemma memory_delete_spec:
  assumes ok: "memory_ok m"
  shows "\<exists>b m'. memory_delete i op m =
      (Inr \<lparr>dr_operation_id = op, dr_acknowledged = True, dr_already_absent = b\<rparr>, m') \<and>
    memory_ok m' \<and> dget (mp_resources m') = (dget (mp_resources m))(i := None)"
proof -
  define m' where "m' = m\<lparr>mp_effects := mp_effects m @ [\<lparr>eff_kind = ''delete'', eff_operation_id = op,
                    eff_resource_id = Some i\<rparr>], mp_resources := AList.delete i (mp_resources m)\<rparr>"
  have f: "mp_fail_after_effect m = []" using ok by (simp add: memory_ok_def)
  have "memory_ok m'"
    using ok by (auto simp: memory_ok_def m'_def AList.delete_eq intro: distinct_map_filter)
  moreover have "memory_delete i op m = (Inr \<lparr>dr_operation_id = op, dr_acknowledged = True,
      dr_already_absent = (dget (mp_resources m) i = None)\<rparr>, m')"
    by (simp add: memory_delete_def Let_def raise_if_injected_def m'_def f)
  moreover have "dget (mp_resources m') = (dget (mp_resources m))(i := None)"
    by (simp add: m'_def AList.delete_conv fun_eq_iff)
  ultimately show ?thesis by blast
qed

interpretation memory: provider_contract memory_provider
    "\<lambda>m. dget (mp_resources m)" memory_ok memory_admits
proof
  show "\<And>w i r. memory_ok w \<Longrightarrow> dget (mp_resources w) i = Some r \<Longrightarrow> res_id r = i"
    by (rule memory_ok_entry(1))
  show "\<And>w i. memory_ok w \<Longrightarrow> p_get memory_provider i w = (Inr (dget (mp_resources w) i), w)"
    by (simp add: memory_provider_def memory_get_def)
  show "\<And>w i. memory_ok w \<Longrightarrow> dget (mp_resources w) i = None \<Longrightarrow>
    \<exists>d. p_spend memory_provider (Some i) w = (Inr d, w) \<and> is_finite d \<and> dec_val d = 0"
    by (simp add: memory_provider_def memory_spend_def memory_ok_def)
qed (simp_all only: memory_provider_def provider.simps memory_find_spec memory_create_spec
    memory_start_spec memory_delete_spec)

end
