(* ===== verification/PyDatetime.thy ===== *)
theory PyDatetime
  imports PyDecimal
begin

text \<open>
  Python's \<open>datetime\<close>: calendar fields with an optional UTC offset, \<open>isoformat\<close>,
  \<open>fromisoformat\<close>, and the ordering and differences of aware values.  Offsets and differences are
  in microseconds.  ISO week dates are not modelled: \<open>fromisoformat\<close> reads them as invalid.
\<close>

record datetime =
  dt_year :: nat
  dt_month :: nat
  dt_day :: nat
  dt_hour :: nat
  dt_minute :: nat
  dt_second :: nat
  dt_micro :: nat
  dt_offset :: "int option"

section \<open>The calendar\<close>

definition leap_year :: "nat \<Rightarrow> bool" where
  "leap_year y \<longleftrightarrow> y mod 4 = 0 \<and> (y mod 100 \<noteq> 0 \<or> y mod 400 = 0)"

definition days_in_month :: "nat \<Rightarrow> nat \<Rightarrow> nat" where
  "days_in_month y m =
     (if m = 2 then (if leap_year y then 29 else 28)
      else if m \<in> {4, 6, 9, 11} then 30 else 31)"

definition days_before_month :: "nat \<Rightarrow> nat \<Rightarrow> nat" where
  "days_before_month y m = sum_list (map (days_in_month y) [1..<m])"

definition days_before_year :: "nat \<Rightarrow> nat" where
  "days_before_year y = (let p = y - 1 in p * 365 + p div 4 - p div 100 + p div 400)"

definition valid_datetime :: "datetime \<Rightarrow> bool" where
  "valid_datetime t \<longleftrightarrow>
     1 \<le> dt_year t \<and> dt_year t \<le> 9999 \<and> 1 \<le> dt_month t \<and> dt_month t \<le> 12 \<and>
     1 \<le> dt_day t \<and> dt_day t \<le> days_in_month (dt_year t) (dt_month t) \<and>
     dt_hour t < 24 \<and> dt_minute t < 60 \<and> dt_second t < 60 \<and> dt_micro t < 1000000 \<and>
     (case dt_offset t of None \<Rightarrow> True | Some z \<Rightarrow> \<bar>z\<bar> < 86400000000)"

text \<open>Microseconds since the start of year 1, UTC.\<close>

definition utc_micros :: "datetime \<Rightarrow> int" where
  "utc_micros t =
     ((int (days_before_year (dt_year t) + days_before_month (dt_year t) (dt_month t) + dt_day t)
        * 86400 + int (dt_hour t * 3600 + dt_minute t * 60 + dt_second t)) * 1000000
       + int (dt_micro t))
     - (case dt_offset t of None \<Rightarrow> 0 | Some z \<Rightarrow> z)"

definition aware :: "datetime \<Rightarrow> bool" where
  "aware t \<longleftrightarrow> dt_offset t \<noteq> None"

definition dt_before :: "datetime \<Rightarrow> datetime \<Rightarrow> bool" where
  "dt_before t u \<longleftrightarrow> utc_micros t < utc_micros u"

text \<open>\<open>(t - u).total_seconds()\<close>, as an exact number.\<close>

definition total_seconds :: "datetime \<Rightarrow> datetime \<Rightarrow> rat" where
  "total_seconds t u = of_int (utc_micros t - utc_micros u) / 1000000"

section \<open>isoformat\<close>

fun digits_of :: "nat \<Rightarrow> nat \<Rightarrow> string" where
  "digits_of 0 n = []"
| "digits_of (Suc k) n = digits_of k (n div 10) @ [digit_char (n mod 10)]"

definition iso_time :: "nat \<Rightarrow> nat \<Rightarrow> nat \<Rightarrow> nat \<Rightarrow> string" where
  "iso_time h m s us =
     digits_of 2 h @ '':'' @ digits_of 2 m @ '':'' @ digits_of 2 s @
     (if us = 0 then [] else ''.'' @ digits_of 6 us)"

definition iso_offset :: "int \<Rightarrow> string" where
  "iso_offset z =
     (let a = nat \<bar>z\<bar>; us = a mod 1000000; s = a div 1000000 in
      (if z < 0 then ''-'' else ''+'') @
      (if us = 0 \<and> s mod 60 = 0
       then digits_of 2 (s div 3600) @ '':'' @ digits_of 2 (s div 60 mod 60)
       else iso_time (s div 3600) (s div 60 mod 60) (s mod 60) us))"

text \<open>For evaluation: the same on integers.\<close>

lemma iso_offset_code [code]:
  "iso_offset z =
     (let a = \<bar>z\<bar>; us = nat (a mod 1000000); s = a div 1000000; m = nat (s mod 60) in
      (if z < 0 then ''-'' else ''+'') @
      (if us = 0 \<and> m = 0
       then digits_of 2 (nat (s div 3600)) @ '':'' @ digits_of 2 (nat (s div 60 mod 60))
       else iso_time (nat (s div 3600)) (nat (s div 60 mod 60)) m us))"
  unfolding iso_offset_def Let_def by (simp add: nat_mod_distrib nat_div_distrib)

definition isoformat :: "datetime \<Rightarrow> string" where
  "isoformat t =
     digits_of 4 (dt_year t) @ ''-'' @ digits_of 2 (dt_month t) @ ''-'' @ digits_of 2 (dt_day t) @
     ''T'' @ iso_time (dt_hour t) (dt_minute t) (dt_second t) (dt_micro t) @
     (case dt_offset t of None \<Rightarrow> [] | Some z \<Rightarrow> iso_offset z)"

section \<open>fromisoformat\<close>

text \<open>Exactly \<open>k\<close> digits off the front.\<close>

definition take_digits :: "nat \<Rightarrow> string \<Rightarrow> (nat \<times> string) option" where
  "take_digits k s =
     (if length s < k \<or> \<not> list_all is_digit (take k s) then None
      else Some (read_nat (take k s), drop k s))"

fun read_fraction :: "string \<Rightarrow> nat option" where
  "read_fraction [] = Some 0"
| "read_fraction (c # s) =
     (if (c = CHR ''.'' \<or> c = CHR '','') \<and> s \<noteq> [] \<and> list_all is_digit s
      then Some (read_nat (take 6 s) * 10 ^ (6 - length s)) else None)"

text \<open>\<open>HH[:MM[:SS[.f+]]]\<close> or \<open>HH[MM[SS[.f+]]]\<close>.\<close>

definition read_clock :: "string \<Rightarrow> (nat \<times> nat \<times> nat \<times> nat) option" where
  "read_clock s =
     (case take_digits 2 s of None \<Rightarrow> None
      | Some (h, []) \<Rightarrow> Some (h, 0, 0, 0)
      | Some (h, c # r) \<Rightarrow>
          let sep = (c = CHR '':'') in
          (case take_digits 2 (if sep then r else c # r) of None \<Rightarrow> None
           | Some (m, []) \<Rightarrow> Some (h, m, 0, 0)
           | Some (m, c' # r') \<Rightarrow>
               if sep \<and> c' \<noteq> CHR '':'' then None
               else (case take_digits 2 (if sep then r' else c' # r') of None \<Rightarrow> None
                | Some (x, f) \<Rightarrow>
                    (case read_fraction f of None \<Rightarrow> None | Some us \<Rightarrow> Some (h, m, x, us)))))"

definition zone_mark :: "char \<Rightarrow> bool" where
  "zone_mark c \<longleftrightarrow> c = CHR ''+'' \<or> c = CHR ''-'' \<or> c = CHR ''Z''"

definition clock_micros :: "nat \<times> nat \<times> nat \<times> nat \<Rightarrow> int" where
  "clock_micros p =
     (case p of (h, m, s, us) \<Rightarrow> int ((h * 3600 + m * 60 + s) * 1000000 + us))"

fun read_zone :: "string \<Rightarrow> int option option" where
  "read_zone [] = Some None"
| "read_zone (c # s) =
     (if c = CHR ''Z'' then (if s = [] then Some (Some 0) else None)
      else (case read_clock s of None \<Rightarrow> None
            | Some p \<Rightarrow>
                Some (Some (if c = CHR ''-'' then - clock_micros p else clock_micros p))))"

definition read_time ::
  "nat \<Rightarrow> nat \<Rightarrow> nat \<Rightarrow> string \<Rightarrow> datetime option" where
  "read_time y m d s =
     (case read_clock (takeWhile (\<lambda>c. \<not> zone_mark c) s) of None \<Rightarrow> None
      | Some (h, mi, sec, us) \<Rightarrow>
          (case read_zone (dropWhile (\<lambda>c. \<not> zone_mark c) s) of None \<Rightarrow> None
           | Some z \<Rightarrow>
               let t = \<lparr>dt_year = y, dt_month = m, dt_day = d, dt_hour = h, dt_minute = mi,
                        dt_second = sec, dt_micro = us, dt_offset = z\<rparr>
               in if valid_datetime t then Some t else None))"

definition read_date :: "string \<Rightarrow> (nat \<times> nat \<times> nat \<times> string) option" where
  "read_date s =
     (case take_digits 4 s of
        Some (y, c # r) \<Rightarrow>
          let sep = (c = CHR ''-'') in
          (case take_digits 2 (if sep then r else c # r) of
             Some (m, c' # r') \<Rightarrow>
               if sep \<and> c' \<noteq> CHR ''-'' then None
               else (case take_digits 2 (if sep then r' else c' # r') of
                       Some (d, rest) \<Rightarrow> Some (y, m, d, rest)
                     | None \<Rightarrow> None)
           | _ \<Rightarrow> None)
      | _ \<Rightarrow> None)"

definition fromisoformat :: "string \<Rightarrow> datetime option" where
  "fromisoformat s =
     (case read_date s of
        None \<Rightarrow> None
      | Some (y, m, d, []) \<Rightarrow>
          let t = \<lparr>dt_year = y, dt_month = m, dt_day = d, dt_hour = 0, dt_minute = 0,
                   dt_second = 0, dt_micro = 0, dt_offset = None\<rparr>
          in if valid_datetime t then Some t else None
      | Some (y, m, d, c # r) \<Rightarrow> read_time y m d r)"

section \<open>Writing and reading back\<close>

lemma length_digits_of [simp]: "length (digits_of k n) = k"
  by (induction k arbitrary: n) auto

lemma digits_of_digits [simp]: "list_all is_digit (digits_of k n)"
  by (induction k arbitrary: n) auto

lemma read_digits_of: "read_nat (digits_of k n) = n mod 10 ^ k"
proof (induction k arbitrary: n)
  case (Suc k)
  have "n mod 10 ^ Suc k = 10 * (n div 10 mod 10 ^ k) + n mod 10"
    using mod_mult2_eq [of n 10 "10 ^ k"] by simp
  then show ?case using Suc by (simp add: read_nat_snoc)
qed (simp add: read_nat_def)

lemma take_digits_of [simp]:
  "n < 10 ^ k \<Longrightarrow> take_digits k (digits_of k n @ s) = Some (n, s)"
  by (simp add: take_digits_def read_digits_of)

lemma take_digits_of_end [simp]: "n < 10 ^ k \<Longrightarrow> take_digits k (digits_of k n) = Some (n, [])"
  using take_digits_of [of n k "[]"] by simp

lemma digits_of_not_mark: "c \<in> set (digits_of k n) \<Longrightarrow> \<not> zone_mark c"
proof -
  assume "c \<in> set (digits_of k n)"
  then have "is_digit c" using digits_of_digits by (metis list_all_iff)
  then show ?thesis by (auto simp: zone_mark_def is_digit_def less_eq_char_def)
qed

lemma read_clock_iso:
  assumes "h < 100" "m < 100" "s < 100" "us < 1000000"
  shows "read_clock (iso_time h m s us) = Some (h, m, s, us)"
proof -
  have colon: "digits_of 2 n @ CHR '':'' # r \<noteq> []" for n r by simp
  show ?thesis
  proof (cases "us = 0")
    case True
    then show ?thesis using assms
      by (simp add: read_clock_def iso_time_def)
  next
    case False
    have "read_fraction (CHR ''.'' # digits_of 6 us) = Some us"
      using assms(4) length_digits_of [of 6 us]
      by (auto simp: read_digits_of simp del: length_digits_of digits_of.simps)
    then show ?thesis using assms False
      by (simp add: read_clock_def iso_time_def)
  qed
qed

lemma iso_time_no_mark: "c \<in> set (iso_time h m s us) \<Longrightarrow> \<not> zone_mark c"
  by (auto simp: iso_time_def zone_mark_def dest: digits_of_not_mark split: if_splits)

lemma clock_parts:
  fixes a :: nat
  shows "(a div 1000000 div 3600 * 3600 + a div 1000000 div 60 mod 60 * 60 + a div 1000000 mod 60)
     * 1000000 + a mod 1000000 = a"
proof -
  have s: "s div 3600 * 3600 + s div 60 mod 60 * 60 + s mod 60 = s" for s :: nat
  proof -
    have "s div 3600 = s div 60 div 60" by (simp add: div_mult2_eq [symmetric])
    moreover have "s div 60 div 60 * 60 + s div 60 mod 60 = s div 60" by simp
    moreover have "s div 60 * 60 + s mod 60 = s" by simp
    ultimately show ?thesis by linarith
  qed
  show ?thesis by (simp add: s)
qed

lemma read_zone_iso:
  assumes "\<bar>z\<bar> < 86400000000"
  shows "read_zone (iso_offset z) = Some (Some z)"
proof -
  let ?a = "nat \<bar>z\<bar>"
  let ?s = "?a div 1000000"
  have a: "?a < 86400000000" using assms by simp
  then have s: "?s < 86400" by simp
  then have h: "?s div 3600 < 24" by simp
  have r: "read_clock (if ?a mod 1000000 = 0 \<and> ?s mod 60 = 0
       then digits_of 2 (?s div 3600) @ '':'' @ digits_of 2 (?s div 60 mod 60)
       else iso_time (?s div 3600) (?s div 60 mod 60) (?s mod 60) (?a mod 1000000)) =
     Some (?s div 3600, ?s div 60 mod 60, ?s mod 60, ?a mod 1000000)"
  proof (cases "?a mod 1000000 = 0 \<and> ?s mod 60 = 0")
    case True
    moreover have "?s div 3600 < 10 ^ 2" "?s div 60 mod 60 < 10 ^ 2"
      using h by (auto intro: less_trans [OF mod_less_divisor])
    ultimately show ?thesis
      unfolding read_clock_def by simp
  next
    case False
    moreover have "?s div 60 mod 60 < 100" "?s mod 60 < 100"
      by (auto intro: less_trans [OF mod_less_divisor])
    ultimately show ?thesis
      using h by (simp only: if_False) (rule read_clock_iso, simp_all)
  qed
  let ?body = "if ?a mod 1000000 = 0 \<and> ?s mod 60 = 0
       then digits_of 2 (?s div 3600) @ '':'' @ digits_of 2 (?s div 60 mod 60)
       else iso_time (?s div 3600) (?s div 60 mod 60) (?s mod 60) (?a mod 1000000)"
  have c: "clock_micros (?s div 3600, ?s div 60 mod 60, ?s mod 60, ?a mod 1000000) = \<bar>z\<bar>"
    unfolding clock_micros_def prod.case clock_parts by simp
  have body: "read_zone ((if z < 0 then ''-'' else ''+'') @ b) =
      Some (Some (if z < 0 then - clock_micros p else clock_micros p))"
    if "read_clock b = Some p" for b p
    using that by simp
  have "read_zone (iso_offset z) = Some (Some (if z < 0 then - \<bar>z\<bar> else \<bar>z\<bar>))"
    unfolding iso_offset_def Let_def using body [OF r] unfolding c .
  then show ?thesis by (cases "z < 0") simp_all
qed

lemma iso_offset_mark: "\<exists>c r. iso_offset z = c # r \<and> zone_mark c"
  by (auto simp: iso_offset_def Let_def zone_mark_def)

theorem fromisoformat_isoformat [simp]:
  assumes "valid_datetime t"
  shows "fromisoformat (isoformat t) = Some t"
proof -
  define clock where "clock = iso_time (dt_hour t) (dt_minute t) (dt_second t) (dt_micro t)"
  define zone where "zone = (case dt_offset t of None \<Rightarrow> [] | Some z \<Rightarrow> iso_offset z)"
  have b: "dt_year t < 10 ^ 4" "dt_month t < 10 ^ 2" "dt_day t < 10 ^ 2"
      "dt_hour t < 100" "dt_minute t < 100" "dt_second t < 100" "dt_micro t < 1000000"
    using assms by (auto simp: valid_datetime_def days_in_month_def split: if_splits)
  have z: "zone = [] \<or> (\<exists>c r. zone = c # r \<and> zone_mark c)"
    using iso_offset_mark by (auto simp: zone_def split: option.split)
  have tw: "takeWhile (\<lambda>c. \<not> zone_mark c) (clock @ zone) = clock"
    "dropWhile (\<lambda>c. \<not> zone_mark c) (clock @ zone) = zone"
    using z iso_time_no_mark
    by (auto simp: clock_def takeWhile_append2 dropWhile_append2 takeWhile_eq_all_conv)
  have zone: "read_zone zone = Some (dt_offset t)"
    using assms by (auto simp: zone_def valid_datetime_def intro!: read_zone_iso split: option.splits)
  have clock: "read_clock clock = Some (dt_hour t, dt_minute t, dt_second t, dt_micro t)"
    unfolding clock_def using b by (intro read_clock_iso)
  have "read_time (dt_year t) (dt_month t) (dt_day t) (clock @ zone) = Some t"
    unfolding read_time_def tw zone clock using assms by (cases t) (simp add: Let_def)
  moreover have "read_date (isoformat t) =
      Some (dt_year t, dt_month t, dt_day t, CHR ''T'' # clock @ zone)"
    using b unfolding read_date_def isoformat_def clock_def zone_def by (simp add: Let_def)
  ultimately show ?thesis by (simp add: fromisoformat_def)
qed

end
