(* ===== verification/Lifecycle.thy ===== *)
theory Lifecycle
  imports RunStore Provider PyDatetime
begin

text \<open>
  \<open>lifecycle.py\<close>: the reconciliation of one run with its provider.  The state a run's journal holds is
  the record \<open>run_state\<close>; a field that the code adds later is an option (\<open>None\<close> while absent).  Every
  handler takes the run's files and the provider's world and returns its result with both; \<open>now\<close> is what
  the controller's clock reads (no path reads it twice).
\<close>

section \<open>Data\<close>

datatype workload_result = SUCCEEDED | FAILED | CANCELLED

datatype artifact_disposition = VERIFIED | PARTIAL_RECOVERED | UNAVAILABLE | NOT_APPLICABLE

fun workload_text :: "workload_result \<Rightarrow> string" where
  "workload_text SUCCEEDED = ''succeeded''"
| "workload_text FAILED = ''failed''"
| "workload_text CANCELLED = ''cancelled''"

fun disposition_text :: "artifact_disposition \<Rightarrow> string" where
  "disposition_text VERIFIED = ''verified''"
| "disposition_text PARTIAL_RECOVERED = ''partial_recovered''"
| "disposition_text UNAVAILABLE = ''unavailable''"
| "disposition_text NOT_APPLICABLE = ''not_applicable''"

definition optional_text :: "string option \<Rightarrow> pyval" where
  "optional_text v = (case v of None \<Rightarrow> PNone | Some t \<Rightarrow> PStr t)"

datatype operation_status =
    Intended | Dispatched | Outcome_unknown | Conflict | Rejected_status | Observed | Unresolved
  | Failed_status | Resource_not_found | Observed_running | Acknowledged | Acknowledged_all
  | Not_required_no_resource

record operation =
  op_id :: string
  op_status :: operation_status
  op_attempts :: int
  op_resource_id :: "string option"
  op_resource_ids :: "string list option"
  op_dispatched_at :: "string option"
  op_visibility_first_observed_at :: "string option"
  op_visibility_observations :: int
  op_last_visibility_observed_at :: "string option"
  op_last_error :: "string option"

text \<open>\<open>state["resource"]\<close>: \<open>_resource_projection\<close> of a provider resource, or an id alone.\<close>

record resource_view =
  rv_id :: string
  rv_run_id :: string
  rv_create_operation_id :: string
  rv_name :: string
  rv_state :: resource_state
  rv_hourly_rate_usd :: string

datatype resource_value = View resource_view | IdOnly string

fun resource_value_id :: "resource_value \<Rightarrow> string" where
  "resource_value_id (View v) = rv_id v"
| "resource_value_id (IdOnly i) = i"

datatype spend_proof = Provision_not_dispatched | Termination_deadline_absence

datatype spend_scope =
  Account_scope | Resource_scope string | Provision_scope string spend_proof | Run_scope

record provision_resolution =
  pr_source :: string
  pr_operation_id :: string
  pr_termination_deadline :: string
  pr_absence_first_observed_at :: string
  pr_confirmed_at :: string

record closeout =
  co_artifact_disposition :: "(artifact_disposition \<times> string option) option"
  co_delete_acknowledged :: bool
  co_delete_already_absent :: bool
  co_provider_not_found :: bool
  co_current_spend_usd_per_hour :: "string option"
  co_current_spend_scope :: "spend_scope option"
  co_delete_acknowledged_resource_ids :: "string list"
  co_provision_absence_confirmed :: bool
  co_provision_absence_first_observed_at :: "string option"
  co_provision_resolution :: "provision_resolution option"

record run_state = projection +
  rs_run_id :: string
  rs_workload_result :: "workload_result option"
  rs_approved_max_usd :: string
  rs_resource :: "resource_value option"
  rs_provision :: "operation option"
  rs_start :: "operation option"
  rs_delete :: "operation option"
  rs_recovery_reason :: "string option"
  rs_closeout :: closeout
  rs_quarantined_resource_ids :: "string list option"

text \<open>
  A controller: its visibility grace in seconds, and \<open>uuid5\<close> in the operation namespace, a function of
  the name.
\<close>

record controller =
  c_grace :: rat
  c_uuid5 :: "string \<Rightarrow> string"

definition absence_grace :: rat where
  "absence_grace = 5"

definition visibility_grace :: rat where
  "visibility_grace = 30"

definition uncertain_statuses :: "operation_status set" where
  "uncertain_statuses = {Dispatched, Outcome_unknown, Unresolved}"

definition new_controller :: "rat \<Rightarrow> (string \<Rightarrow> string) \<Rightarrow> exn + controller" where
  "new_controller grace uuid5 =
     (if grace \<le> 0 then Inl (ValueError ''provision visibility grace must be positive'')
      else Inr \<lparr>c_grace = grace, c_uuid5 = uuid5\<rparr>)"

datatype op_kind = Provision_op | Start_op | Delete_op

fun kind_name :: "op_kind \<Rightarrow> string" where
  "kind_name Provision_op = ''provision''"
| "kind_name Start_op = ''start''"
| "kind_name Delete_op = ''delete''"

fun get_op :: "op_kind \<Rightarrow> run_state \<Rightarrow> operation option" where
  "get_op Provision_op s = rs_provision s"
| "get_op Start_op s = rs_start s"
| "get_op Delete_op s = rs_delete s"

fun set_op :: "op_kind \<Rightarrow> operation \<Rightarrow> run_state \<Rightarrow> run_state" where
  "set_op Provision_op p s = s\<lparr>rs_provision := Some p\<rparr>"
| "set_op Start_op p s = s\<lparr>rs_start := Some p\<rparr>"
| "set_op Delete_op p s = s\<lparr>rs_delete := Some p\<rparr>"

definition new_operation :: "controller \<Rightarrow> string \<Rightarrow> op_kind \<Rightarrow> operation" where
  "new_operation c run_id kind =
     \<lparr>op_id = ''op-'' @ c_uuid5 c (''runpod-jobrunner/'' @ run_id @ ''/'' @ kind_name kind @ ''/1''),
      op_status = Intended, op_attempts = 0, op_resource_id = None, op_resource_ids = None,
      op_dispatched_at = None, op_visibility_first_observed_at = None,
      op_visibility_observations = 0, op_last_visibility_observed_at = None, op_last_error = None\<rparr>"

text \<open>\<open>operations.setdefault(kind, _new_operation(run_id, kind))\<close>.\<close>

definition default_op :: "controller \<Rightarrow> op_kind \<Rightarrow> run_state \<Rightarrow> run_state" where
  "default_op c kind s =
     (case get_op kind s of None \<Rightarrow> set_op kind (new_operation c (rs_run_id s) kind) s | Some _ \<Rightarrow> s)"

definition format_money :: "decimal \<Rightarrow> string" where
  "format_money d = (if dec_eq d dec_zero then ''0'' else format_f d)"

definition money_text :: "pyval \<Rightarrow> exn + string" where
  "money_text v =
     (let checked = (\<lambda>d. if \<not> is_finite d \<or> dec_lt d dec_zero then Inl (ValueError ''invalid money value'')
                        else Inr (format_money d))
      in case v of
           PStr s \<Rightarrow> (case dec_of_string s of None \<Rightarrow> Inl (ValueError ''invalid money value'')
                                            | Some d \<Rightarrow> checked d)
         | PDec d \<Rightarrow> checked d
         | _ \<Rightarrow> Inl (TypeError ''money must be a Decimal or decimal string''))"

definition resource_projection :: "provider_resource \<Rightarrow> resource_value" where
  "resource_projection r = View \<lparr>rv_id = res_id r, rv_run_id = res_run_id r,
     rv_create_operation_id = res_create_operation_id r, rv_name = res_name r,
     rv_state = res_state r, rv_hourly_rate_usd = format_money (res_hourly_rate_usd r)\<rparr>"

lemma resource_projection_id [simp]: "resource_value_id (resource_projection r) = res_id r"
  by (simp add: resource_projection_def)

definition aware_datetime_or_none :: "string \<Rightarrow> datetime option" where
  "aware_datetime_or_none s =
     (case fromisoformat s of None \<Rightarrow> None | Some t \<Rightarrow> if aware t then Some t else None)"

section \<open>The closeout receipt\<close>

text \<open>
  \<open>schemas/closeout-receipt-1.json\<close> on a typed state.  Its patterns are searched, so their \<open>$\<close> also
  found before a final newline.
\<close>

fun schema_money_digits :: "string \<Rightarrow> bool" where
  "schema_money_digits s =
     (let ip = takeWhile is_digit s; r = dropWhile is_digit s in
      ip \<noteq> [] \<and> (ip = ''0'' \<or> hd ip \<noteq> CHR ''0'') \<and>
      (r = [] \<or> hd r = CHR ''.'' \<and> tl r \<noteq> [] \<and> list_all is_digit (tl r)))"

definition schema_op_id :: "string \<Rightarrow> bool" where
  "schema_op_id s \<longleftrightarrow> take 3 s = ''op-'' \<and> 3 < length s \<and> s ! 3 \<noteq> CHR 10"

definition operation_valid :: "operation option \<Rightarrow> bool" where
  "operation_valid p = (case p of None \<Rightarrow> True | Some q \<Rightarrow> schema_op_id (op_id q) \<and> 0 \<le> op_attempts q)"

fun spend_scope_valid :: "spend_scope \<Rightarrow> bool" where
  "spend_scope_valid Account_scope = True"
| "spend_scope_valid (Resource_scope i) = (i \<noteq> [])"
| "spend_scope_valid (Provision_scope i p) = (i \<noteq> [])"
| "spend_scope_valid Run_scope = True"

definition ids_valid :: "string list \<Rightarrow> bool" where
  "ids_valid ids \<longleftrightarrow> [] \<notin> set ids \<and> distinct ids"

definition uncertain_provision :: "run_state \<Rightarrow> bool" where
  "uncertain_provision s =
     (case rs_provision s of None \<Rightarrow> False
      | Some p \<Rightarrow> 1 \<le> op_attempts p \<and> op_status p \<in> uncertain_statuses)"

definition closeout_receipt_valid :: "run_state \<Rightarrow> bool" where
  "closeout_receipt_valid s \<longleftrightarrow>
     before_final_newline safe_id (rs_run_id s) \<and>
     lifecycle s = CLOSED \<and>
     rs_workload_result s \<noteq> None \<and>
     before_final_newline schema_money_digits (rs_approved_max_usd s) \<and>
     (case rs_resource s of None \<Rightarrow> True | Some r \<Rightarrow> resource_value_id r \<noteq> []) \<and>
     operation_valid (rs_provision s) \<and> operation_valid (rs_start s) \<and> operation_valid (rs_delete s) \<and>
     co_artifact_disposition (rs_closeout s) \<noteq> None \<and>
     co_delete_acknowledged (rs_closeout s) \<and>
     co_provider_not_found (rs_closeout s) \<and>
     co_current_spend_usd_per_hour (rs_closeout s) = Some ''0'' \<and>
     (case co_current_spend_scope (rs_closeout s) of None \<Rightarrow> False | Some sc \<Rightarrow> spend_scope_valid sc) \<and>
     ids_valid (co_delete_acknowledged_resource_ids (rs_closeout s)) \<and>
     (case co_provision_resolution (rs_closeout s) of None \<Rightarrow> True
      | Some r \<Rightarrow> pr_source r = ''termination_deadline_elapsed'' \<and> schema_op_id (pr_operation_id r)) \<and>
     1 \<le> event_sequence s \<and>
     (case rs_quarantined_resource_ids s of None \<Rightarrow> True | Some ids \<Rightarrow> ids_valid ids) \<and>
     (rs_resource s = None \<and> uncertain_provision s \<longrightarrow>
        co_provision_absence_confirmed (rs_closeout s) \<and> co_provision_resolution (rs_closeout s) \<noteq> None)"

section \<open>Results, commits and checks\<close>

datatype lifecycle_exn = Fault exn | ProviderFault provider_exn

type_synonym files = "run_state run_files"
type_synonym 'w outcome = "(lifecycle_exn + run_state) \<times> files \<times> 'w"

definition commit :: "string \<Rightarrow> pydict \<Rightarrow> run_state \<Rightarrow> files \<Rightarrow> 'w \<Rightarrow> 'w outcome" where
  "commit kind payload s fs w =
     (case commit_state closeout_receipt_valid kind s payload fs of
        (Inl e, fs') \<Rightarrow> (Inl (Fault e), fs', w)
      | (Inr s', fs') \<Rightarrow> (Inr s', fs', w))"

text \<open>A commit followed by \<open>raise\<close>.\<close>

definition commit_raise ::
  "string \<Rightarrow> pydict \<Rightarrow> run_state \<Rightarrow> provider_exn \<Rightarrow> files \<Rightarrow> 'w \<Rightarrow> 'w outcome" where
  "commit_raise kind payload s e fs w =
     (case commit kind payload s fs w of
        (Inl e', fs', w') \<Rightarrow> (Inl e', fs', w')
      | (Inr _, fs', w') \<Rightarrow> (Inl (ProviderFault e), fs', w'))"

definition demand :: "exn + 'a \<Rightarrow> files \<Rightarrow> 'w \<Rightarrow> ('a \<Rightarrow> 'w outcome) \<Rightarrow> 'w outcome" where
  "demand r fs w k = (case r of Inl e \<Rightarrow> (Inl (Fault e), fs, w) | Inr a \<Rightarrow> k a)"

definition needed :: "string \<Rightarrow> 'a option \<Rightarrow> exn + 'a" where
  "needed name v =
     (case v of None \<Rightarrow> Inl (LifecycleConflictError (''state field '' @ name @ '' must be an object''))
      | Some a \<Rightarrow> Inr a)"

section \<open>Planning and the terminal records\<close>

definition initial_closeout :: closeout where
  "initial_closeout = \<lparr>co_artifact_disposition = None, co_delete_acknowledged = False,
     co_delete_already_absent = False, co_provider_not_found = False,
     co_current_spend_usd_per_hour = None, co_current_spend_scope = None,
     co_delete_acknowledged_resource_ids = [], co_provision_absence_confirmed = False,
     co_provision_absence_first_observed_at = None, co_provision_resolution = None\<rparr>"

definition initial_state :: "string \<Rightarrow> string \<Rightarrow> run_state" where
  "initial_state run_id approved = \<lparr>event_sequence = 0, lifecycle = PLANNED, rs_run_id = run_id,
     rs_workload_result = None, rs_approved_max_usd = approved, rs_resource = None,
     rs_provision = None, rs_start = None, rs_delete = None, rs_recovery_reason = None,
     rs_closeout = initial_closeout, rs_quarantined_resource_ids = None\<rparr>"

definition plan :: "string \<Rightarrow> pydict \<Rightarrow> pyval \<Rightarrow> files \<Rightarrow> (exn + run_state) \<times> files" where
  "plan run_id request approved_max_usd fs =
     (case bindR (money_text approved_max_usd) (\<lambda>approved.
           bindR (run_paths_of run_id) (\<lambda>_. Inr approved)) of
        Inl e \<Rightarrow> (Inl e, fs)
      | Inr approved \<Rightarrow>
          create_run closeout_receipt_valid (dput ''approved_max_usd'' (PStr approved) request)
            (initial_state run_id approved) fs)"

definition record_workload_result ::
  "workload_result \<Rightarrow> string option \<Rightarrow> files \<Rightarrow> (exn + run_state) \<times> files" where
  "record_workload_result result detail fs =
     (case effective_state fs of
        (Inl e, fs') \<Rightarrow> (Inl e, fs')
      | (Inr s, fs') \<Rightarrow>
          if rs_workload_result s = Some result then (Inr s, fs')
          else if rs_workload_result s \<noteq> None
          then (Inl (LifecycleConflictError ''terminal workload result already recorded''), fs')
          else if lifecycle s = CLOSED
          then (Inl (InvalidTransitionError ''cannot change workload result after closeout''), fs')
          else commit_state closeout_receipt_valid ''workload_terminal''
                 (s\<lparr>rs_workload_result := Some result, lifecycle := RECOVERING\<rparr>)
                 [(''result'', PStr (workload_text result)), (''detail'', optional_text detail)] fs')"

definition record_artifact_disposition ::
  "controller \<Rightarrow> artifact_disposition \<Rightarrow> string option \<Rightarrow> files \<Rightarrow> (exn + run_state) \<times> files" where
  "record_artifact_disposition c disposition detail fs =
     (case effective_state fs of
        (Inl e, fs') \<Rightarrow> (Inl e, fs')
      | (Inr s, fs') \<Rightarrow>
          let recorded = (disposition, detail);
              existing = co_artifact_disposition (rs_closeout s)
          in if existing = Some recorded then (Inr s, fs')
             else if existing \<noteq> None
             then (Inl (LifecycleConflictError ''artifact disposition is already recorded''), fs')
             else if lifecycle s = CLOSED
             then (Inl (InvalidTransitionError ''cannot change artifacts after closeout''), fs')
             else commit_state closeout_receipt_valid ''artifact_disposition_recorded''
                    ((default_op c Delete_op
                       (s\<lparr>rs_closeout := (rs_closeout s)\<lparr>co_artifact_disposition := Some recorded\<rparr>\<rparr>))
                      \<lparr>lifecycle := DELETING\<rparr>)
                    [(''status'', PStr (disposition_text disposition)), (''detail'', optional_text detail)] fs')"

definition request_stop ::
  "controller \<Rightarrow> string \<Rightarrow> files \<Rightarrow> (exn + run_state) \<times> files" where
  "request_stop c reason fs =
     (case effective_state fs of
        (Inl e, fs') \<Rightarrow> (Inl e, fs')
      | (Inr s, fs') \<Rightarrow>
          if lifecycle s = CLOSED then (Inr s, fs')
          else
            let s1 = (if rs_workload_result s = None then s\<lparr>rs_workload_result := Some CANCELLED\<rparr> else s);
                s2 = (if co_artifact_disposition (rs_closeout s1) = None
                      then s1\<lparr>rs_closeout := (rs_closeout s1)
                             \<lparr>co_artifact_disposition := Some (UNAVAILABLE, Some reason)\<rparr>\<rparr> else s1)
            in commit_state closeout_receipt_valid ''stop_requested''
                 ((default_op c Delete_op s2)\<lparr>lifecycle := DELETING\<rparr>) [(''reason'', PStr reason)] fs')"

section \<open>Provisioning\<close>

definition intend_provision :: "controller \<Rightarrow> run_state \<Rightarrow> files \<Rightarrow> 'w \<Rightarrow> 'w outcome" where
  "intend_provision c s fs w =
     (let s1 = default_op c Provision_op s
      in demand (needed ''provision'' (rs_provision s1)) fs w (\<lambda>p.
           commit ''provider_operation_intended''
             [(''kind'', PStr ''provision''), (''operation_id'', PStr (op_id p))]
             (s1\<lparr>lifecycle := PROVISIONING\<rparr>) fs w))"

text \<open>\<open>_record_provider_rejection\<close>, for the operation of kind \<open>k\<close>.\<close>

definition unavailable :: "string \<Rightarrow> run_state \<Rightarrow> run_state" where
  "unavailable detail s =
     s\<lparr>rs_closeout := (rs_closeout s)\<lparr>co_artifact_disposition := Some (UNAVAILABLE, Some detail)\<rparr>\<rparr>"

definition record_provider_rejection ::
  "controller \<Rightarrow> op_kind \<Rightarrow> operation \<Rightarrow> string \<Rightarrow> string option \<Rightarrow> string list \<Rightarrow> run_state \<Rightarrow>
     files \<Rightarrow> 'w \<Rightarrow> 'w outcome" where
  "record_provider_rejection c k p message resource_id resource_ids s fs w =
     (let s1 = set_op k (p\<lparr>op_status := Rejected_status, op_last_error := Some message\<rparr>) s;
          s2 = default_op c Delete_op (unavailable message (s1\<lparr>rs_workload_result := Some CANCELLED\<rparr>));
          ids = rejected_ids resource_id resource_ids;
          s3 = (if ids \<noteq> []
                then s2\<lparr>rs_quarantined_resource_ids := Some ids, rs_resource := Some (IdOnly (hd ids))\<rparr>
                else s2)
      in commit ''provider_resource_rejected''
           [(''operation_id'', PStr (op_id p)),
            (''resource_id'', optional_text (rejected_id resource_id resource_ids)),
            (''resource_ids'', PList (map PStr ids)), (''reason'', PStr message)]
           (s3\<lparr>lifecycle := DELETING\<rparr>) fs w)"

definition record_provider_error ::
  "op_kind \<Rightarrow> operation \<Rightarrow> provider_exn \<Rightarrow> run_state \<Rightarrow> files \<Rightarrow> 'w \<Rightarrow> 'w outcome" where
  "record_provider_error k p e s fs w =
     commit_raise ''provider_operation_failed''
       [(''kind'', PStr (kind_name k)), (''operation_id'', PStr (op_id p)),
        (''error'', PStr (error_text e))]
       (set_op k (p\<lparr>op_status := Failed_status, op_last_error := Some (error_text e)\<rparr>) s) e fs w"

definition record_outcome_unknown ::
  "op_kind \<Rightarrow> operation \<Rightarrow> provider_exn \<Rightarrow> run_state \<Rightarrow> files \<Rightarrow> 'w \<Rightarrow> 'w outcome" where
  "record_outcome_unknown k p e s fs w =
     commit_raise ''provider_outcome_unknown''
       [(''kind'', PStr (kind_name k)), (''operation_id'', PStr (op_id p))]
       (set_op k (p\<lparr>op_status := Outcome_unknown, op_last_error := Some (error_text e)\<rparr>) s) e fs w"

definition record_provisioned ::
  "controller \<Rightarrow> provider_resource \<Rightarrow> run_state \<Rightarrow> files \<Rightarrow> 'w \<Rightarrow> 'w outcome" where
  "record_provisioned c r s fs w =
     demand (needed ''provision'' (rs_provision s)) fs w (\<lambda>p.
       if res_run_id r \<noteq> rs_run_id s
       then (Inl (ProviderFault (ProtocolError ''provider resource run ID mismatch'')), fs, w)
       else if res_create_operation_id r \<noteq> op_id p
       then (Inl (ProviderFault (ProtocolError ''provider resource operation ID mismatch'')), fs, w)
       else
         let s1 = default_op c Start_op
                    (s\<lparr>rs_provision := Some (p\<lparr>op_status := Observed, op_resource_id := Some (res_id r)\<rparr>)\<rparr>)
         in demand (needed ''start'' (rs_start s1)) fs w (\<lambda>st.
              commit ''resource_provisioned''
                [(''resource_id'', PStr (res_id r)), (''start_operation_id'', PStr (op_id st))]
                (s1\<lparr>rs_resource := Some (resource_projection r), lifecycle := STARTING\<rparr>) fs w))"

text \<open>More than one resource for one create: \<open>_reconcile_provision\<close> quarantines all of them.\<close>

definition quarantine_duplicates ::
  "controller \<Rightarrow> operation \<Rightarrow> provider_resource list \<Rightarrow> run_state \<Rightarrow> files \<Rightarrow> 'w \<Rightarrow> 'w outcome" where
  "quarantine_duplicates c p found s fs w =
     (let ids = map res_id found;
          s1 = s\<lparr>rs_recovery_reason := Some ''duplicate_provider_resources'',
                 rs_provision := Some (p\<lparr>op_status := Conflict, op_resource_ids := Some ids\<rparr>),
                 rs_quarantined_resource_ids := Some ids,
                 rs_resource := Some (resource_projection (hd found)),
                 rs_workload_result := Some CANCELLED\<rparr>;
          s2 = default_op c Delete_op (unavailable ''duplicate provider resources quarantined'' s1)
      in commit ''provider_reconciliation_conflict_quarantined''
           [(''operation_id'', PStr (op_id p)), (''resource_ids'', PList (map PStr ids))]
           (s2\<lparr>lifecycle := DELETING\<rparr>) fs w)"

text \<open>
  \<open>_record_provision_visibility_pending\<close>: a create that was dispatched is observed, never repeated.
  An empty text is false, so it does not count as a first observation.
\<close>

fun truthy_text :: "string option \<Rightarrow> string option" where
  "truthy_text (Some t) = (if t = [] then None else Some t)"
| "truthy_text None = None"

definition first_observation :: "operation \<Rightarrow> string option" where
  "first_observation p =
     (case truthy_text (op_dispatched_at p) of Some t \<Rightarrow> Some t
      | None \<Rightarrow> op_visibility_first_observed_at p)"

definition elapsed_since :: "string \<Rightarrow> datetime \<Rightarrow> exn + rat" where
  "elapsed_since first_value now =
     (case fromisoformat first_value of
        None \<Rightarrow> Inl (LifecycleConflictError ''provision dispatch timestamp is invalid'')
      | Some first \<Rightarrow>
          if \<not> aware first \<or> \<not> aware now
          then Inl (LifecycleConflictError ''provision dispatch timestamp must be timezone-aware'')
          else if total_seconds now first < 0
          then Inl (LifecycleConflictError ''provision dispatch timestamp is in the future'')
          else Inr (total_seconds now first))"

definition visibility_detail :: string where
  "visibility_detail =
     ''provider create was dispatched but its exact resource did not become visible''"

definition visibility_pending ::
  "controller \<Rightarrow> datetime \<Rightarrow> operation \<Rightarrow> run_state \<Rightarrow> files \<Rightarrow> 'w \<Rightarrow> 'w outcome" where
  "visibility_pending c now p s fs w =
     (let first_value = (case first_observation p of None \<Rightarrow> isoformat now | Some t \<Rightarrow> t);
          p1 = (case first_observation p of
                  None \<Rightarrow> p\<lparr>op_visibility_first_observed_at := Some first_value\<rparr> | Some _ \<Rightarrow> p)
      in demand (elapsed_since first_value now) fs w (\<lambda>elapsed.
           let p2 = p1\<lparr>op_visibility_observations := op_visibility_observations p1 + 1,
                       op_last_visibility_observed_at := Some (isoformat now)\<rparr>;
               payload = [(''operation_id'', PStr (op_id p)), (''elapsed_seconds'', PFloat (Fin elapsed))]
           in if elapsed < c_grace c
              then commit ''provider_resource_visibility_pending'' payload
                     (s\<lparr>rs_provision := Some p2\<rparr>) fs w
              else
                let s1 = s\<lparr>rs_provision := Some (p2\<lparr>op_status := Unresolved\<rparr>),
                           rs_recovery_reason := Some ''provision_dispatch_unresolved'',
                           rs_workload_result := Some CANCELLED\<rparr>;
                    s2 = default_op c Delete_op (unavailable visibility_detail s1)
                in commit ''provider_create_visibility_exhausted'' payload
                     (s2\<lparr>lifecycle := RECOVERING\<rparr>) fs w))"

text \<open>The request \<open>_reconcile_provision\<close> creates from, and what follows the committed dispatch.\<close>

definition create_request_of :: "operation \<Rightarrow> run_state \<Rightarrow> files \<Rightarrow> lifecycle_exn + provider_create_request" where
  "create_request_of p s fs =
     (case read_request fs of
        Inl e \<Rightarrow> Inl (Fault e)
      | Inr request \<Rightarrow>
          (case as_dict (get_or request ''provider'' (PDict [])) of
             None \<Rightarrow> Inl (ProviderFault (ProtocolError ''request.provider must be an object''))
           | Some spec \<Rightarrow>
               Inr \<lparr>cr_run_id = rs_run_id s, cr_operation_id = op_id p,
                    cr_resource_name = ''rjr-'' @ rs_run_id s @ ''-'' @
                      drop (length (op_id p) - 8) (op_id p),
                    cr_spec = spec\<rparr>))"

definition finish_create ::
  "controller \<Rightarrow> 'w provider \<Rightarrow> provider_create_request \<Rightarrow> operation \<Rightarrow> run_state \<Rightarrow> files \<Rightarrow> 'w \<Rightarrow>
     'w outcome" where
  "finish_create c P request p s fs w =
     (case p_create P request w of
        (Inr r, w') \<Rightarrow> record_provisioned c r s fs w'
      | (Inl e, w') \<Rightarrow>
          (case e of
             Rejected m i is \<Rightarrow> record_provider_rejection c Provision_op p m i is s fs w'
           | OutcomeUnknown _ _ \<Rightarrow> record_outcome_unknown Provision_op p e s fs w'
           | Interrupted _ \<Rightarrow> (Inl (ProviderFault e), fs, w')
           | _ \<Rightarrow> record_provider_error Provision_op p e s fs w'))"

definition dispatch_create ::
  "controller \<Rightarrow> 'w provider \<Rightarrow> datetime \<Rightarrow> operation \<Rightarrow> run_state \<Rightarrow> files \<Rightarrow> 'w \<Rightarrow> 'w outcome" where
  "dispatch_create c P now p s fs w =
     (case create_request_of p s fs of
        Inl e \<Rightarrow> (Inl e, fs, w)
      | Inr request \<Rightarrow>
          let p1 = p\<lparr>op_attempts := op_attempts p + 1, op_status := Dispatched,
                     op_dispatched_at := Some (isoformat now)\<rparr>;
              s1 = s\<lparr>rs_provision := Some p1\<rparr>
          in (case commit ''provider_operation_dispatched''
                     [(''kind'', PStr ''provision''), (''operation_id'', PStr (op_id p))] s1 fs w of
                (Inl e, fs', w') \<Rightarrow> (Inl e, fs', w')
              | (Inr _, fs', w') \<Rightarrow> finish_create c P request p1 s1 fs' w'))"

definition reconcile_provision ::
  "controller \<Rightarrow> 'w provider \<Rightarrow> datetime \<Rightarrow> run_state \<Rightarrow> files \<Rightarrow> 'w \<Rightarrow> 'w outcome" where
  "reconcile_provision c P now s fs w =
     demand (needed ''provision'' (rs_provision s)) fs w (\<lambda>p.
       case p_find P (op_id p) w of
         (Inl (Rejected m i is), w') \<Rightarrow> record_provider_rejection c Provision_op p m i is s fs w'
       | (Inl e, w') \<Rightarrow> (Inl (ProviderFault e), fs, w')
       | (Inr found, w') \<Rightarrow>
           if 1 < length found then quarantine_duplicates c p found s fs w'
           else if found \<noteq> [] then record_provisioned c (hd found) s fs w'
           else if op_status p \<noteq> Intended then visibility_pending c now p s fs w'
           else dispatch_create c P now p s fs w')"

section \<open>Starting\<close>

definition resource_missing ::
  "controller \<Rightarrow> string \<Rightarrow> operation \<Rightarrow> run_state \<Rightarrow> files \<Rightarrow> 'w \<Rightarrow> 'w outcome" where
  "resource_missing c resource_id p s fs w =
     (let s1 = s\<lparr>rs_recovery_reason := Some ''resource_disappeared_before_start'',
                 rs_workload_result := Some CANCELLED,
                 rs_start := Some (p\<lparr>op_status := Resource_not_found\<rparr>)\<rparr>;
          s2 = default_op c Delete_op
                 (unavailable ''provider resource disappeared before workload start'' s1)
      in commit ''provider_resource_missing''
           [(''resource_id'', PStr resource_id), (''operation_id'', PStr (op_id p))]
           (s2\<lparr>lifecycle := DELETING\<rparr>) fs w)"

definition start_resource ::
  "controller \<Rightarrow> 'w provider \<Rightarrow> string \<Rightarrow> operation \<Rightarrow> run_state \<Rightarrow> files \<Rightarrow> 'w \<Rightarrow> 'w outcome" where
  "start_resource c P resource_id p s fs w =
     (let p1 = p\<lparr>op_attempts := op_attempts p + 1\<rparr>;
          s1 = s\<lparr>rs_start := Some p1\<rparr>
      in case p_start P resource_id (op_id p) w of
           (Inl e, w') \<Rightarrow>
             (case e of
                Rejected m i is \<Rightarrow> record_provider_rejection c Start_op p1 m i is s1 fs w'
              | OutcomeUnknown _ _ \<Rightarrow> record_outcome_unknown Start_op p1 e s1 fs w'
              | Interrupted _ \<Rightarrow> (Inl (ProviderFault e), fs, w')
              | _ \<Rightarrow> record_provider_error Start_op p1 e s1 fs w')
         | (Inr started, w') \<Rightarrow>
             let s2 = s1\<lparr>rs_resource := Some (resource_projection started),
                         rs_start := Some (p1\<lparr>op_status := Acknowledged\<rparr>)\<rparr>
             in if res_state started = Pod_RUNNING
                then commit ''resource_running'' [(''resource_id'', PStr resource_id)]
                       (s2\<lparr>lifecycle := RUNNING\<rparr>) fs w'
                else commit ''resource_starting'' [(''resource_id'', PStr resource_id)] s2 fs w')"

definition reconcile_start ::
  "controller \<Rightarrow> 'w provider \<Rightarrow> run_state \<Rightarrow> files \<Rightarrow> 'w \<Rightarrow> 'w outcome" where
  "reconcile_start c P s fs w =
     demand (needed ''resource'' (rs_resource s)) fs w (\<lambda>r.
     demand (needed ''start'' (rs_start s)) fs w (\<lambda>p.
       let resource_id = resource_value_id r in
       case p_get P resource_id w of
         (Inl (Rejected m i is), w') \<Rightarrow> record_provider_rejection c Start_op p m i is s fs w'
       | (Inl e, w') \<Rightarrow> (Inl (ProviderFault e), fs, w')
       | (Inr None, w') \<Rightarrow> resource_missing c resource_id p s fs w'
       | (Inr (Some observed), w') \<Rightarrow>
           let s1 = s\<lparr>rs_resource := Some (resource_projection observed)\<rparr>
           in if res_state observed = Pod_RUNNING
              then commit ''resource_running'' [(''resource_id'', PStr resource_id)]
                     (s1\<lparr>rs_start := Some (p\<lparr>op_status := Observed_running\<rparr>), lifecycle := RUNNING\<rparr>) fs w'
              else start_resource c P resource_id p s1 fs w'))"

section \<open>Deleting and closing out\<close>

text \<open>\<open>_provider_termination_deadline\<close>: the deadline's text and its value.\<close>

definition provider_spec_of :: "pydict \<Rightarrow> pydict option" where
  "provider_spec_of request = as_dict (get request ''provider'')"

definition termination_deadline :: "files \<Rightarrow> exn + string \<times> datetime" where
  "termination_deadline fs =
     bindR (read_request fs) (\<lambda>request.
       case provider_spec_of request of
         None \<Rightarrow> Inl (LifecycleConflictError ''provider termination deadline is missing'')
       | Some spec \<Rightarrow>
           (case as_str (get spec ''terminate_at'') of
              None \<Rightarrow> Inl (LifecycleConflictError ''provider termination deadline is missing'')
            | Some t \<Rightarrow>
                if t = [] then Inl (LifecycleConflictError ''provider termination deadline is missing'')
                else (case fromisoformat t of
                        None \<Rightarrow> Inl (LifecycleConflictError ''provider termination deadline is invalid'')
                      | Some deadline \<Rightarrow>
                          if aware deadline then Inr (t, deadline)
                          else Inl (LifecycleConflictError
                                     ''provider termination deadline must be timezone-aware''))))"

definition provision_resolution_is_complete :: "run_state \<Rightarrow> files \<Rightarrow> exn + bool" where
  "provision_resolution_is_complete s fs =
     (if rs_resource s \<noteq> None then Inr True
      else case rs_provision s of
        None \<Rightarrow> Inr True
      | Some p \<Rightarrow>
          if op_attempts p = 0 \<or> op_status p \<notin> uncertain_statuses then Inr True
          else (case co_provision_resolution (rs_closeout s) of
             None \<Rightarrow> Inr False
           | Some r \<Rightarrow>
               bindR (termination_deadline fs) (\<lambda>(deadline_text, deadline).
                 Inr (co_provision_absence_confirmed (rs_closeout s) \<and>
                      pr_source r = ''termination_deadline_elapsed'' \<and>
                      pr_operation_id r = op_id p \<and>
                      pr_termination_deadline r = deadline_text \<and>
                      (case (aware_datetime_or_none (pr_absence_first_observed_at r),
                             aware_datetime_or_none (pr_confirmed_at r)) of
                         (Some first, Some confirmed) \<Rightarrow>
                           \<not> dt_before first deadline \<and> absence_grace \<le> total_seconds confirmed first
                       | _ \<Rightarrow> False)))))"

definition current_spend_scope :: "run_state \<Rightarrow> string option \<Rightarrow> files \<Rightarrow> exn + spend_scope" where
  "current_spend_scope s resource_id fs =
     (case resource_id of
        Some i \<Rightarrow> Inr (Resource_scope i)
      | None \<Rightarrow>
          bindR (read_request fs) (\<lambda>request.
            let volume = (case provider_spec_of request of None \<Rightarrow> None
                          | Some spec \<Rightarrow> as_str (get spec ''network_volume_id''))
            in if volume = None \<or> volume = Some [] then Inr Account_scope
               else (case rs_provision s of
                  None \<Rightarrow> Inr Run_scope
                | Some p \<Rightarrow>
                    if op_attempts p = 0 then Inr (Provision_scope (op_id p) Provision_not_dispatched)
                    else if op_status p \<notin> uncertain_statuses then Inr Account_scope
                    else bindR (provision_resolution_is_complete s fs) (\<lambda>complete.
                      Inr (if complete then Provision_scope (op_id p) Termination_deadline_absence
                           else Account_scope)))))"

definition resource_id_of :: "run_state \<Rightarrow> string option" where
  "resource_id_of s = map_option resource_value_id (rs_resource s)"

definition assert_closeout_ready :: "run_state \<Rightarrow> files \<Rightarrow> exn + unit" where
  "assert_closeout_ready s fs =
     bindR (current_spend_scope s (resource_id_of s) fs) (\<lambda>expected.
     bindR (provision_resolution_is_complete s fs) (\<lambda>complete.
       require (co_artifact_disposition (rs_closeout s) \<noteq> None \<and>
                co_delete_acknowledged (rs_closeout s) \<and>
                co_provider_not_found (rs_closeout s) \<and>
                co_current_spend_usd_per_hour (rs_closeout s) = Some ''0'' \<and>
                co_current_spend_scope (rs_closeout s) = Some expected \<and>
                complete)
         (InvalidTransitionError ''closeout proof is incomplete'')))"

abbreviation upd_closeout :: "(closeout \<Rightarrow> closeout) \<Rightarrow> run_state \<Rightarrow> run_state" where
  "upd_closeout f s \<equiv> s\<lparr>rs_closeout := f (rs_closeout s)\<rparr>"

text \<open>
  The part of \<open>_reconcile_delete\<close> for a run with no known resource, a provision operation and no
  confirmed absence: adopt what a late create produced, or observe its absence until it is certain.
\<close>

definition confirm_absence ::
  "datetime \<Rightarrow> operation \<Rightarrow> (string \<times> datetime) option \<Rightarrow> run_state \<Rightarrow> files \<Rightarrow> 'w \<Rightarrow> 'w outcome" where
  "confirm_absence now p deadline s fs w =
     (let payload = [(''operation_id'', PStr (op_id p))];
          observed = upd_closeout
            (\<lambda>co. co\<lparr>co_provision_absence_first_observed_at := Some (isoformat now)\<rparr>) s
      in if \<not> aware now
         then (Inl (Fault (LifecycleConflictError ''current time must be timezone-aware'')), fs, w)
         else if (case deadline of None \<Rightarrow> False | Some (_, d) \<Rightarrow> dt_before now d)
         then commit ''stopped_provision_termination_pending''
                (payload @ [(''termination_deadline'', optional_text (map_option fst deadline))])
                (upd_closeout (\<lambda>co. co\<lparr>co_provision_absence_first_observed_at := None\<rparr>) s) fs w
         else (case co_provision_absence_first_observed_at (rs_closeout s) of
             None \<Rightarrow> commit ''stopped_provision_absence_observed'' payload observed fs w
           | Some first_value \<Rightarrow>
               (case fromisoformat first_value of
                  None \<Rightarrow>
                    (Inl (Fault (LifecycleConflictError ''provision absence timestamp is invalid'')), fs, w)
                | Some first \<Rightarrow>
                    if \<not> aware first
                    then (Inl (Fault (LifecycleConflictError
                            ''provision absence timestamp must be timezone-aware'')), fs, w)
                    else if (case deadline of None \<Rightarrow> False | Some (_, d) \<Rightarrow> dt_before first d)
                    then commit ''stopped_provision_absence_observed'' payload observed fs w
                    else if total_seconds now first < absence_grace
                    then commit ''stopped_provision_absence_pending'' payload s fs w
                    else
                      let resolution = (case deadline of None \<Rightarrow> co_provision_resolution (rs_closeout s)
                            | Some (t, _) \<Rightarrow>
                                Some \<lparr>pr_source = ''termination_deadline_elapsed'', pr_operation_id = op_id p,
                                  pr_termination_deadline = t,
                                  pr_absence_first_observed_at = isoformat first,
                                  pr_confirmed_at = isoformat now\<rparr>)
                      in commit ''stopped_provision_absence_confirmed'' payload
                           (upd_closeout (\<lambda>co. co\<lparr>co_provision_absence_confirmed := True,
                              co_provision_resolution := resolution\<rparr>) s) fs w)))"

definition resolve_absence ::
  "'w provider \<Rightarrow> datetime \<Rightarrow> operation \<Rightarrow> run_state \<Rightarrow> files \<Rightarrow> 'w \<Rightarrow> 'w outcome" where
  "resolve_absence P now p s fs w =
     (case p_find P (op_id p) w of
        (Inl e, w') \<Rightarrow>
          (case e of
             Rejected m i is \<Rightarrow>
               let ids = rejected_ids i is in
               if ids = [] then (Inl (ProviderFault e), fs, w')
               else commit ''stopped_rejected_resource_adopted''
                      [(''resource_ids'', PList (map PStr ids))]
                      (upd_closeout (\<lambda>co. co\<lparr>co_provision_absence_first_observed_at := None\<rparr>)
                        (s\<lparr>rs_quarantined_resource_ids := Some ids, rs_resource := Some (IdOnly (hd ids))\<rparr>))
                      fs w'
           | _ \<Rightarrow> (Inl (ProviderFault e), fs, w'))
      | (Inr found, w') \<Rightarrow>
          if 1 < length found then
            commit ''stopped_duplicate_resources_quarantined''
              [(''resource_ids'', PList (map (\<lambda>r. PStr (res_id r)) found))]
              (s\<lparr>rs_quarantined_resource_ids := Some (map res_id found),
                 rs_resource := Some (resource_projection (hd found))\<rparr>) fs w'
          else if found \<noteq> [] then
            commit ''stopped_resource_adopted'' [(''resource_id'', PStr (res_id (hd found)))]
              (upd_closeout (\<lambda>co. co\<lparr>co_provision_absence_first_observed_at := None\<rparr>)
                (s\<lparr>rs_resource := Some (resource_projection (hd found))\<rparr>)) fs w'
          else if op_attempts p = 0 then
            commit ''stopped_provision_not_dispatched'' [(''operation_id'', PStr (op_id p))]
              (upd_closeout (\<lambda>co. co\<lparr>co_provision_absence_confirmed := True\<rparr>) s) fs w'
          else if 0 < op_attempts p \<and> op_status p \<in> uncertain_statuses then
            demand (termination_deadline fs) fs w' (\<lambda>deadline.
              confirm_absence now p (Some deadline) s fs w')
          else confirm_absence now p None s fs w')"

text \<open>\<open>_record_delete_receipt\<close>.\<close>

definition record_delete_receipt ::
  "operation \<Rightarrow> delete_receipt \<Rightarrow> string \<Rightarrow> run_state \<Rightarrow> files \<Rightarrow> 'w \<Rightarrow> 'w outcome" where
  "record_delete_receipt p receipt resource_id s fs w =
     (if \<not> dr_acknowledged receipt
      then (Inl (ProviderFault (ProtocolError ''provider delete was not acknowledged'')), fs, w)
      else if dr_operation_id receipt \<noteq> op_id p
      then (Inl (ProviderFault (ProtocolError ''provider delete receipt operation ID mismatch'')), fs, w)
      else
        let co = rs_closeout s;
            acked = (if resource_id \<in> set (co_delete_acknowledged_resource_ids co)
                     then co_delete_acknowledged_resource_ids co
                     else co_delete_acknowledged_resource_ids co @ [resource_id]);
            all_ids = (case rs_quarantined_resource_ids s of Some ids \<Rightarrow> ids
                       | None \<Rightarrow> (case rs_resource s of None \<Rightarrow> [] | Some r \<Rightarrow> [resource_value_id r]));
            complete = list_all (\<lambda>i. i \<in> set acked) all_ids;
            co' = co\<lparr>co_delete_acknowledged_resource_ids := acked,
                     co_delete_acknowledged := (if complete then True else co_delete_acknowledged co),
                     co_delete_already_absent := dr_already_absent receipt\<rparr>;
            p' = p\<lparr>op_status := (if complete then Acknowledged_all else Acknowledged)\<rparr>
        in commit ''delete_acknowledged''
             [(''operation_id'', PStr (dr_operation_id receipt)),
              (''already_absent'', PBool (dr_already_absent receipt)),
              (''resource_id'', PStr resource_id)]
             (s\<lparr>rs_closeout := co', rs_delete := Some p'\<rparr>) fs w)"

text \<open>The deletion of the next unacknowledged resource, or the record that there is none left.\<close>

definition delete_next ::
  "'w provider \<Rightarrow> operation \<Rightarrow> string list \<Rightarrow> run_state \<Rightarrow> files \<Rightarrow> 'w \<Rightarrow> 'w outcome" where
  "delete_next P p delete_ids s fs w =
     (let pending = filter (\<lambda>i. i \<notin> set (co_delete_acknowledged_resource_ids (rs_closeout s))) delete_ids
      in case pending of
           [] \<Rightarrow>
             commit ''delete_acknowledged''
               [(''operation_id'', PStr (op_id p)),
                (''reason'', PStr (if delete_ids \<noteq> [] then ''all_resources_acknowledged''
                                  else ''no_resource_was_created''))]
               ((upd_closeout (\<lambda>co. co\<lparr>co_delete_acknowledged := True,
                    co_delete_already_absent := (delete_ids = [])\<rparr>) s)
                 \<lparr>rs_delete := Some (p\<lparr>op_status := (if delete_ids \<noteq> [] then Acknowledged_all
                                                   else Not_required_no_resource)\<rparr>)\<rparr>) fs w
         | resource_id # _ \<Rightarrow>
             let p1 = p\<lparr>op_attempts := op_attempts p + 1\<rparr>; s1 = s\<lparr>rs_delete := Some p1\<rparr>
             in (case p_delete P resource_id (op_id p) w of
                   (Inl e, w') \<Rightarrow>
                     (case e of
                        OutcomeUnknown _ _ \<Rightarrow> record_outcome_unknown Delete_op p1 e s1 fs w'
                      | Interrupted _ \<Rightarrow> (Inl (ProviderFault e), fs, w')
                      | _ \<Rightarrow> record_provider_error Delete_op p1 e s1 fs w')
                 | (Inr receipt, w') \<Rightarrow> record_delete_receipt p1 receipt resource_id s1 fs w'))"

definition observe_deletion ::
  "'w provider \<Rightarrow> string option \<Rightarrow> string list \<Rightarrow> run_state \<Rightarrow> files \<Rightarrow> 'w \<Rightarrow> 'w outcome" where
  "observe_deletion P resource_id quarantined s fs w =
     (let decide = (\<lambda>absent w'.
            let payload = [(''resource_id'', optional_text resource_id)] in
            if absent
            then commit ''provider_absence_confirmed'' payload
                   (upd_closeout (\<lambda>co. co\<lparr>co_provider_not_found := True\<rparr>) s) fs w'
            else commit ''provider_deletion_pending'' payload s fs w')
      in if quarantined \<noteq> [] then
           demand (needed ''provision'' (rs_provision s)) fs w (\<lambda>p.
             case p_find P (op_id p) w of
               (Inl e, w') \<Rightarrow> (Inl (ProviderFault e), fs, w')
             | (Inr remaining, w') \<Rightarrow> decide (remaining = []) w')
         else (case resource_id of
                 None \<Rightarrow> decide True w
               | Some i \<Rightarrow>
                   (case p_get P i w of
                      (Inl e, w') \<Rightarrow> (Inl (ProviderFault e), fs, w')
                    | (Inr r, w') \<Rightarrow> decide (r = None) w')))"

fun scope_payload :: "spend_scope \<Rightarrow> pyval" where
  "scope_payload Account_scope = PDict [(''kind'', PStr ''account'')]"
| "scope_payload (Resource_scope i) = PDict [(''kind'', PStr ''resource''), (''resource_id'', PStr i)]"
| "scope_payload (Provision_scope i p) =
     PDict [(''kind'', PStr ''provision_operation''), (''operation_id'', PStr i),
            (''proof'', PStr (case p of Provision_not_dispatched \<Rightarrow> ''provision_not_dispatched''
                              | Termination_deadline_absence \<Rightarrow> ''termination_deadline_absence''))]"
| "scope_payload Run_scope =
     PDict [(''kind'', PStr ''run''), (''proof'', PStr ''provision_not_dispatched'')]"

definition scoped_spend ::
  "'w provider \<Rightarrow> spend_scope \<Rightarrow> string option \<Rightarrow> 'w \<Rightarrow> (provider_exn + decimal) \<times> 'w" where
  "scoped_spend P scope resource_id w =
     (case scope of
        Provision_scope _ _ \<Rightarrow> (Inr dec_zero, w)
      | Run_scope \<Rightarrow> (Inr dec_zero, w)
      | _ \<Rightarrow> p_spend P resource_id w)"

definition observe_spend ::
  "'w provider \<Rightarrow> string option \<Rightarrow> run_state \<Rightarrow> files \<Rightarrow> 'w \<Rightarrow> 'w outcome" where
  "observe_spend P resource_id s fs w =
     demand (current_spend_scope s resource_id fs) fs w (\<lambda>scope.
       if co_current_spend_scope (rs_closeout s) \<noteq> None \<and>
          co_current_spend_scope (rs_closeout s) \<noteq> Some scope
       then (Inl (Fault (LifecycleConflictError ''current spend scope differs from closeout proof'')), fs, w)
       else (case scoped_spend P scope resource_id w of
          (Inl e, w') \<Rightarrow> (Inl (ProviderFault e), fs, w')
        | (Inr spend, w') \<Rightarrow>
            if \<not> is_finite spend \<or> dec_lt spend dec_zero
            then (Inl (ProviderFault (ProtocolError
                    ''provider current spend must be a non-negative Decimal'')), fs, w')
            else
              let s1 = upd_closeout (\<lambda>co. co\<lparr>co_current_spend_usd_per_hour := Some (format_money spend),
                         co_current_spend_scope := Some scope\<rparr>) s
              in if dec_eq spend dec_zero then
                   demand (assert_closeout_ready s1 fs) fs w' (\<lambda>_.
                     commit ''closeout_completed'' [] (s1\<lparr>lifecycle := CLOSED\<rparr>) fs w')
                 else commit ''provider_spend_observed''
                        [(''current_spend_usd_per_hour'', PStr (format_money spend)),
                         (''current_spend_scope'', scope_payload scope)] s1 fs w'))"

definition reconcile_delete ::
  "'w provider \<Rightarrow> datetime \<Rightarrow> run_state \<Rightarrow> files \<Rightarrow> 'w \<Rightarrow> 'w outcome" where
  "reconcile_delete P now s fs w =
     (if co_artifact_disposition (rs_closeout s) = None
      then (Inl (Fault (InvalidTransitionError ''deletion requires an artifact disposition'')), fs, w)
      else demand (needed ''delete'' (rs_delete s)) fs w (\<lambda>d.
        case (rs_resource s, rs_provision s, co_provision_absence_confirmed (rs_closeout s)) of
          (None, Some p, False) \<Rightarrow> resolve_absence P now p s fs w
        | _ \<Rightarrow>
            let resource_id = resource_id_of s;
                quarantined = (case rs_quarantined_resource_ids s of None \<Rightarrow> [] | Some ids \<Rightarrow> ids);
                delete_ids = (if quarantined \<noteq> [] then quarantined
                              else (case resource_id of None \<Rightarrow> [] | Some i \<Rightarrow> [i]))
            in if [] \<in> set quarantined
               then (Inl (Fault (LifecycleConflictError ''quarantined resource IDs are invalid'')), fs, w)
               else if \<not> co_delete_acknowledged (rs_closeout s) then delete_next P d delete_ids s fs w
               else if \<not> co_provider_not_found (rs_closeout s)
               then observe_deletion P resource_id quarantined s fs w
               else observe_spend P resource_id s fs w))"

section \<open>One step of a run\<close>

definition reconcile ::
  "controller \<Rightarrow> 'w provider \<Rightarrow> datetime \<Rightarrow> files \<Rightarrow> 'w \<Rightarrow> 'w outcome" where
  "reconcile c P now fs w =
     (case effective_state fs of
        (Inl e, fs') \<Rightarrow> (Inl (Fault e), fs', w)
      | (Inr s, fs') \<Rightarrow>
          (case lifecycle s of
             PLANNED \<Rightarrow> intend_provision c s fs' w
           | PROVISIONING \<Rightarrow> reconcile_provision c P now s fs' w
           | STARTING \<Rightarrow> reconcile_start c P s fs' w
           | DELETING \<Rightarrow> reconcile_delete P now s fs' w
           | RUNNING \<Rightarrow> (Inr s, fs', w)
           | RECOVERING \<Rightarrow> (Inr s, fs', w)
           | CLOSED \<Rightarrow> (Inr s, fs', w)))"

end
