(* ===== verification/LifecycleInv.thy ===== *)
theory LifecycleInv
  imports Lifecycle
begin

text \<open>
  The executions of a run: any provider, any clock, any order of reconciliations, terminal records and
  stops, with the provider's world changing by itself in between and \<open>Interrupted\<close> calls standing for
  a process that dies inside a provider call.  The calls that change the provider are logged.  The
  invariant of all executions is proved once, handler by handler.
\<close>

section \<open>Logged providers and executions\<close>

datatype provider_call =
    Create_call provider_create_request
  | Start_call string string
  | Delete_call string string

type_synonym 'w logged = "'w \<times> provider_call list"

definition quiet :: "('w \<Rightarrow> 'r \<times> 'w) \<Rightarrow> 'w logged \<Rightarrow> 'r \<times> 'w logged" where
  "quiet f wl = (case f (fst wl) of (r, w') \<Rightarrow> (r, (w', snd wl)))"

definition logging :: "provider_call \<Rightarrow> ('w \<Rightarrow> 'r \<times> 'w) \<Rightarrow> 'w logged \<Rightarrow> 'r \<times> 'w logged" where
  "logging call f wl = (case f (fst wl) of (r, w') \<Rightarrow> (r, (w', snd wl @ [call])))"

definition traced :: "'w provider \<Rightarrow> 'w logged provider" where
  "traced P = \<lparr>p_find = (\<lambda>i. quiet (p_find P i)),
     p_create = (\<lambda>r. logging (Create_call r) (p_create P r)),
     p_get = (\<lambda>i. quiet (p_get P i)),
     p_start = (\<lambda>i k. logging (Start_call i k) (p_start P i k)),
     p_delete = (\<lambda>i k. logging (Delete_call i k) (p_delete P i k)),
     p_spend = (\<lambda>i. quiet (p_spend P i))\<rparr>"

lemma quiet_log [simp]: "quiet f wl = (r, wl') \<Longrightarrow> snd wl' = snd wl"
  by (auto simp: quiet_def split: prod.splits)

lemma logging_log [simp]: "logging call f wl = (r, wl') \<Longrightarrow> snd wl' = snd wl @ [call]"
  by (auto simp: logging_def split: prod.splits)

lemma traced_log:
  "p_find (traced P) i wl = (r, wl') \<Longrightarrow> snd wl' = snd wl"
  "p_create (traced P) q wl = (r', wl') \<Longrightarrow> snd wl' = snd wl @ [Create_call q]"
  "p_get (traced P) i wl = (r'', wl') \<Longrightarrow> snd wl' = snd wl"
  "p_start (traced P) i k wl = (r''', wl') \<Longrightarrow> snd wl' = snd wl @ [Start_call i k]"
  "p_delete (traced P) i k wl = (r4, wl') \<Longrightarrow> snd wl' = snd wl @ [Delete_call i k]"
  "p_spend (traced P) j wl = (r5, wl') \<Longrightarrow> snd wl' = snd wl"
  by (auto simp: traced_def)

text \<open>One step of an execution, on the run's files and the logged world.\<close>

inductive run_step :: "controller \<Rightarrow> 'w provider \<Rightarrow> files \<times> 'w logged \<Rightarrow> files \<times> 'w logged \<Rightarrow> bool"
  for c P where
  reconcile: "reconcile c (traced P) now fs wl = (r, fs', wl') \<Longrightarrow> run_step c P (fs, wl) (fs', wl')"
| workload: "record_workload_result result detail fs = (r, fs') \<Longrightarrow> run_step c P (fs, wl) (fs', wl)"
| artifacts: "record_artifact_disposition c disposition detail fs = (r, fs') \<Longrightarrow>
    run_step c P (fs, wl) (fs', wl)"
| stop: "request_stop c reason fs = (r, fs') \<Longrightarrow> run_step c P (fs, wl) (fs', wl)"
| world: "run_step c P (fs, (w, calls)) (fs, (w', calls))"

inductive reachable :: "controller \<Rightarrow> 'w provider \<Rightarrow> files \<times> 'w logged \<Rightarrow> bool" for c P where
  planned: "plan run_id request approved no_files = (Inr s, fs) \<Longrightarrow> reachable c P (fs, (w, []))"
| step: "reachable c P x \<Longrightarrow> run_step c P x y \<Longrightarrow> reachable c P y"

inductive_cases run_stepE: "run_step c P x y"

section \<open>The invariant\<close>

text \<open>The fields each lifecycle state relies on.\<close>

definition shape_ok :: "run_state \<Rightarrow> bool" where
  "shape_ok s \<longleftrightarrow>
     (lifecycle s = PROVISIONING \<longrightarrow> rs_provision s \<noteq> None) \<and>
     (lifecycle s = STARTING \<longrightarrow> rs_resource s \<noteq> None \<and> rs_start s \<noteq> None \<and> rs_provision s \<noteq> None) \<and>
     (lifecycle s = DELETING \<longrightarrow>
        co_artifact_disposition (rs_closeout s) \<noteq> None \<and> rs_delete s \<noteq> None) \<and>
     (lifecycle s < RECOVERING \<longrightarrow> rs_workload_result s = None \<and>
        co_artifact_disposition (rs_closeout s) = None \<and> \<not> co_delete_acknowledged (rs_closeout s) \<and>
        rs_quarantined_resource_ids s = None) \<and>
     (lifecycle s < STARTING \<longrightarrow> rs_resource s = None) \<and>
     (lifecycle s = PLANNED \<longrightarrow> rs_provision s = None) \<and>
     (rs_resource s \<noteq> None \<longrightarrow> rs_provision s \<noteq> None)"

text \<open>The resources the run has to delete.\<close>

fun ids_of :: "string list option \<Rightarrow> resource_value option \<Rightarrow> string list" where
  "ids_of (Some ids) r = ids"
| "ids_of None None = []"
| "ids_of None (Some r) = [resource_value_id r]"

definition known_ids :: "run_state \<Rightarrow> string list" where
  "known_ids s = ids_of (rs_quarantined_resource_ids s) (rs_resource s)"

lemma known_ids_case:
  "(case rs_quarantined_resource_ids s of Some ids \<Rightarrow> ids
    | None \<Rightarrow> (case rs_resource s of None \<Rightarrow> [] | Some r \<Rightarrow> [resource_value_id r])) = known_ids s"
  by (simp add: known_ids_def split: option.split)

definition deletion_ok :: "run_state \<Rightarrow> bool" where
  "deletion_ok s \<longleftrightarrow>
     rs_quarantined_resource_ids s \<noteq> Some [] \<and>
     (rs_quarantined_resource_ids s \<noteq> None \<longrightarrow> rs_resource s \<noteq> None) \<and>
     (co_delete_acknowledged (rs_closeout s) \<longrightarrow>
        set (known_ids s) \<subseteq> set (co_delete_acknowledged_resource_ids (rs_closeout s)) \<and>
        (rs_resource s = None \<longrightarrow> rs_provision s = None \<or> co_provision_absence_confirmed (rs_closeout s))) \<and>
     (co_provider_not_found (rs_closeout s) \<longrightarrow> co_delete_acknowledged (rs_closeout s)) \<and>
     distinct (co_delete_acknowledged_resource_ids (rs_closeout s))"

text \<open>What the log of provider calls has to do with the state.\<close>

definition creates :: "provider_call list \<Rightarrow> provider_call list" where
  "creates calls = filter (\<lambda>call. \<exists>r. call = Create_call r) calls"

definition log_ok :: "run_state \<Rightarrow> provider_call list \<Rightarrow> bool" where
  "log_ok s calls \<longleftrightarrow>
     length (creates calls) \<le> 1 \<and>
     (creates calls \<noteq> [] \<longrightarrow>
        (\<exists>p. rs_provision s = Some p \<and> op_status p \<noteq> Intended \<and> 1 \<le> op_attempts p)) \<and>
     (case rs_provision s of None \<Rightarrow> True | Some p \<Rightarrow> 0 \<le> op_attempts p) \<and>
     (\<forall>i \<in> set (co_delete_acknowledged_resource_ids (rs_closeout s)). \<exists>k. Delete_call i k \<in> set calls)"

definition journaled :: "files \<Rightarrow> provider_call list \<Rightarrow> bool" where
  "journaled fs calls \<longleftrightarrow>
     (\<forall>r. Create_call r \<in> set calls \<longrightarrow>
        (\<exists>ev. Event ev \<in> set (f_lines fs) \<and> ev_kind ev = ''provider_operation_dispatched'' \<and>
           (\<exists>p. rs_provision (ev_projection ev) = Some p \<and> op_id p = cr_operation_id r \<and>
                op_status p = Dispatched)))"

definition closed_ok :: "run_state \<Rightarrow> files \<Rightarrow> bool" where
  "closed_ok s fs \<longleftrightarrow> (lifecycle s = CLOSED \<longrightarrow>
     assert_closeout_ready s fs = Inr () \<and> closeout_receipt_valid s)"

definition state_ok :: "run_state \<Rightarrow> provider_call list \<Rightarrow> bool" where
  "state_ok s calls \<longleftrightarrow> shape_ok s \<and> deletion_ok s \<and> log_ok s calls"

definition run_ok :: "files \<Rightarrow> 'w logged \<Rightarrow> bool" where
  "run_ok fs wl \<longleftrightarrow> store_ok fs \<and> journaled fs (snd wl) \<and>
     (\<exists>s. current fs = Some s \<and> state_ok s (snd wl) \<and> closed_ok s fs)"

lemmas state_defs = state_ok_def shape_ok_def deletion_ok_def log_ok_def known_ids_def

section \<open>Sequence numbers and the tail do not matter\<close>

lemma seq_simps [simp]:
  fixes s :: run_state
  shows "shape_ok (s\<lparr>event_sequence := n\<rparr>) = shape_ok s"
    "deletion_ok (s\<lparr>event_sequence := n\<rparr>) = deletion_ok s"
    "log_ok (s\<lparr>event_sequence := n\<rparr>) calls = log_ok s calls"
    "state_ok (s\<lparr>event_sequence := n\<rparr>) calls = state_ok s calls"
    "known_ids (s\<lparr>event_sequence := n\<rparr>) = known_ids s"
  by (simp_all add: state_defs)

lemma request_cong:
  assumes "f_request fs = f_request fs'"
  shows "read_request fs = read_request fs'" "termination_deadline fs = termination_deadline fs'"
    "provision_resolution_is_complete s fs = provision_resolution_is_complete s fs'"
    "current_spend_scope s i fs = current_spend_scope s i fs'"
    "assert_closeout_ready s fs = assert_closeout_ready s fs'"
proof -
  show r: "read_request fs = read_request fs'" using assms by (simp add: read_request_def)
  show d: "termination_deadline fs = termination_deadline fs'" unfolding termination_deadline_def r ..
  show p: "provision_resolution_is_complete s fs = provision_resolution_is_complete s fs'" for s
    unfolding provision_resolution_is_complete_def d ..
  show c: "current_spend_scope s i fs = current_spend_scope s i fs'" for i s
    unfolding current_spend_scope_def r p ..
  show "assert_closeout_ready s fs = assert_closeout_ready s fs'"
    unfolding assert_closeout_ready_def c p ..
qed

lemma assert_ready_seq [simp]:
  fixes s :: run_state
  shows "assert_closeout_ready (s\<lparr>event_sequence := n\<rparr>) fs = assert_closeout_ready s fs"
    "assert_closeout_ready (s\<lparr>lifecycle := l\<rparr>) fs = assert_closeout_ready s fs"
proof -
  have p: "provision_resolution_is_complete (s\<lparr>event_sequence := n\<rparr>) fs =
      provision_resolution_is_complete s fs"
    "provision_resolution_is_complete (s\<lparr>lifecycle := l\<rparr>) fs = provision_resolution_is_complete s fs"
    by (simp_all add: provision_resolution_is_complete_def split: option.split)
  have c: "current_spend_scope (s\<lparr>event_sequence := n\<rparr>) i fs = current_spend_scope s i fs"
    "current_spend_scope (s\<lparr>lifecycle := l\<rparr>) i fs = current_spend_scope s i fs" for i
    by (simp_all add: current_spend_scope_def p cong: if_cong option.case_cong)
  show "assert_closeout_ready (s\<lparr>event_sequence := n\<rparr>) fs = assert_closeout_ready s fs"
    "assert_closeout_ready (s\<lparr>lifecycle := l\<rparr>) fs = assert_closeout_ready s fs"
    by (simp_all add: assert_closeout_ready_def resource_id_of_def p c)
qed

lemma run_ok_tail: "run_ok fs wl \<Longrightarrow> run_ok (fs\<lparr>f_tail := NoTail\<rparr>) wl"
  by (auto simp: run_ok_def journaled_def closed_ok_def store_ok_tail
      request_cong(5) [of "fs\<lparr>f_tail := NoTail\<rparr>" fs])

lemma log_ok_mono:
  assumes "log_ok s calls" and "\<And>r. call \<noteq> Create_call r"
  shows "log_ok s (calls @ [call])"
  using assms by (auto simp: log_ok_def creates_def)

lemma journaled_append:
  assumes "journaled fs calls" and "f_lines fs' = f_lines fs @ ls"
  shows "journaled fs' calls"
  using assms by (fastforce simp: journaled_def)

lemma journaled_other: "journaled fs calls \<Longrightarrow> (\<And>r. call \<noteq> Create_call r) \<Longrightarrow> journaled fs (calls @ [call])"
  by (auto simp: journaled_def)

section \<open>Rules for outcomes\<close>

definition keeps :: "'w logged outcome \<Rightarrow> bool" where
  "keeps out = (case out of (r, fs, wl) \<Rightarrow> run_ok fs wl)"

lemma keeps_fail: "run_ok fs wl \<Longrightarrow> keeps (r, fs, wl)"
  by (simp add: keeps_def)

text \<open>The premises of a commit: the present directory is fine, and so is the state committed.\<close>

lemma keeps_commit:
  assumes "run_ok fs wl" and "state_ok s (snd wl)"
    and "lifecycle s = CLOSED \<Longrightarrow> assert_closeout_ready s fs = Inr ()"
  shows "keeps (commit kind payload s fs wl)"
proof -
  have ok: "store_ok fs" and j: "journaled fs (snd wl)" using assms(1) by (auto simp: run_ok_def)
  show ?thesis
  proof (cases "lifecycle s = CLOSED \<and> \<not> closeout_receipt_valid (stamped fs s)")
    case True
    then show ?thesis
      using commit_refused [OF ok] run_ok_tail [OF assms(1)] by (simp add: commit_def keeps_def)
  next
    case False
    then obtain fs' where c: "commit_state closeout_receipt_valid kind s payload fs = (Inr (stamped fs s), fs')"
      "store_ok fs'" "current fs' = Some (stamped fs s)" "f_request fs' = f_request fs"
      and l: "f_lines fs' = f_lines fs @ [Event \<lparr>ev_sequence = int (length (f_lines fs)) + 1, ev_kind = kind,
       ev_payload = payload, ev_projection = stamped fs s\<rparr>]"
      using commit_ok [OF ok, of s closeout_receipt_valid kind payload] by metis
    have "closed_ok (stamped fs s) fs'"
      using assms(3) False request_cong(5) [OF c(4)] by (simp add: closed_ok_def stamped_def)
    then have "run_ok fs' wl"
      using c(2,3) journaled_append [OF j l] assms(2) by (simp add: run_ok_def stamped_def)
    then show ?thesis by (simp add: commit_def c(1) keeps_def)
  qed
qed

lemma keeps_commit_raise:
  assumes "run_ok fs wl" and "state_ok s (snd wl)"
    and "lifecycle s = CLOSED \<Longrightarrow> assert_closeout_ready s fs = Inr ()"
  shows "keeps (commit_raise kind payload s e fs wl)"
  using keeps_commit [OF assms, of kind payload]
  by (auto simp: commit_raise_def keeps_def split: prod.splits sum.splits)

lemma keeps_demand:
  assumes "run_ok fs wl" and "\<And>a. r = Inr a \<Longrightarrow> keeps (k a)"
  shows "keeps (demand r fs wl k)"
  using assms by (cases r) (simp_all add: demand_def keeps_fail)

text \<open>A longer log, for calls other than a create.\<close>

lemma run_ok_quiet: "run_ok fs wl \<Longrightarrow> snd wl' = snd wl \<Longrightarrow> run_ok fs wl'"
  by (simp add: run_ok_def)

lemma run_ok_logged:
  assumes "run_ok fs wl" and "snd wl' = snd wl @ [call]" and "\<And>r. call \<noteq> Create_call r"
  shows "run_ok fs wl'"
  using assms journaled_other log_ok_mono by (fastforce simp: run_ok_def state_ok_def)

lemma default_op_simps [simp]:
  "lifecycle (default_op c k s) = lifecycle s"
  "rs_run_id (default_op c k s) = rs_run_id s"
  "rs_workload_result (default_op c k s) = rs_workload_result s"
  "rs_resource (default_op c k s) = rs_resource s"
  "rs_recovery_reason (default_op c k s) = rs_recovery_reason s"
  "rs_closeout (default_op c k s) = rs_closeout s"
  "rs_quarantined_resource_ids (default_op c k s) = rs_quarantined_resource_ids s"
  "rs_provision (default_op c Start_op s) = rs_provision s"
  "rs_provision (default_op c Delete_op s) = rs_provision s"
  "rs_start (default_op c Delete_op s) = rs_start s"
  "\<exists>p. rs_delete (default_op c Delete_op s) = Some p"
  "\<exists>p. rs_start (default_op c Start_op s) = Some p"
  "\<exists>p. rs_provision (default_op c Provision_op s) = Some p"
  by (cases k; simp add: default_op_def split: option.split)+

lemma needed_Inr [simp]: "needed n v = Inr a \<longleftrightarrow> v = Some a"
  by (simp add: needed_def split: option.splits)

lemma rank_simps [simp]:
  "\<not> DELETING < RECOVERING" "\<not> CLOSED < RECOVERING" "\<not> RECOVERING < RECOVERING" "PLANNED < RECOVERING"
  "PROVISIONING < RECOVERING" "STARTING < RECOVERING" "RUNNING < RECOVERING"
  "\<not> DELETING < STARTING" "\<not> CLOSED < STARTING" "\<not> RECOVERING < STARTING" "PLANNED < STARTING"
  "PROVISIONING < STARTING" "\<not> STARTING < STARTING" "\<not> RUNNING < STARTING"
  by (simp_all add: lifecycle_order)

section \<open>The handlers keep the invariant\<close>

text \<open>Setting an operation anew, without returning a provision to \<open>Intended\<close> or lowering its attempts.\<close>

definition advances :: "operation \<Rightarrow> operation \<Rightarrow> bool" where
  "advances p q \<longleftrightarrow> (op_status p \<noteq> Intended \<longrightarrow> op_status q \<noteq> Intended) \<and> op_attempts p \<le> op_attempts q"

lemma advances_refl [simp]: "advances p p"
  by (simp add: advances_def)

definition provision_advances :: "run_state \<Rightarrow> run_state \<Rightarrow> bool" where
  "provision_advances s t \<longleftrightarrow>
     (case rs_provision s of None \<Rightarrow> rs_provision t = None
      | Some p \<Rightarrow> (\<exists>q. rs_provision t = Some q \<and> advances p q))"

lemma log_ok_advance:
  assumes "log_ok s calls" and "provision_advances s t"
    and "co_delete_acknowledged_resource_ids (rs_closeout t) =
      co_delete_acknowledged_resource_ids (rs_closeout s)"
  shows "log_ok t calls"
  using assms by (auto simp: log_ok_def provision_advances_def advances_def split: option.splits)

lemma set_op_simps [simp]:
  "lifecycle (set_op k p s) = lifecycle s" "rs_closeout (set_op k p s) = rs_closeout s"
  "rs_resource (set_op k p s) = rs_resource s" "rs_workload_result (set_op k p s) = rs_workload_result s"
  "rs_quarantined_resource_ids (set_op k p s) = rs_quarantined_resource_ids s"
  by (cases k; simp)+

lemma provision_advances_set_op:
  assumes "get_op k s = Some p" and "advances p q"
  shows "provision_advances s (set_op k q s)"
  using assms by (cases k) (auto simp: provision_advances_def split: option.split)

lemma state_ok_set_op:
  assumes "state_ok s calls" and "get_op k s = Some p" and "advances p q"
  shows "state_ok (set_op k q s) calls"
proof -
  have "log_ok (set_op k q s) calls"
    using assms(1) log_ok_advance provision_advances_set_op [OF assms(2,3)]
    by (auto simp: state_ok_def)
  then show ?thesis
    using assms by (cases k) (auto simp: state_ok_def shape_ok_def deletion_ok_def known_ids_def)
qed

text \<open>What holds of a run before it is on its way to deletion.\<close>

lemma early_facts:
  assumes "state_ok s calls" and "lifecycle s < RECOVERING"
  shows "rs_workload_result s = None" "co_artifact_disposition (rs_closeout s) = None"
    "\<not> co_delete_acknowledged (rs_closeout s)" "rs_quarantined_resource_ids s = None"
    "\<not> co_provider_not_found (rs_closeout s)" "log_ok s calls"
    "distinct (co_delete_acknowledged_resource_ids (rs_closeout s))"
    "rs_resource s \<noteq> None \<Longrightarrow> rs_provision s \<noteq> None"
  using assms unfolding state_ok_def shape_ok_def deletion_ok_def by blast+

text \<open>The states in which a run leaves for recovery or deletion.\<close>

lemma state_ok_ending:
  assumes s: "state_ok s calls" "lifecycle s < RECOVERING"
    and t: "lifecycle t = RECOVERING \<or> lifecycle t = DELETING" "rs_delete t \<noteq> None"
      "co_artifact_disposition (rs_closeout t) \<noteq> None"
    and same: "provision_advances s t"
      "co_delete_acknowledged_resource_ids (rs_closeout t) =
        co_delete_acknowledged_resource_ids (rs_closeout s)"
      "co_delete_acknowledged (rs_closeout t) = co_delete_acknowledged (rs_closeout s)"
      "co_provider_not_found (rs_closeout t) = co_provider_not_found (rs_closeout s)"
    and ids: "rs_quarantined_resource_ids t \<noteq> Some []"
      "rs_quarantined_resource_ids t \<noteq> None \<Longrightarrow> rs_resource t \<noteq> None"
      "rs_resource t \<noteq> None \<Longrightarrow> rs_provision t \<noteq> None"
  shows "state_ok t calls"
proof -
  note e = early_facts [OF s]
  have "log_ok t calls" using e(6) same(1,2) by (rule log_ok_advance)
  moreover have "shape_ok t"
    using t ids(3) by (elim disjE) (simp_all add: shape_ok_def)
  moreover have "deletion_ok t"
    using e(3,5,7) same(2-4) ids(1,2) by (simp add: deletion_ok_def)
  ultimately show ?thesis by (simp add: state_ok_def)
qed

text \<open>The states in which a run goes on.\<close>

lemma state_ok_going:
  assumes s: "state_ok s calls" "lifecycle s < RECOVERING"
    and t: "lifecycle t < RECOVERING" "lifecycle t \<noteq> PLANNED" "rs_provision t \<noteq> None"
      "lifecycle t = STARTING \<Longrightarrow> rs_start t \<noteq> None \<and> rs_resource t \<noteq> None"
      "lifecycle t < STARTING \<Longrightarrow> rs_resource t = None"
    and same: "log_ok t calls'" "rs_closeout t = rs_closeout s" "rs_workload_result t = None"
      "rs_quarantined_resource_ids t = None"
  shows "state_ok t calls'"
proof -
  note e = early_facts [OF s]
  have "shape_ok t"
    using t same e(2,3) by (auto simp: shape_ok_def)
  moreover have "deletion_ok t"
    using e(3,5,7) same(2,4) by (simp add: deletion_ok_def)
  ultimately show ?thesis using same(1) by (simp add: state_ok_def)
qed

lemma provision_advances_cong: "rs_provision t = rs_provision t' \<Longrightarrow>
    provision_advances s t = provision_advances s t'"
  by (simp add: provision_advances_def split: option.split)

lemma provision_advances_some:
  "provision_advances s t \<Longrightarrow> rs_provision s \<noteq> None \<Longrightarrow> rs_provision t \<noteq> None"
  by (auto simp: provision_advances_def split: option.splits)

lemma unavailable_simps [simp]:
  "lifecycle (unavailable d s) = lifecycle s" "rs_provision (unavailable d s) = rs_provision s"
  "rs_start (unavailable d s) = rs_start s" "rs_delete (unavailable d s) = rs_delete s"
  "rs_resource (unavailable d s) = rs_resource s" "rs_workload_result (unavailable d s) = rs_workload_result s"
  "rs_quarantined_resource_ids (unavailable d s) = rs_quarantined_resource_ids s"
  "rs_closeout (unavailable d s) = (rs_closeout s)\<lparr>co_artifact_disposition := Some (UNAVAILABLE, Some d)\<rparr>"
  by (simp_all add: unavailable_def)

lemma keeps_rejection:
  assumes ok: "run_ok fs wl" and s: "state_ok s (snd wl)" "lifecycle s < RECOVERING"
    and p: "get_op k s = Some p" "rs_provision s \<noteq> None"
  shows "keeps (record_provider_rejection c k p m i is s fs wl)"
proof -
  note e = early_facts [OF s]
  define s1 where "s1 = set_op k (p\<lparr>op_status := Rejected_status, op_last_error := Some m\<rparr>) s"
  have adv: "provision_advances s s1"
    unfolding s1_def by (rule provision_advances_set_op [OF p(1)]) (simp add: advances_def)
  note some = provision_advances_some [OF adv p(2)]
  have "state_ok (t\<lparr>lifecycle := DELETING\<rparr>) (snd wl)"
    if "t = default_op c Delete_op (unavailable m (s1\<lparr>rs_workload_result := Some CANCELLED\<rparr>)) \<or>
      (\<exists>ids r. ids \<noteq> [] \<and> t = (default_op c Delete_op (unavailable m
         (s1\<lparr>rs_workload_result := Some CANCELLED\<rparr>)))
         \<lparr>rs_quarantined_resource_ids := Some ids, rs_resource := Some r\<rparr>)" for t
  proof (rule state_ok_ending [OF s])
    have "rs_provision (t\<lparr>lifecycle := DELETING\<rparr>) = rs_provision s1" using that by auto
    then show "provision_advances s (t\<lparr>lifecycle := DELETING\<rparr>)"
      using adv provision_advances_cong by blast
    show "rs_resource (t\<lparr>lifecycle := DELETING\<rparr>) \<noteq> None \<Longrightarrow> rs_provision (t\<lparr>lifecycle := DELETING\<rparr>) \<noteq> None"
      using that some by auto
  qed (use that e in \<open>auto simp: s1_def\<close>)
  then show ?thesis
    unfolding record_provider_rejection_def Let_def s1_def [symmetric]
    by (intro keeps_commit ok) auto
qed

lemma keeps_error:
  assumes "run_ok fs wl" and "state_ok s (snd wl)" "lifecycle s \<noteq> CLOSED"
    and "get_op k s = Some p"
  shows "keeps (record_provider_error k p e s fs wl)" "keeps (record_outcome_unknown k p e s fs wl)"
  unfolding record_provider_error_def record_outcome_unknown_def
  using assms
  by (auto intro!: keeps_commit_raise state_ok_set_op simp: advances_def)

lemma keeps_intend:
  assumes ok: "run_ok fs wl" and s: "state_ok s (snd wl)" "lifecycle s = PLANNED"
  shows "keeps (intend_provision c s fs wl)"
proof -
  have early: "lifecycle s < RECOVERING" using s(2) by simp
  note e = early_facts [OF s(1) early]
  have none: "rs_provision s = None" "rs_resource s = None"
    using s by (auto simp: state_ok_def shape_ok_def)
  have "state_ok ((default_op c Provision_op s)\<lparr>lifecycle := PROVISIONING\<rparr>) (snd wl)"
  proof (rule state_ok_going [OF s(1) early])
    show "log_ok ((default_op c Provision_op s)\<lparr>lifecycle := PROVISIONING\<rparr>) (snd wl)"
      using e(6) none by (simp add: log_ok_def default_op_def new_operation_def)
  qed (use none e in simp_all)
  then show ?thesis
    unfolding intend_provision_def Let_def
    by (intro keeps_demand keeps_commit ok) simp_all
qed

lemma keeps_record_provisioned:
  assumes ok: "run_ok fs wl" and s: "state_ok s (snd wl)" "lifecycle s = PROVISIONING"
  shows "keeps (record_provisioned c r s fs wl)"
proof -
  have early: "lifecycle s < RECOVERING" using s(2) by simp
  note e = early_facts [OF s(1) early]
  have "state_ok ((default_op c Start_op (s\<lparr>rs_provision := Some (p\<lparr>op_status := Observed,
      op_resource_id := Some i\<rparr>)\<rparr>))\<lparr>rs_resource := Some v, lifecycle := STARTING\<rparr>) (snd wl)"
    if p: "rs_provision s = Some p" for p i v
  proof (rule state_ok_going [OF s(1) early])
    show "log_ok ((default_op c Start_op (s\<lparr>rs_provision := Some (p\<lparr>op_status := Observed,
        op_resource_id := Some i\<rparr>)\<rparr>))\<lparr>rs_resource := Some v, lifecycle := STARTING\<rparr>) (snd wl)"
      by (rule log_ok_advance [OF e(6)]) (simp_all add: provision_advances_def advances_def p)
  qed (use e in simp_all)
  then show ?thesis
    unfolding record_provisioned_def Let_def
    by (auto intro!: keeps_demand keeps_commit keeps_fail ok)
qed

lemma keeps_quarantine:
  assumes ok: "run_ok fs wl" and s: "state_ok s (snd wl)" "lifecycle s = PROVISIONING"
    and p: "rs_provision s = Some p" and many: "1 < length found"
  shows "keeps (quarantine_duplicates c p found s fs wl)"
proof -
  have early: "lifecycle s < RECOVERING" using s(2) by simp
  note e = early_facts [OF s(1) early]
  show ?thesis
    unfolding quarantine_duplicates_def Let_def
  proof (intro keeps_commit ok state_ok_ending [OF s(1) early])
    have "map res_id found \<noteq> []" using many by auto
    then show "rs_quarantined_resource_ids ((default_op c Delete_op
        (unavailable ''duplicate provider resources quarantined''
          (s\<lparr>rs_recovery_reason := Some ''duplicate_provider_resources'',
             rs_provision := Some (p\<lparr>op_status := Conflict, op_resource_ids := Some (map res_id found)\<rparr>),
             rs_quarantined_resource_ids := Some (map res_id found),
             rs_resource := Some (resource_projection (hd found)),
             rs_workload_result := Some CANCELLED\<rparr>)))\<lparr>lifecycle := DELETING\<rparr>) \<noteq> Some []"
      by simp
  qed (simp_all add: provision_advances_def advances_def p)
qed

lemma keeps_visibility:
  assumes ok: "run_ok fs wl" and s: "state_ok s (snd wl)" "lifecycle s = PROVISIONING"
    and p: "rs_provision s = Some p" "op_status p \<noteq> Intended"
  shows "keeps (visibility_pending c now p s fs wl)"
proof -
  have early: "lifecycle s < RECOVERING" using s(2) by simp
  note e = early_facts [OF s(1) early]
  have pending: "state_ok (s\<lparr>rs_provision := Some q\<rparr>) (snd wl)" if "advances p q" for q
    using state_ok_set_op [OF s(1), of Provision_op p q] p(1) that by simp
  have exhausted: "state_ok ((default_op c Delete_op (unavailable visibility_detail
        (s\<lparr>rs_provision := Some q, rs_recovery_reason := Some ''provision_dispatch_unresolved'',
           rs_workload_result := Some CANCELLED\<rparr>)))\<lparr>lifecycle := RECOVERING\<rparr>) (snd wl)"
    if "advances p q" for q
    by (rule state_ok_ending [OF s(1) early]) (use that p(1) e(4) in \<open>simp_all add: provision_advances_def\<close>)
  show ?thesis
    unfolding visibility_pending_def Let_def
    by (intro keeps_demand ok)
      (use p(2) s(2) in \<open>auto intro!: keeps_commit ok pending exhausted simp: advances_def split: option.split\<close>)
qed

lemma keeps_finish_create:
  assumes ok: "run_ok fs wl'" and s: "state_ok s (snd wl')" "lifecycle s = PROVISIONING"
    and p: "rs_provision s = Some p"
    and call: "p_create (traced P) request wl = (res, wl')"
  shows "keeps (finish_create c (traced P) request p s fs wl)"
proof -
  have early: "lifecycle s < RECOVERING" "lifecycle s \<noteq> CLOSED" using s(2) by simp_all
  have k: "get_op Provision_op s = Some p" "rs_provision s \<noteq> None" using p by simp_all
  show ?thesis
    unfolding finish_create_def call
    using keeps_record_provisioned [OF ok s] keeps_rejection [OF ok s(1) early(1) k]
      keeps_error [OF ok s(1) early(2) k(1)] keeps_fail [OF ok]
    by (auto split: sum.split provider_exn.split)
qed

lemma log_ok_create:
  assumes "log_ok s calls" and "rs_provision s = Some p" "op_status p = Intended"
    and "rs_provision t = Some q" "op_status q \<noteq> Intended" "op_attempts q = op_attempts p + 1"
    and "rs_closeout t = rs_closeout s"
  shows "log_ok t (calls @ [Create_call r])"
proof -
  have "creates calls = []" using assms(1-3) by (auto simp: log_ok_def)
  then show ?thesis using assms by (auto simp: log_ok_def creates_def)
qed

lemma keeps_dispatch:
  assumes ok: "run_ok fs wl" and s: "state_ok s (snd wl)" "lifecycle s = PROVISIONING"
    and p: "rs_provision s = Some p" "op_status p = Intended"
  shows "keeps (dispatch_create c (traced P) now p s fs wl)"
proof (cases "create_request_of p s fs")
  case (Inl e)
  then show ?thesis by (simp add: dispatch_create_def keeps_fail ok)
next
  case (Inr request)
  have early: "lifecycle s < RECOVERING" using s(2) by simp
  note e = early_facts [OF s(1) early]
  define p1 where "p1 = p\<lparr>op_attempts := op_attempts p + 1, op_status := Dispatched,
    op_dispatched_at := Some (isoformat now)\<rparr>"
  define s1 where "s1 = s\<lparr>rs_provision := Some p1\<rparr>"
  obtain res wl' where call: "p_create (traced P) request wl = (res, wl')"
    by (rule prod.exhaust)
  note grown = traced_log(2) [OF call]
  have id: "cr_operation_id request = op_id p"
    using Inr by (auto simp: create_request_of_def split: sum.splits option.splits)
  have s1: "rs_provision s1 = Some p1" "lifecycle s1 = PROVISIONING" using s(2) by (simp_all add: s1_def)
  have store: "store_ok fs" and j: "journaled fs (snd wl)" using ok by (auto simp: run_ok_def)
  have nc: "lifecycle s1 = CLOSED \<Longrightarrow> closeout_receipt_valid (stamped fs s1)" using s1(2) by simp
  obtain fs' where c: "commit_state closeout_receipt_valid ''provider_operation_dispatched'' s1
      [(''kind'', PStr ''provision''), (''operation_id'', PStr (op_id p))] fs = (Inr (stamped fs s1), fs')"
    and fs': "store_ok fs'" "current fs' = Some (stamped fs s1)"
    and l: "f_lines fs' = f_lines fs @ [Event \<lparr>ev_sequence = int (length (f_lines fs)) + 1,
       ev_kind = ''provider_operation_dispatched'',
       ev_payload = [(''kind'', PStr ''provision''), (''operation_id'', PStr (op_id p))],
       ev_projection = stamped fs s1\<rparr>]"
    by (rule commit_ok [where valid = closeout_receipt_valid and kind = "''provider_operation_dispatched''"
      and payload = "[(''kind'', PStr ''provision''), (''operation_id'', PStr (op_id p))]", OF store nc])
  have "state_ok s1 (snd wl')"
  proof (rule state_ok_going [OF s(1) early])
    have "log_ok s1 (snd wl @ [Create_call request])"
      by (rule log_ok_create [OF e(6) p s1(1)]) (simp_all add: p1_def s1_def)
    then show "log_ok s1 (snd wl')" by (simp add: grown)
  qed (use e s s1 in \<open>auto simp: s1_def state_ok_def shape_ok_def\<close>)
  moreover have "journaled fs' (snd wl')"
  proof -
    have "journaled fs' (snd wl)" by (rule journaled_append [OF j l])
    moreover have "\<exists>ev. Event ev \<in> set (f_lines fs') \<and> ev_kind ev = ''provider_operation_dispatched'' \<and>
        (\<exists>q. rs_provision (ev_projection ev) = Some q \<and> op_id q = cr_operation_id request \<and>
           op_status q = Dispatched)"
      unfolding l using s1(1) id
      by (intro exI [of _ "\<lparr>ev_sequence = int (length (f_lines fs)) + 1,
        ev_kind = ''provider_operation_dispatched'',
        ev_payload = [(''kind'', PStr ''provision''), (''operation_id'', PStr (op_id p))],
        ev_projection = stamped fs s1\<rparr>"]) (simp add: stamped_def p1_def)
    ultimately show ?thesis by (auto simp: journaled_def grown)
  qed
  ultimately have "run_ok fs' wl'" and st: "state_ok s1 (snd wl')"
    using fs' s1(2) by (auto simp: run_ok_def closed_ok_def stamped_def)
  then have "keeps (finish_create c (traced P) request p1 s1 fs' wl)"
    using s1 call by (intro keeps_finish_create) auto
  then show ?thesis
    by (simp add: dispatch_create_def Inr commit_def c Let_def s1_def [symmetric] p1_def [symmetric])
qed

lemma keeps_reconcile_provision:
  assumes ok: "run_ok fs wl" and s: "state_ok s (snd wl)" "lifecycle s = PROVISIONING"
  shows "keeps (reconcile_provision c (traced P) now s fs wl)"
  unfolding reconcile_provision_def
proof (rule keeps_demand [OF ok])
  fix p assume "needed ''provision'' (rs_provision s) = Inr p"
  then have p: "rs_provision s = Some p" by simp
  obtain res wl' where call: "p_find (traced P) (op_id p) wl = (res, wl')"
    by (rule prod.exhaust)
  note same = traced_log(1) [OF call]
  have ok': "run_ok fs wl'" by (rule run_ok_quiet [OF ok same])
  have s': "state_ok s (snd wl')" using s(1) by (simp add: same)
  have early: "lifecycle s < RECOVERING" using s(2) by simp
  have k: "get_op Provision_op s = Some p" "rs_provision s \<noteq> None" using p by simp_all
  show "keeps (case p_find (traced P) (op_id p) wl of
         (Inl (Rejected m i is), w') \<Rightarrow> record_provider_rejection c Provision_op p m i is s fs w'
       | (Inl e, w') \<Rightarrow> (Inl (ProviderFault e), fs, w')
       | (Inr found, w') \<Rightarrow>
           if 1 < length found then quarantine_duplicates c p found s fs w'
           else if found \<noteq> [] then record_provisioned c (hd found) s fs w'
           else if op_status p \<noteq> Intended then visibility_pending c now p s fs w'
           else dispatch_create c (traced P) now p s fs w')"
    unfolding call
    using keeps_rejection [OF ok' s' early k] keeps_fail [OF ok'] keeps_quarantine [OF ok' s' s(2) p]
      keeps_record_provisioned [OF ok' s' s(2)] keeps_visibility [OF ok' s' s(2) p]
      keeps_dispatch [OF ok' s' s(2) p]
    by (auto split: sum.split provider_exn.split)
qed

lemma state_ok_starting:
  assumes s: "state_ok s calls" "lifecycle s = STARTING"
    and t: "lifecycle t \<in> {STARTING, RUNNING}" "rs_start t \<noteq> None" "rs_resource t \<noteq> None"
      "rs_provision t = rs_provision s" "rs_closeout t = rs_closeout s"
      "rs_workload_result t = rs_workload_result s"
      "rs_quarantined_resource_ids t = rs_quarantined_resource_ids s"
  shows "state_ok t calls"
proof -
  have early: "lifecycle s < RECOVERING" using s(2) by simp
  note e = early_facts [OF s(1) early]
  have prov: "rs_provision s \<noteq> None" using s by (simp add: state_ok_def shape_ok_def)
  have "log_ok t calls"
    by (rule log_ok_advance [OF e(6)]) (simp_all add: provision_advances_def t split: option.split)
  then show ?thesis
    by (rule state_ok_going [OF s(1) early, rotated 5]) (use t e prov in \<open>auto simp: \<close>)
qed

lemma keeps_missing:
  assumes ok: "run_ok fs wl" and s: "state_ok s (snd wl)" "lifecycle s = STARTING"
  shows "keeps (resource_missing c i p s fs wl)"
proof -
  have early: "lifecycle s < RECOVERING" using s(2) by simp
  note e = early_facts [OF s(1) early]
  have prov: "rs_provision s \<noteq> None" using s by (simp add: state_ok_def shape_ok_def)
  show ?thesis
    unfolding resource_missing_def Let_def
    by (intro keeps_commit ok state_ok_ending [OF s(1) early])
      (use e prov in \<open>auto simp: provision_advances_def\<close>)
qed

lemma keeps_start_resource:
  assumes ok: "run_ok fs wl" and s: "state_ok s (snd wl)" "lifecycle s = STARTING"
    and p: "rs_start s = Some p"
  shows "keeps (start_resource c (traced P) i p s fs wl)"
proof -
  obtain res wl' where call: "p_start (traced P) i (op_id p) wl = (res, wl')" by (rule prod.exhaust)
  note grown = traced_log(4) [OF call]
  define p1 where "p1 = p\<lparr>op_attempts := op_attempts p + 1\<rparr>"
  define s1 where "s1 = s\<lparr>rs_start := Some p1\<rparr>"
  have ok': "run_ok fs wl'" by (rule run_ok_logged [OF ok grown]) simp
  have sl: "state_ok s (snd wl')"
    using s(1) log_ok_mono [of s "snd wl" "Start_call i (op_id p)"]
    by (simp add: state_ok_def grown)
  have res: "rs_resource s \<noteq> None" "rs_provision s \<noteq> None"
    using s by (auto simp: state_ok_def shape_ok_def)
  have s1: "state_ok s1 (snd wl')" "lifecycle s1 = STARTING" "get_op Start_op s1 = Some p1"
      "lifecycle s1 < RECOVERING" "lifecycle s1 \<noteq> CLOSED" "rs_provision s1 \<noteq> None"
    using state_ok_starting [OF sl s(2), of s1] s(2) res by (simp_all add: s1_def)
  have run: "state_ok (s1\<lparr>rs_resource := Some v, rs_start := Some q\<rparr>) (snd wl')"
    "state_ok (s1\<lparr>rs_resource := Some v, rs_start := Some q, lifecycle := RUNNING\<rparr>) (snd wl')" for v q
    using state_ok_starting [OF sl s(2)] s(2) by (simp_all add: s1_def)
  show ?thesis
    unfolding start_resource_def Let_def p1_def [symmetric] s1_def [symmetric] call
    using keeps_rejection [OF ok' s1(1,4,3,6)] keeps_error [OF ok' s1(1,5,3)] keeps_fail [OF ok'] s1(2)
    by (auto split: sum.split provider_exn.split intro!: keeps_commit ok' run)
qed

lemma keeps_reconcile_start:
  assumes ok: "run_ok fs wl" and s: "state_ok s (snd wl)" "lifecycle s = STARTING"
  shows "keeps (reconcile_start c (traced P) s fs wl)"
  unfolding reconcile_start_def Let_def
proof (intro keeps_demand ok)
  fix r p assume "needed ''resource'' (rs_resource s) = Inr r" "needed ''start'' (rs_start s) = Inr p"
  then have r: "rs_resource s = Some r" "rs_start s = Some p" by simp_all
  let ?i = "resource_value_id r"
  obtain res wl' where call: "p_get (traced P) ?i wl = (res, wl')" by (rule prod.exhaust)
  note same = traced_log(3) [OF call]
  have ok': "run_ok fs wl'" by (rule run_ok_quiet [OF ok same])
  have s': "state_ok s (snd wl')" using s(1) by (simp add: same)
  have early: "lifecycle s < RECOVERING" using s(2) by simp
  have k: "get_op Start_op s = Some p" "rs_provision s \<noteq> None"
    using r s by (auto simp: state_ok_def shape_ok_def)
  have seen: "state_ok (s\<lparr>rs_resource := Some v\<rparr>) (snd wl')"
    "state_ok (s\<lparr>rs_resource := Some v, rs_start := Some q, lifecycle := RUNNING\<rparr>) (snd wl')" for v q
    using state_ok_starting [OF s' s(2)] s(2) r by simp_all
  have start: "keeps (start_resource c (traced P) ?i p (s\<lparr>rs_resource := Some v\<rparr>) fs wl')" for v
    by (rule keeps_start_resource [OF ok' seen(1)]) (simp_all add: s(2) r)
  show "keeps (case p_get (traced P) ?i wl of
         (Inl (Rejected m j is), w') \<Rightarrow> record_provider_rejection c Start_op p m j is s fs w'
       | (Inl e, w') \<Rightarrow> (Inl (ProviderFault e), fs, w')
       | (Inr None, w') \<Rightarrow> resource_missing c ?i p s fs w'
       | (Inr (Some observed), w') \<Rightarrow>
           if res_state observed = Pod_RUNNING
           then commit ''resource_running'' [(''resource_id'', PStr ?i)]
                  (s\<lparr>rs_resource := Some (resource_projection observed),
                     rs_start := Some (p\<lparr>op_status := Observed_running\<rparr>), lifecycle := RUNNING\<rparr>) fs w'
           else start_resource c (traced P) ?i p (s\<lparr>rs_resource := Some (resource_projection observed)\<rparr>) fs w')"
    unfolding call
    using keeps_rejection [OF ok' s' early k] keeps_fail [OF ok'] keeps_missing [OF ok' s' s(2)] start
    by (auto split: sum.split provider_exn.split option.split intro!: keeps_commit ok' seen)
qed

lemma deleting_facts:
  assumes "state_ok s calls" and "lifecycle s = DELETING"
  shows "co_artifact_disposition (rs_closeout s) \<noteq> None" "rs_delete s \<noteq> None"
    "rs_resource s \<noteq> None \<Longrightarrow> rs_provision s \<noteq> None" "deletion_ok s" "log_ok s calls"
  using assms unfolding state_ok_def shape_ok_def by simp_all

lemma state_ok_late:
  assumes "RECOVERING < lifecycle t" and "co_artifact_disposition (rs_closeout t) \<noteq> None"
    "rs_delete t \<noteq> None" "rs_resource t \<noteq> None \<Longrightarrow> rs_provision t \<noteq> None"
    and "deletion_ok t" "log_ok t calls"
  shows "state_ok t calls"
  using assms by (cases "lifecycle t") (simp_all add: state_ok_def shape_ok_def lifecycle_order)

lemma late_simps [simp]: "RECOVERING < DELETING" "RECOVERING < CLOSED"
  by (simp_all add: lifecycle_order)

text \<open>A state that differs from a deleting one only where the closeout proof may.\<close>

lemma state_ok_same_deletion:
  assumes s: "state_ok s calls" "lifecycle s = DELETING" and t: "RECOVERING < lifecycle t" "rs_delete t \<noteq> None"
    "co_artifact_disposition (rs_closeout t) = co_artifact_disposition (rs_closeout s)"
    "rs_provision t = rs_provision s" "rs_resource t = rs_resource s"
    "rs_quarantined_resource_ids t = rs_quarantined_resource_ids s"
    "co_delete_acknowledged_resource_ids (rs_closeout t) = co_delete_acknowledged_resource_ids (rs_closeout s)"
    "co_delete_acknowledged (rs_closeout t) = co_delete_acknowledged (rs_closeout s)"
    "co_provision_absence_confirmed (rs_closeout s) \<longrightarrow> co_provision_absence_confirmed (rs_closeout t)"
    "co_provider_not_found (rs_closeout t) \<longrightarrow>
      co_provider_not_found (rs_closeout s) \<or> co_delete_acknowledged (rs_closeout s)"
  shows "state_ok t calls"
proof -
  note d = deleting_facts [OF s]
  have "log_ok t calls"
    by (rule log_ok_advance [OF d(5)]) (simp_all add: provision_advances_def t split: option.split)
  moreover have "deletion_ok t"
    using d(4) t by (auto simp: deletion_ok_def known_ids_def)
  ultimately show ?thesis
    using d t by (intro state_ok_late) simp_all
qed

text \<open>Adopting resources while none was known.\<close>

lemma state_ok_adopt:
  assumes s: "state_ok s calls" "lifecycle s = DELETING"
    and none: "rs_resource s = None" "rs_provision s \<noteq> None"
      "\<not> co_provision_absence_confirmed (rs_closeout s)"
    and t: "rs_resource t \<noteq> None" "rs_quarantined_resource_ids t \<noteq> Some []" "lifecycle t = DELETING"
      "rs_provision t = rs_provision s" "rs_delete t = rs_delete s"
      "co_artifact_disposition (rs_closeout t) = co_artifact_disposition (rs_closeout s)"
      "co_delete_acknowledged_resource_ids (rs_closeout t) = co_delete_acknowledged_resource_ids (rs_closeout s)"
      "co_delete_acknowledged (rs_closeout t) = co_delete_acknowledged (rs_closeout s)"
      "co_provider_not_found (rs_closeout t) = co_provider_not_found (rs_closeout s)"
  shows "state_ok t calls"
proof -
  note d = deleting_facts [OF s]
  have "\<not> co_delete_acknowledged (rs_closeout s)" using d(4) none by (auto simp: deletion_ok_def)
  then have "deletion_ok t" using d(4) t by (auto simp: deletion_ok_def)
  moreover have "log_ok t calls"
    by (rule log_ok_advance [OF d(5)]) (simp_all add: provision_advances_def t split: option.split)
  ultimately show ?thesis
    using d(1,2) none(2) t by (intro state_ok_late) simp_all
qed

lemma keeps_confirm_absence:
  assumes ok: "run_ok fs wl" and s: "state_ok s (snd wl)" "lifecycle s = DELETING"
  shows "keeps (confirm_absence now p deadline s fs wl)"
proof -
  note d = deleting_facts [OF s]
  have upd: "state_ok (upd_closeout (\<lambda>co. co\<lparr>co_provision_absence_first_observed_at := x\<rparr>) s) (snd wl)"
    "state_ok (upd_closeout (\<lambda>co. co\<lparr>co_provision_absence_confirmed := True,
       co_provision_resolution := y\<rparr>) s) (snd wl)"
    "state_ok (upd_closeout (\<lambda>co. co\<lparr>co_provision_absence_confirmed := True\<rparr>) s) (snd wl)" for x y
    by (rule state_ok_same_deletion [OF s]; simp add: s(2) d)+
  show ?thesis
    unfolding confirm_absence_def Let_def
    by (auto split: option.split intro!: keeps_commit keeps_fail ok upd s(1) simp: s(2))
qed

lemma keeps_resolve_absence:
  assumes ok: "run_ok fs wl" and s: "state_ok s (snd wl)" "lifecycle s = DELETING"
    and none: "rs_resource s = None" "rs_provision s = Some p"
      "\<not> co_provision_absence_confirmed (rs_closeout s)"
  shows "keeps (resolve_absence (traced P) now p s fs wl)"
proof -
  obtain res wl' where call: "p_find (traced P) (op_id p) wl = (res, wl')" by (rule prod.exhaust)
  note same = traced_log(1) [OF call]
  have ok': "run_ok fs wl'" by (rule run_ok_quiet [OF ok same])
  have s': "state_ok s (snd wl')" using s(1) by (simp add: same)
  note d = deleting_facts [OF s]
  have prov: "rs_provision s \<noteq> None" using none(2) by simp
  note adopt = state_ok_adopt [OF s' s(2) none(1) prov none(3)]
  have quarantine_none: "rs_quarantined_resource_ids s \<noteq> Some []" using d(4) by (simp add: deletion_ok_def)
  have rejected: "keeps (if ids = [] then (Inl (ProviderFault e), fs, wl')
      else commit k pl (upd_closeout (\<lambda>co. co\<lparr>co_provision_absence_first_observed_at := None\<rparr>)
        (s\<lparr>rs_quarantined_resource_ids := Some ids, rs_resource := Some (IdOnly (hd ids))\<rparr>)) fs wl')" for ids e k pl
    by (auto intro!: keeps_fail keeps_commit ok' adopt simp: s(2))
  have many: "keeps (commit k pl (s\<lparr>rs_quarantined_resource_ids := Some (map res_id found),
      rs_resource := Some v\<rparr>) fs wl')" if "1 < length found" for found k pl v
    using that by (auto intro!: keeps_commit ok' adopt simp: s(2))
  have one: "keeps (commit k pl (upd_closeout (\<lambda>co. co\<lparr>co_provision_absence_first_observed_at := None\<rparr>)
      (s\<lparr>rs_resource := Some v\<rparr>)) fs wl')" for k pl v
    using quarantine_none by (auto intro!: keeps_commit ok' adopt simp: s(2))
  have absent: "keeps (commit k pl (upd_closeout (\<lambda>co. co\<lparr>co_provision_absence_confirmed := True\<rparr>) s) fs wl')"
    for k pl
    by (intro keeps_commit ok' state_ok_same_deletion [OF s' s(2)]) (simp_all add: s(2) d)
  show ?thesis
    unfolding resolve_absence_def call Let_def
    using rejected many one absent keeps_fail [OF ok'] keeps_confirm_absence [OF ok' s' s(2)]
    by (auto split: sum.split provider_exn.split intro!: keeps_demand ok')
qed

lemma log_ok_deleted:
  assumes "log_ok s calls" and "Delete_call i k \<in> set calls" and "rs_provision t = rs_provision s"
    and "set (co_delete_acknowledged_resource_ids (rs_closeout t)) \<subseteq>
      insert i (set (co_delete_acknowledged_resource_ids (rs_closeout s)))"
  shows "log_ok t calls"
  using assms unfolding log_ok_def by (auto split: option.splits)

lemma keeps_delete_receipt:
  assumes ok: "run_ok fs wl" and s: "state_ok s (snd wl)" "lifecycle s = DELETING"
    and called: "Delete_call i k \<in> set (snd wl)" and some: "rs_resource s \<noteq> None"
  shows "keeps (record_delete_receipt p receipt i s fs wl)"
proof -
  note d = deleting_facts [OF s]
  define acked where "acked = (if i \<in> set (co_delete_acknowledged_resource_ids (rs_closeout s))
     then co_delete_acknowledged_resource_ids (rs_closeout s)
     else co_delete_acknowledged_resource_ids (rs_closeout s) @ [i])"
  define whole where "whole = list_all (\<lambda>j. j \<in> set acked) (known_ids s)"
  have acked: "set acked = insert i (set (co_delete_acknowledged_resource_ids (rs_closeout s)))"
      "distinct acked"
    using d(4) by (auto simp: acked_def deletion_ok_def)
  let ?t = "s\<lparr>rs_closeout := (rs_closeout s)\<lparr>co_delete_acknowledged_resource_ids := acked,
      co_delete_acknowledged := (if whole then True else co_delete_acknowledged (rs_closeout s)),
      co_delete_already_absent := dr_already_absent receipt\<rparr>,
    rs_delete := Some (p\<lparr>op_status := (if whole then Acknowledged_all else Acknowledged)\<rparr>)\<rparr>"
  have "known_ids ?t = known_ids s" by (simp add: known_ids_def)
  then have "deletion_ok ?t"
    using d(4) acked some by (auto simp: deletion_ok_def whole_def list_all_iff)
  moreover have "log_ok ?t (snd wl)"
    by (rule log_ok_deleted [OF d(5) called]) (simp_all add: acked)
  ultimately have "state_ok ?t (snd wl)" using d s(2) by (intro state_ok_late) simp_all
  then show ?thesis
    unfolding record_delete_receipt_def Let_def known_ids_case acked_def [symmetric] whole_def [symmetric]
    using keeps_fail [OF ok] s(2) by (auto intro!: keeps_commit ok)
qed

lemma keeps_delete_next:
  assumes ok: "run_ok fs wl" and s: "state_ok s (snd wl)" "lifecycle s = DELETING"
    and ids: "set ids = set (known_ids s)" and some: "ids \<noteq> [] \<Longrightarrow> rs_resource s \<noteq> None"
    and settled: "rs_resource s = None \<Longrightarrow>
      rs_provision s = None \<or> co_provision_absence_confirmed (rs_closeout s)"
  shows "keeps (delete_next (traced P) p ids s fs wl)"
proof -
  note d = deleting_facts [OF s]
  define pending where
    "pending = filter (\<lambda>i. i \<notin> set (co_delete_acknowledged_resource_ids (rs_closeout s))) ids"
  show ?thesis
  proof (cases pending)
    case Nil
    then have all: "set (known_ids s) \<subseteq> set (co_delete_acknowledged_resource_ids (rs_closeout s))"
      unfolding pending_def filter_empty_conv using ids by auto
    have "state_ok ((upd_closeout (\<lambda>co. co\<lparr>co_delete_acknowledged := True,
        co_delete_already_absent := (ids = [])\<rparr>) s)\<lparr>rs_delete := Some q\<rparr>) (snd wl)" for q
    proof (rule state_ok_late)
      show "deletion_ok ((upd_closeout (\<lambda>co. co\<lparr>co_delete_acknowledged := True,
          co_delete_already_absent := (ids = [])\<rparr>) s)\<lparr>rs_delete := Some q\<rparr>)"
        using d(4) all settled by (auto simp: deletion_ok_def known_ids_def)
      show "log_ok ((upd_closeout (\<lambda>co. co\<lparr>co_delete_acknowledged := True,
          co_delete_already_absent := (ids = [])\<rparr>) s)\<lparr>rs_delete := Some q\<rparr>) (snd wl)"
        by (rule log_ok_advance [OF d(5)]) (simp_all add: provision_advances_def split: option.split)
    qed (use d s(2) in simp_all)
    then show ?thesis
      unfolding delete_next_def Let_def pending_def [symmetric] Nil
      using s(2) by (auto intro!: keeps_commit ok)
  next
    case (Cons i rest)
    then have "i \<in> set pending" by simp
    then have "i \<in> set ids" by (simp add: pending_def)
    then have "ids \<noteq> []" by auto
    then have res: "rs_resource s \<noteq> None" by (rule some)
    obtain r wl' where call: "p_delete (traced P) i (op_id p) wl = (r, wl')" by (rule prod.exhaust)
    note grown = traced_log(5) [OF call]
    have ok': "run_ok fs wl'" by (rule run_ok_logged [OF ok grown]) simp
    define p1 where "p1 = p\<lparr>op_attempts := op_attempts p + 1\<rparr>"
    define s1 where "s1 = s\<lparr>rs_delete := Some p1\<rparr>"
    have sl: "state_ok s (snd wl')"
      using s(1) log_ok_mono [of s "snd wl" "Delete_call i (op_id p)"]
      by (simp add: state_ok_def grown)
    have s1: "state_ok s1 (snd wl')" "lifecycle s1 = DELETING" "get_op Delete_op s1 = Some p1"
        "rs_resource s1 \<noteq> None" "lifecycle s1 \<noteq> CLOSED"
      using state_ok_same_deletion [OF sl s(2), of s1] s(2) res by (simp_all add: s1_def)
    have logged: "Delete_call i (op_id p) \<in> set (snd wl')" by (simp add: grown)
    show ?thesis
      unfolding delete_next_def Let_def pending_def [symmetric] Cons list.case call
        p1_def [symmetric] s1_def [symmetric]
      using keeps_error [OF ok' s1(1,5,3)] keeps_fail [OF ok']
        keeps_delete_receipt [OF ok' s1(1,2) logged s1(4)]
      by (auto split: sum.split provider_exn.split)
  qed
qed

lemma keeps_observe_deletion:
  assumes ok: "run_ok fs wl" and s: "state_ok s (snd wl)" "lifecycle s = DELETING"
    and acked: "co_delete_acknowledged (rs_closeout s)"
  shows "keeps (observe_deletion (traced P) i q s fs wl)"
proof -
  define decide where "decide = (\<lambda>absent wl'.
    let payload = [(''resource_id'', optional_text i)] in
    if absent then commit ''provider_absence_confirmed'' payload
        (upd_closeout (\<lambda>co. co\<lparr>co_provider_not_found := True\<rparr>) s) fs wl'
    else commit ''provider_deletion_pending'' payload s fs (wl' :: 'a logged))"
  have decide: "keeps (decide absent wl')" if "snd wl' = snd wl" for absent wl'
  proof -
    have ok': "run_ok fs wl'" and s': "state_ok s (snd wl')"
      using run_ok_quiet [OF ok that] s(1) that by simp_all
    have "state_ok (upd_closeout (\<lambda>co. co\<lparr>co_provider_not_found := True\<rparr>) s) (snd wl')"
      using acked deleting_facts [OF s] by (intro state_ok_same_deletion [OF s' s(2)]) (simp_all add: s(2))
    then show ?thesis using s' by (auto intro!: keeps_commit ok' simp: decide_def Let_def s(2))
  qed
  have after: "keeps (case out of (Inl e, wl') \<Rightarrow> (Inl (ProviderFault e), fs, wl')
      | (Inr r, wl') \<Rightarrow> decide (g r) wl')"
    if "snd (snd out) = snd wl" for out :: "(provider_exn + 'r) \<times> 'a logged" and g :: "'r \<Rightarrow> bool"
  proof -
    obtain r wl' where out: "out = (r, wl')" by (rule prod.exhaust)
    then have "keeps (Inl e, fs, wl')" for e using that keeps_fail [OF run_ok_quiet [OF ok]] by simp
    then show ?thesis using that decide out by (cases r) simp_all
  qed
  have quiet: "snd (snd (p_find (traced P) j wl)) = snd wl" "snd (snd (p_get (traced P) j wl)) = snd wl" for j
    by (metis prod.collapse traced_log(1)) (metis prod.collapse traced_log(3))
  have "observe_deletion (traced P) i q s fs wl =
      (if q \<noteq> [] then demand (needed ''provision'' (rs_provision s)) fs wl (\<lambda>p.
         case p_find (traced P) (op_id p) wl of (Inl e, wl') \<Rightarrow> (Inl (ProviderFault e), fs, wl')
         | (Inr remaining, wl') \<Rightarrow> decide (remaining = []) wl')
       else (case i of None \<Rightarrow> decide True wl
         | Some j \<Rightarrow> (case p_get (traced P) j wl of (Inl e, wl') \<Rightarrow> (Inl (ProviderFault e), fs, wl')
             | (Inr r, wl') \<Rightarrow> decide (r = None) wl')))"
    unfolding observe_deletion_def decide_def Let_def ..
  also have "keeps \<dots>"
    using after [OF quiet(1)] after [OF quiet(2)] decide [OF refl]
    by (auto split: option.split intro!: keeps_demand ok)
  finally show ?thesis .
qed

lemma keeps_observe_spend:
  assumes ok: "run_ok fs wl" and s: "state_ok s (snd wl)" "lifecycle s = DELETING"
  shows "keeps (observe_spend (traced P) i s fs wl)"
proof -
  note d = deleting_facts [OF s]
  have spent: "snd wl' = snd wl" if "scoped_spend (traced P) sc i wl = (r, wl')" for sc r wl'
    using that by (cases sc) (auto simp: scoped_spend_def dest: traced_log(6))
  have st: "state_ok (upd_closeout (\<lambda>co. co\<lparr>co_current_spend_usd_per_hour := x,
        co_current_spend_scope := y\<rparr>) s) (snd wl')"
    "state_ok ((upd_closeout (\<lambda>co. co\<lparr>co_current_spend_usd_per_hour := x,
        co_current_spend_scope := y\<rparr>) s)\<lparr>lifecycle := CLOSED\<rparr>) (snd wl')"
    if "snd wl' = snd wl" for x y wl'
    using that by (simp_all add: d s(2) state_ok_same_deletion [OF s])
  show ?thesis
    unfolding observe_spend_def Let_def
  proof (rule keeps_demand [OF ok])
    fix scope
    obtain r wl' where call: "scoped_spend (traced P) scope i wl = (r, wl')" by (rule prod.exhaust)
    note same = spent [OF call]
    show "keeps (if co_current_spend_scope (rs_closeout s) \<noteq> None \<and>
          co_current_spend_scope (rs_closeout s) \<noteq> Some scope
       then (Inl (Fault (LifecycleConflictError ''current spend scope differs from closeout proof'')), fs, wl)
       else (case scoped_spend (traced P) scope i wl of
          (Inl e, w') \<Rightarrow> (Inl (ProviderFault e), fs, w')
        | (Inr spend, w') \<Rightarrow>
            if \<not> is_finite spend \<or> dec_lt spend dec_zero
            then (Inl (ProviderFault (ProtocolError
                    ''provider current spend must be a non-negative Decimal'')), fs, w')
            else if dec_eq spend dec_zero then
                demand (assert_closeout_ready (upd_closeout (\<lambda>co. co\<lparr>co_current_spend_usd_per_hour :=
                    Some (format_money spend), co_current_spend_scope := Some scope\<rparr>) s) fs) fs w' (\<lambda>_.
                  commit ''closeout_completed'' [] ((upd_closeout (\<lambda>co. co\<lparr>co_current_spend_usd_per_hour :=
                    Some (format_money spend), co_current_spend_scope := Some scope\<rparr>) s)
                      \<lparr>lifecycle := CLOSED\<rparr>) fs w')
              else commit ''provider_spend_observed''
                    [(''current_spend_usd_per_hour'', PStr (format_money spend)),
                     (''current_spend_scope'', scope_payload scope)]
                    (upd_closeout (\<lambda>co. co\<lparr>co_current_spend_usd_per_hour :=
                    Some (format_money spend), co_current_spend_scope := Some scope\<rparr>) s) fs w'))"
      unfolding call
      using keeps_fail [OF ok] keeps_fail [OF run_ok_quiet [OF ok same]] s(2)
      by (auto split: sum.split intro!: keeps_demand keeps_commit st same run_ok_quiet [OF ok])
  qed
qed

lemma keeps_reconcile_delete:
  assumes ok: "run_ok fs wl" and s: "state_ok s (snd wl)" "lifecycle s = DELETING"
  shows "keeps (reconcile_delete (traced P) now s fs wl)"
proof (cases "rs_resource s = None \<and> rs_provision s \<noteq> None \<and>
    \<not> co_provision_absence_confirmed (rs_closeout s)")
  case True
  then show ?thesis
    unfolding reconcile_delete_def
    using keeps_resolve_absence [OF ok s] keeps_fail [OF ok] by (auto intro!: keeps_demand ok)
next
  case False
  note d = deleting_facts [OF s]
  define quarantined where
    "quarantined = (case rs_quarantined_resource_ids s of None \<Rightarrow> [] | Some ids \<Rightarrow> ids)"
  define ids where "ids = (if quarantined \<noteq> [] then quarantined
    else (case resource_id_of s of None \<Rightarrow> [] | Some i \<Rightarrow> [i]))"
  have ids: "ids = known_ids s"
    using d(4) by (auto simp: ids_def quarantined_def known_ids_def resource_id_of_def deletion_ok_def
        split: option.splits)
  have some: "rs_resource s \<noteq> None" if "ids \<noteq> []"
    using that d(4) by (cases "rs_resource s"; cases "rs_quarantined_resource_ids s")
      (auto simp: ids known_ids_def deletion_ok_def)
  have next_ok: "keeps (delete_next (traced P) p ids s fs wl)" for p
    using False by (intro keeps_delete_next [OF ok s]) (auto simp: ids some)
  have rest: "reconcile_delete (traced P) now s fs wl =
      demand (needed ''delete'' (rs_delete s)) fs wl (\<lambda>p.
        if [] \<in> set quarantined
        then (Inl (Fault (LifecycleConflictError ''quarantined resource IDs are invalid'')), fs, wl)
        else if \<not> co_delete_acknowledged (rs_closeout s) then delete_next (traced P) p ids s fs wl
        else if \<not> co_provider_not_found (rs_closeout s)
        then observe_deletion (traced P) (resource_id_of s) quarantined s fs wl
        else observe_spend (traced P) (resource_id_of s) s fs wl)"
    using False d(1) unfolding reconcile_delete_def Let_def quarantined_def [symmetric] ids_def [symmetric]
    by (cases "rs_resource s"; cases "rs_provision s";
        cases "co_provision_absence_confirmed (rs_closeout s)") auto
  show ?thesis
    unfolding rest
    using next_ok keeps_observe_deletion [OF ok s] keeps_observe_spend [OF ok s] keeps_fail [OF ok]
    by (auto intro!: keeps_demand ok)
qed

section \<open>Every execution keeps the invariant\<close>

lemma run_ok_state:
  assumes "run_ok fs wl"
  obtains s where "current fs = Some s" "state_ok s (snd wl)" "closed_ok s fs"
    "effective_state fs = (Inr s, fs\<lparr>f_tail := NoTail\<rparr>)" "run_ok (fs\<lparr>f_tail := NoTail\<rparr>) wl"
  using assms run_ok_tail [OF assms] effective_ok [of fs] by (auto simp: run_ok_def)

lemma keeps_reconcile:
  assumes ok: "run_ok fs wl"
  shows "keeps (reconcile c (traced P) now fs wl)"
proof -
  obtain s where s: "state_ok s (snd wl)" "effective_state fs = (Inr s, fs\<lparr>f_tail := NoTail\<rparr>)"
    and ok': "run_ok (fs\<lparr>f_tail := NoTail\<rparr>) wl"
    using ok by (rule run_ok_state)
  show ?thesis
    unfolding reconcile_def s(2)
    using keeps_intend [OF ok' s(1)] keeps_reconcile_provision [OF ok' s(1)]
      keeps_reconcile_start [OF ok' s(1)] keeps_reconcile_delete [OF ok' s(1)] keeps_fail [OF ok']
    by (simp split: lifecycle_state.split)
qed

text \<open>The terminal records and the stop, which do not touch the provider.\<close>

lemma run_ok_commit_state:
  assumes ok: "run_ok fs wl" and "state_ok s (snd wl)" and "lifecycle s \<noteq> CLOSED"
  shows "run_ok (snd (commit_state closeout_receipt_valid kind s payload fs)) wl"
proof -
  have k: "keeps (commit kind payload s fs wl)"
    by (rule keeps_commit [OF assms(1,2)]) (simp add: assms(3))
  obtain r fs' where c: "commit_state closeout_receipt_valid kind s payload fs = (r, fs')"
    by (rule prod.exhaust)
  then show ?thesis using k by (cases r) (simp_all add: keeps_def commit_def)
qed

lemma state_ok_recorded:
  assumes s: "state_ok s calls" "lifecycle s \<noteq> CLOSED"
  shows "state_ok (s\<lparr>rs_workload_result := Some r, lifecycle := RECOVERING\<rparr>) calls"
    and "co_artifact_disposition (rs_closeout t) \<noteq> None \<Longrightarrow> rs_delete t \<noteq> None \<Longrightarrow>
      rs_closeout t = (rs_closeout s)\<lparr>co_artifact_disposition := a\<rparr> \<Longrightarrow>
      rs_resource t = rs_resource s \<Longrightarrow> rs_provision t = rs_provision s \<Longrightarrow>
      rs_quarantined_resource_ids t = rs_quarantined_resource_ids s \<Longrightarrow>
      lifecycle t = DELETING \<Longrightarrow> state_ok t calls"
proof -
  have l: "log_ok s calls" and d: "deletion_ok s"
    and r: "rs_resource s \<noteq> None \<longrightarrow> rs_provision s \<noteq> None"
    using s(1) by (simp_all add: state_ok_def shape_ok_def)
  have log_eq: "log_ok u calls" if "rs_provision u = rs_provision s"
    "co_delete_acknowledged_resource_ids (rs_closeout u) = co_delete_acknowledged_resource_ids (rs_closeout s)" for u
    by (rule log_ok_advance [OF l]) (simp_all add: provision_advances_def that split: option.split)
  show "state_ok (s\<lparr>rs_workload_result := Some r, lifecycle := RECOVERING\<rparr>) calls"
    using r d log_eq by (simp add: state_ok_def shape_ok_def deletion_ok_def known_ids_def)
  assume t: "co_artifact_disposition (rs_closeout t) \<noteq> None" "rs_delete t \<noteq> None"
    "rs_closeout t = (rs_closeout s)\<lparr>co_artifact_disposition := a\<rparr>"
    "rs_resource t = rs_resource s" "rs_provision t = rs_provision s"
    "rs_quarantined_resource_ids t = rs_quarantined_resource_ids s" "lifecycle t = DELETING"
  have "deletion_ok t" using d t by (simp add: deletion_ok_def known_ids_def)
  then show "state_ok t calls"
    using t r log_eq [of t] by (intro state_ok_late) simp_all
qed

lemma run_ok_workload:
  assumes ok: "run_ok fs wl"
  shows "run_ok (snd (record_workload_result result detail fs)) wl"
proof -
  obtain s where s: "state_ok s (snd wl)" "effective_state fs = (Inr s, fs\<lparr>f_tail := NoTail\<rparr>)"
    and ok': "run_ok (fs\<lparr>f_tail := NoTail\<rparr>) wl"
    using ok by (rule run_ok_state)
  show ?thesis
    unfolding record_workload_result_def s(2)
    using ok' run_ok_commit_state [OF ok' state_ok_recorded(1) [OF s(1)]] by simp
qed

lemma run_ok_artifacts:
  assumes ok: "run_ok fs wl"
  shows "run_ok (snd (record_artifact_disposition c disposition detail fs)) wl"
proof -
  obtain s where s: "state_ok s (snd wl)" "effective_state fs = (Inr s, fs\<lparr>f_tail := NoTail\<rparr>)"
    and ok': "run_ok (fs\<lparr>f_tail := NoTail\<rparr>) wl"
    using ok by (rule run_ok_state)
  have "state_ok ((default_op c Delete_op (s\<lparr>rs_closeout := (rs_closeout s)
      \<lparr>co_artifact_disposition := Some a\<rparr>\<rparr>))\<lparr>lifecycle := DELETING\<rparr>) (snd wl)"
    if "lifecycle s \<noteq> CLOSED" for a
    by (rule state_ok_recorded(2) [OF s(1) that]) simp_all
  then show ?thesis
    unfolding record_artifact_disposition_def s(2) Let_def
    using ok' run_ok_commit_state [OF ok'] by simp
qed

lemma run_ok_stop:
  assumes ok: "run_ok fs wl"
  shows "run_ok (snd (request_stop c reason fs)) wl"
proof -
  obtain s where s: "state_ok s (snd wl)" "effective_state fs = (Inr s, fs\<lparr>f_tail := NoTail\<rparr>)"
    and ok': "run_ok (fs\<lparr>f_tail := NoTail\<rparr>) wl"
    using ok by (rule run_ok_state)
  define s1 where "s1 = (if rs_workload_result s = None then s\<lparr>rs_workload_result := Some CANCELLED\<rparr> else s)"
  define s2 where "s2 = (if co_artifact_disposition (rs_closeout s1) = None
    then s1\<lparr>rs_closeout := (rs_closeout s1)\<lparr>co_artifact_disposition := Some (UNAVAILABLE, Some reason)\<rparr>\<rparr>
    else s1)"
  have "state_ok ((default_op c Delete_op s2)\<lparr>lifecycle := DELETING\<rparr>) (snd wl)" if "lifecycle s \<noteq> CLOSED"
    by (rule state_ok_recorded(2) [OF s(1) that, of _ "co_artifact_disposition (rs_closeout s2)"])
      (auto simp: s2_def s1_def)
  moreover have "request_stop c reason fs = (if lifecycle s = CLOSED then (Inr s, fs\<lparr>f_tail := NoTail\<rparr>)
      else commit_state closeout_receipt_valid ''stop_requested''
        ((default_op c Delete_op s2)\<lparr>lifecycle := DELETING\<rparr>) [(''reason'', PStr reason)] (fs\<lparr>f_tail := NoTail\<rparr>))"
    unfolding s1_def s2_def by (simp add: request_stop_def s(2) Let_def)
  ultimately show ?thesis
    using ok' run_ok_commit_state [OF ok'] by simp
qed

lemma run_ok_planned:
  assumes "plan run_id request approved no_files = (Inr s, fs)"
  shows "run_ok fs (w, [])" and "lifecycle s = PLANNED" and "current fs = Some s"
proof -
  obtain money where money: "money_text approved = Inr money"
    using assms by (auto simp: plan_def split: sum.splits)
  define r where "r = dput ''approved_max_usd'' (PStr money) request"
  define files where "files = (no_files :: files)\<lparr>f_request := Some (Contents r)\<rparr>"
  have ok: "store_ok files" by (simp add: files_def store_ok_def no_files_def)
  have c: "commit_state closeout_receipt_valid ''run_planned'' (initial_state run_id money) [] files = (Inr s, fs)"
    using assms money
    by (auto simp: plan_def create_run_def files_def r_def no_files_def split: sum.splits)
  have nc: "lifecycle (initial_state run_id money) = CLOSED \<Longrightarrow>
      closeout_receipt_valid (stamped files (initial_state run_id money))"
    by (simp add: initial_state_def)
  obtain fs' where fs': "commit_state closeout_receipt_valid ''run_planned'' (initial_state run_id money) [] files =
      (Inr (stamped files (initial_state run_id money)), fs')"
    "store_ok fs'" "current fs' = Some (stamped files (initial_state run_id money))"
    by (rule commit_ok [where valid = closeout_receipt_valid and kind = "''run_planned''"
      and payload = "[]", OF ok nc])
  have eq: "s = stamped files (initial_state run_id money)" "fs = fs'" using c fs'(1) by simp_all
  show "lifecycle s = PLANNED" "current fs = Some s"
    using fs'(3) by (simp_all add: eq stamped_def initial_state_def)
  have "state_ok (initial_state run_id money) []"
    by (simp add: state_defs initial_state_def initial_closeout_def creates_def)
  then have "state_ok s []" by (simp add: eq stamped_def)
  then show "run_ok fs (w, [])"
    using fs'(2,3) \<open>lifecycle s = PLANNED\<close> eq
    by (simp add: run_ok_def journaled_def closed_ok_def)
qed

theorem reachable_ok: "reachable c P (fs, wl) \<Longrightarrow> run_ok fs wl"
proof (induction "(fs, wl)" arbitrary: fs wl rule: reachable.induct)
  case (planned run_id request approved s fs w)
  show ?case by (rule run_ok_planned(1) [OF planned(1)])
next
  case (step x fs' wl')
  obtain fs wl where x: "x = (fs, wl)" by (rule prod.exhaust)
  have ok: "run_ok fs wl" using step.hyps(2) x by simp
  from step.hyps(3) show ?case
    unfolding x
  proof (cases rule: run_step.cases)
    case (reconcile now r)
    then show ?thesis using keeps_reconcile [OF ok, of c P now] by (simp add: keeps_def)
  next
    case (workload result detail r)
    then show ?thesis using run_ok_workload [OF ok, of result detail] by simp
  next
    case (artifacts disposition detail r)
    then show ?thesis using run_ok_artifacts [OF ok, of c disposition detail] by simp
  next
    case (stop reason r)
    then show ?thesis using run_ok_stop [OF ok, of c reason] by simp
  next
    case (world w calls w')
    then show ?thesis using run_ok_quiet [OF ok, of "(w', calls)"] by simp
  qed
qed

end
