(* ===== verification/LifecycleProps.thy ===== *)
theory LifecycleProps
  imports LifecycleInv
begin

text \<open>
  What the lifecycle guarantees over all executions: the order of its states, the permanence of its
  records, and the theorems on creation, deletion and closeout that the invariant of
  \<open>LifecycleInv\<close> gives.
\<close>

section \<open>What one call appends\<close>

text \<open>
  \<open>grows Q fs out\<close>: the call appended events whose projections satisfy \<open>Q\<close>, and left the run in the
  state it was in or in one that satisfies \<open>Q\<close>.
\<close>

definition grows :: "(run_state \<Rightarrow> bool) \<Rightarrow> files \<Rightarrow> 'w outcome \<Rightarrow> bool" where
  "grows Q fs out = (case out of (r, fs', w) \<Rightarrow>
     store_ok fs' \<and> f_request fs' = f_request fs \<and>
     (\<exists>ls. f_lines fs' = f_lines fs @ ls) \<and>
     (current fs' = current fs \<or> (\<exists>s. current fs' = Some s \<and> Q s)) \<and>
     (\<forall>s. r = Inr s \<longrightarrow> current fs' = Some s))"

definition seq_blind :: "(run_state \<Rightarrow> bool) \<Rightarrow> bool" where
  "seq_blind Q \<longleftrightarrow> (\<forall>s n. Q (s\<lparr>event_sequence := n\<rparr>) = Q s)"

lemma grows_fail: "store_ok fs \<Longrightarrow> grows Q fs (Inl e, fs, w)"
  by (simp add: grows_def)

lemma grows_commit:
  assumes "store_ok fs" and "seq_blind Q" and "Q s"
  shows "grows Q fs (commit kind payload s fs w)"
proof (cases "lifecycle s = CLOSED \<and> \<not> closeout_receipt_valid (stamped fs s)")
  case True
  then show ?thesis
    using commit_refused [OF assms(1)] store_ok_tail [OF assms(1)] by (simp add: commit_def grows_def)
next
  case False
  then have valid: "lifecycle s = CLOSED \<Longrightarrow> closeout_receipt_valid (stamped fs s)" by simp
  obtain fs' where "commit_state closeout_receipt_valid kind s payload fs = (Inr (stamped fs s), fs')"
    "store_ok fs'" "current fs' = Some (stamped fs s)" "f_request fs' = f_request fs"
    "f_lines fs' = f_lines fs @ [Event \<lparr>ev_sequence = int (length (f_lines fs)) + 1, ev_kind = kind,
       ev_payload = payload, ev_projection = stamped fs s\<rparr>]"
    by (rule commit_ok [where valid = closeout_receipt_valid and kind = kind and payload = payload,
          OF assms(1) valid])
  moreover have "Q (stamped fs s)" using assms(2,3) by (simp add: seq_blind_def stamped_def)
  ultimately show ?thesis by (simp add: commit_def grows_def)
qed

lemma commit_result:
  assumes "store_ok fs" and "commit kind payload s fs w = (Inr t, fs', w')"
  shows "t = stamped fs s"
proof -
  have "fst (commit_state closeout_receipt_valid kind s payload fs) = Inr t"
    using assms(2) by (simp add: commit_def split: prod.splits sum.splits)
  then show ?thesis
    using commit_store_law [OF assms(1), of closeout_receipt_valid kind s payload] by simp
qed

lemma grows_commit_raise:
  assumes "store_ok fs" and "seq_blind Q" and "Q s"
  shows "grows Q fs (commit_raise kind payload s e fs w)"
proof -
  obtain r fs' w' where c: "commit kind payload s fs w = (r, fs', w')" by (metis prod.exhaust)
  show ?thesis
    using grows_commit [OF assms, of kind payload w] c
    by (cases r) (auto simp: commit_raise_def grows_def)
qed

lemma grows_demand:
  assumes "store_ok fs" and "\<And>a. r = Inr a \<Longrightarrow> grows Q fs (k a)"
  shows "grows Q fs (demand r fs w k)"
  using assms by (cases r) (simp_all add: demand_def grows_fail)

text \<open>A second call on what a first one committed.\<close>

lemma grows_trans:
  assumes "grows Q fs (r, fs1, w1)" and "grows Q fs1 out" and "r = Inr s" "Q s"
  shows "grows Q fs out"
  using assms by (auto simp: grows_def split: prod.splits)

lemma grows_tail: "grows Q (fs\<lparr>f_tail := NoTail\<rparr>) out \<Longrightarrow> grows Q fs out"
  by (simp add: grows_def split: prod.splits)

lemmas grows_intros = grows_demand grows_commit grows_commit_raise grows_fail

text \<open>Where a run may be after a step from \<open>s\<close>: not earlier, and with the result it had.\<close>

definition onward :: "run_state \<Rightarrow> run_state \<Rightarrow> bool" where
  "onward s t \<longleftrightarrow> lifecycle s \<le> lifecycle t \<and> rs_run_id t = rs_run_id s \<and>
     rs_approved_max_usd t = rs_approved_max_usd s \<and>
     (rs_workload_result s \<noteq> None \<longrightarrow> rs_workload_result t = rs_workload_result s)"

lemma onward_blind [simp]: "seq_blind (onward s)"
  by (simp add: seq_blind_def onward_def)

lemma order_simps [simp]:
  "PLANNED \<le> (l :: lifecycle_state)" "PROVISIONING \<le> PROVISIONING" "PROVISIONING \<le> STARTING"
  "PROVISIONING \<le> RECOVERING" "PROVISIONING \<le> DELETING" "STARTING \<le> STARTING" "STARTING \<le> RUNNING"
  "STARTING \<le> DELETING" "DELETING \<le> DELETING" "DELETING \<le> CLOSED"
  by (simp_all add: lifecycle_order)

lemma frame_simps [simp]:
  "rs_approved_max_usd (default_op c k s) = rs_approved_max_usd s"
  "rs_run_id (unavailable d s) = rs_run_id s"
  "rs_approved_max_usd (unavailable d s) = rs_approved_max_usd s"
  "rs_run_id (set_op k p s) = rs_run_id s"
  "rs_approved_max_usd (set_op k p s) = rs_approved_max_usd s"
  by (cases k; simp add: default_op_def unavailable_def split: option.split)+

lemma grows_rejection:
  assumes "store_ok fs" "rs_workload_result s = None" "lifecycle s \<le> DELETING"
    and "onward s0 s" "rs_workload_result s0 = None"
  shows "grows (onward s0) fs (record_provider_rejection c k p m i is s fs w)"
  unfolding record_provider_rejection_def Let_def
  using assms by (intro grows_commit) (auto simp: onward_def intro: order_trans)

lemma grows_error:
  assumes "store_ok fs" "onward s0 s"
  shows "grows (onward s0) fs (record_provider_error k p e s fs w)"
    "grows (onward s0) fs (record_outcome_unknown k p e s fs w)"
  unfolding record_provider_error_def record_outcome_unknown_def
  using assms by (auto intro!: grows_commit_raise simp: onward_def)

lemma grows_provisioned:
  assumes "store_ok fs" "onward s0 s" "lifecycle s \<le> STARTING"
  shows "grows (onward s0) fs (record_provisioned c r s fs w)"
  unfolding record_provisioned_def Let_def
  using assms by (auto intro!: grows_intros simp: onward_def intro: order_trans)

lemma grows_reconcile_provision:
  assumes ok: "store_ok fs" and s: "lifecycle s = PROVISIONING" "rs_workload_result s = None"
  shows "grows (onward s) fs (reconcile_provision c P now s fs w)"
proof -
  have self: "onward s s" by (simp add: onward_def)
  have rej: "grows (onward s) fs' (record_provider_rejection c k p m i is s' fs' w')"
    if "store_ok fs'" "onward s s'" "lifecycle s' = PROVISIONING" "rs_workload_result s' = None"
    for fs' s' k p m i "is" w'
    by (rule grows_rejection) (use that s in simp_all)
  have finish: "grows (onward s) fs' (finish_create c P request p s' fs' w')"
    if "store_ok fs'" "onward s s'" "lifecycle s' = PROVISIONING" "rs_workload_result s' = None"
    for fs' s' p request w'
    unfolding finish_create_def
    using rej [OF that] grows_error [OF that(1,2)] grows_provisioned [OF that(1,2)] that
      grows_fail [OF that(1)]
    by (auto split: prod.split sum.split provider_exn.split)
  have disp: "grows (onward s) fs (dispatch_create c P now p s fs w')" for p w'
  proof (cases "create_request_of p s fs")
    case (Inl e)
    then show ?thesis by (simp add: dispatch_create_def grows_fail ok)
  next
    case (Inr request)
    define p1 where "p1 = p\<lparr>op_attempts := op_attempts p + 1, op_status := Dispatched,
      op_dispatched_at := Some (isoformat now)\<rparr>"
    define s1 where "s1 = s\<lparr>rs_provision := Some p1\<rparr>"
    have s1: "onward s s1" "lifecycle s1 = PROVISIONING" "rs_workload_result s1 = None"
      using s by (simp_all add: s1_def onward_def)
    obtain r fs1 w1 where c: "commit ''provider_operation_dispatched''
        [(''kind'', PStr ''provision''), (''operation_id'', PStr (op_id p))] s1 fs w' = (r, fs1, w1)"
      by (metis prod.exhaust)
    have g: "grows (onward s) fs (r, fs1, w1)"
      using grows_commit [OF ok onward_blind s1(1)] c by metis
    show ?thesis
    proof (cases r)
      case (Inl e)
      then show ?thesis
        using g by (simp add: dispatch_create_def Inr Let_def s1_def [symmetric] p1_def [symmetric] c)
    next
      case r: (Inr t)
      have "store_ok fs1" and t: "current fs1 = Some t" using g r by (simp_all add: grows_def)
      then have f: "grows (onward s) fs1 (finish_create c P request p1 s1 fs1 w1)"
        using s1 by (intro finish) simp_all
      have "t = stamped fs s1" using c r by (intro commit_result [OF ok]) simp
      then have "onward s t" using s1(1) by (simp add: onward_def stamped_def)
      then have "grows (onward s) fs (finish_create c P request p1 s1 fs1 w1)"
        using grows_trans [OF g f r] by simp
      then show ?thesis
        by (simp add: dispatch_create_def Inr Let_def s1_def [symmetric] p1_def [symmetric] c r)
    qed
  qed
  have dup: "grows (onward s) fs (quarantine_duplicates c p found s fs w')" for p found w'
    unfolding quarantine_duplicates_def Let_def
    by (intro grows_commit ok onward_blind) (use s in \<open>simp add: onward_def\<close>)
  have vis: "grows (onward s) fs (visibility_pending c now p s fs w')" for p w'
    unfolding visibility_pending_def Let_def
    by (rule grows_demand [OF ok]) (auto intro!: grows_commit ok simp: onward_def s)
  show ?thesis
    unfolding reconcile_provision_def
    using rej [OF ok self s] grows_provisioned [OF ok self] dup vis disp s grows_fail [OF ok]
    by (auto intro!: grows_demand ok split: prod.split sum.split provider_exn.split)
qed

lemma grows_reconcile_start:
  assumes ok: "store_ok fs" and s: "lifecycle s = STARTING" "rs_workload_result s = None"
  shows "grows (onward s) fs (reconcile_start c P s fs w)"
proof -
  have rej: "grows (onward s) fs (record_provider_rejection c k p m i is s' fs w')"
    if "onward s s'" "lifecycle s' = STARTING" "rs_workload_result s' = None" for s' k p m i "is" w'
    by (rule grows_rejection) (use that s ok in simp_all)
  have self: "onward s s" by (simp add: onward_def)
  have start: "grows (onward s) fs (start_resource c P i p s' fs w')"
    if s': "lifecycle s' = STARTING" "onward s s'" "rs_workload_result s' = None" for i p s' w'
  proof -
    define p1 where "p1 = p\<lparr>op_attempts := op_attempts p + 1\<rparr>"
    define s1 where "s1 = s'\<lparr>rs_start := Some p1\<rparr>"
    have s1: "onward s s1" "lifecycle s1 = STARTING" "rs_workload_result s1 = None"
      using s' by (simp_all add: s1_def onward_def)
    have fin: "grows (onward s) fs (commit k pl (s1\<lparr>rs_resource := v, rs_start := q\<rparr>) fs w'')"
      "grows (onward s) fs (commit k pl (s1\<lparr>rs_resource := v, rs_start := q, lifecycle := RUNNING\<rparr>) fs w'')"
      for k pl v q w''
      by (intro grows_commit ok onward_blind; use s s1 in \<open>simp add: onward_def\<close>)+
    show ?thesis
      unfolding start_resource_def Let_def p1_def [symmetric] s1_def [symmetric]
      using rej [OF s1] grows_error [OF ok s1(1)] grows_fail [OF ok] fin
      by (auto split: prod.split sum.split provider_exn.split)
  qed
  have missing: "grows (onward s) fs (resource_missing c i p s fs w')" for i p w'
    unfolding resource_missing_def Let_def
    by (intro grows_commit ok onward_blind) (use s in \<open>simp add: onward_def\<close>)
  have running: "grows (onward s) fs (commit k pl (s\<lparr>rs_resource := v, rs_start := q, lifecycle := RUNNING\<rparr>) fs w')"
    for k pl v q w'
    by (intro grows_commit ok onward_blind) (use s in \<open>simp add: onward_def\<close>)
  have start': "grows (onward s) fs (start_resource c P i p (s\<lparr>rs_resource := v\<rparr>) fs w')" for i p v w'
    by (rule start) (simp_all add: s onward_def)
  show ?thesis
    unfolding reconcile_start_def Let_def
    using rej [OF self s] grows_fail [OF ok] missing running start'
    by (auto intro!: grows_demand ok split: prod.split sum.split option.split provider_exn.split)
qed

text \<open>Deletion changes the closeout, the operations and what is known of the resources only.\<close>

lemma grows_reconcile_delete:
  assumes ok: "store_ok fs" and s: "lifecycle s = DELETING"
  shows "grows (onward s) fs (reconcile_delete P now s fs w)"
proof -
  have fail: "grows (onward s) fs (Inl e, fs, w')" for e w' by (rule grows_fail [OF ok])
  have c: "grows (onward s) fs (commit k pl t fs w')" if "onward s t" for k pl t w'
    by (rule grows_commit [OF ok onward_blind that])
  have confirm: "grows (onward s) fs (confirm_absence now p deadline s fs w')" for p deadline w'
    unfolding confirm_absence_def Let_def
    using fail by (auto split: option.split intro!: c simp: onward_def)
  have resolve: "grows (onward s) fs (resolve_absence P now p s fs w')" for p w'
    unfolding resolve_absence_def Let_def
    using fail confirm
    by (auto split: prod.split sum.split provider_exn.split intro!: c grows_demand ok simp: onward_def)
  have receipt: "grows (onward s) fs (record_delete_receipt p r i t fs w')" if "onward s t" for p r i t w'
    unfolding record_delete_receipt_def Let_def
    using fail that by (auto intro!: c simp: onward_def)
  have next_ok: "grows (onward s) fs (delete_next P p ids s fs w')" for p ids w'
  proof -
    define p1 where "p1 = p\<lparr>op_attempts := op_attempts p + 1\<rparr>"
    define s1 where "s1 = s\<lparr>rs_delete := Some p1\<rparr>"
    have s1: "onward s s1" by (simp add: s1_def onward_def)
    show ?thesis
      unfolding delete_next_def Let_def p1_def [symmetric] s1_def [symmetric]
      using fail grows_error [OF ok s1] receipt [OF s1]
      by (auto split: list.split prod.split sum.split provider_exn.split intro!: c simp: onward_def)
  qed
  have observe: "grows (onward s) fs (observe_deletion P i q s fs w')" for i q w'
    unfolding observe_deletion_def Let_def
    using fail
    by (auto split: prod.split sum.split option.split intro!: c grows_demand ok simp: onward_def)
  have spend: "grows (onward s) fs (observe_spend P i s fs w')" for i w'
    unfolding observe_spend_def Let_def
    using fail s
    by (auto split: prod.split sum.split intro!: c grows_demand ok simp: onward_def)
  show ?thesis
    unfolding reconcile_delete_def Let_def
    using fail resolve next_ok observe spend
    by (auto split: option.split bool.split intro!: grows_demand ok)
qed

lemma grows_intend:
  assumes "store_ok fs" and "lifecycle s = PLANNED"
  shows "grows (onward s) fs (intend_provision c s fs w)"
  unfolding intend_provision_def Let_def
  using assms by (auto intro!: grows_demand grows_commit simp: onward_def)

text \<open>A reconciliation of a run that executions reach.\<close>

lemma reconcile_grows:
  assumes "run_ok fs wl" and "current fs = Some s"
  shows "grows (onward s) fs (reconcile c P now fs w)"
proof -
  obtain t where t: "current fs = Some t" "state_ok t (snd wl)"
    "effective_state fs = (Inr t, fs\<lparr>f_tail := NoTail\<rparr>)" "run_ok (fs\<lparr>f_tail := NoTail\<rparr>) wl"
    using assms(1) by (rule run_ok_state)
  have eq: "t = s" using t(1) assms(2) by simp
  have ok: "store_ok (fs\<lparr>f_tail := NoTail\<rparr>)" using t(4) by (simp add: run_ok_def)
  have same: "grows (onward s) (fs\<lparr>f_tail := NoTail\<rparr>) (Inr s, fs\<lparr>f_tail := NoTail\<rparr>, w)"
    using ok assms(2) by (simp add: grows_def)
  have none: "rs_workload_result s = None" if "lifecycle s < RECOVERING"
    using early_facts(1) [OF t(2)] that eq by simp
  have "grows (onward s) (fs\<lparr>f_tail := NoTail\<rparr>) (reconcile c P now fs w)"
    unfolding reconcile_def t(3) eq
    using grows_intend [OF ok] grows_reconcile_provision [OF ok] grows_reconcile_start [OF ok]
      grows_reconcile_delete [OF ok] same none
    by (cases "lifecycle s") simp_all
  then show ?thesis by (rule grows_tail)
qed

section \<open>Any step\<close>

text \<open>The changes a step of an execution may make to the state of a run.\<close>

definition moves :: "run_state \<Rightarrow> run_state \<Rightarrow> bool" where
  "moves s t \<longleftrightarrow> rs_run_id t = rs_run_id s \<and> rs_approved_max_usd t = rs_approved_max_usd s \<and>
     (lifecycle s \<le> lifecycle t \<or>
       lifecycle s = DELETING \<and> lifecycle t = RECOVERING \<and> rs_workload_result s = None) \<and>
     (rs_workload_result s \<noteq> None \<longrightarrow> rs_workload_result t = rs_workload_result s)"

definition advanced :: "run_state \<Rightarrow> files \<Rightarrow> files \<Rightarrow> bool" where
  "advanced s fs fs' \<longleftrightarrow> (\<exists>ls. f_lines fs' = f_lines fs @ ls) \<and> f_request fs' = f_request fs \<and>
     (\<exists>t. current fs' = Some t \<and> moves s t)"

lemma moves_refl [simp]: "moves s s"
  by (simp add: moves_def)

lemma grows_advanced:
  assumes "grows (onward s) fs (r, fs', w)" and "current fs = Some s"
  shows "advanced s fs fs'"
  using assms by (auto simp: grows_def advanced_def moves_def onward_def)

lemma advanced_tail: "advanced s (fs\<lparr>f_tail := NoTail\<rparr>) fs' = advanced s fs fs'"
  by (simp add: advanced_def)

lemma commit_state_advanced:
  assumes "store_ok fs" and "current fs = Some s" and "moves s t"
  shows "advanced s fs (snd (commit_state closeout_receipt_valid kind t payload fs))"
proof -
  have blind: "seq_blind (moves s)" by (simp add: seq_blind_def moves_def)
  obtain r fs' where c: "commit_state closeout_receipt_valid kind t payload fs = (r, fs')"
    by (rule prod.exhaust)
  show ?thesis
    using grows_commit [OF assms(1) blind assms(3), of kind payload "()"] c assms(2)
    by (cases r) (auto simp: commit_def grows_def advanced_def)
qed

lemma not_closed_le: "lifecycle s \<noteq> CLOSED \<Longrightarrow> lifecycle s \<le> DELETING"
  by (cases "lifecycle s") (simp_all add: lifecycle_order)

lemma step_advanced:
  assumes ok: "run_ok fs wl" and s: "current fs = Some s" and step: "run_step c P (fs, wl) (fs', wl')"
  shows "advanced s fs fs'"
proof -
  obtain t where t: "current fs = Some t" "effective_state fs = (Inr t, fs\<lparr>f_tail := NoTail\<rparr>)"
    "run_ok (fs\<lparr>f_tail := NoTail\<rparr>) wl"
    using ok by (rule run_ok_state)
  have eff: "effective_state fs = (Inr s, fs\<lparr>f_tail := NoTail\<rparr>)" using t(1,2) s by simp
  have store: "store_ok (fs\<lparr>f_tail := NoTail\<rparr>)" using t(3) by (simp add: run_ok_def)
  have cur: "current (fs\<lparr>f_tail := NoTail\<rparr>) = Some s" using s by simp
  note commits = commit_state_advanced [OF store cur, unfolded advanced_tail]
  have still: "advanced s fs (fs\<lparr>f_tail := NoTail\<rparr>)" "advanced s fs fs"
    using s by (simp_all add: advanced_def)
  from step show ?thesis
  proof (cases rule: run_step.cases)
    case (reconcile now r)
    then show ?thesis
      using reconcile_grows [OF ok s, of c "traced P" now wl] by (auto intro: grows_advanced [OF _ s])
  next
    case (workload result detail r)
    have "moves s (s\<lparr>rs_workload_result := Some result, lifecycle := RECOVERING\<rparr>)"
      if "rs_workload_result s = None" "lifecycle s \<noteq> CLOSED"
      using that by (cases "lifecycle s") (simp_all add: moves_def lifecycle_order)
    then have "advanced s fs (snd (record_workload_result result detail fs))"
      using still commits by (simp add: record_workload_result_def eff)
    then show ?thesis using workload by simp
  next
    case (artifacts disposition detail r)
    have "moves s ((default_op c Delete_op (s\<lparr>rs_closeout := co\<rparr>))\<lparr>lifecycle := DELETING\<rparr>)"
      if "lifecycle s \<noteq> CLOSED" for co
      using not_closed_le [OF that] by (simp add: moves_def)
    then have "advanced s fs (snd (record_artifact_disposition c disposition detail fs))"
      using still commits by (simp add: record_artifact_disposition_def eff Let_def)
    then show ?thesis using artifacts by simp
  next
    case (stop reason r)
    have "moves s ((default_op c Delete_op t)\<lparr>lifecycle := DELETING\<rparr>)"
      if "lifecycle s \<noteq> CLOSED" "rs_run_id t = rs_run_id s" "rs_approved_max_usd t = rs_approved_max_usd s"
        "rs_workload_result s \<noteq> None \<Longrightarrow> rs_workload_result t = rs_workload_result s" for t
      using not_closed_le [OF that(1)] that(2-4) by (simp add: moves_def)
    then have "advanced s fs (snd (request_stop c reason fs))"
      using still commits by (simp add: request_stop_def eff Let_def)
    then show ?thesis using stop by simp
  next
    case (world w calls w')
    then show ?thesis using still by simp
  qed
qed

end
