(* ===== verification/LifecycleClaims.thy ===== *)
theory LifecycleClaims
  imports LifecycleProps
begin

text \<open>
  The theorems on the lifecycle of a run, with an execution of the in-memory provider to apply them to.
\<close>

section \<open>An execution to apply them to\<close>

definition sample_controller :: controller where
  "sample_controller = \<lparr>c_grace = visibility_grace, c_uuid5 = (\<lambda>name. name)\<rparr>"

definition sample_now :: datetime where
  "sample_now = \<lparr>dt_year = 1, dt_month = 1, dt_day = 1, dt_hour = 0, dt_minute = 0,
     dt_second = 0, dt_micro = 0, dt_offset = Some 0\<rparr>"

definition sample_files :: files where
  "sample_files = snd (plan ''r'' [(''provider'', PDict [])] (PStr ''5'') no_files)"

fun sample_steps :: "nat \<Rightarrow> files \<times> memory_pod logged \<Rightarrow> files \<times> memory_pod logged" where
  "sample_steps 0 x = x"
| "sample_steps (Suc n) x =
     sample_steps n (snd (reconcile sample_controller (traced memory_provider) sample_now (fst x) (snd x)))"

definition sample_planned :: "files \<times> memory_pod logged" where
  "sample_planned = (sample_files, (memory_init, []))"

definition sample_running :: "files \<times> memory_pod logged" where
  "sample_running = sample_steps 3 sample_planned"

definition sample_deleting :: "files \<times> memory_pod logged" where
  "sample_deleting = (snd (request_stop sample_controller ''stop'' (fst sample_running)), snd sample_running)"

definition sample_closed :: "files \<times> memory_pod logged" where
  "sample_closed = sample_steps 3 sample_deleting"

lemma sample_closed_lifecycle: "map_option lifecycle (current (fst sample_closed)) = Some CLOSED"
  by code_simp

lemma planned_reachable:
  assumes "\<not> isl (fst (plan i request approved no_files))"
  shows "reachable c P (snd (plan i request approved no_files), (w, []))"
proof -
  obtain s where "fst (plan i request approved no_files) = Inr s"
    using assms by (metis sum.collapse(2))
  then have "plan i request approved no_files = (Inr s, snd (plan i request approved no_files))"
    by (simp add: prod_eq_iff)
  then show ?thesis by (rule reachable.planned)
qed

lemma stopped_reachable:
  "reachable c P (fs, wl) \<Longrightarrow> reachable c P (snd (request_stop c reason fs), wl)"
  by (metis prod.collapse reachable.step run_step.stop)

lemma sample_planned_reachable: "reachable sample_controller memory_provider sample_planned"
proof -
  have "\<not> isl (fst (plan ''r'' [(''provider'', PDict [])] (PStr ''5'') no_files))" by code_simp
  then show ?thesis unfolding sample_planned_def sample_files_def by (rule planned_reachable)
qed

lemma sample_steps_reachable:
  "reachable sample_controller memory_provider x \<Longrightarrow>
     reachable sample_controller memory_provider (sample_steps n x)"
proof (induction n arbitrary: x)
  case (Suc n)
  obtain fs wl where x: "x = (fs, wl)" by (rule prod.exhaust)
  obtain r fs' wl' where step:
    "reconcile sample_controller (traced memory_provider) sample_now fs wl = (r, fs', wl')"
    by (metis prod.exhaust)
  have "reachable sample_controller memory_provider (fs', wl')"
    using Suc.prems run_step.reconcile [OF step] unfolding x by (rule reachable.step)
  then show ?case using Suc.IH by (simp add: x step)
qed simp

lemma sample_closed_reachable: "reachable sample_controller memory_provider sample_closed"
proof -
  have "reachable sample_controller memory_provider sample_running"
    unfolding sample_running_def by (rule sample_steps_reachable [OF sample_planned_reachable])
  moreover have "run_step sample_controller memory_provider sample_running sample_deleting"
    unfolding sample_deleting_def
    by (metis prod.collapse run_step.stop)
  ultimately have "reachable sample_controller memory_provider sample_deleting"
    by (rule reachable.step)
  then show ?thesis unfolding sample_closed_def by (rule sample_steps_reachable)
qed

lemma sample_parts:
  obtains fs w calls s where "sample_closed = (fs, (w, calls))" "current fs = Some s"
    "lifecycle s = CLOSED" "reachable sample_controller memory_provider (fs, (w, calls))"
proof -
  obtain fs w calls where x: "sample_closed = (fs, (w, calls))" by (metis prod.exhaust)
  moreover obtain s where "current fs = Some s" "lifecycle s = CLOSED"
    using sample_closed_lifecycle by (auto simp: x)
  ultimately show ?thesis using that sample_closed_reachable by metis
qed

text \<open>A run on a network volume that is stopped before anything is provisioned.\<close>

definition volume_request :: pydict where
  "volume_request = [(''provider'', PDict [(''network_volume_id'', PStr ''v'')])]"

definition sample_undispatched :: "files \<times> memory_pod logged" where
  "sample_undispatched = sample_steps 3
     (snd (request_stop sample_controller ''stop'' (snd (plan ''r'' volume_request (PStr ''5'') no_files))),
      (memory_init, []))"

lemma sample_undispatched_closed:
  "map_option (\<lambda>s. (lifecycle s, co_current_spend_scope (rs_closeout s)))
     (current (fst sample_undispatched)) = Some (CLOSED, Some Run_scope)"
  by code_simp

lemma sample_undispatched_reachable: "reachable sample_controller memory_provider sample_undispatched"
proof -
  have "\<not> isl (fst (plan ''r'' volume_request (PStr ''5'') no_files))" by code_simp
  then show ?thesis
    unfolding sample_undispatched_def
    by (intro sample_steps_reachable stopped_reachable planned_reachable)
qed

section \<open>Creation\<close>

lemma reachable_state:
  assumes "reachable c P (fs, (w, calls))"
  obtains s where "current fs = Some s" "state_ok s calls" "closed_ok s fs" "journaled fs calls" "store_ok fs"
  using reachable_ok [OF assms] by (auto simp: run_ok_def)

text \<open>
  C1: a run asks its provider to create a resource at most once.  This holds for every provider, whatever
  it answers and whatever its clock-independent world does in between, for every clock, for every order of
  reconciliations, terminal records and stops, and when the process dies inside any provider call; and
  the dispatch of that create, with its operation id, is in the journal.
\<close>

theorem create_at_most_once:
  assumes "reachable c P (fs, (w, calls))"
  shows "length (creates calls) \<le> 1 \<and>
    (\<forall>r. Create_call r \<in> set calls \<longrightarrow>
      (\<exists>ev p. Event ev \<in> set (f_lines fs) \<and> ev_kind ev = ''provider_operation_dispatched'' \<and>
         rs_provision (ev_projection ev) = Some p \<and> op_id p = cr_operation_id r))"
proof -
  obtain s where "state_ok s calls" "journaled fs calls" using assms by (rule reachable_state)
  then show ?thesis by (fastforce simp: state_ok_def log_ok_def journaled_def)
qed

theorem create_at_most_once_witness:
  "\<exists>fs w calls. sample_closed = (fs, (w, calls)) \<and> length (creates calls) \<le> 1"
proof -
  obtain fs w calls s where x: "sample_closed = (fs, (w, calls))" "current fs = Some s" "lifecycle s = CLOSED"
    "reachable sample_controller memory_provider (fs, (w, calls))" by (rule sample_parts)
  show ?thesis using x(1) create_at_most_once [OF x(4)] by blast
qed

section \<open>Closeout\<close>

text \<open>
  C2: a run is closed only with its whole proof: a workload result, an artifact disposition, a delete call
  issued for every resource the run knows of or has quarantined, the provider's confirmation that they are
  gone, a spend of zero, a settled provision, and a state that satisfies the closeout-receipt schema.
\<close>

theorem closed_only_with_proof:
  assumes "reachable c P (fs, (w, calls))" and "current fs = Some s" and "lifecycle s = CLOSED"
  shows "rs_workload_result s \<noteq> None \<and> co_artifact_disposition (rs_closeout s) \<noteq> None \<and>
    (\<forall>i \<in> set (known_ids s). \<exists>k. Delete_call i k \<in> set calls) \<and>
    co_provider_not_found (rs_closeout s) \<and>
    co_current_spend_usd_per_hour (rs_closeout s) = Some ''0'' \<and>
    provision_resolution_is_complete s fs = Inr True \<and> closeout_receipt_valid s"
proof -
  have s: "state_ok s calls" "closed_ok s fs"
    using reachable_state [OF assms(1)] assms(2) by (metis option.inject)+
  then have ready: "assert_closeout_ready s fs = Inr ()" and valid: "closeout_receipt_valid s"
    using assms(3) by (simp_all add: closed_ok_def)
  have r: "co_delete_acknowledged (rs_closeout s)" "co_provider_not_found (rs_closeout s)"
    "co_current_spend_usd_per_hour (rs_closeout s) = Some ''0''"
    "co_artifact_disposition (rs_closeout s) \<noteq> None"
    "provision_resolution_is_complete s fs = Inr True"
    using ready by (auto simp: assert_closeout_ready_def)
  have "rs_workload_result s \<noteq> None" using valid by (simp add: closeout_receipt_valid_def)
  moreover have "\<exists>k. Delete_call i k \<in> set calls" if "i \<in> set (known_ids s)" for i
    using s(1) r(1) that by (auto simp: state_ok_def deletion_ok_def log_ok_def)
  ultimately show ?thesis using r valid by blast
qed

theorem closed_only_with_proof_witness:
  "\<exists>fs w calls s. sample_closed = (fs, (w, calls)) \<and> current fs = Some s \<and>
    (\<forall>i \<in> set (known_ids s). \<exists>k. Delete_call i k \<in> set calls) \<and> closeout_receipt_valid s"
proof -
  obtain fs w calls s where x: "sample_closed = (fs, (w, calls))" "current fs = Some s" "lifecycle s = CLOSED"
    "reachable sample_controller memory_provider (fs, (w, calls))" by (rule sample_parts)
  show ?thesis using x(1,2) closed_only_with_proof [OF x(4,2,3)] by blast
qed

text \<open>
  C17: the closeout proofs that skip the provider's spend because nothing was ever dispatched are truthful:
  a run closed on \<open>provision_not_dispatched\<close> has made no create call.
\<close>

theorem not_dispatched_proof_truthful:
  assumes "reachable c P (fs, (w, calls))" and "current fs = Some s" and "lifecycle s = CLOSED"
    and "co_current_spend_scope (rs_closeout s) = Some Run_scope \<or>
      (\<exists>i. co_current_spend_scope (rs_closeout s) = Some (Provision_scope i Provision_not_dispatched))"
  shows "creates calls = []"
proof -
  have s: "state_ok s calls" "closed_ok s fs"
    using reachable_state [OF assms(1)] assms(2) by (metis option.inject)+
  then have ready: "assert_closeout_ready s fs = Inr ()" using assms(3) by (simp add: closed_ok_def)
  obtain scope where scope: "current_spend_scope s (resource_id_of s) fs = Inr scope"
    "co_current_spend_scope (rs_closeout s) = Some scope"
    using ready by (auto simp: assert_closeout_ready_def)
  have "rs_provision s = None \<or> (\<exists>p. rs_provision s = Some p \<and> op_attempts p = 0)"
    using scope assms(4)
    by (auto simp: current_spend_scope_def Let_def split: option.splits if_splits)
  then show ?thesis using s(1) by (auto simp: state_ok_def log_ok_def)
qed

theorem not_dispatched_proof_truthful_witness:
  "\<exists>fs w calls s. sample_undispatched = (fs, (w, calls)) \<and> current fs = Some s \<and>
    lifecycle s = CLOSED \<and> creates calls = []"
proof -
  obtain fs w calls where x: "sample_undispatched = (fs, (w, calls))" by (metis prod.exhaust)
  have r: "reachable sample_controller memory_provider (fs, (w, calls))"
    using sample_undispatched_reachable by (simp add: x)
  obtain s where s: "current fs = Some s" "lifecycle s = CLOSED"
      "co_current_spend_scope (rs_closeout s) = Some Run_scope"
    using sample_undispatched_closed by (auto simp: x)
  then have "creates calls = []" using not_dispatched_proof_truthful [OF r s(1,2)] by blast
  then show ?thesis using x s by blast
qed

text \<open>
  C7: closed is final.  No reconciliation, terminal record, stop or change of the provider's world alters
  the state of a closed run, and none calls the provider to change anything.
\<close>

theorem closed_is_final:
  assumes "reachable c P (fs, wl)" and "current fs = Some s" and "lifecycle s = CLOSED"
    and "run_step c P (fs, wl) (fs', wl')"
  shows "current fs' = Some s \<and> snd wl' = snd wl"
proof -
  obtain t where t: "current fs = Some t" "closed_ok t fs"
    "effective_state fs = (Inr t, fs\<lparr>f_tail := NoTail\<rparr>)"
    using reachable_ok [OF assms(1)] by (rule run_ok_state)
  then have eff: "effective_state fs = (Inr s, fs\<lparr>f_tail := NoTail\<rparr>)" and "closed_ok s fs"
    using assms(2) by simp_all
  then have "rs_workload_result s \<noteq> None" "co_artifact_disposition (rs_closeout s) \<noteq> None"
    using assms(3) by (simp_all add: closed_ok_def closeout_receipt_valid_def)
  note done_already = this
  show ?thesis
    using assms(4)
    by (cases rule: run_step.cases)
      (use done_already assms(2,3) in \<open>auto simp: reconcile_def record_workload_result_def
        record_artifact_disposition_def request_stop_def eff Let_def split: if_splits\<close>)
qed

theorem closed_is_final_witness:
  "\<exists>fs wl s. sample_closed = (fs, wl) \<and> current fs = Some s \<and>
    current (snd (request_stop sample_controller ''again'' fs)) = Some s"
proof -
  obtain fs w calls s where x: "sample_closed = (fs, (w, calls))" "current fs = Some s" "lifecycle s = CLOSED"
    "reachable sample_controller memory_provider (fs, (w, calls))" by (rule sample_parts)
  have "run_step sample_controller memory_provider (fs, (w, calls))
      (snd (request_stop sample_controller ''again'' fs), (w, calls))"
    by (metis prod.collapse run_step.stop)
  then show ?thesis using x(1,2) closed_is_final [OF x(4,2,3)] by blast
qed

section \<open>Progress in order\<close>

text \<open>
  C8: every step of a run only appends to its journal, keeps its request, id and approved spend, never
  changes a workload result once there is one, and never moves the run to an earlier lifecycle state,
  except that a workload result recorded late takes a deleting run back to recovering.
\<close>

theorem run_moves_forward:
  assumes "reachable c P (fs, wl)" and "current fs = Some s" and "run_step c P (fs, wl) (fs', wl')"
  shows "(\<exists>ls. f_lines fs' = f_lines fs @ ls) \<and> f_request fs' = f_request fs \<and>
    (\<exists>t. current fs' = Some t \<and> rs_run_id t = rs_run_id s \<and>
       rs_approved_max_usd t = rs_approved_max_usd s \<and>
       (rs_workload_result s \<noteq> None \<longrightarrow> rs_workload_result t = rs_workload_result s) \<and>
       (lifecycle s \<le> lifecycle t \<or>
        lifecycle s = DELETING \<and> lifecycle t = RECOVERING \<and> rs_workload_result s = None))"
  using step_advanced [OF reachable_ok [OF assms(1)] assms(2,3)]
  by (auto simp: advanced_def moves_def)

theorem run_moves_forward_witness:
  "\<exists>fs wl s t. sample_closed = (fs, wl) \<and> current fs = Some s \<and>
    current (snd (request_stop sample_controller ''again'' fs)) = Some t \<and> rs_run_id t = rs_run_id s"
proof -
  obtain fs w calls s where x: "sample_closed = (fs, (w, calls))" "current fs = Some s" "lifecycle s = CLOSED"
    "reachable sample_controller memory_provider (fs, (w, calls))" by (rule sample_parts)
  have step: "run_step sample_controller memory_provider (fs, (w, calls))
      (snd (request_stop sample_controller ''again'' fs), (w, calls))"
    by (metis prod.collapse run_step.stop)
  show ?thesis using x(1,2) run_moves_forward [OF x(4,2) step] by blast
qed

end
