(* ===== verification/Money.thy ===== *)
theory Money
  imports PyDecimal
begin

text \<open>The shape of a positive decimal's text, for the patterns that money texts are checked against.\<close>

lemma show_nat_hd: "0 < n \<Longrightarrow> hd (show_nat n) \<noteq> CHR ''0''"
proof (induction n rule: show_nat.induct)
  case (1 n)
  show ?case
  proof (cases "n < 10")
    case True
    have "digit_char n \<noteq> CHR ''0''"
    proof
      assume "digit_char n = CHR ''0''"
      then have "char_digit (CHR ''0'') = n" using char_digit_digit_char [OF True] by simp
      then show False using 1(2) by (simp add: char_digit_def)
    qed
    then show ?thesis using True by (subst show_nat.simps) simp
  next
    case False
    then have "hd (show_nat (n div 10)) \<noteq> CHR ''0''" using 1 by simp
    then show ?thesis using False by (subst show_nat.simps) simp
  qed
qed

lemma show_nat_all: "list_all is_digit (show_nat n)"
  using show_nat_digits by (simp add: list_all_iff)

lemma list_all_take: "list_all P xs \<Longrightarrow> list_all P (take n xs)"
  by (metis append_take_drop_id list_all_append)

lemma list_all_drop: "list_all P xs \<Longrightarrow> list_all P (drop n xs)"
  by (metis append_take_drop_id list_all_append)

lemma split_nonempty:
  assumes "n < length xs"
  shows "take (length xs - n) xs \<noteq> []" and "0 < n \<Longrightarrow> drop (length xs - n) xs \<noteq> []"
  using assms by auto

definition money_shape :: "string \<Rightarrow> string \<Rightarrow> bool" where
  "money_shape ip fp \<longleftrightarrow> ip \<noteq> [] \<and> list_all is_digit ip \<and> list_all is_digit fp \<and>
     (if hd ip = CHR ''0'' then ip = ''0'' \<and> (\<exists>x \<in> set fp. x \<noteq> CHR ''0'') else True)"

lemma money_shapeI:
  "ip \<noteq> [] \<Longrightarrow> list_all is_digit ip \<Longrightarrow> list_all is_digit fp \<Longrightarrow>
     (hd ip = CHR ''0'' \<Longrightarrow> ip = ''0'' \<and> (\<exists>x \<in> set fp. x \<noteq> CHR ''0'')) \<Longrightarrow> money_shape ip fp"
  by (simp add: money_shape_def)

lemma format_f_shape:
  assumes "0 < c"
  shows "\<exists>ip fp. money_shape ip fp \<and> format_f (Dec c e) = (if fp = [] then ip else ip @ CHR ''.'' # fp)"
proof -
  let ?ds = "show_nat (nat \<bar>c\<bar>)"
  let ?n = "nat (- e)"
  let ?pad = "replicate (Suc ?n - length ?ds) (CHR ''0'') @ ?ds"
  have hd: "hd ?ds \<noteq> CHR ''0''" using assms by (intro show_nat_hd) simp
  have z: "is_digit (CHR ''0'')" by (simp add: is_digit_def)
  have rep: "list_all is_digit (replicate k (CHR ''0''))" for k
    using z by (induction k) simp_all
  show ?thesis
  proof (cases "0 \<le> e")
    case True
    have "money_shape (?ds @ replicate (nat e) (CHR ''0'')) []"
      using hd by (simp add: money_shape_def show_nat_all rep)
    then show ?thesis using True assms
      by (intro exI [of _ "?ds @ replicate (nat e) (CHR ''0'')"] exI [of _ "[]"]) (simp add: Let_def)
  next
    case False
    let ?ip = "take (length ?pad - ?n) ?pad" and ?fp = "drop (length ?pad - ?n) ?pad"
    have pad: "list_all is_digit ?pad" using rep show_nat_all by simp
    have len: "?n < length ?pad" "0 < ?n" using False by auto
    have zero: "hd ?ip = CHR ''0'' \<Longrightarrow> ?ip = ''0'' \<and> (\<exists>x \<in> set ?fp. x \<noteq> CHR ''0'')"
    proof (cases "?n < length ?ds")
      case True
      then have "?pad = ?ds" by simp
      then have "hd ?ip = hd ?ds" using True by simp
      then show "hd ?ip = CHR ''0'' \<Longrightarrow> ?ip = ''0'' \<and> (\<exists>x \<in> set ?fp. x \<noteq> CHR ''0'')" using hd by simp
    next
      case False
      then have one: "length ?pad - ?n = 1" "?pad = CHR ''0'' # replicate (?n - length ?ds) (CHR ''0'') @ ?ds"
        by (simp_all add: Suc_diff_le)
      then have ip: "?ip = ''0''" and fp: "?fp = replicate (?n - length ?ds) (CHR ''0'') @ ?ds" by simp_all
      have "hd ?ds \<in> set ?fp" unfolding fp by simp
      then show "?ip = ''0'' \<and> (\<exists>x \<in> set ?fp. x \<noteq> CHR ''0'')" by (intro conjI ip bexI [of _ "hd ?ds"] hd)
    qed
    have "money_shape ?ip ?fp"
      by (rule money_shapeI [OF split_nonempty(1) [OF len(1)] list_all_take [OF pad] list_all_drop [OF pad] zero])
    moreover have "?fp \<noteq> []" by (rule split_nonempty(2) [OF len])
    moreover have "format_f (Dec c e) = ?ip @ CHR ''.'' # ?fp"
      using False assms by (simp add: Let_def)
    ultimately have "money_shape ?ip ?fp \<and> format_f (Dec c e) = (if ?fp = [] then ?ip else ?ip @ CHR ''.'' # ?fp)"
      by (simp only: if_False simp_thms)
    then show ?thesis by (intro exI)
  qed
qed

end
