(* ===== verification/Engine.thy ===== *)
theory Engine
  imports LifecycleInv Money
begin

text \<open>
  \<open>application.py\<close>, \<open>SupervisorEngine\<close>: the loop that drives a run to its closeout.  The workload
  executor is a parameter, the clock a function of the steps left.  That an approved amount of money satisfies the
  schema of the closeout receipt is shown here too.
\<close>

section \<open>The loop\<close>

record observation =
  ob_result :: workload_result
  ob_disposition :: artifact_disposition
  ob_detail :: string

type_synonym 'w executor = "pydict \<Rightarrow> 'w \<Rightarrow> (exn + observation) \<times> 'w"

definition recovery_must_not_dispatch_workload :: "run_state \<Rightarrow> bool" where
  "recovery_must_not_dispatch_workload s \<longleftrightarrow>
     rs_workload_result s = None \<or>
     rs_recovery_reason s \<in> {Some ''resource_disappeared_before_start'',
       Some ''duplicate_provider_resources'', Some ''provision_dispatch_unresolved''} \<or>
     (case rs_quarantined_resource_ids s of None \<Rightarrow> False | Some ids \<Rightarrow> ids \<noteq> [])"

text \<open>How an iteration ends: the run is closed, or the loop goes on with an observation.\<close>

datatype iteration = Finished run_state | Again "observation option"

definition lift_store ::
  "(exn + run_state) \<times> files \<Rightarrow> observation option \<Rightarrow> 'w \<Rightarrow> (lifecycle_exn + iteration) \<times> files \<times> 'w" where
  "lift_store r obs w =
     (case r of (Inl e, fs) \<Rightarrow> (Inl (Fault e), fs, w) | (Inr _, fs) \<Rightarrow> (Inr (Again obs), fs, w))"

definition execute_workload ::
  "'w executor \<Rightarrow> files \<Rightarrow> 'w \<Rightarrow> (exn + observation) \<times> 'w" where
  "execute_workload E fs w =
     (case read_request fs of Inl e \<Rightarrow> (Inl e, w) | Inr request \<Rightarrow> E request w)"

definition drive_step ::
  "controller \<Rightarrow> 'w provider \<Rightarrow> 'w executor \<Rightarrow> datetime \<Rightarrow> observation option \<Rightarrow> files \<Rightarrow> 'w \<Rightarrow>
     (lifecycle_exn + iteration) \<times> files \<times> 'w" where
  "drive_step c P E now obs fs0 w =
     (case read_state closeout_receipt_valid fs0 of
        (Inl e, fs) \<Rightarrow> (Inl (Fault e), fs, w)
      | (Inr s, fs) \<Rightarrow>
          if lifecycle s = CLOSED then (Inr (Finished s), fs, w)
          else if lifecycle s \<in> {PLANNED, PROVISIONING, STARTING, DELETING} then
            (case reconcile c P now fs w of
               (Inl e, fs', w') \<Rightarrow> (Inl e, fs', w')
             | (Inr _, fs', w') \<Rightarrow> (Inr (Again obs), fs', w'))
          else if lifecycle s = RUNNING then
            (case execute_workload E fs w of
               (Inl e, w') \<Rightarrow> (Inl (Fault e), fs, w')
             | (Inr ob, w') \<Rightarrow>
                 lift_store (record_workload_result (ob_result ob) (Some (ob_detail ob)) fs) (Some ob) w')
          else if recovery_must_not_dispatch_workload s then
            lift_store (request_stop c
              (''fail-closed recovery: '' @
                (case truthy_text (rs_recovery_reason s) of None \<Rightarrow> ''quarantined resources'' | Some r \<Rightarrow> r))
              fs) obs w
          else
            (case (case obs of Some ob \<Rightarrow> (Inr ob, w) | None \<Rightarrow> execute_workload E fs w) of
               (Inl e, w') \<Rightarrow> (Inl (Fault e), fs, w')
             | (Inr ob, w') \<Rightarrow>
                 lift_store (record_artifact_disposition c (ob_disposition ob) (Some (ob_detail ob)) fs)
                   (Some ob) w'))"

fun drive ::
  "controller \<Rightarrow> 'w provider \<Rightarrow> 'w executor \<Rightarrow> (nat \<Rightarrow> datetime) \<Rightarrow> nat \<Rightarrow> observation option \<Rightarrow>
     files \<Rightarrow> 'w \<Rightarrow> 'w outcome" where
  "drive c P E clock 0 obs fs w =
     (Inl (Fault (ApplicationError ''run did not close in its reconcile steps'')), fs, w)"
| "drive c P E clock (Suc n) obs fs w =
     (case drive_step c P E (clock n) obs fs w of
        (Inl e, fs', w') \<Rightarrow> (Inl e, fs', w')
      | (Inr (Finished s), fs', w') \<Rightarrow> (Inr s, fs', w')
      | (Inr (Again obs'), fs', w') \<Rightarrow> drive c P E clock n obs' fs' w')"

section \<open>Approved money satisfies the receipt's schema\<close>

lemma schema_digits:
  assumes "ip \<noteq> []" "list_all is_digit ip" "ip = ''0'' \<or> hd ip \<noteq> CHR ''0''"
  shows "schema_money_digits ip"
    and "fp \<noteq> [] \<Longrightarrow> list_all is_digit fp \<Longrightarrow> schema_money_digits (ip @ CHR ''.'' # fp)"
proof -
  have all: "\<And>c. c \<in> set ip \<Longrightarrow> is_digit c" using assms(2) by (simp add: list_all_iff)
  have w: "takeWhile is_digit ip = ip" "dropWhile is_digit ip = []"
    using all by (simp_all add: takeWhile_eq_all_conv dropWhile_eq_Nil_conv)
  show "schema_money_digits ip" unfolding schema_money_digits.simps w Let_def using assms by simp
  have w: "takeWhile is_digit (ip @ CHR ''.'' # fp) = ip" "dropWhile is_digit (ip @ CHR ''.'' # fp) = CHR ''.'' # fp"
    using all by (simp_all add: takeWhile_append2 dropWhile_append2)
  show "fp \<noteq> [] \<Longrightarrow> list_all is_digit fp \<Longrightarrow> schema_money_digits (ip @ CHR ''.'' # fp)"
    unfolding schema_money_digits.simps w Let_def using assms by simp
qed

lemma format_f_schema:
  assumes "0 < c"
  shows "schema_money_digits (format_f (Dec c e))"
proof -
  obtain ip fp where m: "money_shape ip fp" and f: "format_f (Dec c e) = (if fp = [] then ip else ip @ CHR ''.'' # fp)"
    using format_f_shape [OF assms, of e] by blast
  have "ip \<noteq> []" "list_all is_digit ip" "ip = ''0'' \<or> hd ip \<noteq> CHR ''0''" "list_all is_digit fp"
    using m by (auto simp: money_shape_def split: if_splits)
  then show ?thesis unfolding f using schema_digits by simp
qed

lemma money_text_schema:
  assumes "money_text v = Inr t"
  shows "schema_money_digits t"
proof -
  obtain d where d: "is_finite d" "\<not> dec_lt d dec_zero" and t: "t = format_money d"
    using assms by (auto simp: money_text_def Let_def split: pyval.splits option.splits if_splits)
  obtain c e where ce: "d = Dec c e" using d(1) by (cases d) auto
  show ?thesis
  proof (cases "dec_eq d dec_zero")
    case True
    have "schema_money_digits ''0''" by code_simp
    then show ?thesis using True t by (simp add: format_money_def del: schema_money_digits.simps)
  next
    case False
    then have "0 < dec_val d" using d by (simp add: dec_lt_iff dec_eq_iff)
    then have "0 < of_int c * (10 powi e :: rat)" by (simp add: ce)
    then have "(0::rat) < of_int c" by (rule zero_less_mult_pos2 [OF _ powi_pos])
    then have "0 < c" by simp
    then show ?thesis
      using False t format_f_schema by (simp add: format_money_def ce del: schema_money_digits.simps)
  qed
qed

end
