(* ===== verification/EngineClaims.thy ===== *)
theory EngineClaims
  imports Engine LifecycleClaims
begin

text \<open>
  The supervisor engine on top of the lifecycle controller and the run store: every iteration of \<open>drive\<close> is an
  execution of the lifecycle, so that the invariant of all executions holds when it returns or raises, and a run it
  returns is closed with its whole proof and a durable receipt.
\<close>

section \<open>The engine keeps the invariant of all executions\<close>

text \<open>A workload executor that does not itself call the provider.\<close>

definition traced_executor :: "'w executor \<Rightarrow> 'w logged executor" where
  "traced_executor E = (\<lambda>request. quiet (E request))"

lemma execute_workload_log:
  "execute_workload (traced_executor E) fs wl = (r, wl') \<Longrightarrow> snd wl' = snd wl"
  by (auto simp: execute_workload_def traced_executor_def split: sum.splits)

lemma current_receipt [simp]: "current (fs\<lparr>f_receipt := x\<rparr>) = current fs"
  by (simp add: current_def)

lemma run_ok_receipt: "run_ok fs wl \<Longrightarrow> run_ok (fs\<lparr>f_receipt := x\<rparr>) wl"
  by (auto simp: run_ok_def journaled_def closed_ok_def store_ok_def
      request_cong(5) [of "fs\<lparr>f_receipt := x\<rparr>" fs] split: option.splits stored.splits)

text \<open>What a read says about the run: the state is the current one, and a closed run has its receipt.\<close>

definition receipted :: "run_state \<Rightarrow> files \<Rightarrow> bool" where
  "receipted s fs \<longleftrightarrow> (lifecycle s = CLOSED \<longrightarrow> f_receipt fs = Some (Contents s))"

lemma run_ok_read:
  assumes ok: "run_ok fs wl" and r: "read_state closeout_receipt_valid fs = (r, fs')"
  shows "run_ok fs' wl" and "r = Inr s \<Longrightarrow> current fs' = Some s \<and> receipted s fs'"
proof -
  obtain t where t: "current fs = Some t" "effective_state fs = (Inr t, fs\<lparr>f_tail := NoTail\<rparr>)"
    and ok': "run_ok (fs\<lparr>f_tail := NoTail\<rparr>) wl"
    using ok by (rule run_ok_state)
  have ok2: "run_ok (fs\<lparr>f_tail := NoTail, f_receipt := x\<rparr>) wl" for x
    using run_ok_receipt [OF ok'] by simp
  show "run_ok fs' wl"
    using r ok' ok2
    by (auto simp: read_state_def t(2) ensure_closeout_receipt_def split: if_splits sum.splits option.splits stored.splits)
  show "r = Inr s \<Longrightarrow> current fs' = Some s \<and> receipted s fs'"
    using r t(1)
    by (auto simp: read_state_def t(2) ensure_closeout_receipt_def make_closeout_receipt_def receipted_def
        read_json_object_def require_def split: if_splits sum.splits option.splits stored.splits)
qed

text \<open>One iteration.\<close>

definition finished_ok :: "lifecycle_exn + iteration \<Rightarrow> files \<Rightarrow> bool" where
  "finished_ok r fs \<longleftrightarrow>
     (\<forall>s. r = Inr (Finished s) \<longrightarrow> lifecycle s = CLOSED \<and> current fs = Some s \<and> receipted s fs)"

lemma lift_store_ok:
  "run_ok (snd r) wl \<Longrightarrow> lift_store r obs wl = (r', fs', wl') \<Longrightarrow> run_ok fs' wl' \<and> finished_ok r' fs'"
  by (cases r) (auto simp: lift_store_def finished_ok_def split: sum.splits)

lemma drive_step_ok:
  assumes ok: "run_ok fs wl"
    and step: "drive_step c (traced P) (traced_executor E) now obs fs wl = (r, fs', wl')"
  shows "run_ok fs' wl' \<and> finished_ok r fs'"
proof -
  obtain q fs1 where q: "read_state closeout_receipt_valid fs = (q, fs1)" by (rule prod.exhaust)
  have ok1: "run_ok fs1 wl" using run_ok_read(1) [OF ok q] .
  show ?thesis
  proof (cases q)
    case (Inl e)
    then show ?thesis using step ok1 by (auto simp: drive_step_def q finished_ok_def)
  next
    case (Inr s)
    have cur: "current fs1 = Some s \<and> receipted s fs1" using run_ok_read(2) [OF ok q] Inr by simp
    have rec: "run_ok fs2 wl2" if "reconcile c (traced P) now fs1 wl = (x, fs2, wl2)" for x fs2 wl2
      using keeps_reconcile [OF ok1, of c P now] that by (simp add: keeps_def)
    have ran: "run_ok fs1 wl2" if "execute_workload (traced_executor E) fs1 wl = (x, wl2)" for x wl2
      using run_ok_quiet [OF ok1] execute_workload_log [OF that] by blast
    consider (closed) "lifecycle s = CLOSED"
      | (moving) "lifecycle s \<in> {PLANNED, PROVISIONING, STARTING, DELETING}"
      | (running) "lifecycle s = RUNNING"
      | (failed) "lifecycle s = RECOVERING" "recovery_must_not_dispatch_workload s"
      | (recovering) "lifecycle s = RECOVERING" "\<not> recovery_must_not_dispatch_workload s"
      by (cases "lifecycle s") auto
    then show ?thesis
    proof cases
      case closed
      then show ?thesis using step ok1 cur by (auto simp: drive_step_def q Inr finished_ok_def)
    next
      case moving
      then show ?thesis using step rec
        by (auto simp: drive_step_def q Inr finished_ok_def split: prod.splits sum.splits)
    next
      case running
      then show ?thesis using step ran
        by (auto simp: drive_step_def q Inr finished_ok_def split: prod.splits sum.splits
            dest!: lift_store_ok [rotated] intro: run_ok_workload)
    next
      case failed
      then show ?thesis using step
        by (auto simp: drive_step_def q Inr dest!: lift_store_ok [rotated] intro: run_ok_stop [OF ok1])
    next
      case recovering
      then show ?thesis using step ran ok1
        by (auto simp: drive_step_def q Inr finished_ok_def split: prod.splits sum.splits option.splits
            dest!: lift_store_ok [rotated] intro: run_ok_artifacts)
    qed
  qed
qed

lemma drive_ok:
  "run_ok fs wl \<Longrightarrow> drive c (traced P) (traced_executor E) clock n obs fs wl = (r, fs', wl') \<Longrightarrow>
     run_ok fs' wl' \<and> (\<forall>s. r = Inr s \<longrightarrow> finished_ok (Inr (Finished s)) fs')"
proof (induction n arbitrary: obs fs wl)
  case (Suc n)
  obtain q fs1 wl1 where q: "drive_step c (traced P) (traced_executor E) (clock n) obs fs wl = (q, fs1, wl1)"
    by (metis prod.exhaust)
  note k = drive_step_ok [OF Suc.prems(1) q]
  show ?case
    using Suc.prems(2) k Suc.IH [of fs1 wl1] by (auto simp: q split: sum.splits iteration.splits)
qed auto


section \<open>A well-behaved provider lets the engine close the run\<close>

text \<open>A directory that stands at a state of the run with a given request.\<close>

definition stands :: "pydict \<Rightarrow> run_state \<Rightarrow> files \<Rightarrow> bool" where
  "stands rq s fs \<longleftrightarrow> store_ok fs \<and> current fs = Some s \<and> f_request fs = Some (Contents rq)"

lemma stands_tail: "stands rq s fs \<Longrightarrow> stands rq s (fs\<lparr>f_tail := NoTail\<rparr>)"
  by (simp add: stands_def store_ok_tail)

lemma stands_effective: "stands rq s fs \<Longrightarrow> effective_state fs = (Inr s, fs\<lparr>f_tail := NoTail\<rparr>)"
  by (simp add: stands_def effective_ok)

lemma stands_read: "stands rq s fs \<Longrightarrow> lifecycle s \<noteq> CLOSED \<Longrightarrow>
    read_state valid fs = (Inr s, fs\<lparr>f_tail := NoTail\<rparr>)"
  by (simp add: read_state_def stands_effective)

lemma stands_request: "stands rq s fs \<Longrightarrow> read_request fs = Inr rq"
  by (simp add: stands_def read_request_def read_json_object_def)

lemma stands_commit_state:
  assumes "stands rq s fs" and "lifecycle t \<noteq> CLOSED"
  obtains n fs' where "commit_state valid kind t payload fs = (Inr (t\<lparr>event_sequence := n\<rparr>), fs')"
    "stands rq (t\<lparr>event_sequence := n\<rparr>) fs'"
  using assms commit_ok [of fs t valid kind payload] unfolding stands_def stamped_def by metis

lemma stands_commit:
  assumes "stands rq s fs" and "lifecycle t \<noteq> CLOSED"
  obtains n fs' where "commit kind payload t fs w = (Inr (t\<lparr>event_sequence := n\<rparr>), fs', w)"
    "stands rq (t\<lparr>event_sequence := n\<rparr>) fs'"
proof -
  obtain n fs' where "commit_state closeout_receipt_valid kind t payload fs = (Inr (t\<lparr>event_sequence := n\<rparr>), fs')"
    "stands rq (t\<lparr>event_sequence := n\<rparr>) fs'"
    using assms by (rule stands_commit_state)
  then show ?thesis by (intro that) (simp_all add: commit_def)
qed

lemma stands_close:
  assumes "stands rq s fs" and "lifecycle t = CLOSED" and "\<And>n. 1 \<le> n \<Longrightarrow> closeout_receipt_valid (t\<lparr>event_sequence := n\<rparr>)"
  obtains n fs' where "commit kind payload t fs w = (Inr (t\<lparr>event_sequence := n\<rparr>), fs', w)" "1 \<le> n"
    "stands rq (t\<lparr>event_sequence := n\<rparr>) fs'" "f_receipt fs' = Some (Contents (t\<lparr>event_sequence := n\<rparr>))"
proof -
  have valid: "lifecycle t = CLOSED \<Longrightarrow> closeout_receipt_valid (stamped fs t)"
    unfolding stamped_def by (rule assms(3)) simp
  have ok: "store_ok fs" "f_request fs = Some (Contents rq)" using assms(1) by (simp_all add: stands_def)
  obtain fs' where "commit_state closeout_receipt_valid kind t payload fs = (Inr (stamped fs t), fs')"
    "store_ok fs'" "current fs' = Some (stamped fs t)" "f_request fs' = f_request fs"
    "f_receipt fs' = (if lifecycle t = CLOSED then Some (Contents (stamped fs t)) else f_receipt fs)"
    using commit_ok [where valid = closeout_receipt_valid, OF ok(1) valid, of kind payload] by metis
  then show ?thesis
    using ok(2) assms(2)
    by (intro that [of "int (length (f_lines fs)) + 1" fs']) (simp_all add: commit_def stands_def stamped_def)
qed

text \<open>An iteration that goes on to a state.\<close>

definition goes_on :: "pydict \<Rightarrow> (run_state \<Rightarrow> 'w \<Rightarrow> bool) \<Rightarrow> observation option \<Rightarrow>
    (lifecycle_exn + iteration) \<times> files \<times> 'w \<Rightarrow> bool" where
  "goes_on rq Q obs out \<longleftrightarrow> (\<exists>fs s w. out = (Inr (Again obs), fs, w) \<and> stands rq s fs \<and> Q s w)"

definition closes :: "(run_state \<Rightarrow> 'w \<Rightarrow> bool) \<Rightarrow> 'w outcome \<Rightarrow> bool" where
  "closes Q out \<longleftrightarrow> (\<exists>fs s w. out = (Inr s, fs, w) \<and> lifecycle s = CLOSED \<and> Q s w)"

lemma drive_goes_on:
  assumes "goes_on rq Q obs' (drive_step c P E (clock n) obs fs w)"
    and "\<And>fs' s' w'. stands rq s' fs' \<Longrightarrow> Q s' w' \<Longrightarrow> closes R (drive c P E clock n obs' fs' w')"
  shows "closes R (drive c P E clock (Suc n) obs fs w)"
  using assms by (auto simp: goes_on_def)

lemma goes_on_commit:
  assumes "stands rq s fs" and "lifecycle s \<in> {PLANNED, PROVISIONING, STARTING, DELETING}"
    and "reconcile c P now (fs\<lparr>f_tail := NoTail\<rparr>) w = commit kind payload t fs1 w1" "stands rq s1 fs1"
    and "lifecycle t \<noteq> CLOSED" "\<And>n. Q (t\<lparr>event_sequence := n\<rparr>) w1"
  shows "goes_on rq Q obs (drive_step c P E now obs fs w)"
proof -
  obtain n fs' where c: "commit kind payload t fs1 w1 = (Inr (t\<lparr>event_sequence := n\<rparr>), fs', w1)"
    "stands rq (t\<lparr>event_sequence := n\<rparr>) fs'"
    using assms(4,5) by (rule stands_commit)
  have r: "read_state closeout_receipt_valid fs = (Inr s, fs\<lparr>f_tail := NoTail\<rparr>)" and nc: "lifecycle s \<noteq> CLOSED"
    using assms(1,2) by (auto intro: stands_read)
  show ?thesis
    unfolding goes_on_def drive_step_def r
    using nc assms(2,6) c(2) by (intro exI conjI) (auto simp: assms(3) c(1))
qed

text \<open>The stages of an undisturbed run: \<open>rid\<close> its id, \<open>money\<close> its approval.\<close>

definition fresh :: "string \<Rightarrow> string \<Rightarrow> run_state \<Rightarrow> bool" where
  "fresh rid money s \<longleftrightarrow> rs_run_id s = rid \<and> rs_approved_max_usd s = money \<and>
     rs_quarantined_resource_ids s = None \<and> rs_recovery_reason s = None \<and> rs_delete s = None \<and>
     operation_valid (rs_provision s) \<and> operation_valid (rs_start s)"

definition owning :: "string \<Rightarrow> run_state \<Rightarrow> bool" where
  "owning i s \<longleftrightarrow> rs_provision s \<noteq> None \<and> resource_id_of s = Some i \<and> i \<noteq> []"

text \<open>The stages of the deletion, \<open>co\<close> being the proof so far.\<close>

definition ending :: "string \<Rightarrow> string \<Rightarrow> string \<Rightarrow> (closeout \<Rightarrow> bool) \<Rightarrow> run_state \<Rightarrow> bool" where
  "ending rid money i proof s \<longleftrightarrow> lifecycle s = DELETING \<and> rs_run_id s = rid \<and> rs_approved_max_usd s = money \<and>
     rs_quarantined_resource_ids s = None \<and> rs_workload_result s \<noteq> None \<and>
     operation_valid (rs_provision s) \<and> operation_valid (rs_start s) \<and>
     rs_delete s \<noteq> None \<and> operation_valid (rs_delete s) \<and> owning i s \<and>
     co_artifact_disposition (rs_closeout s) \<noteq> None \<and> co_current_spend_scope (rs_closeout s) = None \<and>
     co_provision_resolution (rs_closeout s) = None \<and> proof (rs_closeout s)"

definition unclaimed :: "('w \<Rightarrow> string \<Rightarrow> provider_resource option) \<Rightarrow> string \<Rightarrow> 'w \<Rightarrow> bool" where
  "unclaimed pods op w \<longleftrightarrow> (\<forall>i r. pods w i = Some r \<longrightarrow> res_create_operation_id r \<noteq> op)"

lemma stage_seq [simp]:
  "fresh rid money (s\<lparr>event_sequence := n\<rparr>) = fresh rid money s"
  "owning i (s\<lparr>event_sequence := n\<rparr>) = owning i s"
  "ending rid money i proof (s\<lparr>event_sequence := n\<rparr>) = ending rid money i proof s"
  by (simp_all add: fresh_def owning_def ending_def resource_id_of_def)

lemma new_operation_valid:
  assumes "c_uuid5 c (''runpod-jobrunner/'' @ rid @ ''/'' @ kind_name k @ ''/1'') = x # xs" "x \<noteq> CHR 10"
  shows "operation_valid (Some (new_operation c rid k))"
  using assms by (simp add: operation_valid_def schema_op_id_def new_operation_def)

locale live_provider = provider_contract +
  assumes id_nonempty: "ok w \<Longrightarrow> pods w i = Some r \<Longrightarrow> i \<noteq> []"
begin

lemma find_unclaimed:
  assumes "ok w" and "unclaimed pods op w"
  shows "p_find P op w = (Inr [], w)"
proof -
  obtain rs where rs: "p_find P op w = (Inr rs, w)"
    "set rs = {r. \<exists>i. pods w i = Some r \<and> res_create_operation_id r = op}"
    using find_spec [OF assms(1), of op] by blast
  then have "set rs = {}" using assms(2) by (auto simp: unclaimed_def)
  then show ?thesis using rs(1) by simp
qed

text \<open>The deletion.\<close>

lemma close_step:
  assumes s: "stands rq s fs" "ending rid money i
      (\<lambda>co. co_delete_acknowledged co \<and> co_provider_not_found co \<and> co_delete_acknowledged_resource_ids co = [i]) s"
    and w: "ok w" "pods w i = None"
    and texts: "safe_id rid" "schema_money_digits money"
  shows "\<exists>fs' s'. drive_step c P E now obs fs w = (Inr (Again obs), fs', w) \<and> stands rq s' fs' \<and>
    lifecycle s' = CLOSED \<and> rs_workload_result s' = rs_workload_result s \<and>
    co_artifact_disposition (rs_closeout s') = co_artifact_disposition (rs_closeout s) \<and>
    f_receipt fs' = Some (Contents s') \<and> closeout_receipt_valid s' \<and> resource_id_of s' = Some i"
proof -
  let ?fs = "fs\<lparr>f_tail := NoTail\<rparr>"
  obtain d where d: "p_spend P (Some i) w = (Inr d, w)" "is_finite d" "dec_val d = 0"
    using spend_spec [OF w] by blast
  then have z: "\<not> dec_lt d dec_zero" "dec_eq d dec_zero" "format_money d = ''0''"
    by (simp_all add: dec_lt_iff dec_eq_iff format_money_def)
  define t where "t = (upd_closeout (\<lambda>co. co\<lparr>co_current_spend_usd_per_hour := Some ''0'',
    co_current_spend_scope := Some (Resource_scope i)\<rparr>) s)\<lparr>lifecycle := CLOSED\<rparr>"
  have valid: "closeout_receipt_valid (t\<lparr>event_sequence := n\<rparr>)" if "1 \<le> n" for n
    using s(2) texts that
    by (auto simp: t_def ending_def owning_def closeout_receipt_valid_def before_final_newline_def ids_valid_def
        resource_id_of_def split: option.split)
  have own: "resource_id_of s = Some i" using s(2) by (simp add: ending_def owning_def)
  have rd: "reconcile_delete P now s ?fs w = commit ''closeout_completed'' [] t ?fs w"
  proof -
    have "reconcile_delete P now s ?fs w = observe_spend P (Some i) s ?fs w"
      using s(2) own by (auto simp: reconcile_delete_def demand_def needed_def ending_def resource_id_of_def
          split: option.split)
    also have "\<dots> = commit ''closeout_completed'' [] t ?fs w"
      using s(2) own z d
      by (auto simp: observe_spend_def demand_def current_spend_scope_def scoped_spend_def t_def ending_def
          assert_closeout_ready_def provision_resolution_is_complete_def resource_id_of_def require_def split: sum.split)
    finally show ?thesis .
  qed
  obtain n fs' where c: "commit ''closeout_completed'' [] t ?fs w = (Inr (t\<lparr>event_sequence := n\<rparr>), fs', w)" "1 \<le> n"
    "stands rq (t\<lparr>event_sequence := n\<rparr>) fs'" "f_receipt fs' = Some (Contents (t\<lparr>event_sequence := n\<rparr>))"
    by (rule stands_close [OF stands_tail [OF s(1)] _ valid]) (simp_all add: t_def)
  have l: "lifecycle s = DELETING" using s(2) by (simp add: ending_def)
  then have nc: "lifecycle s \<noteq> CLOSED" by simp
  have "drive_step c P E now obs fs w = (Inr (Again obs), fs', w)"
    by (simp add: drive_step_def stands_read [OF s(1) nc] l reconcile_def stands_effective [OF stands_tail [OF s(1)]]
        rd c(1))
  moreover have "rs_workload_result t = rs_workload_result s" "lifecycle t = CLOSED"
    "co_artifact_disposition (rs_closeout t) = co_artifact_disposition (rs_closeout s)"
    "resource_id_of t = resource_id_of s"
    by (simp_all add: t_def resource_id_of_def)
  ultimately show ?thesis using c(2-4) valid own by (auto simp: resource_id_of_def)
qed

lemma delete_step:
  assumes s: "stands rq s fs" "ending rid money i
      (\<lambda>co. \<not> co_delete_acknowledged co \<and> \<not> co_provider_not_found co \<and>
         co_delete_acknowledged_resource_ids co = []) s"
    and w: "ok w"
  shows "goes_on rq (\<lambda>s' w'. ok w' \<and> pods w' i = None \<and> ending rid money i
      (\<lambda>co. co_delete_acknowledged co \<and> \<not> co_provider_not_found co \<and>
         co_delete_acknowledged_resource_ids co = [i]) s' \<and> rs_workload_result s' = rs_workload_result s \<and>
      co_artifact_disposition (rs_closeout s') = co_artifact_disposition (rs_closeout s)) obs
    (drive_step c P E now obs fs w)"
proof -
  let ?fs = "fs\<lparr>f_tail := NoTail\<rparr>"
  obtain p where p: "rs_delete s = Some p" "operation_valid (Some p)" using s(2) by (auto simp: ending_def)
  have own: "resource_id_of s = Some i" using s(2) by (simp add: ending_def owning_def)
  obtain b w' where d: "p_delete P i (op_id p) w =
      (Inr \<lparr>dr_operation_id = op_id p, dr_acknowledged = True, dr_already_absent = b\<rparr>, w')"
    "ok w'" "pods w' = (pods w)(i := None)"
    using delete_spec [OF w] by blast
  define t where "t = s\<lparr>rs_closeout := (rs_closeout s)\<lparr>co_delete_acknowledged_resource_ids := [i],
      co_delete_acknowledged := True, co_delete_already_absent := b\<rparr>,
    rs_delete := Some (p\<lparr>op_attempts := op_attempts p + 1, op_status := Acknowledged_all\<rparr>)\<rparr>"
  have "reconcile_delete P now s ?fs w = delete_next P p [i] s ?fs w"
    using s(2) own p by (auto simp: reconcile_delete_def demand_def needed_def ending_def resource_id_of_def
        split: option.split)
  also have "\<dots> = commit ''delete_acknowledged'' [(''operation_id'', PStr (op_id p)),
      (''already_absent'', PBool b), (''resource_id'', PStr i)] t ?fs w'"
    using s(2) own d(1) by (auto simp: delete_next_def record_delete_receipt_def Let_def ending_def
        resource_id_of_def t_def)
  finally have rd: "reconcile_delete P now s ?fs w = \<dots>" .
  have l: "lifecycle s = DELETING" using s(2) by (simp add: ending_def)
  show ?thesis
    by (rule goes_on_commit [OF s(1) _ _ stands_tail [OF s(1)], where t = t and ?w1.0 = w' and now = now])
      (use s(2) d p in \<open>simp_all add: l reconcile_def stands_effective [OF stands_tail [OF s(1)]] rd t_def ending_def
        owning_def resource_id_of_def operation_valid_def\<close>)
qed

lemma absence_step:
  assumes s: "stands rq s fs" "ending rid money i
      (\<lambda>co. co_delete_acknowledged co \<and> \<not> co_provider_not_found co \<and>
         co_delete_acknowledged_resource_ids co = [i]) s"
    and w: "ok w" "pods w i = None"
  shows "goes_on rq (\<lambda>s' w'. ok w' \<and> pods w' i = None \<and> ending rid money i
      (\<lambda>co. co_delete_acknowledged co \<and> co_provider_not_found co \<and>
         co_delete_acknowledged_resource_ids co = [i]) s' \<and> rs_workload_result s' = rs_workload_result s \<and>
      co_artifact_disposition (rs_closeout s') = co_artifact_disposition (rs_closeout s)) obs
    (drive_step c P E now obs fs w)"
proof -
  let ?fs = "fs\<lparr>f_tail := NoTail\<rparr>"
  define t where "t = upd_closeout (\<lambda>co. co\<lparr>co_provider_not_found := True\<rparr>) s"
  have "reconcile_delete P now s ?fs w = observe_deletion P (Some i) [] s ?fs w"
    using s(2) by (auto simp: reconcile_delete_def demand_def needed_def ending_def owning_def resource_id_of_def
        split: option.split)
  also have "\<dots> = commit ''provider_absence_confirmed'' [(''resource_id'', PStr i)] t ?fs w"
    by (simp add: observe_deletion_def get_spec [OF w(1)] w(2) optional_text_def t_def)
  finally have rd: "reconcile_delete P now s ?fs w = \<dots>" .
  have l: "lifecycle s = DELETING" using s(2) by (simp add: ending_def)
  show ?thesis
    by (rule goes_on_commit [OF s(1) _ _ stands_tail [OF s(1)], where t = t and ?w1.0 = w and now = now])
      (use s(2) w in \<open>simp_all add: l reconcile_def stands_effective [OF stands_tail [OF s(1)]] rd t_def ending_def
        owning_def resource_id_of_def\<close>)
qed

lemma deletion_closes:
  assumes s: "stands rq s fs" "ending rid money i
      (\<lambda>co. \<not> co_delete_acknowledged co \<and> \<not> co_provider_not_found co \<and>
         co_delete_acknowledged_resource_ids co = []) s"
    and w: "ok w" and texts: "safe_id rid" "schema_money_digits money" and n: "4 \<le> n"
  shows "closes (\<lambda>s' w'. ok w' \<and> pods w' i = None \<and> resource_id_of s' = Some i \<and>
      rs_workload_result s' = rs_workload_result s \<and>
      co_artifact_disposition (rs_closeout s') = co_artifact_disposition (rs_closeout s))
    (drive c P E clock n obs fs w)" (is "closes ?R _")
proof -
  obtain m where m: "n = Suc (Suc (Suc (Suc m)))" using n by (intro that [of "n - 4"]) simp
  show ?thesis
    unfolding m
  proof (rule drive_goes_on [OF delete_step [OF s w]], elim conjE, rule drive_goes_on [OF absence_step], assumption+, elim conjE)
    fix fs1 s1 w1 fs2 s2 w2
    assume a: "rs_workload_result s1 = rs_workload_result s"
      "co_artifact_disposition (rs_closeout s1) = co_artifact_disposition (rs_closeout s)"
      "stands rq s2 fs2" "ok w2" "pods w2 i = None"
      "ending rid money i (\<lambda>co. co_delete_acknowledged co \<and> co_provider_not_found co \<and>
         co_delete_acknowledged_resource_ids co = [i]) s2"
      "rs_workload_result s2 = rs_workload_result s1"
      "co_artifact_disposition (rs_closeout s2) = co_artifact_disposition (rs_closeout s1)"
    obtain fs' s' where c: "drive_step c P E (clock (Suc m)) obs fs2 w2 = (Inr (Again obs), fs', w2)" "stands rq s' fs'"
      "lifecycle s' = CLOSED" "rs_workload_result s' = rs_workload_result s2"
      "co_artifact_disposition (rs_closeout s') = co_artifact_disposition (rs_closeout s2)"
      "f_receipt fs' = Some (Contents s')" "closeout_receipt_valid s'" "resource_id_of s' = Some i"
      using close_step [OF a(3,6,4,5) texts, of c E "clock (Suc m)" obs] by (elim exE conjE) (rule that)
    have "read_state closeout_receipt_valid fs' = (Inr s', fs'\<lparr>f_tail := NoTail\<rparr>)"
      using c(3,6,7) by (simp add: read_state_def stands_effective [OF c(2)] ensure_closeout_receipt_def
          make_closeout_receipt_def read_json_object_def)
    then have "drive_step c P E (clock m) obs fs' w2 = (Inr (Finished s'), fs'\<lparr>f_tail := NoTail\<rparr>, w2)"
      using c(3) by (simp add: drive_step_def)
    then show "closes ?R (drive c P E clock (Suc (Suc m)) obs fs2 w2)"
      using c a by (simp add: closes_def)
  qed
qed

text \<open>Up to the recorded artifacts.\<close>

lemma artifacts_step:
  assumes s: "stands rq s fs" "lifecycle s = RECOVERING" "fresh rid money s" "owning i s"
      "rs_workload_result s \<noteq> None" "rs_closeout s = initial_closeout"
    and uuid: "operation_valid (Some (new_operation c rid Delete_op))"
  shows "goes_on rq (\<lambda>s' w'. w' = w \<and> ending rid money i
      (\<lambda>co. \<not> co_delete_acknowledged co \<and> \<not> co_provider_not_found co \<and>
         co_delete_acknowledged_resource_ids co = []) s' \<and> rs_workload_result s' = rs_workload_result s \<and>
      co_artifact_disposition (rs_closeout s') = Some (ob_disposition ob, Some (ob_detail ob))) (Some ob)
    (drive_step c P E now (Some ob) fs w)"
proof -
  let ?fs = "fs\<lparr>f_tail := NoTail\<rparr>"
  define co where "co = initial_closeout\<lparr>co_artifact_disposition := Some (ob_disposition ob, Some (ob_detail ob))\<rparr>"
  define d where "d = new_operation c rid Delete_op"
  define t where "t = s\<lparr>rs_closeout := co, rs_delete := Some d, lifecycle := DELETING\<rparr>"
  have t: "(default_op c Delete_op (s\<lparr>rs_closeout := (rs_closeout s)
    \<lparr>co_artifact_disposition := Some (ob_disposition ob, Some (ob_detail ob))\<rparr>\<rparr>))\<lparr>lifecycle := DELETING\<rparr> = t"
    using s(3,6) by (simp add: t_def co_def d_def default_op_def fresh_def)
  have fresh_co: "co_artifact_disposition (rs_closeout s) = None" by (simp add: s(6) initial_closeout_def)
  have co: "co_artifact_disposition co = Some (ob_disposition ob, Some (ob_detail ob))"
    "\<not> co_delete_acknowledged co" "\<not> co_provider_not_found co" "co_delete_acknowledged_resource_ids co = []"
    "co_current_spend_scope co = None" "co_provision_resolution co = None"
    by (simp_all add: co_def initial_closeout_def)
  have ending: "ending rid money i (\<lambda>co. \<not> co_delete_acknowledged co \<and> \<not> co_provider_not_found co \<and>
      co_delete_acknowledged_resource_ids co = []) t" "rs_workload_result t = rs_workload_result s"
    "rs_closeout t = co"
    using s(3-5) uuid co by (simp_all add: t_def ending_def fresh_def owning_def resource_id_of_def d_def)
  have nt: "lifecycle t \<noteq> CLOSED" by (simp add: t_def)
  obtain n fs' where c: "commit_state closeout_receipt_valid ''artifact_disposition_recorded'' t
      [(''status'', PStr (disposition_text (ob_disposition ob))), (''detail'', optional_text (Some (ob_detail ob)))] ?fs =
    (Inr (t\<lparr>event_sequence := n\<rparr>), fs')" "stands rq (t\<lparr>event_sequence := n\<rparr>) fs'"
    by (rule stands_commit_state [OF stands_tail [OF s(1)] nt])
  have r: "record_artifact_disposition c (ob_disposition ob) (Some (ob_detail ob)) ?fs =
      (Inr (t\<lparr>event_sequence := n\<rparr>), fs')"
    using c(1) s(2) fresh_co by (simp add: record_artifact_disposition_def stands_effective [OF stands_tail [OF s(1)]]
        Let_def t)
  have nd: "\<not> recovery_must_not_dispatch_workload s"
    using s(3,5) by (simp add: recovery_must_not_dispatch_workload_def fresh_def)
  have nc: "lifecycle s \<noteq> CLOSED" using s(2) by simp
  have "drive_step c P E now (Some ob) fs w = (Inr (Again (Some ob)), fs', w)"
    using s(2) nd by (simp add: drive_step_def stands_read [OF s(1) nc] r lift_store_def)
  then show ?thesis
    using c(2) ending co(1) by (auto simp: goes_on_def)
qed

lemma workload_step:
  assumes s: "stands rq s fs" "lifecycle s = RUNNING" "fresh rid money s" "owning i s"
      "rs_workload_result s = None" "rs_closeout s = initial_closeout"
    and E: "E rq w = (Inr ob, w')"
  shows "goes_on rq (\<lambda>s' v. v = w' \<and> lifecycle s' = RECOVERING \<and> fresh rid money s' \<and> owning i s' \<and>
      rs_workload_result s' = Some (ob_result ob) \<and> rs_closeout s' = initial_closeout) (Some ob)
    (drive_step c P E now obs fs w)"
proof -
  let ?fs = "fs\<lparr>f_tail := NoTail\<rparr>"
  define t where "t = s\<lparr>rs_workload_result := Some (ob_result ob), lifecycle := RECOVERING\<rparr>"
  have nt: "lifecycle t \<noteq> CLOSED" by (simp add: t_def)
  obtain n fs' where c: "commit_state closeout_receipt_valid ''workload_terminal'' t
      [(''result'', PStr (workload_text (ob_result ob))), (''detail'', optional_text (Some (ob_detail ob)))] ?fs =
    (Inr (t\<lparr>event_sequence := n\<rparr>), fs')" "stands rq (t\<lparr>event_sequence := n\<rparr>) fs'"
    by (rule stands_commit_state [OF stands_tail [OF s(1)] nt])
  have r: "record_workload_result (ob_result ob) (Some (ob_detail ob)) ?fs = (Inr (t\<lparr>event_sequence := n\<rparr>), fs')"
    using c(1) s(2,5) by (simp add: record_workload_result_def stands_effective [OF stands_tail [OF s(1)]] t_def)
  have nc: "lifecycle s \<noteq> CLOSED" using s(2) by simp
  have "drive_step c P E now obs fs w = (Inr (Again (Some ob)), fs', w')"
    using s(2) E by (simp add: drive_step_def stands_read [OF s(1) nc] execute_workload_def
        stands_request [OF stands_tail [OF s(1)]] r lift_store_def)
  then show ?thesis
    using c(2) s by (auto simp: goes_on_def t_def owning_def fresh_def resource_id_of_def)
qed

lemma start_step:
  assumes s: "stands rq s fs" "lifecycle s = STARTING" "fresh rid money s" "owning i s" "rs_start s = Some p"
      "rs_workload_result s = None" "rs_closeout s = initial_closeout"
    and w: "ok w" "pods w i = Some r"
  shows "goes_on rq (\<lambda>s' w'. ok w' \<and> lifecycle s' = RUNNING \<and> fresh rid money s' \<and> owning i s' \<and>
      rs_workload_result s' = None \<and> rs_closeout s' = initial_closeout) obs
    (drive_step c P E now obs fs w)"
proof -
  let ?fs = "fs\<lparr>f_tail := NoTail\<rparr>"
  obtain v where v: "rs_resource s = Some v" "resource_value_id v = i"
    using s(4) by (auto simp: owning_def resource_id_of_def)
  have i: "res_id r = i" using named [OF w] .
  have p: "operation_valid (Some p)" using s(3,5) by (simp add: fresh_def)
  show ?thesis
  proof (cases "res_state r = Pod_RUNNING")
    case True
    define t where "t = s\<lparr>rs_resource := Some (resource_projection r),
      rs_start := Some (p\<lparr>op_status := Observed_running\<rparr>), lifecycle := RUNNING\<rparr>"
    have "reconcile_start c P s ?fs w = commit ''resource_running'' [(''resource_id'', PStr i)] t ?fs w"
      using True v s(5) by (simp add: reconcile_start_def demand_def needed_def get_spec [OF w(1)] w(2) t_def)
    then show ?thesis
      by (intro goes_on_commit [OF s(1) _ _ stands_tail [OF s(1)], where t = t and ?w1.0 = w and now = now])
        (use s p w i in \<open>simp_all add: reconcile_def stands_effective [OF stands_tail [OF s(1)]] t_def
          owning_def fresh_def resource_id_of_def operation_valid_def\<close>)
  next
    case False
    obtain w' where st: "p_start P i (op_id p) w = (Inr (r\<lparr>res_state := Pod_RUNNING\<rparr>), w')" "ok w'"
      using start_spec [OF w] by blast
    define t where "t = s\<lparr>rs_resource := Some (resource_projection (r\<lparr>res_state := Pod_RUNNING\<rparr>)),
      rs_start := Some (p\<lparr>op_attempts := op_attempts p + 1, op_status := Acknowledged\<rparr>), lifecycle := RUNNING\<rparr>"
    have "reconcile_start c P s ?fs w = commit ''resource_running'' [(''resource_id'', PStr i)] t ?fs w'"
      using False v s(5) by (simp add: reconcile_start_def demand_def needed_def get_spec [OF w(1)] w(2) t_def
          start_resource_def Let_def st(1))
    then show ?thesis
      by (intro goes_on_commit [OF s(1) _ _ stands_tail [OF s(1)], where t = t and ?w1.0 = w' and now = now])
        (use s p st i in \<open>simp_all add: reconcile_def stands_effective [OF stands_tail [OF s(1)]] t_def
          owning_def fresh_def resource_id_of_def operation_valid_def\<close>)
  qed
qed

lemma provision_step:
  assumes s: "stands rq s fs" "lifecycle s = PROVISIONING" "fresh rid money s" "rs_start s = None"
      "rs_provision s = Some (new_operation c rid Provision_op)"
      "rs_workload_result s = None" "rs_closeout s = initial_closeout"
    and w: "ok w" "unclaimed pods (op_id (new_operation c rid Provision_op)) w"
    and spec: "as_dict (get_or rq ''provider'' (PDict [])) = Some spec"
      "\<And>name. admits \<lparr>cr_run_id = rid, cr_operation_id = op_id (new_operation c rid Provision_op),
         cr_resource_name = name, cr_spec = spec\<rparr>"
    and uuid: "operation_valid (Some (new_operation c rid Start_op))"
  shows "goes_on rq (\<lambda>s' w'. ok w' \<and> (\<exists>i r p. pods w' i = Some r \<and> owning i s' \<and> rs_start s' = Some p) \<and>
      lifecycle s' = STARTING \<and> fresh rid money s' \<and>
      rs_workload_result s' = None \<and> rs_closeout s' = initial_closeout) obs
    (drive_step c P E now obs fs w)"
proof -
  let ?fs = "fs\<lparr>f_tail := NoTail\<rparr>"
  define p where "p = new_operation c rid Provision_op"
  define st where "st = new_operation c rid Start_op"
  define p1 where "p1 = p\<lparr>op_attempts := op_attempts p + 1, op_status := Dispatched,
    op_dispatched_at := Some (isoformat now)\<rparr>"
  define s1 where "s1 = s\<lparr>rs_provision := Some p1\<rparr>"
  define q where "q = \<lparr>cr_run_id = rid, cr_operation_id = op_id p, cr_resource_name = ''rjr-'' @ rid @ ''-'' @
    drop (length (op_id p) - 8) (op_id p), cr_spec = spec\<rparr>"
  have pr: "rs_provision s = Some p" "op_status p = Intended" and rid: "rs_run_id s = rid"
    using s(3,5) by (simp_all add: p_def new_operation_def fresh_def)
  have valid: "operation_valid (Some p)" using s(3,5) by (simp add: fresh_def p_def)
  obtain r w' where r: "p_create P q w = (Inr r, w')" "ok w'" "pods w' = (pods w)(res_id r \<mapsto> r)"
    "res_run_id r = rid" "res_create_operation_id r = op_id p"
    using create_spec [OF w(1), of q] spec(2) by (auto simp: q_def p_def)
  have nc: "lifecycle s1 \<noteq> CLOSED" by (simp add: s1_def s(2))
  obtain n fs1 where c1: "commit ''provider_operation_dispatched''
      [(''kind'', PStr ''provision''), (''operation_id'', PStr (op_id p))] s1 ?fs w =
      (Inr (s1\<lparr>event_sequence := n\<rparr>), fs1, w)" "stands rq (s1\<lparr>event_sequence := n\<rparr>) fs1"
    by (rule stands_commit [OF stands_tail [OF s(1)] nc])
  define t where "t = s\<lparr>rs_provision := Some (p1\<lparr>op_status := Observed, op_resource_id := Some (res_id r)\<rparr>),
    rs_start := Some st, rs_resource := Some (resource_projection r), lifecycle := STARTING\<rparr>"
  have cq: "create_request_of p s ?fs = Inr q"
    using spec(1) by (simp add: create_request_of_def stands_request [OF stands_tail [OF s(1)]] rid q_def)
  have "reconcile_provision c P now s ?fs w = dispatch_create c P now p s ?fs w"
    using find_unclaimed [OF w] by (simp add: reconcile_provision_def demand_def needed_def pr p_def [symmetric])
  also have "\<dots> = record_provisioned c r s1 fs1 w'"
    using c1(1) r(1) by (simp add: dispatch_create_def cq finish_create_def Let_def p1_def [symmetric] s1_def [symmetric])
  also have "\<dots> = commit ''resource_provisioned''
      [(''resource_id'', PStr (res_id r)), (''start_operation_id'', PStr (op_id st))] t fs1 w'"
    using r(4,5) s(4) by (simp add: record_provisioned_def demand_def needed_def s1_def p1_def rid Let_def
        default_op_def st_def t_def)
  finally have rp: "reconcile_provision c P now s ?fs w = \<dots>" .
  have i: "res_id r \<noteq> []" using id_nonempty [OF r(2), of "res_id r" r] r(3) by simp
  have t: "owning (res_id r) t" "fresh rid money t" "lifecycle t = STARTING" "rs_start t = Some st"
    "rs_workload_result t = None" "rs_closeout t = initial_closeout"
    using s(3,6,7) valid uuid i
    by (simp_all add: t_def owning_def fresh_def resource_id_of_def p1_def operation_valid_def st_def)
  show ?thesis
    by (rule goes_on_commit [OF s(1) _ _ c1(2), where t = t and ?w1.0 = w' and now = now])
      (use s(2) r(2,3) t in \<open>auto simp: reconcile_def stands_effective [OF stands_tail [OF s(1)]] rp\<close>)
qed

lemma plan_step:
  assumes s: "stands rq s fs" "lifecycle s = PLANNED" "fresh rid money s" "rs_start s = None" "rs_provision s = None"
      "rs_workload_result s = None" "rs_closeout s = initial_closeout"
    and uuid: "operation_valid (Some (new_operation c rid Provision_op))"
  shows "goes_on rq (\<lambda>s' w'. w' = w \<and> lifecycle s' = PROVISIONING \<and> fresh rid money s' \<and> rs_start s' = None \<and>
      rs_provision s' = Some (new_operation c rid Provision_op) \<and>
      rs_workload_result s' = None \<and> rs_closeout s' = initial_closeout) obs
    (drive_step c P E now obs fs w)"
proof -
  let ?fs = "fs\<lparr>f_tail := NoTail\<rparr>"
  define p where "p = new_operation c rid Provision_op"
  define t where "t = s\<lparr>rs_provision := Some p, lifecycle := PROVISIONING\<rparr>"
  have rid: "rs_run_id s = rid" using s(3) by (simp add: fresh_def)
  have "intend_provision c s ?fs w = commit ''provider_operation_intended''
      [(''kind'', PStr ''provision''), (''operation_id'', PStr (op_id p))] t ?fs w"
    using s(5) rid by (simp add: intend_provision_def default_op_def demand_def needed_def Let_def t_def p_def)
  then show ?thesis
    by (intro goes_on_commit [OF s(1) _ _ stands_tail [OF s(1)], where t = t and ?w1.0 = w and now = now])
      (use s uuid in \<open>simp_all add: reconcile_def stands_effective [OF stands_tail [OF s(1)]] t_def p_def
        fresh_def\<close>)
qed

text \<open>The whole run, for an executor that returns.\<close>

lemma workload_closes:
  assumes s: "stands rq s fs" "lifecycle s = RUNNING" "fresh rid money s" "owning i s"
      "rs_workload_result s = None" "rs_closeout s = initial_closeout"
    and w: "ok w" and E: "\<And>v. ok v \<Longrightarrow> \<exists>ob v'. E rq v = (Inr ob, v') \<and> ok v'"
    and uuid: "operation_valid (Some (new_operation c rid Delete_op))"
    and texts: "safe_id rid" "schema_money_digits money" and n: "6 \<le> n"
  shows "closes (\<lambda>s' w'. \<exists>i ob v v'. E rq v = (Inr ob, v') \<and> resource_id_of s' = Some i \<and> ok w' \<and> pods w' i = None \<and>
      rs_workload_result s' = Some (ob_result ob) \<and>
      co_artifact_disposition (rs_closeout s') = Some (ob_disposition ob, Some (ob_detail ob)))
    (drive c P E clock n obs fs w)"
proof -
  obtain m where m: "n = Suc (Suc m)" "4 \<le> m" using n by (intro that [of "n - 2"]) simp_all
  obtain ob w' where ob: "E rq w = (Inr ob, w')" "ok w'" using E [OF w] by blast
  show ?thesis
    unfolding m(1)
  proof (rule drive_goes_on [OF workload_step [where E = E, OF s ob(1)]], elim conjE)
    fix fs1 s1 w1
    assume 1: "stands rq s1 fs1" "w1 = w'" "lifecycle s1 = RECOVERING" "fresh rid money s1" "owning i s1"
      "rs_workload_result s1 = Some (ob_result ob)" "rs_closeout s1 = initial_closeout"
    then have nn: "rs_workload_result s1 \<noteq> None" by simp
    show "closes (\<lambda>s' w'. \<exists>i ob v v'. E rq v = (Inr ob, v') \<and> resource_id_of s' = Some i \<and> ok w' \<and> pods w' i = None \<and>
        rs_workload_result s' = Some (ob_result ob) \<and>
        co_artifact_disposition (rs_closeout s') = Some (ob_disposition ob, Some (ob_detail ob)))
      (drive c P E clock (Suc m) (Some ob) fs1 w1)"
    proof (rule drive_goes_on [OF artifacts_step [OF 1(1,3-5) nn 1(7) uuid]], elim conjE)
      fix fs2 s2 w2
      assume 2: "stands rq s2 fs2" "w2 = w1" "rs_workload_result s2 = rs_workload_result s1"
        "co_artifact_disposition (rs_closeout s2) = Some (ob_disposition ob, Some (ob_detail ob))"
        "ending rid money i (\<lambda>co. \<not> co_delete_acknowledged co \<and> \<not> co_provider_not_found co \<and>
           co_delete_acknowledged_resource_ids co = []) s2"
      have "ok w2" using 1(2) 2(2) ob(2) by simp
      from deletion_closes [OF 2(1,5) this texts m(2), of c E clock "Some ob"]
      show "closes (\<lambda>s' w'. \<exists>i ob v v'. E rq v = (Inr ob, v') \<and> resource_id_of s' = Some i \<and> ok w' \<and> pods w' i = None \<and>
          rs_workload_result s' = Some (ob_result ob) \<and>
          co_artifact_disposition (rs_closeout s') = Some (ob_disposition ob, Some (ob_detail ob)))
        (drive c P E clock m (Some ob) fs2 w2)"
        using ob(1) 1(6) 2(3,4) unfolding closes_def by fastforce
    qed
  qed
qed

lemma planned_closes:
  assumes s: "stands rq s fs" "lifecycle s = PLANNED" "fresh rid money s" "rs_start s = None" "rs_provision s = None"
      "rs_workload_result s = None" "rs_closeout s = initial_closeout"
    and w: "ok w" "unclaimed pods (op_id (new_operation c rid Provision_op)) w"
    and spec: "as_dict (get_or rq ''provider'' (PDict [])) = Some spec"
      "\<And>name. admits \<lparr>cr_run_id = rid, cr_operation_id = op_id (new_operation c rid Provision_op),
         cr_resource_name = name, cr_spec = spec\<rparr>"
    and E: "\<And>v. ok v \<Longrightarrow> \<exists>ob v'. E rq v = (Inr ob, v') \<and> ok v'"
    and uuid: "\<And>k. operation_valid (Some (new_operation c rid k))"
    and texts: "safe_id rid" "schema_money_digits money" and n: "9 \<le> n"
  shows "closes (\<lambda>s' w'. \<exists>i ob v v'. E rq v = (Inr ob, v') \<and> resource_id_of s' = Some i \<and> ok w' \<and> pods w' i = None \<and>
      rs_workload_result s' = Some (ob_result ob) \<and>
      co_artifact_disposition (rs_closeout s') = Some (ob_disposition ob, Some (ob_detail ob)))
    (drive c P E clock n obs fs w)"
proof -
  obtain m where m: "n = Suc (Suc (Suc m))" "6 \<le> m" using n by (intro that [of "n - 3"]) simp_all
  show ?thesis
    unfolding m(1)
  proof (rule drive_goes_on [OF plan_step [OF s uuid]], elim conjE)
    fix fs1 s1 w1
    assume 1: "stands rq s1 fs1" "w1 = w" "lifecycle s1 = PROVISIONING" "fresh rid money s1" "rs_start s1 = None"
      "rs_provision s1 = Some (new_operation c rid Provision_op)" "rs_workload_result s1 = None"
      "rs_closeout s1 = initial_closeout"
    have w1: "ok w1" "unclaimed pods (op_id (new_operation c rid Provision_op)) w1" using w 1(2) by simp_all
    show "closes (\<lambda>s' w'. \<exists>i ob v v'. E rq v = (Inr ob, v') \<and> resource_id_of s' = Some i \<and> ok w' \<and> pods w' i = None \<and>
        rs_workload_result s' = Some (ob_result ob) \<and>
        co_artifact_disposition (rs_closeout s') = Some (ob_disposition ob, Some (ob_detail ob)))
      (drive c P E clock (Suc (Suc m)) obs fs1 w1)"
    proof (rule drive_goes_on [OF provision_step [OF 1(1,3-8) w1 spec uuid]], elim conjE exE)
      fix fs2 s2 w2 i r p
      assume 2: "stands rq s2 fs2" "ok w2" "pods w2 i = Some r" "owning i s2" "rs_start s2 = Some p"
        "lifecycle s2 = STARTING" "fresh rid money s2" "rs_workload_result s2 = None"
        "rs_closeout s2 = initial_closeout"
      show "closes (\<lambda>s' w'. \<exists>i ob v v'. E rq v = (Inr ob, v') \<and> resource_id_of s' = Some i \<and> ok w' \<and> pods w' i = None \<and>
          rs_workload_result s' = Some (ob_result ob) \<and>
          co_artifact_disposition (rs_closeout s') = Some (ob_disposition ob, Some (ob_detail ob)))
        (drive c P E clock (Suc m) obs fs2 w2)"
      proof (rule drive_goes_on [OF start_step [OF 2(1,6,7,4,5,8,9,2,3)]], elim conjE)
        fix fs3 s3 w3
        assume 3: "stands rq s3 fs3" "ok w3" "lifecycle s3 = RUNNING" "fresh rid money s3" "owning i s3"
          "rs_workload_result s3 = None" "rs_closeout s3 = initial_closeout"
        show "closes (\<lambda>s' w'. \<exists>i ob v v'. E rq v = (Inr ob, v') \<and> resource_id_of s' = Some i \<and> ok w' \<and> pods w' i = None \<and>
            rs_workload_result s' = Some (ob_result ob) \<and>
            co_artifact_disposition (rs_closeout s') = Some (ob_disposition ob, Some (ob_detail ob)))
          (drive c P E clock m obs fs3 w3)"
          by (rule workload_closes [where E = E, OF 3(1,3-7) 3(2) E uuid texts m(2)])
      qed
    qed
  qed
qed

end

interpretation memory_live: live_provider memory_provider "\<lambda>m. dget (mp_resources m)" memory_ok memory_admits
proof (unfold_locales)
  show "\<And>w i r. memory_ok w \<Longrightarrow> dget (mp_resources w) i = Some r \<Longrightarrow> i \<noteq> []"
    using memory_ok_entry(2) by (fastforce simp: memory_id_def Let_def)
qed

section \<open>Properties of the engine\<close>

text \<open>
  C3: the engine on top of the controller and the store is safe.  From any reachable run, whatever the
  provider and the workload executor answer, \<open>drive\<close> leaves a run that has been created at most once; when it
  returns, the run is closed with its whole proof: a delete call for every resource it knows of, the state that is
  returned is the durable one, and the closeout receipt on disk is that state.
\<close>

theorem engine_closes_with_proof:
  assumes "reachable c P (fs, (w, calls))"
    and "drive c (traced P) (traced_executor E) clock n None fs (w, calls) = (r, fs', (w', calls'))"
  shows "length (creates calls') \<le> 1 \<and>
    (\<forall>s. r = Inr s \<longrightarrow> lifecycle s = CLOSED \<and> current fs' = Some s \<and> f_receipt fs' = Some (Contents s) \<and>
       assert_closeout_ready s fs' = Inr () \<and>
       (\<forall>i \<in> set (known_ids s). \<exists>k. Delete_call i k \<in> set calls'))"
proof -
  note k = drive_ok [OF reachable_ok [OF assms(1)] assms(2)]
  then obtain s where s: "current fs' = Some s" "state_ok s calls'" "closed_ok s fs'"
    by (auto simp: run_ok_def)
  have "length (creates calls') \<le> 1" using s(2) by (simp add: state_ok_def log_ok_def)
  moreover have "lifecycle t = CLOSED \<and> current fs' = Some t \<and> f_receipt fs' = Some (Contents t) \<and>
       assert_closeout_ready t fs' = Inr () \<and> (\<forall>i \<in> set (known_ids t). \<exists>k. Delete_call i k \<in> set calls')"
    if "r = Inr t" for t
  proof -
    have t: "lifecycle t = CLOSED" "t = s" "f_receipt fs' = Some (Contents t)"
      using k that s(1) by (auto simp: finished_ok_def receipted_def)
    have ready: "assert_closeout_ready s fs' = Inr ()" using s(3) t(1,2) by (simp add: closed_ok_def)
    then have "co_delete_acknowledged (rs_closeout s)" by (auto simp: assert_closeout_ready_def)
    then have "\<forall>i \<in> set (known_ids s). \<exists>k. Delete_call i k \<in> set calls'"
      using s(2) by (auto simp: state_ok_def deletion_ok_def log_ok_def)
    then show ?thesis using t s(1) ready by simp
  qed
  ultimately show ?thesis by blast
qed

definition sample_executor :: "memory_pod executor" where
  "sample_executor = (\<lambda>request w.
     (Inr \<lparr>ob_result = SUCCEEDED, ob_disposition = VERIFIED, ob_detail = ''remote outcome: succeeded''\<rparr>, w))"

theorem engine_closes_with_proof_witness:
  "\<exists>r fs' w' calls'. drive sample_controller (traced memory_provider) (traced_executor sample_executor)
      (\<lambda>_. sample_now) 9 None sample_files (memory_init, []) = (r, fs', (w', calls')) \<and>
    length (creates calls') \<le> 1"
proof -
  obtain r fs' w' calls' where d: "drive sample_controller (traced memory_provider) (traced_executor sample_executor)
      (\<lambda>_. sample_now) 9 None sample_files (memory_init, []) = (r, fs', (w', calls'))"
    by (metis prod.exhaust)
  have "reachable sample_controller memory_provider (sample_files, (memory_init, []))"
    using sample_planned_reachable by (simp add: sample_planned_def)
  then show ?thesis using engine_closes_with_proof [OF _ d] d by blast
qed

lemma plan_stands:
  assumes "plan rid request approved no_files = (Inr s, fs)"
  obtains money where "money_text approved = Inr money" "safe_id rid"
    "stands (dput ''approved_max_usd'' (PStr money) request) s fs"
    "lifecycle s = PLANNED" "fresh rid money s" "rs_start s = None" "rs_provision s = None"
    "rs_workload_result s = None" "rs_closeout s = initial_closeout"
proof -
  obtain money paths where money: "money_text approved = Inr money" "run_paths_of rid = Inr paths"
    using assms by (auto simp: plan_def split: sum.splits)
  define r where "r = dput ''approved_max_usd'' (PStr money) request"
  define files where "files = (no_files :: files)\<lparr>f_request := Some (Contents r)\<rparr>"
  have ok: "store_ok files" by (simp add: files_def store_ok_def no_files_def)
  have c: "commit_state closeout_receipt_valid ''run_planned'' (initial_state rid money) [] files = (Inr s, fs)"
    using assms money by (simp add: plan_def create_run_def files_def r_def no_files_def)
  have nc: "lifecycle (initial_state rid money) = CLOSED \<Longrightarrow>
      closeout_receipt_valid (stamped files (initial_state rid money))"
    by (simp add: initial_state_def)
  obtain fs' where fs': "commit_state closeout_receipt_valid ''run_planned'' (initial_state rid money) [] files =
      (Inr (stamped files (initial_state rid money)), fs')"
    "store_ok fs'" "current fs' = Some (stamped files (initial_state rid money))" "f_request fs' = f_request files"
    by (rule commit_ok [where valid = closeout_receipt_valid and kind = "''run_planned''" and payload = "[]", OF ok nc])
  have eq: "s = stamped files (initial_state rid money)" "fs = fs'" using c fs'(1) by simp_all
  have safe: "safe_id rid" using money(2) by (simp add: run_paths_of_def split: if_splits)
  show ?thesis
    by (rule that [OF money(1) safe])
      (use fs' in \<open>simp_all add: stands_def eq files_def r_def stamped_def initial_state_def fresh_def
        operation_valid_def\<close>)
qed

text \<open>
  A run ends, on the store of decoded records: an executor whose texts the journal does not carry (a line break of Unicode,
  for instance) may leave a journal that does not read back, which this store does not show.  On the in-memory provider, however its fleet looks, a planned run whose provider request
  names an admissible rate and whose executor returns is driven to its closeout within nine iterations, at any
  clock: the run is closed with the executor's result and artifact disposition recorded, and its pod is gone.
\<close>

theorem engine_closes:
  assumes "plan rid request approved no_files = (Inr s, fs)"
    and "memory_ok w" and "memory_find (op_id (new_operation c rid Provision_op)) w = (Inr [], w)"
    and "as_dict (get_or request ''provider'' (PDict [])) = Some spec"
    and "decimal_from_spec (get_or spec ''hourly_rate_usd'' (PStr ''1'')) = Inr rate"
    and "\<And>rq v. memory_ok v \<Longrightarrow> \<exists>ob v'. E rq v = (Inr ob, v') \<and> memory_ok v'"
    and "\<And>name. c_uuid5 c name \<noteq> [] \<and> hd (c_uuid5 c name) \<noteq> CHR 10"
    and "9 \<le> n"
  shows "\<exists>s' fs' w' i ob rq v v'. drive c memory_provider E clock n None fs w = (Inr s', fs', w') \<and>
    lifecycle s' = CLOSED \<and> E rq v = (Inr ob, v') \<and> rs_workload_result s' = Some (ob_result ob) \<and>
    co_artifact_disposition (rs_closeout s') = Some (ob_disposition ob, Some (ob_detail ob)) \<and>
    resource_id_of s' = Some i \<and> dget (mp_resources w') i = None"
proof -
  obtain money where p: "money_text approved = Inr money" "safe_id rid"
    "stands (dput ''approved_max_usd'' (PStr money) request) s fs"
    "lifecycle s = PLANNED" "fresh rid money s" "rs_start s = None" "rs_provision s = None"
    "rs_workload_result s = None" "rs_closeout s = initial_closeout"
    using assms(1) by (rule plan_stands)
  have uuid: "operation_valid (Some (new_operation c rid k))" for k
    using assms(7) [of "''runpod-jobrunner/'' @ rid @ ''/'' @ kind_name k @ ''/1''"]
    by (cases "c_uuid5 c (''runpod-jobrunner/'' @ rid @ ''/'' @ kind_name k @ ''/1'')")
      (auto intro: new_operation_valid)
  obtain rs where rs: "memory_find (op_id (new_operation c rid Provision_op)) w = (Inr rs, w)"
    "set rs = {r. \<exists>i. dget (mp_resources w) i = Some r \<and>
       res_create_operation_id r = op_id (new_operation c rid Provision_op)}"
    using memory_find_spec [OF assms(2)] by blast
  have free: "unclaimed (\<lambda>m. dget (mp_resources m)) (op_id (new_operation c rid Provision_op)) w"
    using assms(3) rs by (auto simp: unclaimed_def)
  have spec: "as_dict (get_or (dput ''approved_max_usd'' (PStr money) request) ''provider'' (PDict [])) = Some spec"
    using assms(4) by (simp add: get_or_def)
  have admits: "memory_admits \<lparr>cr_run_id = rid, cr_operation_id = op_id (new_operation c rid Provision_op),
      cr_resource_name = name, cr_spec = spec\<rparr>" for name
    using assms(5) by (simp add: memory_admits_def)
  have "closes (\<lambda>s' w'. \<exists>i ob v v'. E (dput ''approved_max_usd'' (PStr money) request) v = (Inr ob, v') \<and>
      resource_id_of s' = Some i \<and> memory_ok w' \<and> dget (mp_resources w') i = None \<and>
      rs_workload_result s' = Some (ob_result ob) \<and>
      co_artifact_disposition (rs_closeout s') = Some (ob_disposition ob, Some (ob_detail ob)))
    (drive c memory_provider E clock n None fs w)"
    by (rule memory_live.planned_closes [where E = E, OF p(3-9) assms(2) free spec admits assms(6) uuid p(2)
        money_text_schema [OF p(1)] assms(8)])
  then show ?thesis unfolding closes_def by blast
qed

definition fixed_controller :: controller where
  "fixed_controller = \<lparr>c_grace = visibility_grace, c_uuid5 = (\<lambda>name. ''u'')\<rparr>"

theorem engine_closes_witness:
  "\<exists>s' fs' w' i. drive fixed_controller memory_provider sample_executor (\<lambda>_. sample_now) 9 None
      (snd (plan ''r'' [(''provider'', PDict [])] (PStr ''5'') no_files)) memory_init = (Inr s', fs', w') \<and>
    lifecycle s' = CLOSED \<and> resource_id_of s' = Some i \<and> dget (mp_resources w') i = None"
proof -
  obtain s fs where p: "plan ''r'' [(''provider'', PDict [])] (PStr ''5'') no_files = (Inr s, fs)"
  proof -
    have "\<not> isl (fst (plan ''r'' [(''provider'', PDict [])] (PStr ''5'') no_files))" by code_simp
    then show ?thesis using that by (metis prod.collapse sum.collapse(2))
  qed
  have one: "decimal_from_spec (get_or [] ''hourly_rate_usd'' (PStr ''1'')) = Inr (Dec 1 0)" by code_simp
  have uuid: "c_uuid5 fixed_controller name = ''u''" for name by (simp add: fixed_controller_def)
  show ?thesis
    using engine_closes [OF p, of memory_init fixed_controller "[]" "Dec 1 0" sample_executor 9 "\<lambda>_. sample_now"] one
    unfolding p by (auto simp: memory_ok_def memory_init_def memory_find_def sample_executor_def get_or_def uuid)
qed

end
