(* ===== verification/Paths.thy ===== *)
theory Paths
  imports PyValue
begin

text \<open>
  Paths that come from manifests, requests and remote listings: \<open>PurePosixPath\<close> as the code uses it, the
  validators of \<open>bundle.py\<close>, \<open>runner.py\<close>, \<open>transfer.py\<close> and \<open>remote_executor.py\<close>, and the discovery globs.
\<close>

section \<open>PurePosixPath\<close>

record posix_path =
  pp_root :: string
  pp_tail :: "string list"

definition slash :: char where
  "slash = CHR ''/''"

definition path_root :: "string \<Rightarrow> string" where
  "path_root s =
     (let n = length (takeWhile (\<lambda>c. c = slash) s)
      in if n = 0 then '''' else if n = 2 then ''//'' else ''/'')"

definition pure_posix_path :: "string \<Rightarrow> posix_path" where
  "pure_posix_path s =
     \<lparr>pp_root = path_root s, pp_tail = filter (\<lambda>p. p \<noteq> [] \<and> p \<noteq> ''.'') (split_on slash s)\<rparr>"

definition is_absolute :: "posix_path \<Rightarrow> bool" where
  "is_absolute p \<longleftrightarrow> pp_root p \<noteq> []"

definition path_parts :: "posix_path \<Rightarrow> string list" where
  "path_parts p = (if pp_root p = [] then pp_tail p else pp_root p # pp_tail p)"

definition as_posix :: "posix_path \<Rightarrow> string" where
  "as_posix p =
     (if pp_root p = [] \<and> pp_tail p = [] then ''.'' else pp_root p @ join slash (pp_tail p))"

definition path_name :: "posix_path \<Rightarrow> string" where
  "path_name p = (if pp_tail p = [] then [] else last (pp_tail p))"

text \<open>A part no validator accepts.\<close>

definition dotted :: "string \<Rightarrow> bool" where
  "dotted p \<longleftrightarrow> p = [] \<or> p = ''.'' \<or> p = ''..''"

definition backslash_or_nul :: "char \<Rightarrow> bool" where
  "backslash_or_nul c \<longleftrightarrow> c = CHR 0x5C \<or> c = CHR 0x00"

section \<open>The validators\<close>

text \<open>\<open>bundle.py\<close>, \<open>_safe_relative_path\<close>.\<close>

definition bundle_relative_path :: "pyval \<Rightarrow> string \<Rightarrow> exn + posix_path" where
  "bundle_relative_path v field_name =
     (case as_str v of
        None \<Rightarrow> Inl (BundleValidationError (field_name @ '' must be a string path''))
      | Some s \<Rightarrow>
          if list_ex backslash_or_nul s
          then Inl (BundleValidationError (field_name @ '' contains an unsafe path separator or NUL''))
          else let p = pure_posix_path s
            in if is_absolute p \<or> path_parts p = [] \<or> as_posix p \<noteq> s \<or> list_ex dotted (path_parts p)
               then Inl (BundleValidationError
                      (field_name @ '' must be a normalized relative path without '.' or '..' ''))
               else Inr p)"

text \<open>\<open>runner.py\<close>, \<open>_safe_relative_path\<close>.\<close>

definition runner_relative_path :: "pyval \<Rightarrow> string \<Rightarrow> exn + string" where
  "runner_relative_path v name =
     (let bad = Inl (RequestError (name @ '' must be a normalized relative path'')) in
      case as_str v of
        None \<Rightarrow> bad
      | Some s \<Rightarrow>
          if s = [] \<or> list_ex backslash_or_nul s then bad
          else let p = pure_posix_path s
            in if is_absolute p \<or> list_ex dotted (path_parts p) then bad
               else if as_posix p \<noteq> s then bad
               else Inr s)"

text \<open>\<open>remote_executor.py\<close>, \<open>_safe_relative\<close> and \<open>_incremental_relative\<close>.\<close>

definition executor_relative_path :: "string \<Rightarrow> exn + posix_path" where
  "executor_relative_path s =
     (let p = pure_posix_path s
      in if is_absolute p \<or> s = [] \<or> list_ex backslash_or_nul s \<or> list_ex dotted (path_parts p) \<or>
            as_posix p \<noteq> s
         then Inl (ApplicationError ''unsafe remote artifact path'') else Inr p)"

definition bounded_part :: "string \<Rightarrow> bool" where
  "bounded_part p \<longleftrightarrow> \<not> dotted p \<and> length p \<le> 255"

definition bounded_relative :: "string \<Rightarrow> bool" where
  "bounded_relative s \<longleftrightarrow>
     (let p = pure_posix_path s
      in s \<noteq> [] \<and> length s \<le> 1024 \<and> \<not> is_absolute p \<and> as_posix p = s \<and>
         CHR 0x5C \<notin> set s \<and> \<not> list_ex is_control s \<and> list_all bounded_part (path_parts p))"

definition incremental_relative_path :: "string \<Rightarrow> exn + posix_path" where
  "incremental_relative_path s =
     (if bounded_relative s \<and> \<not> list_ex (\<lambda>p. CHR ''*'' \<in> set p) (path_parts (pure_posix_path s))
      then Inr (pure_posix_path s)
      else Inl (ApplicationError ''unsafe incremental manifest path''))"

text \<open>\<open>transfer.py\<close>: \<open>_safe_remote_relative\<close> and \<open>_safe_remote_absolute_file\<close>.\<close>

definition safe_remote_relative :: "string \<Rightarrow> exn + posix_path" where
  "safe_remote_relative s =
     (if bounded_relative s then Inr (pure_posix_path s)
      else Inl (TransferError ''unsafe remote path''))"

definition safe_remote_absolute_file :: "string \<Rightarrow> exn + posix_path" where
  "safe_remote_absolute_file s =
     (let p = pure_posix_path s
      in if s = [] \<or> 1024 < length s \<or> \<not> is_absolute p \<or> as_posix p \<noteq> s \<or> CHR 0x5C \<in> set s \<or>
            list_ex is_control s \<or> path_name p = [] \<or> \<not> list_all bounded_part (tl (path_parts p))
         then Inl (TransferError ''unsafe remote publication path'') else Inr p)"

section \<open>Discovery globs\<close>

definition glob_metachar :: "char \<Rightarrow> bool" where
  "glob_metachar c \<longleftrightarrow> c \<in> set ''?[]{}'' \<or> backslash_or_nul c"

text \<open>\<open>"**" in s\<close>.\<close>

fun double_star :: "string \<Rightarrow> bool" where
  "double_star (c # d # s) \<longleftrightarrow> (c = CHR ''*'' \<and> d = CHR ''*'') \<or> double_star (d # s)"
| "double_star _ \<longleftrightarrow> False"

definition stars :: "string \<Rightarrow> nat" where
  "stars s = count_list s (CHR ''*'')"

definition fixed_glob :: "posix_path \<Rightarrow> string \<Rightarrow> bool" where
  "fixed_glob p s \<longleftrightarrow>
     \<not> is_absolute p \<and> as_posix p = s \<and> path_parts p \<noteq> [] \<and> \<not> list_ex dotted (path_parts p) \<and>
     CHR ''*'' \<notin> set (path_name p) \<and> length (path_parts p) \<le> 32 \<and>
     sum_list (map stars (path_parts p)) \<le> 4"

text \<open>\<open>bundle.py\<close>, \<open>_safe_incremental_manifest_glob\<close>.\<close>

definition bundle_glob :: "pyval \<Rightarrow> exn + string" where
  "bundle_glob v =
     (case as_str v of
        None \<Rightarrow> Inl (BundleValidationError ''glob must be a non-empty string of at most 512 characters'')
      | Some s \<Rightarrow>
          if s = [] \<or> 512 < length s
          then Inl (BundleValidationError ''glob must be a non-empty string of at most 512 characters'')
          else if double_star s \<or> list_ex glob_metachar s
          then Inl (BundleValidationError ''glob contains unsupported glob metacharacters'')
          else if list_ex is_control s
          then Inl (BundleValidationError ''glob contains control characters'')
          else if fixed_glob (pure_posix_path s) s then Inr s
          else Inl (BundleValidationError
                 ''glob must be a normalized relative fixed glob with a fixed filename''))"

text \<open>
  \<open>transfer.py\<close>, \<open>_discovery_matcher\<close>: each part escaped, its stars \<open>[^/]*\<close>, the parts joined by
  slashes.
\<close>

fun glob_rx :: "string \<Rightarrow> rx" where
  "glob_rx [] = REmpty"
| "glob_rx (c # s) =
     RSeq (if c = CHR ''*'' then RStar (RChar (\<lambda>x. x \<noteq> slash)) else rchar c) (glob_rx s)"

fun parts_rx :: "string list \<Rightarrow> rx" where
  "parts_rx [] = REmpty"
| "parts_rx [p] = glob_rx p"
| "parts_rx (p # q # ps) = RSeq (glob_rx p) (RSeq (rchar slash) (parts_rx (q # ps)))"

definition discovery_matcher :: "string \<Rightarrow> exn + rx" where
  "discovery_matcher s =
     (if s = [] \<or> 512 < length s then Inl (TransferError ''incremental manifest glob is invalid'')
      else if double_star s \<or> list_ex glob_metachar s
      then Inl (TransferError ''incremental manifest glob contains unsupported metacharacters'')
      else if list_ex is_control s
      then Inl (TransferError ''incremental manifest glob contains control characters'')
      else if fixed_glob (pure_posix_path s) s then Inr (parts_rx (path_parts (pure_posix_path s)))
      else Inl (TransferError ''incremental manifest glob is not a safe fixed glob''))"

record discovery_pattern =
  dp_fixed_prefix :: string
  dp_relative_pattern :: string

definition wildcard_index :: "string list \<Rightarrow> nat" where
  "wildcard_index parts =
     (if list_ex (\<lambda>p. CHR ''*'' \<in> set p) parts
      then length (takeWhile (\<lambda>p. CHR ''*'' \<notin> set p) parts) else length parts - 1)"

definition validate_discovery_pattern :: "string \<Rightarrow> exn + discovery_pattern" where
  "validate_discovery_pattern s =
     bindR (discovery_matcher s) (\<lambda>_.
       let parts = path_parts (pure_posix_path s); i = wildcard_index parts
       in Inr \<lparr>dp_fixed_prefix = join slash (take i parts),
               dp_relative_pattern = join slash (drop i parts)\<rparr>)"

section \<open>What the validators accept\<close>

lemma path_root_relative: "s = [] \<or> hd s \<noteq> slash \<Longrightarrow> path_root s = []"
  by (cases s) (auto simp: path_root_def)

lemma path_root_absolute: "s \<noteq> [] \<Longrightarrow> hd s = slash \<Longrightarrow> path_root s \<noteq> []"
  by (cases s) (auto simp: path_root_def Let_def)

lemma is_absolute_pure: "is_absolute (pure_posix_path s) \<longleftrightarrow> s \<noteq> [] \<and> hd s = slash"
  using path_root_relative path_root_absolute by (auto simp: is_absolute_def pure_posix_path_def)

lemma hd_split_on: "s \<noteq> [] \<Longrightarrow> hd s = c \<longleftrightarrow> hd (split_on c s) = []"
  by (cases s) (auto split: list.splits)

text \<open>A normal path: its parts are what lies between its slashes, and none is empty or dotted.\<close>

definition normal_path :: "string \<Rightarrow> bool" where
  "normal_path s \<longleftrightarrow> list_all (\<lambda>p. \<not> dotted p) (split_on slash s)"

lemma normal_path_nonempty: "normal_path s \<Longrightarrow> s \<noteq> []"
  by (auto simp: normal_path_def dotted_def)

lemma normal_path_parts:
  assumes "normal_path s"
  shows "\<not> is_absolute (pure_posix_path s)" and "path_parts (pure_posix_path s) = split_on slash s"
    and "as_posix (pure_posix_path s) = s" and "pp_tail (pure_posix_path s) = split_on slash s"
proof -
  have "hd (split_on slash s) \<noteq> []"
    using assms hd_in_set [OF split_on_nonempty, of slash s]
    by (auto simp: normal_path_def list_all_iff dotted_def)
  then have root: "path_root s = []"
    using hd_split_on [of s slash] path_root_relative by blast
  have tail: "filter (\<lambda>p. p \<noteq> [] \<and> p \<noteq> ''.'') (split_on slash s) = split_on slash s"
    using assms by (auto simp: normal_path_def list_all_iff dotted_def)
  show "\<not> is_absolute (pure_posix_path s)" and "path_parts (pure_posix_path s) = split_on slash s"
    and "as_posix (pure_posix_path s) = s" and "pp_tail (pure_posix_path s) = split_on slash s"
    using root tail
    by (simp_all add: is_absolute_def pure_posix_path_def path_parts_def as_posix_def join_split_on)
qed

lemma split_tail_no_slash: "p \<in> set (pp_tail (pure_posix_path s)) \<Longrightarrow> slash \<notin> set p"
  by (auto simp: pure_posix_path_def dest: split_on_no_sep)

lemma normal_path_iff:
  "normal_path s \<longleftrightarrow>
     \<not> is_absolute (pure_posix_path s) \<and> as_posix (pure_posix_path s) = s \<and>
     path_parts (pure_posix_path s) \<noteq> [] \<and> \<not> list_ex dotted (path_parts (pure_posix_path s))"
proof
  assume n: "normal_path s"
  then show "\<not> is_absolute (pure_posix_path s) \<and> as_posix (pure_posix_path s) = s \<and>
     path_parts (pure_posix_path s) \<noteq> [] \<and> \<not> list_ex dotted (path_parts (pure_posix_path s))"
    using normal_path_parts [OF n] by (auto simp: normal_path_def list_ex_iff list_all_iff)
next
  let ?p = "pure_posix_path s"
  assume a: "\<not> is_absolute ?p \<and> as_posix ?p = s \<and> path_parts ?p \<noteq> [] \<and> \<not> list_ex dotted (path_parts ?p)"
  then have parts: "path_parts ?p = pp_tail ?p" and root: "pp_root ?p = []"
    by (auto simp: is_absolute_def path_parts_def)
  with a have "join slash (pp_tail ?p) = s" by (auto simp: as_posix_def)
  moreover have "split_on slash (join slash (pp_tail ?p)) = pp_tail ?p"
    using a parts split_tail_no_slash by (intro split_on_join) auto
  ultimately have "split_on slash s = pp_tail ?p" by simp
  then show "normal_path s" using a parts by (auto simp: normal_path_def list_ex_iff list_all_iff)
qed

text \<open>A relative path without parts is the text \<open>.\<close> or not written normally.\<close>

lemma no_parts_iff:
  "\<not> is_absolute (pure_posix_path s) \<and> as_posix (pure_posix_path s) = s \<and>
     path_parts (pure_posix_path s) = [] \<longleftrightarrow> s = ''.''"
proof
  assume "\<not> is_absolute (pure_posix_path s) \<and> as_posix (pure_posix_path s) = s \<and>
    path_parts (pure_posix_path s) = []"
  then show "s = ''.''" by (auto simp: is_absolute_def path_parts_def as_posix_def)
next
  assume "s = ''.''"
  then show "\<not> is_absolute (pure_posix_path s) \<and> as_posix (pure_posix_path s) = s \<and>
    path_parts (pure_posix_path s) = []"
    by (simp add: is_absolute_def path_parts_def as_posix_def pure_posix_path_def path_root_def slash_def)
qed

lemma bundle_relative_path_Inr:
  "bundle_relative_path v f = Inr p \<longleftrightarrow>
     (\<exists>s. v = PStr s \<and> \<not> list_ex backslash_or_nul s \<and> normal_path s \<and> p = pure_posix_path s)"
  by (cases v) (auto simp: bundle_relative_path_def normal_path_iff Let_def)

lemma relative_or_dot:
  "s \<noteq> [] \<and> \<not> is_absolute (pure_posix_path s) \<and> as_posix (pure_posix_path s) = s \<and>
     \<not> list_ex dotted (path_parts (pure_posix_path s)) \<longleftrightarrow> normal_path s \<or> s = ''.''"
proof (cases "path_parts (pure_posix_path s) = []")
  case True
  then show ?thesis using no_parts_iff [of s] normal_path_iff [of s] by auto
next
  case False
  then show ?thesis using no_parts_iff [of s] normal_path_iff [of s] normal_path_nonempty [of s] by auto
qed

lemma runner_relative_path_Inr:
  "runner_relative_path v f = Inr t \<longleftrightarrow>
     v = PStr t \<and> \<not> list_ex backslash_or_nul t \<and> (normal_path t \<or> t = ''.'')"
  using relative_or_dot by (cases v) (auto simp: runner_relative_path_def Let_def)

lemma executor_relative_path_Inr:
  "executor_relative_path s = Inr p \<longleftrightarrow>
     \<not> list_ex backslash_or_nul s \<and> (normal_path s \<or> s = ''.'') \<and> p = pure_posix_path s"
  using relative_or_dot [of s] by (auto simp: executor_relative_path_def Let_def)

lemma bounded_relative_normal: "bounded_relative s \<Longrightarrow> normal_path s \<or> s = ''.''"
  using relative_or_dot [of s]
  by (auto simp: bounded_relative_def Let_def bounded_part_def list_ex_iff list_all_iff)

lemma safe_remote_relative_Inr:
  "safe_remote_relative s = Inr p \<longleftrightarrow> bounded_relative s \<and> p = pure_posix_path s"
  by (auto simp: safe_remote_relative_def)

lemma incremental_relative_path_bounded:
  "incremental_relative_path s = Inr p \<Longrightarrow> bounded_relative s \<and> p = pure_posix_path s"
  by (auto simp: incremental_relative_path_def split: if_splits)

text \<open>Where a relative path leads, component by component, with \<open>..\<close> as the file system has it.\<close>

fun walk :: "string list \<Rightarrow> string list \<Rightarrow> string list" where
  "walk dir [] = dir"
| "walk dir (p # ps) =
     walk (if p = [] \<or> p = ''.'' then dir else if p = ''..'' then butlast dir else dir @ [p]) ps"

lemma walk_plain: "list_all (\<lambda>p. \<not> dotted p) ps \<Longrightarrow> walk dir ps = dir @ ps"
  by (induction ps arbitrary: dir) (auto simp: dotted_def)

lemma walk_dot [simp]: "walk dir (split_on slash ''.'') = dir"
  by (simp add: slash_def)

lemma walk_accepted:
  assumes "normal_path s \<or> s = ''.''"
  shows "walk dir (split_on slash s) = dir @ path_parts (pure_posix_path s)"
  using assms no_parts_iff [of s] normal_path_parts(2) [of s] walk_plain
  by (auto simp: normal_path_def)

text \<open>
  C29: the validators of the controller's bundle, the runner's request, the executor's artifacts and the
  executor's remote listings confine: a path any of them accepts leads, from whatever directory it is
  joined to, into that directory and never above it, one component per part.
\<close>

theorem accepted_paths_stay_inside:
  assumes "bundle_relative_path (PStr s) field_name = Inr p \<or> runner_relative_path (PStr s) name = Inr s \<or>
    executor_relative_path s = Inr p \<or> incremental_relative_path s = Inr p \<or>
    safe_remote_relative s = Inr p"
  shows "walk dir (split_on slash s) = dir @ path_parts (pure_posix_path s)"
  using assms walk_accepted bounded_relative_normal
  by (auto simp: bundle_relative_path_Inr runner_relative_path_Inr executor_relative_path_Inr
    safe_remote_relative_Inr dest: incremental_relative_path_bounded)

theorem accepted_paths_stay_inside_witness:
  "walk [''srv''] (split_on slash ''a/b'') = [''srv'', ''a'', ''b'']"
proof -
  have "executor_relative_path ''a/b'' = Inr (pure_posix_path ''a/b'')"
    by code_simp
  moreover have "path_parts (pure_posix_path ''a/b'') = [''a'', ''b'']" by code_simp
  ultimately show ?thesis
    using accepted_paths_stay_inside [of "''a/b''" "[]" "pure_posix_path ''a/b''" "[]" "[''srv'']"] by simp
qed

text \<open>
  C30: the runner and the remote executor accept the same paths, and these are the ones the bundle accepts
  and, besides them, the path \<open>.\<close>, which names the directory itself.
\<close>

theorem relative_path_validators_agree:
  "(\<exists>t. runner_relative_path (PStr s) name = Inr t) = (\<exists>p. executor_relative_path s = Inr p) \<and>
   (\<exists>t. runner_relative_path (PStr s) name = Inr t) =
     ((\<exists>p. bundle_relative_path (PStr s) field_name = Inr p) \<or> s = ''.'')"
proof -
  have "\<not> list_ex backslash_or_nul ''.''" by (simp add: backslash_or_nul_def)
  then show ?thesis
    by (auto simp: bundle_relative_path_Inr runner_relative_path_Inr executor_relative_path_Inr)
qed

section \<open>What the globs accept and find\<close>

lemma fixed_glob_iff:
  "fixed_glob (pure_posix_path s) s \<longleftrightarrow>
     normal_path s \<and> CHR ''*'' \<notin> set (last (split_on slash s)) \<and>
     length (split_on slash s) \<le> 32 \<and> sum_list (map stars (split_on slash s)) \<le> 4"
proof (cases "normal_path s")
  case True
  then show ?thesis
    using normal_path_parts [OF True] by (simp add: fixed_glob_def path_name_def normal_path_def list_ex_iff list_all_iff)
next
  case False
  then show ?thesis unfolding fixed_glob_def normal_path_iff by blast
qed

definition glob_ok :: "string \<Rightarrow> bool" where
  "glob_ok s \<longleftrightarrow> s \<noteq> [] \<and> length s \<le> 512 \<and> \<not> double_star s \<and> \<not> list_ex glob_metachar s \<and>
     \<not> list_ex is_control s \<and> fixed_glob (pure_posix_path s) s"

lemma bundle_glob_Inr: "bundle_glob v = Inr s \<longleftrightarrow> v = PStr s \<and> glob_ok s"
  by (cases v) (auto simp: bundle_glob_def glob_ok_def)

lemma discovery_matcher_Inr:
  "discovery_matcher s = Inr r \<longleftrightarrow> glob_ok s \<and> r = parts_rx (split_on slash s)"
  using normal_path_parts(2) [of s] by (auto simp: discovery_matcher_def glob_ok_def fixed_glob_iff)

text \<open>
  The glob a bundle may declare is exactly one the transfer can discover with: the two validators, written
  apart, accept the same patterns.
\<close>

theorem bundle_globs_are_discoverable:
  "(\<exists>t. bundle_glob (PStr s) = Inr t) = (\<exists>r. discovery_matcher s = Inr r)"
  by (simp add: bundle_glob_Inr discovery_matcher_Inr)

lemma matches_glob_plain: "CHR ''*'' \<notin> set p \<Longrightarrow> matches (glob_rx p) t \<longleftrightarrow> t = p"
  by (induction p arbitrary: t) (auto simp: matches_char_Seq rchar_def)

lemma matches_slash_Seq: "matches (RSeq (rchar slash) r) t \<longleftrightarrow> (\<exists>u. t = slash # u \<and> matches r u)"
  by (auto simp: rchar_def matches_char_Seq)

lemma parts_rx_Cons:
  "ps \<noteq> [] \<Longrightarrow> matches (parts_rx (p # ps)) t \<longleftrightarrow>
     (\<exists>u v. t = u @ slash # v \<and> matches (glob_rx p) u \<and> matches (parts_rx ps) v)"
proof -
  assume "ps \<noteq> []"
  then have "parts_rx (p # ps) = RSeq (glob_rx p) (RSeq (rchar slash) (parts_rx ps))"
    by (cases ps) simp_all
  then show ?thesis
    by (simp only: matches_Seq [of "glob_rx p"] matches_slash_Seq) blast
qed

lemma parts_rx_append:
  assumes "list_all (\<lambda>p. CHR ''*'' \<notin> set p) ps" and "qs \<noteq> []"
  shows "matches (parts_rx (ps @ qs)) t \<longleftrightarrow>
    (if ps = [] then matches (parts_rx qs) t
     else \<exists>v. t = join slash ps @ slash # v \<and> matches (parts_rx qs) v)"
  using assms(1)
proof (induction ps arbitrary: t)
  case Nil
  then show ?case by simp
next
  case (Cons p ps)
  have "ps @ qs \<noteq> []" using assms(2) by simp
  then have step: "matches (parts_rx ((p # ps) @ qs)) t \<longleftrightarrow> (\<exists>v. t = p @ slash # v \<and> matches (parts_rx (ps @ qs)) v)"
    using Cons.prems by (simp add: parts_rx_Cons matches_glob_plain del: append_is_Nil_conv parts_rx.simps)
  show ?case
  proof (cases ps)
    case Nil
    then show ?thesis using step by simp
  next
    case (Cons q ps')
    then have "join slash (p # ps) = p @ slash # join slash ps" by simp
    then show ?thesis using step Cons.IH Cons.prems Cons by auto
  qed
qed

lemma join_append:
  "ps \<noteq> [] \<Longrightarrow> qs \<noteq> [] \<Longrightarrow> join c (ps @ qs) = join c ps @ c # join c qs"
  by (induction c ps rule: join.induct) (auto simp: neq_Nil_conv)

lemma double_star_suffix: "double_star t \<Longrightarrow> double_star (u @ t)"
proof (induction u)
  case (Cons c u)
  then show ?case by (cases "u @ t") auto
qed simp

lemma wildcard_index_less: "ps \<noteq> [] \<Longrightarrow> wildcard_index ps < length ps"
proof (cases "list_ex (\<lambda>p. CHR ''*'' \<in> set p) ps")
  case True
  then have "takeWhile (\<lambda>p. CHR ''*'' \<notin> set p) ps \<noteq> ps" by (auto simp: list_ex_iff takeWhile_eq_all_conv)
  then have "length (takeWhile (\<lambda>p. CHR ''*'' \<notin> set p) ps) < length ps"
    by (metis length_takeWhile_le le_neq_implies_less takeWhile_eq_take take_all_iff order_refl)
  then show ?thesis using True by (simp add: wildcard_index_def)
next
  case False
  moreover assume "ps \<noteq> []"
  ultimately show ?thesis by (simp add: wildcard_index_def)
qed

lemma wildcard_index_plain: "list_all (\<lambda>p. CHR ''*'' \<notin> set p) (take (wildcard_index ps) ps)"
proof (cases "list_ex (\<lambda>p. CHR ''*'' \<in> set p) ps")
  case True
  have "take (length (takeWhile Q ps)) ps = takeWhile Q ps" for Q :: "string \<Rightarrow> bool"
    by (metis takeWhile_eq_take)
  then show ?thesis using True
    by (auto simp: wildcard_index_def list_all_iff dest: set_takeWhileD)
next
  case False
  then show ?thesis by (auto simp: list_all_iff list_ex_iff dest: in_set_takeD)
qed

text \<open>A suffix of the parts of an accepted glob is an accepted glob.\<close>

lemma glob_ok_suffix:
  assumes "glob_ok s" and "split_on slash s = ps @ qs" and "qs \<noteq> []"
  shows "glob_ok (join slash qs)" and "split_on slash (join slash qs) = qs"
proof -
  have fixed: "normal_path s" "CHR ''*'' \<notin> set (last (ps @ qs))" "length (ps @ qs) \<le> 32"
    "sum_list (map stars (ps @ qs)) \<le> 4"
    using assms(1,2) by (auto simp: glob_ok_def fixed_glob_iff)
  show split: "split_on slash (join slash qs) = qs"
    using assms(2,3) split_on_no_sep [of _ slash s] by (intro split_on_join) auto
  have normal: "normal_path (join slash qs)"
    using fixed(1) assms(2) split by (simp add: normal_path_def)
  have s: "s = (if ps = [] then [] else join slash ps @ [slash]) @ join slash qs"
    using join_split_on [of slash s] assms(2,3) join_append [of ps qs slash] by auto
  have "fixed_glob (pure_posix_path (join slash qs)) (join slash qs)"
    using fixed normal split assms(3) by (simp add: fixed_glob_iff)
  moreover have "length (join slash qs) \<le> length s" and "set (join slash qs) \<subseteq> set s"
    by (subst s, simp)+
  moreover have "\<not> double_star (join slash qs)"
    using assms(1) double_star_suffix s unfolding glob_ok_def by metis
  ultimately show "glob_ok (join slash qs)"
    using assms(1) normal_path_nonempty [OF normal]
    by (auto simp: glob_ok_def list_ex_iff)
qed

text \<open>
  Splitting a discovery glob at its fixed prefix loses nothing and finds nothing else: the relative
  pattern is itself an accepted glob, and a path is found by the whole glob exactly when it is the fixed
  prefix, a slash and a path the relative pattern finds below it (or, without a prefix, when the relative
  pattern finds it).
\<close>

theorem discovery_split_is_exact:
  assumes "validate_discovery_pattern s = Inr d" and "discovery_matcher s = Inr r"
  shows "\<exists>r'. discovery_matcher (dp_relative_pattern d) = Inr r' \<and>
    (\<forall>path. fullmatch r path =
      (if dp_fixed_prefix d = [] then fullmatch r' path
       else \<exists>below. path = dp_fixed_prefix d @ slash # below \<and> fullmatch r' below))"
proof -
  let ?parts = "split_on slash s"
  let ?i = "wildcard_index ?parts"
  have ok: "glob_ok s" and r: "r = parts_rx ?parts" using assms(2) by (simp_all add: discovery_matcher_Inr)
  then have normal: "normal_path s" by (simp add: glob_ok_def fixed_glob_iff)
  have d: "d = \<lparr>dp_fixed_prefix = join slash (take ?i ?parts), dp_relative_pattern = join slash (drop ?i ?parts)\<rparr>"
    using assms normal_path_parts(2) [OF normal] by (auto simp: validate_discovery_pattern_def Let_def)
  have split: "?parts = take ?i ?parts @ drop ?i ?parts" by simp
  have rest: "drop ?i ?parts \<noteq> []" using wildcard_index_less [of ?parts] by simp
  have prefix: "join slash (take ?i ?parts) = [] \<longleftrightarrow> take ?i ?parts = []"
  proof -
    have "[] \<notin> set (take ?i ?parts)"
      using normal by (auto simp: normal_path_def list_all_iff dotted_def dest: in_set_takeD)
    then show ?thesis by (cases "take ?i ?parts"; cases "tl (take ?i ?parts)") auto
  qed
  note suffix = glob_ok_suffix [OF ok split rest]
  have "discovery_matcher (dp_relative_pattern d) = Inr (parts_rx (drop ?i ?parts))"
    using suffix by (simp add: d discovery_matcher_Inr)
  moreover have "fullmatch r path =
      (if dp_fixed_prefix d = [] then fullmatch (parts_rx (drop ?i ?parts)) path
       else \<exists>below. path = dp_fixed_prefix d @ slash # below \<and> fullmatch (parts_rx (drop ?i ?parts)) below)"
    for path
  proof -
    have "matches (parts_rx ?parts) path \<longleftrightarrow>
      (if take ?i ?parts = [] then matches (parts_rx (drop ?i ?parts)) path
       else \<exists>v. path = join slash (take ?i ?parts) @ slash # v \<and> matches (parts_rx (drop ?i ?parts)) v)"
      using parts_rx_append [OF wildcard_index_plain [of ?parts] rest, of path]
      by (simp only: append_take_drop_id)
    then show ?thesis using prefix by (simp only: fullmatch_iff d r discovery_pattern.simps)
  qed
  ultimately show ?thesis by blast
qed

theorem discovery_split_is_exact_witness:
  "\<exists>d r. validate_discovery_pattern ''ckpt/*/manifest.json'' = Inr d \<and>
     discovery_matcher ''ckpt/*/manifest.json'' = Inr r \<and> dp_fixed_prefix d = ''ckpt'' \<and>
     fullmatch r ''ckpt/7/manifest.json'' \<and>
     (\<exists>r'. discovery_matcher (dp_relative_pattern d) = Inr r' \<and> fullmatch r' ''7/manifest.json'')"
proof -
  let ?d = "\<lparr>dp_fixed_prefix = ''ckpt'', dp_relative_pattern = ''*/manifest.json''\<rparr>"
  have v: "validate_discovery_pattern ''ckpt/*/manifest.json'' = Inr ?d" by code_simp
  have "(\<exists>r. discovery_matcher ''ckpt/*/manifest.json'' = Inr r)"
    using v by (auto simp: validate_discovery_pattern_def)
  then obtain r where r: "discovery_matcher ''ckpt/*/manifest.json'' = Inr r" by blast
  from discovery_split_is_exact [OF v r] obtain r' where
    r': "discovery_matcher ''*/manifest.json'' = Inr r'" and
    all: "\<forall>path. fullmatch r path =
      (if dp_fixed_prefix ?d = [] then fullmatch r' path
       else \<exists>below. path = dp_fixed_prefix ?d @ slash # below \<and> fullmatch r' below)"
    by (simp only: discovery_pattern.simps) blast
  have "r' = parts_rx (split_on slash ''*/manifest.json'')"
    using r' by (simp only: discovery_matcher_Inr)
  moreover have "fullmatch (parts_rx (split_on slash ''*/manifest.json'')) ''7/manifest.json''"
    by code_simp
  ultimately have below: "fullmatch r' ''7/manifest.json''" by simp
  have "\<exists>below. ''ckpt/7/manifest.json'' = ''ckpt'' @ slash # below \<and> fullmatch r' below"
    using below by (intro exI [of _ "''7/manifest.json''"]) (simp add: slash_def)
  then have "fullmatch r ''ckpt/7/manifest.json''"
    using all by (simp only: discovery_pattern.simps) simp
  then show ?thesis using v r r' below by (intro exI [of _ ?d] exI [of _ r]) simp
qed

end
