(* ===== verification/Identity.thy ===== *)
theory Identity
  imports PyValue
begin

text \<open>
  \<open>identity.py\<close> and its three users: the runner's build receipt, the protocol majors both sides declare,
  and the checks of a peer's identity in \<open>runner.py\<close>, \<open>remote_executor.py\<close> and \<open>application.py\<close>.
\<close>

section \<open>Versions and commits\<close>

definition numeric_rx :: rx where
  "numeric_rx = RAlt (rchar CHR ''0'')
     (RSeq (RChar (\<lambda>c. is_digit c \<and> c \<noteq> CHR ''0'')) (RStar (RChar is_digit)))"

definition identifiers_rx :: "char \<Rightarrow> rx" where
  "identifiers_rx c =
     (let part = rplus (RChar (\<lambda>x. is_alnum x \<or> x = CHR ''-''))
      in RSeq (rchar c) (RSeq part (RStar (RSeq (rchar CHR ''.'') part))))"

definition semantic_version_rx :: rx where
  "semantic_version_rx =
     RSeq numeric_rx (RSeq (rchar CHR ''.'') (RSeq numeric_rx (RSeq (rchar CHR ''.'') (RSeq numeric_rx
       (RSeq (ropt (identifiers_rx CHR ''-'')) (ropt (identifiers_rx CHR ''+'')))))))"

definition validate_runner_version :: "pyval \<Rightarrow> exn + string" where
  "validate_runner_version v =
     (case as_str v of
        Some s \<Rightarrow> if fullmatch semantic_version_rx s then Inr s
                  else Inl (RunnerIdentityError ''runner identity needs an exact semantic version'')
      | None \<Rightarrow> Inl (RunnerIdentityError ''runner identity needs an exact semantic version''))"

definition git_commit :: "string \<Rightarrow> bool" where
  "git_commit s \<longleftrightarrow> list_all is_hex s \<and> (length s = 40 \<or> length s = 64)"

definition validate_git_commit :: "pyval \<Rightarrow> exn + string" where
  "validate_git_commit v =
     (case as_str v of
        Some s \<Rightarrow>
          if \<not> git_commit s then Inl (RunnerIdentityError ''runner identity needs an exact Git commit'')
          else if list_all (\<lambda>c. c = CHR ''0'') s
          then Inl (RunnerIdentityError ''runner identity Git commit must not be all zero'')
          else Inr s
      | None \<Rightarrow> Inl (RunnerIdentityError ''runner identity needs an exact Git commit''))"

section \<open>Protocol majors\<close>

type_synonym majors = "int list dict"

definition required_protocols :: "string list" where
  "required_protocols =
     [''artifact-manifest'', ''launch-authorization'', ''run-event'', ''run-request'', ''run-status'']"

text \<open>One entry of \<open>_protocol_majors\<close>; a boolean is not an integer here.\<close>

definition positive_int :: "pyval \<Rightarrow> bool" where
  "positive_int v \<longleftrightarrow> (case as_int v of None \<Rightarrow> False | Some i \<Rightarrow> 0 < i)"

definition int_of_val :: "pyval \<Rightarrow> int" where
  "int_of_val v = (case as_int v of None \<Rightarrow> 0 | Some i \<Rightarrow> i)"

definition parse_majors_entry :: "string \<times> pyval \<Rightarrow> exn + string \<times> int list" where
  "parse_majors_entry e =
     (let (protocol, versions) = e in
      if protocol = []
      then Inl (RunnerIdentityError ''supported protocol major names must be non-empty strings'')
      else (case as_list versions of
              None \<Rightarrow> Inl (RunnerIdentityError (''supported protocol majors for '' @ protocol @ '' must be an array''))
            | Some items \<Rightarrow>
                if items = []
                then Inl (RunnerIdentityError (''supported protocol majors for '' @ protocol @ '' must be an array''))
                else if \<not> list_all positive_int items
                then Inl (RunnerIdentityError (''supported protocol majors for '' @ protocol @ '' must be positive integers''))
                else let normalized = map int_of_val items
                  in if \<not> distinct normalized \<or> sort normalized \<noteq> normalized
                     then Inl (RunnerIdentityError
                            (''supported protocol majors for '' @ protocol @ '' must be sorted and unique''))
                     else Inr (protocol, normalized)))"

fun require_protocols :: "string list \<Rightarrow> majors \<Rightarrow> exn + majors" where
  "require_protocols [] m = Inr m"
| "require_protocols (p # ps) m =
     (if dget m p = None
      then Inl (RunnerIdentityError (''supported protocol majors must include '' @ p))
      else require_protocols ps m)"

definition protocol_majors :: "pyval \<Rightarrow> exn + majors" where
  "protocol_majors v =
     (case as_dict v of
        None \<Rightarrow> Inl (RunnerIdentityError ''supported protocol majors must be an object'')
      | Some d \<Rightarrow> bindR (mapR parse_majors_entry d) (require_protocols required_protocols))"

definition supports :: "majors \<Rightarrow> string \<Rightarrow> bool" where
  "supports m p \<longleftrightarrow> (case dget m p of None \<Rightarrow> False | Some is \<Rightarrow> 1 \<in> set is)"

definition majors_value :: "majors \<Rightarrow> pyval" where
  "majors_value m = PDict (map (\<lambda>(p, is). (p, PList (map PInt is))) m)"

definition current_majors :: majors where
  "current_majors = map (\<lambda>p. (p, [1]))
     [''artifact-manifest'', ''incremental-mirror-ack'', ''launch-authorization'', ''run-event'',
      ''run-request'', ''run-status'']"

definition supported_protocol_majors :: pyval where
  "supported_protocol_majors = majors_value current_majors"

section \<open>The runner's identity\<close>

record runner_identity =
  ri_version :: string
  ri_git_commit :: string
  ri_majors :: majors

definition as_protocol_fields :: "runner_identity \<Rightarrow> pydict" where
  "as_protocol_fields i =
     [(''runner_version'', PStr (ri_version i)), (''runner_git_commit'', PStr (ri_git_commit i)),
      (''supported_protocol_majors'', majors_value (ri_majors i))]"

definition package_version :: string where
  "package_version = ''0.1.12''"

definition local_source_identity :: runner_identity where
  "local_source_identity =
     \<lparr>ri_version = package_version, ri_git_commit = replicate 40 CHR ''0'', ri_majors = current_majors\<rparr>"

text \<open>
  A JSON file as its reader's \<open>object_pairs_hook\<close> sees it: objects are pairs in order, duplicates
  included, or the file cannot be read as JSON.
\<close>

datatype json_file = NoJson | JsonValue pyval

fun duplicate_keys :: "pyval \<Rightarrow> bool" where
  "duplicate_keys (PDict d) = (\<not> wf_dict d \<or> list_ex (\<lambda>e. duplicate_keys (snd e)) d)"
| "duplicate_keys (PList vs) = list_ex duplicate_keys vs"
| "duplicate_keys _ = False"

definition parse_receipt :: "json_file \<Rightarrow> exn + runner_identity" where
  "parse_receipt f =
     (case f of
        NoJson \<Rightarrow> Inl (RunnerIdentityError ''runner release receipt is unavailable'')
      | JsonValue v \<Rightarrow>
          if duplicate_keys v then Inl (RunnerIdentityError ''runner release receipt has duplicate key'')
          else (case as_dict v of
             None \<Rightarrow> Inl (RunnerIdentityError ''runner release receipt must be an object'')
           | Some receipt \<Rightarrow>
               if \<not> pyeq (get receipt ''protocol'') (PStr ''runner-release/1'')
               then Inl (RunnerIdentityError ''runner release receipt protocol is unsupported'')
               else bindR (validate_runner_version (get receipt ''runner_version'')) (\<lambda>version.
                 if version \<noteq> package_version
                 then Inl (RunnerIdentityError ''runner release receipt version differs from installed package'')
                 else bindR (validate_git_commit (get receipt ''runner_git_commit'')) (\<lambda>commit.
                   bindR (protocol_majors (get receipt ''supported_protocol_majors'')) (\<lambda>m.
                     Inr \<lparr>ri_version = version, ri_git_commit = commit, ri_majors = m\<rparr>)))))"

text \<open>
  \<open>path\<close> is the argument, \<open>env\<close> the variable \<open>RUNPOD_JOBRUNNER_RELEASE_PATH\<close>, \<open>published\<close> whether the
  published receipt exists or the interpreter lives below the published root.
\<close>

definition load_runner_identity ::
  "string option \<Rightarrow> string option \<Rightarrow> bool \<Rightarrow> (string \<Rightarrow> json_file) \<Rightarrow> exn + runner_identity" where
  "load_runner_identity path env published files =
     (case (case path of None \<Rightarrow> env | Some p \<Rightarrow> Some p) of
        Some p \<Rightarrow> parse_receipt (files p)
      | None \<Rightarrow> if published then parse_receipt (files ''/opt/runpod-jobrunner/release.json'')
                else Inr local_source_identity)"

section \<open>Checking a peer\<close>

text \<open>\<open>runner.py\<close>, \<open>_identity_failure\<close>, of a validated request.\<close>

definition identity_failure :: "pydict \<Rightarrow> runner_identity \<Rightarrow> exn + string option" where
  "identity_failure request i =
     (if \<not> pyeq (get request ''runner_version'') (PStr (ri_version i))
      then Inr (Some ''runner_version_mismatch'')
      else if \<not> pyeq (get request ''runner_git_commit'') (PStr (ri_git_commit i))
      then Inr (Some ''runner_git_commit_mismatch'')
      else bindR (protocol_majors (get request ''supported_protocol_majors'')) (\<lambda>requested.
        Inr (if list_ex (\<lambda>p. \<not> supports requested p \<or> \<not> supports (ri_majors i) p) required_protocols
             then Some ''unsupported_protocol_major''
             else if get request ''incremental_mirror_ack'' \<noteq> PNone \<and>
               (\<not> supports requested ''incremental-mirror-ack'' \<or>
                \<not> supports (ri_majors i) ''incremental-mirror-ack'')
             then Some ''unsupported_protocol_major'' else None)))"

text \<open>\<open>remote_executor.py\<close>, \<open>_remote_identity_error\<close>.\<close>

definition remote_identity_error :: "pydict \<Rightarrow> pydict \<Rightarrow> string option" where
  "remote_identity_error status request =
     (if \<not> pyeq (get status ''runner_version'') (get request ''runner_version'') then Some ''version''
      else if \<not> pyeq (get status ''runner_git_commit'') (get request ''runner_git_commit'')
      then Some ''Git commit''
      else (case bindR (protocol_majors (get status ''supported_protocol_majors'')) (\<lambda>runner.
              bindR (protocol_majors (get request ''supported_protocol_majors'')) (\<lambda>controller.
                Inr (runner, controller))) of
         Inl _ \<Rightarrow> Some ''protocol capability receipt''
       | Inr (runner, controller) \<Rightarrow>
           (case List.find (\<lambda>p. \<not> supports runner p \<or> \<not> supports controller p) required_protocols of
              Some p \<Rightarrow> Some (''unsupported '' @ p @ '' major'')
            | None \<Rightarrow>
                if get request ''incremental_mirror_ack'' \<noteq> PNone \<and>
                  (\<not> supports runner ''incremental-mirror-ack'' \<or>
                   \<not> supports controller ''incremental-mirror-ack'')
                then Some ''unsupported incremental-mirror-ack major'' else None)))"

text \<open>\<open>application.py\<close>, \<open>_local_ready_identity_error\<close>.\<close>

definition local_ready_identity_error :: "pydict \<Rightarrow> pydict \<Rightarrow> string option" where
  "local_ready_identity_error status request =
     (if \<not> pyeq (get status ''protocol'') (PStr ''run-status/1'') \<or>
         \<not> pyeq (get status ''run_id'') (get request ''run_id'')
      then Some ''status protocol or run id differs from the request''
      else if \<not> pyeq (get status ''runner_version'') (get request ''runner_version'')
      then Some ''runner version differs from the request''
      else if \<not> pyeq (get status ''runner_git_commit'') (get request ''runner_git_commit'')
      then Some ''runner Git commit differs from the request''
      else (case bindR (protocol_majors (get status ''supported_protocol_majors'')) (\<lambda>runner.
              bindR (protocol_majors (get request ''supported_protocol_majors'')) (\<lambda>controller.
                Inr (runner, controller))) of
         Inl e \<Rightarrow> Some (exn_text e)
       | Inr (runner, controller) \<Rightarrow>
           map_option (\<lambda>p. ''protocol major differs for '' @ p)
             (List.find (\<lambda>p. \<not> supports runner p \<or> \<not> supports controller p) required_protocols)))"

section \<open>What the checks guarantee\<close>

definition majors_entry_ok :: "string \<times> int list \<Rightarrow> bool" where
  "majors_entry_ok e \<longleftrightarrow> fst e \<noteq> [] \<and> snd e \<noteq> [] \<and> list_all (\<lambda>i. 0 < i) (snd e) \<and>
     distinct (snd e) \<and> sorted (snd e)"

lemma positive_ints: "list_all positive_int vs \<longleftrightarrow> (\<exists>is. vs = map PInt is \<and> list_all (\<lambda>i. 0 < i) is)"
proof (induction vs)
  case (Cons v vs)
  then show ?case by (cases v) (auto simp: positive_int_def Cons_eq_map_conv)
qed simp

lemma int_of_val_PInt [simp]: "map int_of_val (map PInt is) = is"
  by (induction "is") (auto simp: int_of_val_def)

lemma sort_id: "sort is = is \<longleftrightarrow> sorted (is :: int list)"
  by (metis sorted_sort sort_key_id_if_sorted map_ident)

lemma parse_majors_entry_Inr:
  "parse_majors_entry e = Inr (p, is) \<longleftrightarrow> e = (p, PList (map PInt is)) \<and> majors_entry_ok (p, is)"
proof (cases e)
  case (Pair q v)
  show ?thesis
  proof (cases "\<exists>is'. v = PList (map PInt is') \<and> list_all (\<lambda>i. 0 < i) is'")
    case True
    then obtain js where js: "v = PList (map PInt js)" "list_all (\<lambda>i. 0 < i) js" by blast
    then have "list_all positive_int (map PInt js)" by (auto simp: positive_ints)
    then show ?thesis using js Pair
      by (auto simp: parse_majors_entry_def majors_entry_ok_def sort_id Let_def inj_map_eq_map inj_def simp del: map_map)
  next
    case False
    then have "as_list v = Some items \<Longrightarrow> \<not> list_all positive_int items" for items
      by (auto simp: positive_ints)
    then show ?thesis using False Pair
      by (auto simp: parse_majors_entry_def majors_entry_ok_def Let_def split: option.splits if_splits)
  qed
qed

lemma require_protocols_Inr:
  "require_protocols ps m = Inr m' \<longleftrightarrow> m' = m \<and> (\<forall>p \<in> set ps. dget m p \<noteq> None)"
  by (induction ps) auto

lemma mapR_parse_majors:
  "mapR parse_majors_entry d = Inr m \<longleftrightarrow>
     d = map (\<lambda>(p, is). (p, PList (map PInt is))) m \<and> list_all majors_entry_ok m"
proof (induction d arbitrary: m)
  case Nil
  then show ?case by auto
next
  case (Cons e d)
  have "mapR parse_majors_entry (e # d) = Inr m \<longleftrightarrow>
    (\<exists>q m'. m = q # m' \<and> parse_majors_entry e = Inr q \<and> mapR parse_majors_entry d = Inr m')"
    by auto
  also have "\<dots> \<longleftrightarrow> (\<exists>p is m'. m = (p, is) # m' \<and> e = (p, PList (map PInt is)) \<and> majors_entry_ok (p, is) \<and>
      d = map (\<lambda>(p, is). (p, PList (map PInt is))) m' \<and> list_all majors_entry_ok m')"
    by (simp add: Cons.IH parse_majors_entry_Inr)
  also have "\<dots> \<longleftrightarrow> e # d = map (\<lambda>(p, is). (p, PList (map PInt is))) m \<and> list_all majors_entry_ok m"
    by (cases m) auto
  finally show ?case .
qed

lemma protocol_majors_Inr:
  "protocol_majors v = Inr m \<longleftrightarrow>
     v = majors_value m \<and> list_all majors_entry_ok m \<and> (\<forall>p \<in> set required_protocols. dget m p \<noteq> None)"
proof (cases v)
  case (PDict d)
  then show ?thesis
    by (auto simp: protocol_majors_def majors_value_def mapR_parse_majors require_protocols_Inr)
qed (auto simp: protocol_majors_def majors_value_def)

lemma current_majors_ok: "protocol_majors (majors_value current_majors) = Inr current_majors"
  by (simp add: protocol_majors_Inr current_majors_def required_protocols_def majors_entry_ok_def)

lemma loaded_majors:
  "load_runner_identity path env published files = Inr i \<Longrightarrow>
     protocol_majors (majors_value (ri_majors i)) = Inr (ri_majors i)"
  using current_majors_ok
  by (auto simp: load_runner_identity_def parse_receipt_def local_source_identity_def protocol_majors_Inr
    split: option.splits if_splits json_file.splits)

lemma find_None_iff_ex: "List.find P xs = None \<longleftrightarrow> \<not> list_ex P xs"
  by (auto simp: find_None_iff list_ex_iff)

lemma case_option_None:
  "(case x of None \<Rightarrow> y | Some a \<Rightarrow> Some (f a)) = None \<longleftrightarrow> x = None \<and> y = None"
  by (cases x) auto

text \<open>What a runner publishes of itself, as \<open>_publish_status\<close> has it.\<close>

definition published_identity :: "string \<Rightarrow> runner_identity \<Rightarrow> pydict" where
  "published_identity run_id i =
     [(''protocol'', PStr ''run-status/1''), (''run_id'', PStr run_id)] @ as_protocol_fields i"

lemma published_identity_get [simp]:
  "get (published_identity run_id i) ''protocol'' = PStr ''run-status/1''"
  "get (published_identity run_id i) ''run_id'' = PStr run_id"
  "get (published_identity run_id i) ''runner_version'' = PStr (ri_version i)"
  "get (published_identity run_id i) ''runner_git_commit'' = PStr (ri_git_commit i)"
  "get (published_identity run_id i) ''supported_protocol_majors'' = majors_value (ri_majors i)"
  by (simp_all add: published_identity_def as_protocol_fields_def)

lemma list_ex_or_commute: "list_ex (\<lambda>x. P x \<or> Q x) xs = list_ex (\<lambda>x. Q x \<or> P x) xs"
  by (simp add: disj_commute)

text \<open>
  C31: the three identity checks agree.  For a request with string versions and readable majors, and a runner
  whose identity was loaded from its receipt, the runner finds no identity failure exactly when the controller
  accepts the identity that runner publishes; and the local executor's check, which does not know the
  acknowledgement protocol, accepts it too whenever the runner does, and only then if the request asks for no
  acknowledgements.
\<close>

theorem identity_checks_agree:
  assumes "load_runner_identity path env published files = Inr i"
    and "get request ''runner_version'' = PStr version" and "get request ''runner_git_commit'' = PStr commit"
    and "protocol_majors (get request ''supported_protocol_majors'') = Inr m"
    and "get request ''run_id'' = PStr run_id"
  shows "(identity_failure request i = Inr None) =
      (remote_identity_error (published_identity run_id i) request = None) \<and>
    (identity_failure request i = Inr None \<longrightarrow>
      local_ready_identity_error (published_identity run_id i) request = None) \<and>
    (local_ready_identity_error (published_identity run_id i) request = None \<and>
      get request ''incremental_mirror_ack'' = PNone \<longrightarrow> identity_failure request i = Inr None)"
proof -
  have majors: "protocol_majors (majors_value (ri_majors i)) = Inr (ri_majors i)"
    using loaded_majors [OF assms(1)] .
  let ?same = "version = ri_version i \<and> commit = ri_git_commit i"
  let ?required = "list_ex (\<lambda>p. \<not> supports (ri_majors i) p \<or> \<not> supports m p) required_protocols"
  let ?ack = "get request ''incremental_mirror_ack'' \<noteq> PNone \<and>
    (\<not> supports (ri_majors i) ''incremental-mirror-ack'' \<or> \<not> supports m ''incremental-mirror-ack'')"
  have "identity_failure request i = Inr None \<longleftrightarrow> ?same \<and> \<not> ?required \<and> \<not> ?ack"
    using list_ex_or_commute [of "\<lambda>p. \<not> supports m p" "\<lambda>p. \<not> supports (ri_majors i) p"]
    by (simp add: identity_failure_def assms(2-5)) blast
  moreover have "remote_identity_error (published_identity run_id i) request = None \<longleftrightarrow>
    ?same \<and> \<not> ?required \<and> \<not> ?ack"
    by (simp add: remote_identity_error_def assms(2-5) majors case_option_None find_None_iff_ex)
  moreover have "local_ready_identity_error (published_identity run_id i) request = None \<longleftrightarrow>
    ?same \<and> \<not> ?required"
    by (simp add: local_ready_identity_error_def assms(2-5) majors find_None_iff_ex)
  ultimately show ?thesis by blast
qed

theorem identity_checks_agree_witness:
  "identity_failure (as_protocol_fields local_source_identity @ [(''run_id'', PStr ''r'')])
       local_source_identity = Inr None \<and>
   local_ready_identity_error (published_identity ''r'' local_source_identity)
     (as_protocol_fields local_source_identity @ [(''run_id'', PStr ''r'')]) = None"
proof -
  let ?r = "as_protocol_fields local_source_identity @ [(''run_id'', PStr ''r'')]"
  have "identity_failure ?r local_source_identity = Inr None" by code_simp
  moreover have "load_runner_identity None None False (\<lambda>_. NoJson) = Inr local_source_identity"
    by (simp add: load_runner_identity_def)
  moreover have "protocol_majors (get ?r ''supported_protocol_majors'') = Inr current_majors"
    using current_majors_ok by (simp add: as_protocol_fields_def local_source_identity_def)
  ultimately show ?thesis
    using identity_checks_agree [of None None False "\<lambda>_. NoJson" local_source_identity ?r
        package_version "replicate 40 CHR ''0''" current_majors "''r''"]
    by (simp add: as_protocol_fields_def local_source_identity_def)
qed

text \<open>
  The protocol majors survive the exchange: what a parsed declaration is published as parses back to it,
  it names every required protocol, and every protocol's majors are positive, sorted and without duplicates.
\<close>

theorem majors_roundtrip:
  assumes "protocol_majors v = Inr m"
  shows "protocol_majors (majors_value m) = Inr m \<and> (\<forall>p \<in> set required_protocols. dget m p \<noteq> None) \<and>
    (\<forall>(p, is) \<in> set m. p \<noteq> [] \<and> is \<noteq> [] \<and> (\<forall>n \<in> set is. 0 < n) \<and> distinct is \<and> sorted is)"
  using assms by (auto simp: protocol_majors_Inr list_all_iff majors_entry_ok_def)

theorem majors_roundtrip_witness:
  "protocol_majors (majors_value current_majors) = Inr current_majors \<and>
   dget current_majors ''run-event'' \<noteq> None"
  using majors_roundtrip [OF current_majors_ok] by (simp add: required_protocols_def)

end
