(* ===== verification/LaunchAuth.thy ===== *)
theory LaunchAuth
  imports PyValue
begin

text \<open>
  \<open>launch_authorization.py\<close>: the run's launch token, its public contract in the request and the reader of
  its file.  \<open>sha\<close> is \<open>hashlib.sha256(...).hexdigest()\<close> of an ASCII text; \<open>fresh\<close> is what
  \<open>secrets.token_hex(32)\<close> draws.
\<close>

section \<open>Numbers as floats\<close>

text \<open>\<open>float(v)\<close> of an \<open>int\<close> overflows from half an ulp above the largest double on.\<close>

definition float_overflow :: int where
  "float_overflow = 2 ^ 1024 - 2 ^ 970"

definition to_float :: "pyval \<Rightarrow> exn + pyfloat option" where
  "to_float v =
     (case as_int v of
        Some i \<Rightarrow> if float_overflow \<le> \<bar>i\<bar> then Inl (OverflowError ''int too large to convert to float'')
                  else Inr (Some (Fin (of_int i)))
      | None \<Rightarrow> Inr (as_number v))"

section \<open>The public contract\<close>

definition launch_protocol :: string where
  "launch_protocol = ''launch-authorization/1''"

definition launch_relative_path :: string where
  "launch_relative_path = ''control/launch-authorization.token''"

record launch_authorization =
  la_relative_path :: string
  la_sha256 :: string
  la_size :: int
  la_timeout_seconds :: pyfloat

definition parse_launch_authorization :: "pyval \<Rightarrow> exn + launch_authorization" where
  "parse_launch_authorization v =
     (case as_dict v of
        None \<Rightarrow> Inl (LaunchAuthorizationError ''launch_authorization must be an object'')
      | Some d \<Rightarrow>
          if \<not> pyeq (get d ''protocol'') (PStr launch_protocol)
          then Inl (LaunchAuthorizationError ''launch authorization protocol is unsupported'')
          else if as_str (get d ''path'') \<noteq> Some launch_relative_path
          then Inl (LaunchAuthorizationError ''launch authorization path is unsupported'')
          else (case as_str (get d ''sha256'') of
             None \<Rightarrow> Inl (LaunchAuthorizationError ''launch authorization sha256 is invalid'')
           | Some expected \<Rightarrow>
               if \<not> is_sha256 expected
               then Inl (LaunchAuthorizationError ''launch authorization sha256 is invalid'')
               else (case as_int (get d ''size'') of
                  None \<Rightarrow> Inl (LaunchAuthorizationError ''launch authorization size is invalid'')
                | Some n \<Rightarrow>
                    if \<not> (1 \<le> n \<and> n \<le> 4096)
                    then Inl (LaunchAuthorizationError ''launch authorization size is invalid'')
                    else bindR (to_float (get d ''timeout_seconds'')) (\<lambda>timeout.
                      case timeout of
                        None \<Rightarrow> Inl (LaunchAuthorizationError ''launch authorization timeout is invalid'')
                      | Some t \<Rightarrow>
                          if flt (Fin 0) t \<and> fle t (Fin 3600)
                          then Inr \<lparr>la_relative_path = launch_relative_path, la_sha256 = expected,
                                    la_size = n, la_timeout_seconds = t\<rparr>
                          else Inl (LaunchAuthorizationError ''launch authorization timeout is invalid'')))))"

section \<open>The token and its file\<close>

record launch_token =
  lt_path :: "string list"
  lt_token :: string

definition token_size :: "launch_token \<Rightarrow> int" where
  "token_size t = int (length (lt_token t)) + 1"

definition request_fields :: "(string \<Rightarrow> string) \<Rightarrow> launch_token \<Rightarrow> pyval \<Rightarrow> rat \<Rightarrow> exn + pydict" where
  "request_fields sha t timeout_seconds seconds =
     (if seconds \<le> 0
      then Inl (LaunchAuthorizationError ''launch authorization timeout must be positive'')
      else Inr [(''protocol'', PStr launch_protocol), (''path'', PStr launch_relative_path),
                (''sha256'', PStr (sha (lt_token t))), (''size'', PInt (token_size t)),
                (''timeout_seconds'', timeout_seconds)])"

text \<open>
  The token's path: nothing there, something that does not open without following links, something that
  opens and is not a regular file, or a regular file with its bytes.
\<close>

datatype token_file = NoFile | Unopenable | Special | RegularFile string

definition is_ascii :: "char \<Rightarrow> bool" where
  "is_ascii c \<longleftrightarrow> (of_char c :: nat) < 128"

definition newline :: char where
  "newline = CHR 0x0A"

definition read_token :: "token_file \<Rightarrow> exn + string" where
  "read_token f =
     (case f of
        RegularFile data \<Rightarrow>
          if 4096 < length data
          then Inl (LaunchAuthorizationError ''launch authorization token is not a small regular file'')
          else if \<not> list_all is_ascii data
          then Inl (LaunchAuthorizationError ''launch authorization token is not ASCII'')
          else if data = [] \<or> last data \<noteq> newline \<or> count_list data newline \<noteq> 1
          then Inl (LaunchAuthorizationError ''launch authorization token has invalid framing'')
          else if \<not> is_sha256 (butlast data)
          then Inl (LaunchAuthorizationError ''launch authorization token has invalid syntax'')
          else Inr (butlast data)
      | Special \<Rightarrow> Inl (LaunchAuthorizationError ''launch authorization token is not a small regular file'')
      | _ \<Rightarrow> Inl (LaunchAuthorizationError ''launch authorization token is unavailable''))"

definition ensure_launch_token ::
  "bool \<Rightarrow> string list \<Rightarrow> string \<Rightarrow> token_file \<Rightarrow> (exn + launch_token) \<times> token_file" where
  "ensure_launch_token safe_directory forbidden fresh f =
     (if \<not> safe_directory
      then (Inl (LaunchAuthorizationError ''launch authorization secret directory is unsafe''), f)
      else
        let f' = (if f = NoFile then RegularFile (fresh @ [newline]) else f);
            token = (if f = NoFile then Inr fresh else read_token f)
        in (bindR token (\<lambda>t.
              if t \<in> set forbidden
              then Inl (LaunchAuthorizationError ''launch authorization token is not independent'')
              else Inr \<lparr>lt_path = [''secrets'', ''launch-authorization.token''], lt_token = t\<rparr>), f'))"

section \<open>What the token guarantees\<close>

lemma hex_char: "is_hex c \<Longrightarrow> is_ascii c \<and> c \<noteq> newline"
  by (auto simp: is_hex_def is_digit_def is_ascii_def newline_def less_eq_char_def)

lemma sha256_text: "is_sha256 t \<Longrightarrow> list_all is_ascii t \<and> newline \<notin> set t \<and> length t = 64"
  using hex_char by (auto simp: is_sha256_def list_all_iff)

lemma read_token_written: "is_sha256 t \<Longrightarrow> read_token (RegularFile (t @ [newline])) = Inr t"
  using sha256_text [of t] by (auto simp: read_token_def is_ascii_def newline_def count_list_0_iff)

lemma read_token_Inr:
  "read_token f = Inr t \<Longrightarrow> f = RegularFile (t @ [newline]) \<and> is_sha256 t"
  using append_butlast_last_id by (cases f) (force simp: read_token_def split: if_splits)+

text \<open>
  A launch token is created once and read back unchanged.  Whatever state the token's path was in, when
  \<open>ensure_launch_token\<close> returns a token it is a 64-digit hex text, it is none of the forbidden ones, the
  strict reader the remote runner uses returns it, and every later call returns the same token and leaves the
  file alone, whatever is drawn then.
\<close>

theorem launch_token_stable:
  assumes "ensure_launch_token safe forbidden fresh f = (Inr t, f')" and "is_sha256 fresh"
  shows "is_sha256 (lt_token t) \<and> lt_token t \<notin> set forbidden \<and> read_token f' = Inr (lt_token t) \<and>
    ensure_launch_token safe forbidden fresh' f' = (Inr t, f')"
  using assms read_token_written
  by (auto simp: ensure_launch_token_def Let_def split: if_splits dest!: read_token_Inr)

theorem launch_token_stable_witness:
  "fst (ensure_launch_token True [''x''] (replicate 64 CHR ''b'') (RegularFile (replicate 64 CHR ''a'' @ [newline]))) =
     Inr \<lparr>lt_path = [''secrets'', ''launch-authorization.token''], lt_token = replicate 64 CHR ''a''\<rparr>"
proof -
  let ?t = "\<lparr>lt_path = [''secrets'', ''launch-authorization.token''], lt_token = replicate 64 CHR ''a''\<rparr>"
  let ?f = "RegularFile (replicate 64 CHR ''a'' @ [newline])"
  have hex: "is_sha256 (replicate 64 c)" if "is_hex c" for c using that by (simp add: is_sha256_def list_all_iff)
  then have "is_sha256 (replicate 64 CHR ''a'')"
    by (simp add: is_hex_def is_digit_def less_eq_char_def)
  moreover have "ensure_launch_token True [''x''] (replicate 64 CHR ''a'') NoFile = (Inr ?t, ?f)"
    by (simp add: ensure_launch_token_def Let_def numeral_eq_Suc)
  ultimately show ?thesis
    using launch_token_stable [of True "[''x'']" "replicate 64 CHR ''a''" NoFile ?t ?f "replicate 64 CHR ''b''"]
    by simp
qed

text \<open>
  C32: the contract a token puts in the request is one the runner's parser accepts and that pins the token:
  for every token of the required form and every timeout of at most an hour, parsing the fields succeeds with
  the token's digest and with the size of the file the token is written to.
\<close>

theorem launch_contract_accepted:
  assumes "request_fields sha t (PInt n) (of_int n) = Inr d" and "is_sha256 (lt_token t)"
    and "is_sha256 (sha (lt_token t))" and "n \<le> 3600"
  shows "parse_launch_authorization (PDict d) =
    Inr \<lparr>la_relative_path = launch_relative_path, la_sha256 = sha (lt_token t),
         la_size = int (length (lt_token t @ [newline])), la_timeout_seconds = Fin (of_int n)\<rparr>"
proof -
  have n: "0 < n" and d: "d = [(''protocol'', PStr launch_protocol), (''path'', PStr launch_relative_path),
                (''sha256'', PStr (sha (lt_token t))), (''size'', PInt (token_size t)),
                (''timeout_seconds'', PInt n)]"
    using assms(1) by (auto simp: request_fields_def split: if_splits)
  have "(of_int n :: rat) \<le> of_int 3600" using assms(4) by (simp only: of_int_le_iff)
  then show ?thesis
    using n assms(2-4) sha256_text [OF assms(2)]
    by (simp add: parse_launch_authorization_def d token_size_def to_float_def float_overflow_def)
qed

theorem launch_contract_accepted_witness:
  "\<exists>a. parse_launch_authorization (PDict
     [(''protocol'', PStr launch_protocol), (''path'', PStr launch_relative_path),
      (''sha256'', PStr (replicate 64 CHR ''a'')), (''size'', PInt 65), (''timeout_seconds'', PInt 600)]) = Inr a"
proof -
  let ?t = "\<lparr>lt_path = [], lt_token = replicate 64 CHR ''a''\<rparr>"
  have "is_sha256 (replicate 64 CHR ''a'')"
    by (simp add: is_sha256_def list_all_iff is_hex_def is_digit_def less_eq_char_def)
  then show ?thesis
    using launch_contract_accepted [of "\<lambda>x. x" ?t 600 "[(''protocol'', PStr launch_protocol),
      (''path'', PStr launch_relative_path), (''sha256'', PStr (replicate 64 CHR ''a'')),
      (''size'', PInt 65), (''timeout_seconds'', PInt 600)]"]
    by (simp add: request_fields_def token_size_def)
qed

end
