(* ===== verification/Request.thy ===== *)
theory Request
  imports Paths Identity LaunchAuth
begin

text \<open>
  \<open>runner.py\<close>, \<open>_validate_request\<close> and its helpers: what the remote runner requires of a run request before
  it does anything.
\<close>

section \<open>Shapes and numbers\<close>

definition req_mapping :: "pyval \<Rightarrow> string \<Rightarrow> exn + pydict" where
  "req_mapping v name =
     (case as_dict v of None \<Rightarrow> Inl (RequestError (name @ '' must be an object'')) | Some d \<Rightarrow> Inr d)"

definition req_sequence :: "pyval \<Rightarrow> string \<Rightarrow> exn + pyval list" where
  "req_sequence v name =
     (case as_list v of None \<Rightarrow> Inl (RequestError (name @ '' must be an array'')) | Some xs \<Rightarrow> Inr xs)"

definition positive_number :: "pyval \<Rightarrow> string \<Rightarrow> exn + unit" where
  "positive_number v name =
     bindR (to_float v) (\<lambda>f.
       require (case f of None \<Rightarrow> False | Some x \<Rightarrow> isfinite x \<and> \<not> fle x (Fin 0))
         (RequestError (name @ '' must be a positive finite number'')))"

definition nonnegative_number :: "pyval \<Rightarrow> string \<Rightarrow> exn + unit" where
  "nonnegative_number v name =
     bindR (to_float v) (\<lambda>f.
       require (case f of None \<Rightarrow> False | Some x \<Rightarrow> isfinite x \<and> \<not> flt x (Fin 0))
         (RequestError (name @ '' must be a nonnegative finite number'')))"

definition nonzero_digit :: "char \<Rightarrow> bool" where
  "nonzero_digit c \<longleftrightarrow> is_digit c \<and> c \<noteq> CHR ''0''"

definition money_rx :: rx where
  "money_rx =
     (let digits = RStar (RChar is_digit) in
      RAlt (RSeq (rlit ''0.'') (RSeq digits (RSeq (RChar nonzero_digit) digits)))
           (RSeq (RChar nonzero_digit) (RSeq digits
              (ropt (RSeq (rchar CHR ''.'') (rplus (RChar is_digit)))))))"

definition positive_decimal_string :: "pyval \<Rightarrow> string \<Rightarrow> exn + unit" where
  "positive_decimal_string v name =
     (let bad = Inl (RequestError (name @ '' must be a positive decimal string'')) in
      case as_str v of
        None \<Rightarrow> bad
      | Some s \<Rightarrow>
          if \<not> fullmatch money_rx s then bad
          else (case dec_of_string s of
             None \<Rightarrow> bad
           | Some d \<Rightarrow> if \<not> is_finite d \<or> dec_le d dec_zero then bad else Inr ()))"

section \<open>The request\<close>

definition phase_order :: "string list" where
  "phase_order = [''verify'', ''preflight'', ''train'', ''evaluate'', ''package'']"

definition image_digest_rx :: rx where
  "image_digest_rx =
     RSeq (rplus (RChar (\<lambda>c. c \<noteq> CHR ''@'' \<and> \<not> is_space c)))
       (RSeq (rlit ''@sha256:'') (rtimes 64 (RChar is_hex)))"

definition matching_string :: "(string \<Rightarrow> bool) \<Rightarrow> pyval \<Rightarrow> exn \<Rightarrow> exn + unit" where
  "matching_string ok v e =
     require (case as_str v of None \<Rightarrow> False | Some s \<Rightarrow> ok s) e"

definition check_identity_fields :: "pydict \<Rightarrow> exn + unit" where
  "check_identity_fields request =
     catchR (bindR (validate_runner_version (get request ''runner_version'')) (\<lambda>_.
             bindR (validate_git_commit (get request ''runner_git_commit'')) (\<lambda>_.
             bindR (protocol_majors (get request ''supported_protocol_majors'')) (\<lambda>_. Inr ()))))
       (\<lambda>e. RequestError (exn_text e))"

definition volume_id_char :: "char \<Rightarrow> bool" where
  "volume_id_char c \<longleftrightarrow> c \<noteq> CHR 0x00 \<and> c \<noteq> CHR 0x0D \<and> c \<noteq> CHR 0x0A"

definition check_storage :: "pyval \<Rightarrow> exn + unit" where
  "check_storage v =
     bindR (req_mapping v ''storage'') (\<lambda>storage.
     bindR (case as_bool (get storage ''encrypted'') of
              None \<Rightarrow> Inl (RequestError ''storage.encrypted must be boolean'')
            | Some encrypted \<Rightarrow>
                if encrypted
                then require (get storage ''network_volume_id'' = PNone)
                       (RequestError ''encrypted pod storage cannot declare network_volume_id'')
                else matching_string (\<lambda>s. strip s \<noteq> [] \<and> list_all volume_id_char s)
                       (get storage ''network_volume_id'')
                       (RequestError ''unencrypted storage requires a non-empty network_volume_id'')) (\<lambda>_.
     bindR (matching_string (\<lambda>s. is_absolute (pure_posix_path s)) (get storage ''mount'')
              (RequestError ''storage.mount must be absolute'')) (\<lambda>_.
       require (positive_int (get storage ''required_gb''))
         (RequestError ''storage.required_gb must be a positive integer''))))"

definition nonempty_string :: "pyval \<Rightarrow> bool" where
  "nonempty_string v \<longleftrightarrow> (case as_str v of None \<Rightarrow> False | Some s \<Rightarrow> s \<noteq> [])"

definition check_phase :: "pydict \<Rightarrow> string \<Rightarrow> exn + unit" where
  "check_phase phases phase =
     bindR (req_mapping (get phases phase) (''phases.'' @ phase)) (\<lambda>config.
       case as_bool (get config ''enabled'') of
         None \<Rightarrow> Inl (RequestError (''phases.'' @ phase @ ''.enabled must be boolean''))
       | Some enabled \<Rightarrow>
           bindR (req_sequence (get config ''argv'') (''phases.'' @ phase @ ''.argv'')) (\<lambda>argv.
           bindR (require (\<not> enabled \<or> (argv \<noteq> [] \<and> list_all nonempty_string argv))
                    (RequestError (''phases.'' @ phase @ ''.argv must contain non-empty strings''))) (\<lambda>_.
             positive_number (get config ''timeout_seconds'') (''phases.'' @ phase @ ''.timeout_seconds''))))"

definition check_phases :: "pyval \<Rightarrow> exn + unit" where
  "check_phases v =
     bindR (req_mapping v ''phases'') (\<lambda>phases.
     bindR (require (set (dkeys phases) = set phase_order)
              (RequestError ''phases must contain exactly the fixed phase names'')) (\<lambda>_.
     bindR (mapR (check_phase phases) phase_order) (\<lambda>_. Inr ())))"

definition check_limits :: "pydict \<Rightarrow> exn + unit" where
  "check_limits request =
     bindR (req_mapping (get request ''limits'') ''limits'') (\<lambda>limits.
     bindR (positive_number (get limits ''max_elapsed_seconds'') ''limits.max_elapsed_seconds'') (\<lambda>_.
     bindR (positive_decimal_string (get limits ''max_cost_usd'') ''limits.max_cost_usd'') (\<lambda>_.
     bindR (positive_decimal_string (get limits ''usd_per_hour'') ''limits.usd_per_hour'') (\<lambda>_.
     bindR (positive_number (get request ''heartbeat_interval_seconds'') ''heartbeat_interval_seconds'') (\<lambda>_.
       nonnegative_number (get request ''termination_grace_seconds'') ''termination_grace_seconds'')))))"

definition ack_protocol :: string where
  "ack_protocol = ''incremental-mirror-ack/1''"

definition ack_namespace :: string where
  "ack_namespace = ''runpod-jobrunner-incremental-mirror''"

definition check_acknowledgement :: "pyval \<Rightarrow> exn + unit" where
  "check_acknowledgement v =
     (if v = PNone then Inr ()
      else
        bindR (req_mapping v ''incremental_mirror_ack'') (\<lambda>ack.
        bindR (require (pyeq (get ack ''protocol'') (PStr ack_protocol))
                 (RequestError ''incremental mirror acknowledgement protocol is unsupported'')) (\<lambda>_.
        bindR (runner_relative_path (get ack ''directory'') ''incremental_mirror_ack.directory'') (\<lambda>_.
        bindR (positive_number (get ack ''timeout_seconds'') ''incremental_mirror_ack.timeout_seconds'') (\<lambda>_.
        bindR (req_mapping (get ack ''signer'') ''incremental_mirror_ack.signer'') (\<lambda>signer.
          require (pyeq (get signer ''algorithm'') (PStr ''ssh-ed25519'') \<and>
                   pyeq (get signer ''namespace'') (PStr ack_namespace) \<and>
                   as_str (get signer ''identity'') \<noteq> None \<and> as_str (get signer ''key_id'') \<noteq> None \<and>
                   as_str (get signer ''public_key'') \<noteq> None)
            (RequestError ''incremental mirror acknowledgement signer is invalid'')))))))"

definition validate_request :: "pydict \<Rightarrow> exn + pydict" where
  "validate_request request =
     bindR (require (pyeq (get request ''protocol'') (PStr ''run-request/1''))
              (RequestError ''unsupported run request protocol'')) (\<lambda>_.
     bindR (matching_string safe_id (get request ''run_id'')
              (RequestError ''run_id must be a safe non-empty identifier'')) (\<lambda>_.
     bindR (matching_string is_sha256 (get request ''bundle_hash'')
              (RequestError ''bundle_hash must be a lowercase sha256 digest'')) (\<lambda>_.
     bindR (matching_string (fullmatch image_digest_rx) (get request ''image_digest'')
              (RequestError ''image_digest must pin an image by sha256 digest'')) (\<lambda>_.
     bindR (check_identity_fields request) (\<lambda>_.
     bindR (check_storage (get request ''storage'')) (\<lambda>_.
     bindR (check_phases (get request ''phases'')) (\<lambda>_.
     bindR (check_limits request) (\<lambda>_.
     bindR (require (pyeq (get request ''artifact_path_base'') (PStr ''run-root''))
              (RequestError ''artifact_path_base must be run-root'')) (\<lambda>_.
     bindR (if get request ''artifact_manifest_path'' = PNone then Inr []
            else runner_relative_path (get request ''artifact_manifest_path'') ''artifact_manifest_path'') (\<lambda>_.
     bindR (check_acknowledgement (get request ''incremental_mirror_ack'')) (\<lambda>_.
     bindR (catchR (parse_launch_authorization (get request ''launch_authorization''))
              (\<lambda>e. case e of LaunchAuthorizationError m \<Rightarrow> RequestError m | _ \<Rightarrow> e)) (\<lambda>_.
       Inr request))))))))))))"

lemmas validate_request_defs =
  validate_request_def check_identity_fields_def check_storage_def check_phases_def check_phase_def
  check_limits_def check_acknowledgement_def matching_string_def req_mapping_def req_sequence_def

lemma validate_request_id: "validate_request r = Inr r' \<Longrightarrow> r' = r"
  by (auto simp: validate_request_def)

lemma matching_string_Inr [simp]: "matching_string ok v e = Inr u \<longleftrightarrow> (\<exists>s. v = PStr s \<and> ok s)"
  by (cases v) (auto simp: matching_string_def)

lemma req_mapping_Inr [simp]: "req_mapping v n = Inr d \<longleftrightarrow> v = PDict d"
  by (cases v) (auto simp: req_mapping_def)

lemma req_sequence_Inr [simp]: "req_sequence v n = Inr xs \<longleftrightarrow> v = PList xs"
  by (cases v) (auto simp: req_sequence_def)

end
