(* ===== verification/Canonical.thy ===== *)
theory Canonical
  imports PyValue
begin

text \<open>
  \<open>protocol.py\<close>: the canonical JSON every intent hash and manifest hash is taken of.  A value here is a
  finite tree, so the encoder's cycle checks never fire; \<open>sha\<close> is \<open>hashlib.sha256(...).hexdigest()\<close>.
\<close>

section \<open>Numbers\<close>

text \<open>\<open>Decimal.normalize\<close>: rounded to the context, without trailing zeros.\<close>

function strip_zeros :: "int \<Rightarrow> int \<Rightarrow> decimal" where
  "strip_zeros c e = (if c \<noteq> 0 \<and> c mod 10 = 0 then strip_zeros (c div 10) (e + 1) else Dec c e)"
  by pat_completeness auto
termination by (relation "measure (\<lambda>(c, e). nat \<bar>c\<bar>)") auto

declare strip_zeros.simps [simp del]

fun dec_normalize :: "decimal \<Rightarrow> decimal" where
  "dec_normalize (Dec c e) =
     (case round_context c e of Dec c' e' \<Rightarrow> strip_zeros c' e' | d \<Rightarrow> d)"
| "dec_normalize d = d"

definition rstrip :: "char \<Rightarrow> string \<Rightarrow> string" where
  "rstrip c s = rev (dropWhile (\<lambda>x. x = c) (rev s))"

definition decimal_text :: "decimal \<Rightarrow> exn + string" where
  "decimal_text d =
     (if \<not> is_finite d then Inl (CanonicalJSONError ''canonical JSON does not support non-finite Decimal values'')
      else if dec_eq d dec_zero then Inr ''0''
      else
        let t = format_f (dec_normalize d)
        in Inr (if CHR ''.'' \<in> set t then rstrip CHR ''.'' (rstrip CHR ''0'' t) else t))"

section \<open>Strings\<close>

definition quote :: char where
  "quote = CHR 0x22"

definition backslash :: char where
  "backslash = CHR 0x5C"

definition hex_digit :: "nat \<Rightarrow> char" where
  "hex_digit n = (if n < 10 then char_of (48 + n) else char_of (87 + n))"

text \<open>\<open>json.dumps(s, ensure_ascii=False)\<close>, character by character.\<close>

definition json_char :: "char \<Rightarrow> string" where
  "json_char c =
     (if c = quote then [backslash, quote]
      else if c = backslash then [backslash, backslash]
      else if c = CHR 0x0A then [backslash, CHR ''n'']
      else if c = CHR 0x0D then [backslash, CHR ''r'']
      else if c = CHR 0x09 then [backslash, CHR ''t'']
      else if c = CHR 0x08 then [backslash, CHR ''b'']
      else if c = CHR 0x0C then [backslash, CHR ''f'']
      else if (of_char c :: nat) < 32
      then [backslash, CHR ''u'', CHR ''0'', CHR ''0'', hex_digit (of_char c div 16), hex_digit (of_char c mod 16)]
      else [c])"

definition json_string :: "string \<Rightarrow> string" where
  "json_string s = quote # concat (map json_char s) @ [quote]"

section \<open>Values\<close>

fun canonical_text :: "pyval \<Rightarrow> exn + string" where
  "canonical_text PNone = Inr ''null''"
| "canonical_text (PBool b) = Inr (if b then ''true'' else ''false'')"
| "canonical_text (PInt i) = Inr (show_int i)"
| "canonical_text (PDec d) = decimal_text d"
| "canonical_text (PFloat f) =
     Inl (CanonicalJSONError ''canonical JSON rejects float values; use Decimal for exact numbers'')"
| "canonical_text (PStr s) = Inr (json_string s)"
| "canonical_text (PList vs) =
     bindR (mapR (\<lambda>r. r) (map canonical_text vs)) (\<lambda>ts. Inr (CHR ''['' # join (CHR '','') ts @ '']''))"
| "canonical_text (PDict d) =
     (let members = map (\<lambda>(k, v). (k, canonical_text v)) d
      in bindR (mapR (\<lambda>k. case dget members k of
                        None \<Rightarrow> Inl (KeyError k)
                      | Some r \<Rightarrow> bindR r (\<lambda>t. Inr (json_string k @ CHR '':'' # t))) (sort (dkeys d)))
           (\<lambda>ts. Inr (CHR ''{'' # join (CHR '','') ts @ ''}'')))"

text \<open>UTF-8 on code points below 256.\<close>

definition utf8_char :: "char \<Rightarrow> string" where
  "utf8_char c =
     (let n = of_char c :: nat
      in if n < 128 then [c] else [char_of (192 + n div 64), char_of (128 + n mod 64)])"

definition utf8 :: "string \<Rightarrow> string" where
  "utf8 s = concat (map utf8_char s)"

definition canonical_json :: "pyval \<Rightarrow> exn + string" where
  "canonical_json v = bindR (canonical_text v) (\<lambda>t. Inr (utf8 t))"

definition canonical_sha256 :: "(string \<Rightarrow> string) \<Rightarrow> pyval \<Rightarrow> exn + string" where
  "canonical_sha256 sha v = bindR (canonical_json v) (\<lambda>t. Inr (sha t))"

section \<open>What can be encoded\<close>

fun encodable :: "pyval \<Rightarrow> bool" where
  "encodable (PFloat f) = False"
| "encodable (PDec d) = is_finite d"
| "encodable (PList vs) = list_all encodable vs"
| "encodable (PDict d) = list_all (\<lambda>e. encodable (snd e)) d"
| "encodable _ = True"

lemma members_lookup: "dget (map (\<lambda>(k, v). (k, f v)) d) k = map_option f (dget d k)"
  by (induction d) auto

lemma mapR_total: "(\<And>x. x \<in> set xs \<Longrightarrow> \<exists>y. f x = Inr y) \<Longrightarrow> \<exists>ys. mapR f xs = Inr ys"
  by (induction xs) auto

lemma encodable_text: "encodable v \<Longrightarrow> \<exists>t. canonical_text v = Inr t"
proof (induction v rule: canonical_text.induct)
  case (7 vs)
  then have "\<exists>ts. mapR (\<lambda>r. r) (map canonical_text vs) = Inr ts"
    by (intro mapR_total) (auto simp: list_all_iff)
  then show ?case by auto
next
  case (8 d)
  let ?f = "\<lambda>k. case dget (map (\<lambda>(k, v). (k, canonical_text v)) d) k of
      None \<Rightarrow> Inl (KeyError k) | Some r \<Rightarrow> bindR r (\<lambda>t. Inr (json_string k @ CHR '':'' # t))"
  have "\<exists>t. ?f k = Inr t" if k: "k \<in> set (sort (dkeys d))" for k
  proof -
    have "dget d k \<noteq> None" using k by (simp add: map_of_eq_None_iff)
    then obtain v where v: "dget d k = Some v" by blast
    moreover obtain t where "canonical_text v = Inr t" using 8 map_of_SomeD [OF v] by (fastforce simp: list_all_iff)
    ultimately show ?thesis by (simp add: members_lookup)
  qed
  then have "\<exists>ts. mapR ?f (sort (dkeys d)) = Inr ts" by (rule mapR_total)
  then show ?case by (auto simp: Let_def)
qed (auto simp: decimal_text_def Let_def)

lemma encodable_sha: "encodable v \<Longrightarrow> \<exists>t. canonical_json v = Inr t \<and> canonical_sha256 sha v = Inr (sha t)"
  using encodable_text by (fastforce simp: canonical_json_def canonical_sha256_def)

section \<open>The order of keys does not matter\<close>

inductive reordered :: "pyval \<Rightarrow> pyval \<Rightarrow> bool" where
  same: "reordered v v"
| array: "list_all2 reordered vs ws \<Longrightarrow> reordered (PList vs) (PList ws)"
| object: "wf_dict d \<Longrightarrow> wf_dict e \<Longrightarrow> set (dkeys d) = set (dkeys e) \<Longrightarrow>
    (\<And>k v w. dget d k = Some v \<Longrightarrow> dget e k = Some w \<Longrightarrow> reordered v w) \<Longrightarrow>
    reordered (PDict d) (PDict e)"

lemma sort_keys_eq:
  "wf_dict d \<Longrightarrow> wf_dict e \<Longrightarrow> set (dkeys d) = set (dkeys e) \<Longrightarrow> sort (dkeys d) = sort (dkeys e)"
  by (metis sorted_distinct_set_unique sorted_sort distinct_sort set_sort)

lemma reordered_text: "reordered v w \<Longrightarrow> canonical_text v = canonical_text w"
proof (induction rule: reordered.induct)
  case (array vs ws)
  then have "map canonical_text vs = map canonical_text ws"
    by (induction rule: list_all2_induct) auto
  then show ?case by simp
next
  case (object d e)
  have keys: "sort (dkeys d) = sort (dkeys e)"
    using sort_keys_eq [OF object(1-3)] .
  have "map_option canonical_text (dget d k) = map_option canonical_text (dget e k)" for k
  proof (cases "dget d k")
    case None
    then have "dget e k = None" using object(3) by (metis list.set_map map_of_eq_None_iff)
    with None show ?thesis by simp
  next
    case (Some v)
    then have "dget e k \<noteq> None"
      using object(3) by (metis list.set_map map_of_eq_None_iff option.distinct(1))
    with Some object(5) show ?thesis by auto
  qed
  then show ?case by (simp add: members_lookup keys Let_def)
qed simp

text \<open>
  C33: canonical JSON does not depend on the order in which keys were inserted, at any depth: two values that
  differ only in it have the same encoding, or fail with the same error, and so the same hash.
\<close>

theorem canonical_json_order_independent:
  assumes "reordered v w"
  shows "canonical_json v = canonical_json w \<and> canonical_sha256 sha v = canonical_sha256 sha w"
  using reordered_text [OF assms] by (simp add: canonical_json_def canonical_sha256_def)

theorem canonical_json_order_independent_witness:
  "canonical_json (PDict [(''b'', PInt 1), (''a'', PList [PNone])]) =
   canonical_json (PDict [(''a'', PList [PNone]), (''b'', PInt 1)])"
proof -
  have "reordered (PDict [(''b'', PInt 1), (''a'', PList [PNone])]) (PDict [(''a'', PList [PNone]), (''b'', PInt 1)])"
    by (rule reordered.object) (auto intro: reordered.same split: if_splits)
  then show ?thesis by (rule canonical_json_order_independent [THEN conjunct1])
qed

section \<open>Strings read back\<close>

text \<open>How any JSON reader takes a string literal apart, on the escapes the encoder writes.\<close>

definition unhex :: "char \<Rightarrow> nat" where
  "unhex c = (if is_digit c then of_char c - 48 else of_char c - 87)"

fun read_chars :: "string \<Rightarrow> (string \<times> string) option" where
  "read_chars [] = None"
| "read_chars (c # s) =
     (if c = quote then Some ([], s)
      else if c \<noteq> backslash then map_option (\<lambda>(t, r). (c # t, r)) (read_chars s)
      else (case s of
         [] \<Rightarrow> None
       | d # s1 \<Rightarrow>
           if d = CHR ''u'' then (case s1 of
              _ # _ # x # y # s2 \<Rightarrow> map_option (\<lambda>(t, r). (char_of (16 * unhex x + unhex y) # t, r)) (read_chars s2)
            | _ \<Rightarrow> None)
           else map_option (\<lambda>(t, r). ((if d = CHR ''n'' then CHR 0x0A else if d = CHR ''r'' then CHR 0x0D
              else if d = CHR ''t'' then CHR 0x09 else if d = CHR ''b'' then CHR 0x08
              else if d = CHR ''f'' then CHR 0x0C else d) # t, r)) (read_chars s1)))"

fun read_string :: "string \<Rightarrow> (string \<times> string) option" where
  "read_string (c # s) = (if c = quote then read_chars s else None)"
| "read_string [] = None"

lemma unhex_hex_digit: "n < 16 \<Longrightarrow> unhex (hex_digit n) = n"
  by (auto simp: unhex_def hex_digit_def is_digit_iff)

lemma read_json_char:
  "read_chars (json_char c @ s) = map_option (\<lambda>(t, r). (c # t, r)) (read_chars s)"
proof -
  have hex: "char_of (16 * unhex (hex_digit (of_char c div 16)) + unhex (hex_digit (of_char c mod 16))) = c"
    if "(of_char c :: nat) < 32"
    using that by (simp add: unhex_hex_digit)
  show ?thesis
    using hex by (auto simp: json_char_def quote_def backslash_def)
qed

lemma read_json_chars: "read_chars (concat (map json_char s) @ quote # r) = Some (s, r)"
  by (induction s) (simp_all add: read_json_char)

text \<open>
  A string literal the encoder writes is read back exactly, and the reader stops where the literal ends,
  whatever follows: no two strings share an encoding, and none is a prefix of another.
\<close>

theorem json_string_roundtrip: "read_string (json_string s @ r) = Some (s, r)"
  using read_json_chars by (simp add: json_string_def)

section \<open>Large numbers are rounded\<close>

lemma strip_zeros_power: "strip_zeros (1 * 10 ^ n) e = strip_zeros 1 (e + int n)"
proof (induction n arbitrary: e)
  case (Suc n)
  have "strip_zeros (1 * 10 ^ Suc n) e = strip_zeros (1 * 10 ^ n) (e + 1)"
    by (subst strip_zeros.simps) simp
  then show ?case by (simp only: Suc) (simp add: algebra_simps)
qed simp

text \<open>
  The encoding of a decimal is exact only up to the context's 28 digits: \<open>1\<close> and the 30-digit number
  \<open>1.00000000000000000000000000001\<close> have the same canonical JSON, although they differ.
\<close>

theorem canonical_json_rounds_decimals:
  "canonical_json (PDec (Dec (10 ^ 29 + 1) (-29))) = canonical_json (PDec (Dec 1 0)) \<and>
   \<not> dec_eq (Dec (10 ^ 29 + 1) (-29)) (Dec 1 0)"
proof -
  have "ndigits (10 ^ 29 + 1) = 30" by (simp add: ndigits.simps)
  then have "round_context (10 ^ 29 + 1) (-29) = Dec (1 * 10 ^ 27) (-27)"
    by (simp add: round_context_def precision_def)
  then have "dec_normalize (Dec (10 ^ 29 + 1) (-29)) = Dec 1 0"
    by (simp only: dec_normalize.simps decimal.case strip_zeros_power) (simp add: strip_zeros.simps)
  moreover have "dec_normalize (Dec 1 0) = Dec 1 0"
    by (simp add: round_context_def precision_def strip_zeros.simps)
  moreover have "\<not> dec_eq (Dec (10 ^ 29 + 1) (-29)) dec_zero" and "\<not> dec_eq (Dec 1 0) dec_zero"
    and "\<not> dec_eq (Dec (10 ^ 29 + 1) (-29)) (Dec 1 0)"
    by (simp_all add: dec_eq_def dec_zero_def common_exp_def)
  ultimately show ?thesis by (simp add: canonical_json_def decimal_text_def)
qed

end
