(* ===== verification/Bundle.thy ===== *)
theory Bundle
  imports Request Canonical
begin

text \<open>
  \<open>bundle.py\<close>: checking a job bundle and building the run request from it.  A bundle directory is a tree of
  \<open>node\<close>s that does not change while it is checked.  What is not under \<open>src/\<close> is a parameter: the YAML
  library, the JSON reader, the JSON-schema validator, UTF-8 and SHA-256 are the fields of \<open>tools\<close>.
\<close>

section \<open>Files\<close>

datatype node = Regular string | Symlink | SpecialNode | Directory "(string \<times> node) list"

record tools =
  t_utf8 :: "string \<Rightarrow> string option"
  t_yaml :: "string \<Rightarrow> pyval option"
  t_json :: "string \<Rightarrow> json_file"
  t_schema :: "string \<Rightarrow> pydict \<Rightarrow> bool"
  t_sha :: "string \<Rightarrow> string"

definition bundle_error :: "string \<Rightarrow> exn + 'a" where
  "bundle_error message = Inl (BundleValidationError message)"

text \<open>\<open>v[k]\<close> of a value that must be a dictionary.\<close>

definition item :: "pyval \<Rightarrow> string \<Rightarrow> exn + pyval" where
  "item v k =
     (case as_dict v of
        None \<Rightarrow> Inl (TypeError ''not subscriptable'')
      | Some d \<Rightarrow> (case dget d k of None \<Rightarrow> Inl (KeyError k) | Some w \<Rightarrow> Inr w))"

section \<open>The YAML loader's constructors\<close>

text \<open>\<open>_construct_mapping\<close>, on the pairs it has constructed, and \<open>_construct_decimal\<close>, on a scalar's text.\<close>

definition construct_mapping :: "(string \<times> pyval) list \<Rightarrow> exn + pyval" where
  "construct_mapping pairs =
     bindR (foldR (\<lambda>result (k, v).
              if dget result k \<noteq> None then bundle_error ''found duplicate key'' else Inr (dput k v result)) [] pairs)
       (\<lambda>result. Inr (PDict result))"

definition construct_decimal :: "string \<Rightarrow> exn + decimal" where
  "construct_decimal scalar =
     (case dec_of_string (filter (\<lambda>c. c \<noteq> CHR ''_'') scalar) of
        None \<Rightarrow> bundle_error ''invalid finite decimal''
      | Some d \<Rightarrow> if is_finite d then Inr d else bundle_error ''non-finite decimal values are not allowed'')"

section \<open>Reading the two documents\<close>

definition read_regular_file :: "tools \<Rightarrow> node option \<Rightarrow> string \<Rightarrow> exn + string" where
  "read_regular_file T n label =
     (case n of
        None \<Rightarrow> bundle_error (''missing required '' @ label)
      | Some Symlink \<Rightarrow> bundle_error (label @ '' must not be a symlink'')
      | Some (Regular bytes) \<Rightarrow>
          (case t_utf8 T bytes of
             None \<Rightarrow> bundle_error (label @ '' must be valid UTF-8'') | Some text \<Rightarrow> Inr text)
      | Some _ \<Rightarrow> bundle_error (label @ '' must be a regular file''))"

definition load_job_spec :: "tools \<Rightarrow> node option \<Rightarrow> exn + pydict" where
  "load_job_spec T n =
     bindR (read_regular_file T n ''job.yaml'') (\<lambda>text.
       case t_yaml T text of
         None \<Rightarrow> bundle_error ''job.yaml is not valid safe YAML''
       | Some v \<Rightarrow> (case as_dict v of None \<Rightarrow> bundle_error ''job.yaml must contain one mapping''
                    | Some d \<Rightarrow> Inr d))"

text \<open>The non-finite numbers \<open>parse_constant\<close> is called for.\<close>

fun has_constant :: "pyval \<Rightarrow> bool" where
  "has_constant (PFloat f) = (\<not> isfinite f)"
| "has_constant (PDict d) = list_ex (\<lambda>e. has_constant (snd e)) d"
| "has_constant (PList vs) = list_ex has_constant vs"
| "has_constant _ = False"

definition load_input_manifest :: "tools \<Rightarrow> node option \<Rightarrow> exn + pydict" where
  "load_input_manifest T n =
     bindR (read_regular_file T n ''input-manifest.json'') (\<lambda>text.
       case t_json T text of
         NoJson \<Rightarrow> bundle_error ''input-manifest.json is not valid JSON''
       | JsonValue v \<Rightarrow>
           if duplicate_keys v then bundle_error ''input-manifest.json contains duplicate key''
           else if has_constant v then bundle_error ''input-manifest.json contains non-finite number''
           else (case as_dict v of None \<Rightarrow> bundle_error ''input-manifest.json must contain one object''
                 | Some d \<Rightarrow> Inr d))"

definition compute_bundle_hash :: "(string \<Rightarrow> string) \<Rightarrow> pydict \<Rightarrow> pydict \<Rightarrow> exn + string" where
  "compute_bundle_hash sha job_spec input_manifest =
     canonical_sha256 sha
       (PDict [(''input_manifest'', PDict input_manifest),
               (''job_spec'', PDict (AList.delete ''bundle_hash'' job_spec))])"

section \<open>The inputs\<close>

record input_file =
  if_relative_path :: string
  if_source_path :: "string list"
  if_sha256 :: string
  if_size :: int

text \<open>
  \<open>_reject_symlink_components\<close>: the node a relative path leads to.  Below a regular file \<open>resolve\<close> fails
  with an \<open>OSError\<close> that is not \<open>FileNotFoundError\<close>.
\<close>

fun walk_node :: "string \<Rightarrow> node \<Rightarrow> string list \<Rightarrow> exn + node" where
  "walk_node label n [] = Inr n"
| "walk_node label (Directory es) (p # ps) =
     (case dget es p of
        None \<Rightarrow> bundle_error (''missing '' @ label)
      | Some Symlink \<Rightarrow> bundle_error (label @ '' traverses symlink'')
      | Some n \<Rightarrow> walk_node label n ps)"
| "walk_node label n (p # ps) = Inl (OSError ''not a directory'')"

definition hash_open_regular_file :: "(string \<Rightarrow> string) \<Rightarrow> node \<Rightarrow> string \<Rightarrow> exn + int \<times> string" where
  "hash_open_regular_file sha n label =
     (case n of
        Regular bytes \<Rightarrow> Inr (int (length bytes), sha bytes)
      | Symlink \<Rightarrow> bundle_error (label @ '' must not be a symlink'')
      | _ \<Rightarrow> bundle_error (label @ '' must be a regular file''))"

text \<open>
  \<open>_inventory_input_root\<close>; every error of it is a \<open>BundleValidationError\<close>, whichever is met first.  Every directory of
  the tree can be listed: \<open>os.walk\<close> passes over one that cannot, with everything below it.
\<close>

fun inventory :: "string \<Rightarrow> node \<Rightarrow> exn + string list" where
  "inventory path (Regular bytes) = Inr [path]"
| "inventory path Symlink = bundle_error ''input root contains symlink''"
| "inventory path SpecialNode = bundle_error ''input root contains non-regular file''"
| "inventory path (Directory es) =
     bindR (mapR (\<lambda>r. r) (map (\<lambda>(name, n). inventory (if path = [] then name else path @ slash # name) n) es))
       (\<lambda>names. Inr (concat names))"

definition verify_entry ::
  "(string \<Rightarrow> string) \<Rightarrow> node \<Rightarrow> string list \<Rightarrow> string list \<times> input_file list \<Rightarrow> pyval \<Rightarrow>
     exn + string list \<times> input_file list" where
  "verify_entry sha input_root base st entry =
     (let (declared, verified) = st in
      bindR (item entry ''path'') (\<lambda>raw.
      bindR (bundle_relative_path raw ''manifest.files.path'') (\<lambda>relative.
        let text = as_posix relative; label = ''declared input '' @ text in
        if text \<in> set declared then bundle_error (''manifest declares input path more than once: '' @ text)
        else
          bindR (walk_node label input_root (path_parts relative)) (\<lambda>source.
          bindR (hash_open_regular_file sha source label) (\<lambda>(actual_size, actual_sha256).
          bindR (item entry ''size'') (\<lambda>expected_size.
          bindR (item entry ''sha256'') (\<lambda>expected_sha256.
            if \<not> pyeq expected_size (PInt actual_size) then bundle_error (label @ '' size differs'')
            else if \<not> pyeq expected_sha256 (PStr actual_sha256) then bundle_error (label @ '' sha256 differs'')
            else Inr (declared @ [text],
                   verified @ [\<lparr>if_relative_path = text, if_source_path = base @ path_parts relative,
                                if_sha256 = actual_sha256, if_size = actual_size\<rparr>]))))))))"

definition verify_inputs ::
  "(string \<Rightarrow> string) \<Rightarrow> node \<Rightarrow> pydict \<Rightarrow> exn + string list \<times> input_file list" where
  "verify_inputs sha bundle_root manifest =
     bindR (item (PDict manifest) ''root'') (\<lambda>raw_root.
     bindR (bundle_relative_path raw_root ''manifest.root'') (\<lambda>relative.
     bindR (walk_node ''manifest input root'' bundle_root (path_parts relative)) (\<lambda>input_root.
     bindR (require (case input_root of Directory _ \<Rightarrow> True | _ \<Rightarrow> False)
              (BundleValidationError ''manifest input root must be a directory'')) (\<lambda>_.
     bindR (item (PDict manifest) ''files'') (\<lambda>files.
     bindR (case as_list files of None \<Rightarrow> Inl (TypeError ''not iterable'') | Some es \<Rightarrow> Inr es) (\<lambda>entries.
     bindR (foldR (verify_entry sha input_root (path_parts relative)) ([], []) entries) (\<lambda>(declared, verified).
     bindR (inventory [] input_root) (\<lambda>found.
     bindR (require (set found \<subseteq> set declared)
              (BundleValidationError ''input root contains undeclared files'')) (\<lambda>_.
     bindR (require (set declared \<subseteq> set found)
              (BundleValidationError ''declared inputs disappeared during verification'')) (\<lambda>_.
       Inr (path_parts relative, verified)))))))))))"

section \<open>The checked bundle\<close>

record phase_spec =
  ps_name :: string
  ps_enabled :: pyval
  ps_argv :: "pyval list"
  ps_timeout_seconds :: pyval

record storage_spec =
  ss_encrypted :: pyval
  ss_mount :: pyval
  ss_required_gb :: pyval
  ss_network_volume_id :: pyval

record job_bundle =
  jb_protocol :: pyval
  jb_name :: pyval
  jb_bundle_hash :: string
  jb_image_digest :: pyval
  jb_runner_version :: pyval
  jb_runner_git_commit :: pyval
  jb_phases :: "phase_spec list"
  jb_storage :: storage_spec
  jb_input_root :: "string list"
  jb_inputs :: "input_file list"
  jb_max_elapsed_seconds :: pyval
  jb_max_cost_usd :: decimal
  jb_usd_per_hour :: decimal
  jb_heartbeat_interval_seconds :: pyval
  jb_termination_grace_seconds :: pyval
  jb_job_spec_hash :: string
  jb_input_manifest_hash :: string
  jb_job_spec :: pydict
  jb_input_manifest :: pydict

definition bundle_money :: "pyval \<Rightarrow> string \<Rightarrow> exn + decimal" where
  "bundle_money v field_name =
     (case as_str v of
        None \<Rightarrow> bundle_error (field_name @ '' must be an exact decimal string'')
      | Some s \<Rightarrow>
          (case dec_of_string s of
             None \<Rightarrow> bundle_error (field_name @ '' is not a decimal amount'')
           | Some d \<Rightarrow> if is_finite d \<and> dec_lt dec_zero d then Inr d
                       else bundle_error (field_name @ '' must be a positive finite decimal amount'')))"

definition check_incremental :: "pydict \<Rightarrow> exn + unit" where
  "check_incremental spec =
     (case as_dict (get spec ''artifacts'') of
        None \<Rightarrow> Inr ()
      | Some artifacts \<Rightarrow>
          let glob = get artifacts ''incremental_manifest_glob'';
              ack = get artifacts ''incremental_mirror_ack''
          in bindR (if glob = PNone then Inr [] else bundle_glob glob) (\<lambda>_.
             if ack = PNone then Inr ()
             else (case as_dict ack of
                None \<Rightarrow> bundle_error ''artifacts.incremental_mirror_ack requires an incremental manifest glob''
              | Some mapping \<Rightarrow>
                  if glob = PNone
                  then bundle_error ''artifacts.incremental_mirror_ack requires an incremental manifest glob''
                  else bindR (bundle_relative_path (get mapping ''directory'')
                                ''artifacts.incremental_mirror_ack.directory'') (\<lambda>directory.
                    require (\<not> list_ex is_control (as_posix directory))
                      (BundleValidationError
                         ''artifacts.incremental_mirror_ack.directory contains control characters'')))))"

definition phase_of :: "pyval \<Rightarrow> string \<Rightarrow> exn + phase_spec" where
  "phase_of phases name =
     bindR (item phases name) (\<lambda>p.
     bindR (item p ''enabled'') (\<lambda>enabled.
     bindR (item p ''argv'') (\<lambda>argv.
     bindR (case as_list argv of None \<Rightarrow> Inl (TypeError ''not iterable'') | Some xs \<Rightarrow> Inr xs) (\<lambda>args.
     bindR (item p ''timeout_seconds'') (\<lambda>timeout.
       Inr \<lparr>ps_name = name, ps_enabled = enabled, ps_argv = args, ps_timeout_seconds = timeout\<rparr>)))))"

definition schema_check :: "tools \<Rightarrow> pydict \<Rightarrow> string \<Rightarrow> string \<Rightarrow> exn + unit" where
  "schema_check T document protocol subject =
     require (pyeq (get document ''protocol'') (PStr protocol) \<and> t_schema T protocol document)
       (BundleValidationError (subject @ '' does not satisfy '' @ protocol))"

definition hashes_of :: "tools \<Rightarrow> pydict \<Rightarrow> pydict \<Rightarrow> exn + string" where
  "hashes_of T spec manifest =
     catchR (bindR (compute_bundle_hash (t_sha T) spec manifest) (\<lambda>h.
             bindR (canonical_json (PDict spec)) (\<lambda>_.
             bindR (canonical_json (PDict manifest)) (\<lambda>_. Inr h))))
       (\<lambda>e. case e of CanonicalJSONError m \<Rightarrow> BundleValidationError (''bundle is not canonically encodable: '' @ m)
                    | _ \<Rightarrow> e)"

definition assemble_bundle ::
  "tools \<Rightarrow> pydict \<Rightarrow> pydict \<Rightarrow> string \<Rightarrow> string list \<times> input_file list \<Rightarrow> exn + job_bundle" where
  "assemble_bundle T spec manifest bundle_hash inputs =
     (let s = item (PDict spec) in
      bindR (s ''phases'') (\<lambda>phases_value.
      bindR (mapR (phase_of phases_value) phase_order) (\<lambda>phases.
      bindR (s ''limits'') (\<lambda>limits.
      bindR (s ''resources'') (\<lambda>resources.
      bindR (item resources ''storage'') (\<lambda>storage.
      bindR (s ''protocol'') (\<lambda>protocol.
      bindR (s ''name'') (\<lambda>name.
      bindR (s ''image'') (\<lambda>image.
      bindR (s ''runner'') (\<lambda>runner.
      bindR (item runner ''version'') (\<lambda>version.
      bindR (item runner ''git_commit'') (\<lambda>commit.
      bindR (item storage ''encrypted'') (\<lambda>encrypted.
      bindR (item storage ''mount'') (\<lambda>mount.
      bindR (item storage ''required_gb'') (\<lambda>required_gb.
      bindR (item limits ''max_elapsed_seconds'') (\<lambda>elapsed.
      bindR (item limits ''max_cost_usd'') (\<lambda>cost_value.
      bindR (bundle_money cost_value ''limits.max_cost_usd'') (\<lambda>cost.
      bindR (item limits ''usd_per_hour'') (\<lambda>rate_value.
      bindR (bundle_money rate_value ''limits.usd_per_hour'') (\<lambda>rate.
      bindR (s ''heartbeat_interval_seconds'') (\<lambda>heartbeat.
      bindR (s ''termination_grace_seconds'') (\<lambda>grace.
      bindR (canonical_sha256 (t_sha T) (PDict spec)) (\<lambda>spec_hash.
      bindR (canonical_sha256 (t_sha T) (PDict manifest)) (\<lambda>manifest_hash.
        Inr \<lparr>jb_protocol = protocol, jb_name = name, jb_bundle_hash = bundle_hash, jb_image_digest = image,
             jb_runner_version = version, jb_runner_git_commit = commit, jb_phases = phases,
             jb_storage = \<lparr>ss_encrypted = encrypted, ss_mount = mount, ss_required_gb = required_gb,
               ss_network_volume_id = (case as_dict storage of None \<Rightarrow> PNone | Some d \<Rightarrow> get d ''network_volume_id'')\<rparr>,
             jb_input_root = fst inputs, jb_inputs = snd inputs, jb_max_elapsed_seconds = elapsed,
             jb_max_cost_usd = cost, jb_usd_per_hour = rate, jb_heartbeat_interval_seconds = heartbeat,
             jb_termination_grace_seconds = grace, jb_job_spec_hash = spec_hash,
             jb_input_manifest_hash = manifest_hash, jb_job_spec = spec,
             jb_input_manifest = manifest\<rparr>))))))))))))))))))))))))"

text \<open>\<open>bundle_root\<close> is the node the path names, \<open>None\<close> when there is none.\<close>

definition check_bundle :: "tools \<Rightarrow> node option \<Rightarrow> exn + job_bundle" where
  "check_bundle T bundle_root =
     (case bundle_root of
        None \<Rightarrow> bundle_error ''job bundle does not exist''
      | Some Symlink \<Rightarrow> bundle_error ''job bundle root must not be a symlink''
      | Some (Directory es) \<Rightarrow>
          bindR (load_job_spec T (dget es ''job.yaml'')) (\<lambda>spec.
          bindR (load_input_manifest T (dget es ''input-manifest.json'')) (\<lambda>manifest.
          bindR (schema_check T spec ''job-spec/1'' ''job.yaml'') (\<lambda>_.
          bindR (schema_check T manifest ''input-manifest/1'' ''input-manifest.json'') (\<lambda>_.
          bindR (check_incremental spec) (\<lambda>_.
          bindR (hashes_of T spec manifest) (\<lambda>actual.
          bindR (item (PDict spec) ''bundle_hash'') (\<lambda>declared.
            if \<not> pyeq declared (PStr actual) then bundle_error ''job.yaml.bundle_hash differs''
            else bindR (verify_inputs (t_sha T) (Directory es) manifest) (\<lambda>inputs.
              assemble_bundle T spec manifest actual inputs))))))))
      | Some _ \<Rightarrow> bundle_error ''job bundle is not a directory'')"

section \<open>The run request\<close>

definition run_id_rx :: rx where
  "run_id_rx = RSeq (rlit ''run-'') (RSeq (RChar is_alnum)
     (rupto 126 (RChar (\<lambda>c. is_alnum c \<or> c = CHR ''_'' \<or> c = CHR ''-''))))"

definition request_phase :: "phase_spec \<Rightarrow> string \<times> pyval" where
  "request_phase p =
     (ps_name p, PDict [(''enabled'', ps_enabled p), (''argv'', PList (ps_argv p)),
                        (''timeout_seconds'', ps_timeout_seconds p)])"

definition request_core :: "job_bundle \<Rightarrow> string \<Rightarrow> pydict" where
  "request_core b run_id =
     (let st = jb_storage b in
      [(''protocol'', PStr ''run-request/1''), (''run_id'', PStr run_id),
       (''bundle_hash'', PStr (jb_bundle_hash b)), (''image_digest'', jb_image_digest b),
       (''runner_version'', jb_runner_version b), (''runner_git_commit'', jb_runner_git_commit b),
       (''supported_protocol_majors'', supported_protocol_majors),
       (''phases'', PDict (map request_phase (jb_phases b))),
       (''limits'', PDict [(''max_elapsed_seconds'', jb_max_elapsed_seconds b),
                           (''max_cost_usd'', PStr (format_f (jb_max_cost_usd b))),
                           (''usd_per_hour'', PStr (format_f (jb_usd_per_hour b)))]),
       (''heartbeat_interval_seconds'', jb_heartbeat_interval_seconds b),
       (''termination_grace_seconds'', jb_termination_grace_seconds b),
       (''artifact_path_base'', PStr ''run-root''),
       (''storage'', PDict ([(''encrypted'', ss_encrypted st), (''mount'', ss_mount st),
                             (''required_gb'', ss_required_gb st)] @
          (if ss_network_volume_id st \<noteq> PNone
           then [(''network_volume_id'', ss_network_volume_id st)] else [])))])"

definition manifest_path_of :: "job_bundle \<Rightarrow> pyval" where
  "manifest_path_of b =
     (case as_dict (get (jb_job_spec b) ''artifacts'') of None \<Rightarrow> PNone | Some d \<Rightarrow> get d ''manifest_path'')"

definition to_run_request :: "job_bundle \<Rightarrow> string \<Rightarrow> exn + pydict" where
  "to_run_request b run_id =
     (if \<not> fullmatch run_id_rx run_id
      then Inl (ValueError ''run_id must start with 'run-' and contain only stable ID characters'')
      else Inr (request_core b run_id @
                (if manifest_path_of b \<noteq> PNone then [(''artifact_manifest_path'', manifest_path_of b)] else [])))"

end
