(* ===== verification/PyJson.thy ===== *)
theory PyJson
  imports Identity Canonical "HOL-Library.Multiset" "HOL-Library.Sublist"
begin

text \<open>
  Python's \<open>json\<close> module as the program uses it: \<open>json.dumps(v, sort_keys=True, separators=(",", ":"))\<close>,
  the scanner behind \<open>json.loads\<close> with the errors it reports, and \<open>_is_torn_json_fragment\<close>, which reads
  those errors, in \<open>runner.py\<close> and \<open>run_store.py\<close>.  An error carries the text from its position on.

  \<open>fl\<close> is \<open>float(text)\<close> and \<open>rep\<close> is \<open>repr\<close> of a finite float.  A \<open>char\<close> is a code point below 256:
  escapes of higher code points are out of the model.  The theorems say that what \<open>json.dumps\<close> writes is read
  back, and that a text cut short anywhere is recognised as torn.
\<close>

section \<open>Writing\<close>

definition ascii_char :: "char \<Rightarrow> string" where
  "ascii_char c =
     (if c = quote then [backslash, quote]
      else if c = backslash then [backslash, backslash]
      else if c = CHR 0x0A then [backslash, CHR ''n'']
      else if c = CHR 0x0D then [backslash, CHR ''r'']
      else if c = CHR 0x09 then [backslash, CHR ''t'']
      else if c = CHR 0x08 then [backslash, CHR ''b'']
      else if c = CHR 0x0C then [backslash, CHR ''f'']
      else if 32 \<le> (of_char c :: nat) \<and> (of_char c :: nat) < 127 then [c]
      else [backslash, CHR ''u'', CHR ''0'', CHR ''0'', hex_digit (of_char c div 16), hex_digit (of_char c mod 16)])"

definition ascii_string :: "string \<Rightarrow> string" where
  "ascii_string s = quote # concat (map ascii_char s) @ [quote]"

text \<open>Of a value without \<open>Decimal\<close>, for which \<open>json.dumps\<close> raises \<open>TypeError\<close>.\<close>

fun json_text :: "(pyfloat \<Rightarrow> string) \<Rightarrow> pyval \<Rightarrow> string" where
  "json_text rep PNone = ''null''"
| "json_text rep (PBool b) = (if b then ''true'' else ''false'')"
| "json_text rep (PInt i) = show_int i"
| "json_text rep (PFloat f) =
     (case f of Fin _ \<Rightarrow> rep f | PosInf \<Rightarrow> ''Infinity'' | NegInf \<Rightarrow> ''-Infinity'' | NotANumber \<Rightarrow> ''NaN'')"
| "json_text rep (PDec d) = []"
| "json_text rep (PStr s) = ascii_string s"
| "json_text rep (PList vs) = CHR ''['' # join (CHR '','') (map (json_text rep) vs) @ '']''"
| "json_text rep (PDict d) =
     CHR ''{'' # join (CHR '','') (map (\<lambda>(k, t). ascii_string k @ CHR '':'' # t)
       (sort_key fst (map (\<lambda>(k, v). (k, json_text rep v)) d))) @ ''}''"

section \<open>Reading\<close>

datatype json_problem =
    ExpectingValue | UnterminatedString | InvalidEscape | InvalidUEscape | InvalidControl
  | ExpectingName | ExpectingColon | ExpectingComma | ExtraData

type_synonym json_error = "json_problem \<times> string"

definition json_space :: "char \<Rightarrow> bool" where
  "json_space c \<longleftrightarrow> c = CHR '' '' \<or> c = CHR 0x09 \<or> c = CHR 0x0A \<or> c = CHR 0x0D"

definition skip_ws :: "string \<Rightarrow> string" where
  "skip_ws s = dropWhile json_space s"

definition starts :: "char \<Rightarrow> string \<Rightarrow> bool" where
  "starts c s \<longleftrightarrow> s \<noteq> [] \<and> hd s = c"

definition hex_value :: "char \<Rightarrow> nat option" where
  "hex_value c =
     (if is_digit c then Some (of_char c - 48)
      else if CHR ''a'' \<le> c \<and> c \<le> CHR ''f'' then Some (of_char c - 87)
      else if CHR ''A'' \<le> c \<and> c \<le> CHR ''F'' then Some (of_char c - 55) else None)"

definition read_hex :: "string \<Rightarrow> nat option" where
  "read_hex s =
     foldl (\<lambda>a c. case a of None \<Rightarrow> None | Some n \<Rightarrow> map_option (\<lambda>d. 16 * n + d) (hex_value c)) (Some 0) s"

definition escaped :: "char \<Rightarrow> char option" where
  "escaped c =
     (if c = quote \<or> c = backslash \<or> c = CHR ''/'' then Some c
      else if c = CHR ''b'' then Some (CHR 0x08) else if c = CHR ''f'' then Some (CHR 0x0C)
      else if c = CHR ''n'' then Some (CHR 0x0A) else if c = CHR ''r'' then Some (CHR 0x0D)
      else if c = CHR ''t'' then Some (CHR 0x09) else None)"

text \<open>The rest of a string literal; \<open>b\<close> is the text from its opening quote on.\<close>

function scan_chars :: "string \<Rightarrow> string \<Rightarrow> json_error + string \<times> string" where
  "scan_chars b [] = Inl (UnterminatedString, b)"
| "scan_chars b (c # s) =
     (if c = quote then Inr ([], s)
      else if c = backslash then
        (case s of
           [] \<Rightarrow> Inl (UnterminatedString, b)
         | d # s1 \<Rightarrow>
             if d = CHR ''u'' then
               (case (if length s1 \<le> 4 then None else read_hex (take 4 s1)) of
                  None \<Rightarrow> Inl (InvalidUEscape, s)
                | Some n \<Rightarrow> bindR (scan_chars b (drop 4 s1)) (\<lambda>(t, r). Inr (char_of n # t, r)))
             else
               (case escaped d of
                  None \<Rightarrow> Inl (InvalidEscape, c # s)
                | Some e \<Rightarrow> bindR (scan_chars b s1) (\<lambda>(t, r). Inr (e # t, r))))
      else if (of_char c :: nat) < 32 then Inl (InvalidControl, c # s)
      else bindR (scan_chars b s) (\<lambda>(t, r). Inr (c # t, r)))"
  by pat_completeness auto
termination by (relation "measure (\<lambda>(b, s). length s)") auto

declare scan_chars.simps(2) [simp del]

text \<open>\<open>_match_number_unicode\<close>: the fraction and the exponent count only with a digit behind them.\<close>

definition scan_fraction :: "string \<Rightarrow> string" where
  "scan_fraction s =
     (if starts (CHR ''.'') s \<and> takeWhile is_digit (tl s) \<noteq> [] then CHR ''.'' # takeWhile is_digit (tl s) else [])"

definition exponent_sign :: "string \<Rightarrow> string" where
  "exponent_sign s = (if starts (CHR ''+'') s \<or> starts (CHR ''-'') s then [hd s] else [])"

definition scan_exponent :: "string \<Rightarrow> string" where
  "scan_exponent s =
     (if starts (CHR ''e'') s \<or> starts (CHR ''E'') s then
        let sign = exponent_sign (tl s); ds = takeWhile is_digit (drop (length sign) (tl s))
        in if ds = [] then [] else hd s # sign @ ds
      else [])"

definition scan_integer :: "string \<Rightarrow> string" where
  "scan_integer s = (if starts (CHR ''0'') s then ''0'' else takeWhile is_digit s)"

definition scan_number :: "(string \<Rightarrow> pyfloat) \<Rightarrow> string \<Rightarrow> json_error + pyval \<times> string" where
  "scan_number fl s =
     (let sign = (if starts (CHR ''-'') s then ''-'' else []);
          ip = scan_integer (drop (length sign) s);
          r = drop (length (sign @ ip)) s;
          fp = scan_fraction r;
          ep = scan_exponent (drop (length fp) r)
      in if ip = [] then Inl (ExpectingValue, s)
         else if fp @ ep = [] then Inr (PInt ((if sign = [] then 1 else -1) * int (read_nat ip)), r)
         else Inr (PFloat (fl (sign @ ip @ fp @ ep)), drop (length (fp @ ep)) r))"

definition literals :: "(string \<times> pyval) list" where
  "literals = [(''null'', PNone), (''true'', PBool True), (''false'', PBool False), (''NaN'', PFloat NotANumber),
     (''Infinity'', PFloat PosInf), (''-Infinity'', PFloat NegInf)]"

definition scan_atom :: "(string \<Rightarrow> pyfloat) \<Rightarrow> string \<Rightarrow> json_error + pyval \<times> string" where
  "scan_atom fl s =
     (case List.find (\<lambda>(t, v). take (length t) s = t) literals of
        Some (t, v) \<Rightarrow> Inr (v, drop (length t) s)
      | None \<Rightarrow> scan_number fl s)"

text \<open>
  \<open>scan_once\<close>, \<open>_parse_object\<close> and \<open>_parse_array\<close>; the first argument bounds the nesting and the members, and
  twice the length of the text is enough (\<open>scan_fuel\<close> below).  Objects are the pairs in order, duplicates included.
\<close>

fun scan_value :: "nat \<Rightarrow> (string \<Rightarrow> pyfloat) \<Rightarrow> string \<Rightarrow> json_error + pyval \<times> string"
and scan_members :: "nat \<Rightarrow> (string \<Rightarrow> pyfloat) \<Rightarrow> string \<Rightarrow> json_error + (string \<times> pyval) list \<times> string"
and scan_elements :: "nat \<Rightarrow> (string \<Rightarrow> pyfloat) \<Rightarrow> string \<Rightarrow> json_error + pyval list \<times> string" where
  "scan_value 0 fl s = Inl (ExpectingValue, s)"
| "scan_value (Suc n) fl s =
     (if s = [] then Inl (ExpectingValue, [])
      else if starts quote s then bindR (scan_chars s (tl s)) (\<lambda>(t, r). Inr (PStr t, r))
      else if starts (CHR ''{'') s then
        (let r = skip_ws (tl s)
         in if starts (CHR ''}'') r then Inr (PDict [], tl r)
            else bindR (scan_members n fl r) (\<lambda>(ms, r). Inr (PDict ms, r)))
      else if starts (CHR ''['') s then
        (let r = skip_ws (tl s)
         in if starts (CHR '']'') r then Inr (PList [], tl r)
            else bindR (scan_elements n fl r) (\<lambda>(vs, r). Inr (PList vs, r)))
      else scan_atom fl s)"
| "scan_members 0 fl s = Inl (ExpectingName, s)"
| "scan_members (Suc n) fl s =
     (if \<not> starts quote s then Inl (ExpectingName, s)
      else bindR (scan_chars s (tl s)) (\<lambda>(k, r1).
        let r2 = skip_ws r1 in
        if \<not> starts (CHR '':'') r2 then Inl (ExpectingColon, r2)
        else bindR (scan_value n fl (skip_ws (tl r2))) (\<lambda>(v, r3).
          let r4 = skip_ws r3 in
          if starts (CHR ''}'') r4 then Inr ([(k, v)], tl r4)
          else if \<not> starts (CHR '','') r4 then Inl (ExpectingComma, r4)
          else bindR (scan_members n fl (skip_ws (tl r4))) (\<lambda>(ms, r5). Inr ((k, v) # ms, r5)))))"
| "scan_elements 0 fl s = Inl (ExpectingValue, s)"
| "scan_elements (Suc n) fl s =
     bindR (scan_value n fl s) (\<lambda>(v, r1).
       let r2 = skip_ws r1 in
       if starts (CHR '']'') r2 then Inr ([v], tl r2)
       else if \<not> starts (CHR '','') r2 then Inl (ExpectingComma, r2)
       else bindR (scan_elements n fl (skip_ws (tl r2))) (\<lambda>(vs, r3). Inr (v # vs, r3)))"

declare scan_value.simps(2) [simp del] scan_members.simps(2) [simp del] scan_elements.simps(2) [simp del]

definition raw_loads :: "(string \<Rightarrow> pyfloat) \<Rightarrow> string \<Rightarrow> json_error + pyval" where
  "raw_loads fl s =
     bindR (scan_value (2 * length s + 2) fl (skip_ws s)) (\<lambda>(v, r).
       if skip_ws r = [] then Inr v else Inl (ExtraData, skip_ws r))"

text \<open>Without a hook the last of several equal keys wins.\<close>

fun last_wins :: "pyval \<Rightarrow> pyval" where
  "last_wins (PDict d) = PDict (foldl (\<lambda>a (k, v). dput k v a) [] (map (\<lambda>(k, v). (k, last_wins v)) d))"
| "last_wins (PList vs) = PList (map last_wins vs)"
| "last_wins v = v"

definition loads :: "(string \<Rightarrow> pyfloat) \<Rightarrow> string \<Rightarrow> json_error + pyval" where
  "loads fl s = bindR (raw_loads fl s) (\<lambda>v. Inr (last_wins v))"

section \<open>Torn fragments\<close>

definition number_tails :: "string list" where
  "number_tails = [''.'', ''e'', ''E'', ''e+'', ''e-'', ''E+'', ''E-'']"

definition torn_error :: "json_error \<Rightarrow> bool" where
  "torn_error e =
     (let (problem, suffix) = e in
      if suffix = [] \<or> problem = UnterminatedString then True
      else if problem = ExpectingValue \<and> (suffix = ''-'' \<or> list_ex (prefix suffix) [''true'', ''false'', ''null''])
      then True
      else if problem = InvalidUEscape \<and> starts (CHR ''u'') suffix then length suffix < 5
      else problem = ExpectingComma \<and> suffix \<in> set number_tails)"

definition torn_fragment :: "(string \<Rightarrow> pyfloat) \<Rightarrow> string \<Rightarrow> bool" where
  "torn_fragment fl s = (case raw_loads fl s of Inl e \<Rightarrow> torn_error e | Inr _ \<Rightarrow> False)"

section \<open>String literals\<close>

lemma starts_simps [simp]: "\<not> starts c []" "starts c (x # s) \<longleftrightarrow> x = c"
  by (auto simp: starts_def)

lemma hex_value_digit: "n < 16 \<Longrightarrow> hex_value (hex_digit n) = Some n"
  by (auto simp: hex_value_def hex_digit_def is_digit_iff less_eq_char_def)

lemma scan_char_cases:
  assumes "s \<noteq> []"
  shows "scan_chars b (ascii_char c @ s) = bindR (scan_chars b s) (\<lambda>(t, r). Inr (c # t, r))"
proof -
  have "(of_char c :: nat) div 16 < 16" by (simp add: div_less_iff_less_mult)
  moreover have "hex_value (CHR ''0'') = Some 0" by code_simp
  ultimately have "read_hex [CHR ''0'', CHR ''0'', hex_digit (of_char c div 16), hex_digit (of_char c mod 16)] = Some (of_char c)"
    by (simp add: read_hex_def hex_value_digit)
  then show ?thesis
    using assms by (cases s) (auto simp: ascii_char_def scan_chars.simps(2) quote_def backslash_def escaped_def)
qed

lemma scan_ascii_chars: "scan_chars b (concat (map ascii_char t) @ quote # r) = Inr (t, r)"
  by (induction t) (simp_all add: scan_char_cases scan_chars.simps(2))

text \<open>Characters written as a \<open>\uXXXX\<close> escape.\<close>

definition escapes_unicode :: "char \<Rightarrow> bool" where
  "escapes_unicode c \<longleftrightarrow> length (ascii_char c) = 6"

lemma scan_torn_char:
  assumes "strict_prefix p (ascii_char c)" and "\<not> escapes_unicode c"
  shows "scan_chars b p = Inl (UnterminatedString, b)"
proof -
  have "p = [] \<or> p = [backslash]"
    using assms by (auto simp: ascii_char_def escapes_unicode_def strict_prefix_def prefix_Cons split: if_splits)
  then show ?thesis by (auto simp: scan_chars.simps(2) quote_def backslash_def)
qed

lemma strict_prefix_append:
  "strict_prefix p (xs @ ys) \<longleftrightarrow> strict_prefix p xs \<or> (\<exists>q. p = xs @ q \<and> strict_prefix q ys)"
  by (auto simp: strict_prefix_def prefix_append)

lemma strict_prefix_Cons_iff: "strict_prefix p (x # ys) \<longleftrightarrow> p = [] \<or> (\<exists>q. p = x # q \<and> strict_prefix q ys)"
  by (auto simp: strict_prefix_def prefix_Cons)

lemma scan_torn_chars:
  assumes "strict_prefix p (concat (map ascii_char t) @ [quote])" and "list_all (\<lambda>c. \<not> escapes_unicode c) t"
  shows "scan_chars b p = Inl (UnterminatedString, b)"
  using assms
proof (induction t arbitrary: p)
  case Nil
  then show ?case by (auto simp: strict_prefix_Cons_iff)
next
  case (Cons c t)
  show ?case
  proof (cases "strict_prefix p (ascii_char c)")
    case True
    then show ?thesis using scan_torn_char Cons.prems by simp
  next
    case False
    then obtain q where p: "p = ascii_char c @ q" and q: "strict_prefix q (concat (map ascii_char t) @ [quote])"
      using Cons.prems by (auto simp: strict_prefix_append)
    have IH: "scan_chars b q = Inl (UnterminatedString, b)" using Cons q by simp
    show ?thesis
    proof (cases "q = []")
      case True
      have "\<not> escapes_unicode c" using Cons.prems by simp
      then show ?thesis
        using p True by (auto simp: ascii_char_def escapes_unicode_def scan_chars.simps(2) escaped_def quote_def backslash_def
            split: if_splits)
    next
      case False
      then show ?thesis using p IH by (simp add: scan_char_cases)
    qed
  qed
qed

section \<open>Numbers\<close>

text \<open>The parts of a number: sign, integer, fraction and exponent.\<close>

definition number_parts :: "string \<Rightarrow> string \<Rightarrow> string \<Rightarrow> string \<Rightarrow> bool" where
  "number_parts sg ip fp ep \<longleftrightarrow>
     (sg = [] \<or> sg = ''-'') \<and> (ip = ''0'' \<or> ip \<noteq> [] \<and> list_all is_digit ip \<and> hd ip \<noteq> CHR ''0'') \<and>
     (fp = [] \<or> (\<exists>ds. fp = CHR ''.'' # ds \<and> ds \<noteq> [] \<and> list_all is_digit ds)) \<and>
     (ep = [] \<or> (\<exists>c s ds. ep = c # s @ ds \<and> c \<in> set ''eE'' \<and> s \<in> {[], ''+'', ''-''} \<and> ds \<noteq> [] \<and> list_all is_digit ds))"

definition float_literal :: "string \<Rightarrow> bool" where
  "float_literal t \<longleftrightarrow> (\<exists>sg ip fp ep. t = sg @ ip @ fp @ ep \<and> number_parts sg ip fp ep \<and> fp @ ep \<noteq> [])"

text \<open>What may follow a number without being taken for a part of it.\<close>

definition stops :: "string \<Rightarrow> bool" where
  "stops r \<longleftrightarrow> takeWhile is_digit r = [] \<and> scan_fraction r = [] \<and> scan_exponent r = []"

lemma digit_chars [simp]:
  "is_digit (CHR ''0'')" "\<not> is_digit (CHR ''-'')" "\<not> is_digit (CHR ''+'')" "\<not> is_digit (CHR ''.'')"
  "\<not> is_digit (CHR ''e'')" "\<not> is_digit (CHR ''E'')" "\<not> is_digit (CHR '','')" "\<not> is_digit (CHR '']'')" "\<not> is_digit (CHR ''}'')"
  by (simp_all add: is_digit_iff)

lemma takeWhile_digits: "list_all is_digit ds \<Longrightarrow> takeWhile is_digit (ds @ r) = ds @ takeWhile is_digit r"
  by (induction ds) auto

lemma stops_simps [simp]:
  "stops []" "stops (CHR '','' # r)" "stops (CHR '']'' # r)" "stops (CHR ''}'' # r)"
  by (simp_all add: stops_def scan_fraction_def scan_exponent_def)

lemma stops_tails: "r \<in> set number_tails \<Longrightarrow> stops r"
  by (auto simp: number_tails_def stops_def scan_fraction_def scan_exponent_def exponent_sign_def Let_def)

lemma scan_fraction_parts:
  assumes "fp = [] \<or> (\<exists>ds. fp = CHR ''.'' # ds \<and> ds \<noteq> [] \<and> list_all is_digit ds)"
    and "takeWhile is_digit r = []" and "fp = [] \<Longrightarrow> scan_fraction r = []"
  shows "scan_fraction (fp @ r) = fp"
  using assms by (auto simp: scan_fraction_def takeWhile_digits)

lemma scan_exponent_parts:
  assumes "ep = [] \<or> (\<exists>c s ds. ep = c # s @ ds \<and> c \<in> set ''eE'' \<and> s \<in> {[], ''+'', ''-''} \<and> ds \<noteq> [] \<and> list_all is_digit ds)"
    and "stops r"
  shows "scan_exponent (ep @ r) = ep"
proof (cases "ep = []")
  case True
  then show ?thesis using assms(2) by (simp add: stops_def)
next
  case False
  then obtain c s ds where ep: "ep = c # s @ ds" and c: "c \<in> set ''eE''" and s: "s \<in> {[], ''+'', ''-''}"
    and ds: "ds \<noteq> []" "list_all is_digit ds"
    using assms(1) by auto
  have t: "takeWhile is_digit (ds @ r) = ds" using ds assms(2) by (simp add: takeWhile_digits stops_def)
  have "is_digit (hd ds)" using ds by (cases ds) auto
  then have "exponent_sign (s @ ds @ r) = s"
    using s ds by (cases ds) (auto simp: exponent_sign_def)
  then show ?thesis using c s t ds by (auto simp: ep scan_exponent_def Let_def)
qed

lemma fraction_exponent_head:
  assumes "number_parts sg ip fp ep" and "stops r"
  shows "takeWhile is_digit (fp @ ep @ r) = []" and "takeWhile is_digit (ep @ r) = []"
    and "scan_fraction (ep @ r) = []"
proof -
  show "takeWhile is_digit (fp @ ep @ r) = []" and "takeWhile is_digit (ep @ r) = []"
    using assms by (auto simp: number_parts_def stops_def)
  show "scan_fraction (ep @ r) = []"
  proof (cases ep)
    case (Cons c e)
    then have "c \<noteq> CHR ''.''" using assms(1) by (auto simp: number_parts_def)
    then show ?thesis using Cons by (simp add: scan_fraction_def)
  qed (use assms(2) in \<open>simp add: stops_def\<close>)
qed

lemma scan_number_parts:
  assumes "number_parts sg ip fp ep" and "stops r"
  shows "scan_number fl (sg @ ip @ fp @ ep @ r) =
    Inr (if fp @ ep = [] then PInt ((if sg = [] then 1 else -1) * int (read_nat ip)) else PFloat (fl (sg @ ip @ fp @ ep)), r)"
proof -
  have ip: "ip \<noteq> []" "is_digit (hd ip)" using assms(1) by (cases ip; auto simp: number_parts_def)+
  have sign: "(if starts (CHR ''-'') (sg @ ip @ fp @ ep @ r) then ''-'' else []) = sg"
    using assms(1) ip by (cases ip) (auto simp: number_parts_def)
  have integer: "scan_integer (ip @ fp @ ep @ r) = ip"
    using assms(1) ip fraction_exponent_head(1) [OF assms]
    by (cases ip) (auto simp: number_parts_def scan_integer_def takeWhile_digits)
  have fraction: "scan_fraction (fp @ ep @ r) = fp"
    using assms fraction_exponent_head [OF assms] by (intro scan_fraction_parts) (simp_all add: number_parts_def)
  have exponent: "scan_exponent (ep @ r) = ep"
    using assms by (intro scan_exponent_parts) (simp_all add: number_parts_def)
  show ?thesis
    using ip sign integer fraction exponent
    by (cases "fp = []"; cases "ep = []") (simp_all add: scan_number_def Let_def)
qed

lemma show_nat_head: "0 < n \<Longrightarrow> hd (show_nat n) \<noteq> CHR ''0''"
proof (induction n rule: show_nat.induct)
  case (1 n)
  show ?case
  proof (cases "n < 10")
    case True
    have "digit_char n \<noteq> CHR ''0''"
      using True 1(2) char_digit_digit_char [of n] by (auto simp: char_digit_def)
    then show ?thesis using True by (subst show_nat.simps) simp
  next
    case False
    then show ?thesis using 1 by (subst show_nat.simps) simp
  qed
qed

lemma show_nat_zero: "show_nat 0 = ''0''"
  by code_simp

lemma show_int_parts:
  "\<exists>sg ip. show_int i = sg @ ip \<and> number_parts sg ip [] [] \<and> i = (if sg = [] then 1 else -1) * int (read_nat ip)"
proof -
  have nat: "number_parts sg (show_nat n) [] []" if "sg = [] \<or> sg = ''-''" for sg n
    using that show_nat_zero show_nat_head [of n] show_nat_digits [of _ n]
    by (cases "n = 0") (auto simp: number_parts_def list_all_iff)
  show ?thesis
  proof (cases "i < 0")
    case True
    then show ?thesis
      by (intro exI [of _ "''-''"] exI [of _ "show_nat (nat (- i))"]) (simp add: show_int_def nat)
  next
    case False
    then show ?thesis
      by (intro exI [of _ "[]"] exI [of _ "show_nat (nat i)"]) (simp add: show_int_def nat)
  qed
qed

text \<open>What the scanner makes of a number cut short.\<close>

definition number_cut :: "json_error + pyval \<times> string \<Rightarrow> string \<Rightarrow> bool" where
  "number_cut res p \<longleftrightarrow> p = [] \<or> p = ''-'' \<or> (\<exists>v r. res = Inr (v, r) \<and> r \<in> insert [] (set number_tails))"

lemma scan_number_prefix:
  assumes parts: "number_parts sg ip fp ep" and p: "strict_prefix p (sg @ ip @ fp @ ep)"
  shows "number_cut (scan_number fl p) p"
proof -
  have full: "number_cut (scan_number fl (sg @ ip' @ fp' @ ep' @ r)) q"
    if "number_parts sg ip' fp' ep'" "r \<in> insert [] (set number_tails)" for ip' fp' ep' r q
    using that scan_number_parts [of sg ip' fp' ep' r fl] stops_tails [of r] by (auto simp: number_cut_def)
  have sg: "strict_prefix p sg \<Longrightarrow> p = []"
    using parts by (auto simp: number_parts_def strict_prefix_Cons_iff)
  consider "p = []" | q where "p = sg @ q" "strict_prefix q ip"
    | q where "p = sg @ ip @ q" "strict_prefix q fp" | q where "p = sg @ ip @ fp @ q" "strict_prefix q ep"
    using p sg by (auto simp: strict_prefix_append)
  then show ?thesis
  proof cases
    case 1
    then show ?thesis by (simp add: number_cut_def)
  next
    case (2 q)
    show ?thesis
    proof (cases "q = []")
      case True
      then show ?thesis using 2 parts by (auto simp: number_cut_def number_parts_def)
    next
      case False
      obtain z where ip: "ip = q @ z" and "z \<noteq> []" using 2(2) by (auto simp: strict_prefix_def prefix_def)
      then have "number_parts sg q [] []"
        using parts False by (cases q) (auto simp: number_parts_def)
      then show ?thesis using full [of q "[]" "[]" "[]"] 2 by simp
    qed
  next
    case (3 q)
    then obtain ds where fp: "fp = CHR ''.'' # ds" "ds \<noteq> []" "list_all is_digit ds"
      using parts by (auto simp: number_parts_def)
    consider "q = []" | "q = ''.''" | ds' where "q = CHR ''.'' # ds'" "ds' \<noteq> []" "strict_prefix ds' ds"
      using 3 fp by (auto simp: strict_prefix_Cons_iff)
    then show ?thesis
    proof cases
      case 1
      then show ?thesis using full [of ip "[]" "[]" "[]"] parts 3 by (simp add: number_parts_def)
    next
      case 2
      then show ?thesis using full [of ip "[]" "[]" "''.''"] parts 3 by (simp add: number_parts_def number_tails_def)
    next
      case (3 ds')
      then have "list_all is_digit ds'" using fp by (auto simp: strict_prefix_def prefix_def)
      then have "number_parts sg ip q []" using 3 parts by (auto simp: number_parts_def)
      then show ?thesis using full [of ip q "[]" "[]"] \<open>p = sg @ ip @ q\<close> by simp
    qed
  next
    case (4 q)
    then obtain c s ds where ep: "ep = c # s @ ds" "c \<in> set ''eE''" "s \<in> {[], ''+'', ''-''}" "ds \<noteq> []" "list_all is_digit ds"
      using parts by (auto simp: number_parts_def)
    consider "q \<in> insert [] (set number_tails)" | ds' where "q = c # s @ ds'" "ds' \<noteq> []" "strict_prefix ds' ds"
      using 4(2) ep by (auto simp: strict_prefix_Cons_iff strict_prefix_append number_tails_def)
    then show ?thesis
    proof cases
      case 1
      then show ?thesis using full [of ip fp "[]" q] parts 4 by (simp add: number_parts_def)
    next
      case (2 ds')
      then have "list_all is_digit ds'" using ep by (auto simp: strict_prefix_def prefix_def)
      then have "number_parts sg ip fp q" using 2 parts ep by (auto simp: number_parts_def)
      then show ?thesis using full [of ip fp q "[]"] 4 by simp
    qed
  qed
qed

section \<open>Values\<close>

text \<open>Values whose text reads back: finite floats whose \<open>repr\<close> is a float literal of the same value.\<close>

fun readable :: "(pyfloat \<Rightarrow> string) \<Rightarrow> (string \<Rightarrow> pyfloat) \<Rightarrow> pyval \<Rightarrow> bool" where
  "readable rep fl (PFloat f) = (isfinite f \<and> float_literal (rep f) \<and> fl (rep f) = f)"
| "readable rep fl (PDec d) = False"
| "readable rep fl (PList vs) = list_all (readable rep fl) vs"
| "readable rep fl (PDict d) = (wf_dict d \<and> list_all (\<lambda>p. readable rep fl (snd p)) d)"
| "readable rep fl v = True"

fun sorted_keys :: "pyval \<Rightarrow> pyval" where
  "sorted_keys (PDict d) = PDict (sort_key fst (map (\<lambda>(k, v). (k, sorted_keys v)) d))"
| "sorted_keys (PList vs) = PList (map sorted_keys vs)"
| "sorted_keys v = v"

lemma insort_map_snd:
  "insort_key fst (k, g v) (map (\<lambda>(k, v). (k, g v)) d) = map (\<lambda>(k, v). (k, g v)) (insort_key fst (k, v) d)"
  by (induction d) auto

lemma sort_map_snd:
  "sort_key fst (map (\<lambda>(k, v). (k, g v)) d) = map (\<lambda>(k, v). (k, g v)) (sort_key fst d)"
  by (induction d) (auto simp: insort_map_snd)

definition member_text :: "string \<times> string \<Rightarrow> string" where
  "member_text = (\<lambda>(k, t). ascii_string k @ CHR '':'' # t)"

lemma json_text_dict:
  "json_text rep (PDict d) =
     CHR ''{'' # join (CHR '','') (map (\<lambda>(k, v). member_text (k, json_text rep v)) (sort_key fst d)) @ ''}''"
  by (simp only: json_text.simps sort_map_snd map_map) (simp add: member_text_def comp_def case_prod_unfold)

declare json_text.simps(8) [simp del]

text \<open>The first character of a text, and that it is not taken for white space.\<close>

definition solid :: "string \<Rightarrow> bool" where
  "solid s \<longleftrightarrow> s \<noteq> [] \<and> \<not> json_space (hd s)"

lemma skip_ws_solid: "solid s \<Longrightarrow> skip_ws (s @ r) = s @ r"
  by (cases s) (auto simp: solid_def skip_ws_def)

lemma skip_ws_Nil [simp]: "skip_ws [] = []"
  by (simp add: skip_ws_def)

lemma solid_Cons [simp]: "solid (c # s) \<longleftrightarrow> \<not> json_space c"
  by (simp add: solid_def)

lemma skip_ws_char [simp]: "\<not> json_space c \<Longrightarrow> skip_ws (c # s) = c # s"
  by (simp add: skip_ws_def)

lemma json_space_simps [simp]:
  "\<not> json_space quote" "\<not> json_space (CHR '':'')" "\<not> json_space (CHR '','')" "\<not> json_space (CHR ''{'')"
  "\<not> json_space (CHR ''}'')" "\<not> json_space (CHR ''['')" "\<not> json_space (CHR '']'')" "\<not> json_space (CHR ''-'')"
  "is_digit c \<Longrightarrow> \<not> json_space c"
  by (auto simp: json_space_def quote_def is_digit_iff)

text \<open>The start of a number: where the scanner goes straight to \<open>_match_number\<close>.\<close>

definition number_start :: "string \<Rightarrow> bool" where
  "number_start s \<longleftrightarrow> (\<exists>c r. s = c # r \<and> is_digit c) \<or> (\<exists>c r. s = CHR ''-'' # c # r \<and> is_digit c) \<or> s = ''-''"

lemma scan_value_number: "number_start s \<Longrightarrow> scan_value (Suc n) fl s = scan_number fl s"
proof -
  have c: "c \<noteq> quote \<and> c \<notin> set ''{[ntfNI-''" if "is_digit c" for c
    using that by (auto simp: quote_def is_digit_iff)
  assume "number_start s"
  then consider c r where "s = c # r" "is_digit c" | c r where "s = CHR ''-'' # c # r" "is_digit c" | "s = ''-''"
    by (auto simp: number_start_def)
  then show ?thesis
  proof cases
    case 1
    then show ?thesis using c [of "hd s"] by (simp add: scan_value.simps(2) scan_atom_def literals_def)
  next
    case 2
    then show ?thesis using c [of "hd (tl s)"]
      by (simp add: scan_value.simps(2) scan_atom_def literals_def quote_def)
  next
    case 3
    then show ?thesis by (simp add: scan_value.simps(2) scan_atom_def literals_def quote_def)
  qed
qed

lemma number_start_parts:
  assumes "number_parts sg ip fp ep"
  shows "number_start (sg @ ip @ r)"
  using assms by (cases ip) (auto simp: number_parts_def number_start_def)

lemma number_start_solid: "number_start s \<Longrightarrow> solid s"
  by (auto simp: number_start_def)

lemma number_start_prefix: "number_start s \<Longrightarrow> prefix p s \<Longrightarrow> p \<noteq> [] \<Longrightarrow> number_start p"
  by (auto simp: number_start_def prefix_Cons)

lemma scan_parts_text:
  assumes "number_parts sg ip fp ep" and "t = sg @ ip @ fp @ ep" and "stops r"
  shows "scan_value (Suc n) fl (t @ r) = scan_number fl (t @ r)"
  using assms number_start_parts [of sg ip fp ep "fp @ ep @ r"] by (simp add: scan_value_number)

lemma scan_int_text:
  assumes "stops r"
  shows "solid (show_int i)" and "scan_value (Suc n) fl (show_int i @ r) = Inr (PInt i, r)"
proof -
  obtain sg ip where t: "show_int i = sg @ ip" and p: "number_parts sg ip [] []"
    and i: "i = (if sg = [] then 1 else -1) * int (read_nat ip)"
    using show_int_parts by blast
  show "scan_value (Suc n) fl (show_int i @ r) = Inr (PInt i, r)"
    using scan_number_parts [OF p assms, of fl] scan_parts_text [OF p _ assms] t i by simp
  show "solid (show_int i)" using number_start_solid [OF number_start_parts [OF p, of "[]"]] t by simp
qed

lemma scan_float_text:
  assumes "stops r" and "float_literal t"
  shows "solid t" and "scan_value (Suc n) fl (t @ r) = Inr (PFloat (fl t), r)"
proof -
  obtain sg ip fp ep where t: "t = sg @ ip @ fp @ ep" and p: "number_parts sg ip fp ep" and ne: "fp @ ep \<noteq> []"
    using assms(2) by (auto simp: float_literal_def)
  show "scan_value (Suc n) fl (t @ r) = Inr (PFloat (fl t), r)"
    using scan_number_parts [OF p assms(1), of fl] scan_parts_text [OF p t assms(1)] t ne by auto
  show "solid t" using number_start_solid [OF number_start_parts [OF p, of "fp @ ep"]] t by simp
qed

lemma scan_string_text: "scan_value (Suc n) fl (ascii_string s @ r) = Inr (PStr s, r)"
  by (simp add: scan_value.simps(2) ascii_string_def scan_ascii_chars)

text \<open>A text that reads back as a value before anything that can follow a value.\<close>

definition reads_as :: "(string \<Rightarrow> pyfloat) \<Rightarrow> string \<Rightarrow> pyval \<Rightarrow> bool" where
  "reads_as fl t v \<longleftrightarrow> solid t \<and> (\<forall>n r. length t \<le> n \<longrightarrow> stops r \<longrightarrow> scan_value (Suc n) fl (t @ r) = Inr (v, r))"

lemma reads_asD: "reads_as fl t v \<Longrightarrow> length t < n \<Longrightarrow> stops r \<Longrightarrow> scan_value n fl (t @ r) = Inr (v, r)"
  by (cases n) (auto simp: reads_as_def)

lemma member_text_length: "length (member_text (k, t)) = length (ascii_string k) + Suc (length t)"
  by (simp add: member_text_def)

lemma scan_members_text:
  assumes "ms \<noteq> []" and "\<And>k t v. (k, t, v) \<in> set ms \<Longrightarrow> reads_as fl t v"
    and "length (join (CHR '','') (map (\<lambda>(k, t, v). member_text (k, t)) ms)) < n"
  shows "scan_members n fl (join (CHR '','') (map (\<lambda>(k, t, v). member_text (k, t)) ms) @ CHR ''}'' # r) =
    Inr (map (\<lambda>(k, t, v). (k, v)) ms, r)"
  using assms
proof (induction ms arbitrary: n)
  case (Cons m ms)
  obtain k t v where m: "m = (k, t, v)" by (cases m)
  obtain n' where n: "n = Suc n'" using Cons.prems(3) by (cases n) auto
  have t: "reads_as fl t v" using Cons.prems(2) [of k t v] m by simp
  have solid: "solid t" using t by (simp add: reads_as_def)
  let ?rest = "if ms = [] then CHR ''}'' # r
     else CHR '','' # join (CHR '','') (map (\<lambda>(k, t, v). member_text (k, t)) ms) @ CHR ''}'' # r"
  have shape: "join (CHR '','') (map (\<lambda>(k, t, v). member_text (k, t)) (m # ms)) @ CHR ''}'' # r =
      quote # concat (map ascii_char k) @ quote # CHR '':'' # t @ ?rest"
    using m by (cases ms) (auto simp: member_text_def ascii_string_def)
  have here: "scan_value n' fl (t @ ?rest) = Inr (v, ?rest)"
    using Cons.prems(3) n m by (intro reads_asD [OF t]) (cases ms; auto simp: member_text_def)+
  have step: "scan_members n fl (quote # concat (map ascii_char k) @ quote # CHR '':'' # t @ ?rest) =
      (if starts (CHR ''}'') ?rest then Inr ([(k, v)], tl ?rest)
       else bindR (scan_members n' fl (skip_ws (tl ?rest))) (\<lambda>(ms, r5). Inr ((k, v) # ms, r5)))"
    unfolding n using here solid
    by (simp add: scan_members.simps(2) scan_ascii_chars skip_ws_solid split del: if_split) simp
  show ?case
  proof (cases "ms = []")
    case True
    then show ?thesis using shape step m by simp
  next
    case False
    have "solid (join (CHR '','') (map (\<lambda>(k, t, v). member_text (k, t)) ms))"
      using False by (cases ms; cases "tl ms") (auto simp: member_text_def ascii_string_def)
    moreover have "scan_members n' fl (join (CHR '','') (map (\<lambda>(k, t, v). member_text (k, t)) ms) @ CHR ''}'' # r) =
        Inr (map (\<lambda>(k, t, v). (k, v)) ms, r)"
      using Cons.prems n False by (intro Cons.IH) (cases ms; auto)+
    ultimately show ?thesis using shape step m False by (simp add: skip_ws_solid)
  qed
qed simp

lemma scan_elements_text:
  assumes "es \<noteq> []" and "\<And>t v. (t, v) \<in> set es \<Longrightarrow> reads_as fl t v"
    and "length (join (CHR '','') (map fst es)) + 1 < n"
  shows "scan_elements n fl (join (CHR '','') (map fst es) @ CHR '']'' # r) = Inr (map snd es, r)"
  using assms
proof (induction es arbitrary: n)
  case (Cons e es)
  obtain t v where e: "e = (t, v)" by (cases e)
  obtain n' where n: "n = Suc n'" using Cons.prems(3) by (cases n) auto
  have t: "reads_as fl t v" using Cons.prems(2) [of t v] e by simp
  have solid: "solid t" using t by (simp add: reads_as_def)
  let ?rest = "if es = [] then CHR '']'' # r else CHR '','' # join (CHR '','') (map fst es) @ CHR '']'' # r"
  have shape: "join (CHR '','') (map fst (e # es)) @ CHR '']'' # r = t @ ?rest"
    using e by (cases es) auto
  have here: "scan_value n' fl (t @ ?rest) = Inr (v, ?rest)"
    using Cons.prems(3) n e by (intro reads_asD [OF t]) (cases es; auto)+
  have step: "scan_elements n fl (t @ ?rest) =
      (if starts (CHR '']'') ?rest then Inr ([v], tl ?rest)
       else bindR (scan_elements n' fl (skip_ws (tl ?rest))) (\<lambda>(vs, r3). Inr (v # vs, r3)))"
    unfolding n using here by (simp add: scan_elements.simps(2) split del: if_split) simp
  show ?case
  proof (cases "es = []")
    case True
    then show ?thesis using shape step e by simp
  next
    case False
    have "solid (fst (hd es))" using Cons.prems(2) [of "fst (hd es)" "snd (hd es)"] False by (cases es) (auto simp: reads_as_def)
    then have "solid (join (CHR '','') (map fst es))"
      using False by (cases es; cases "tl es") (auto simp: solid_def)
    moreover have "scan_elements n' fl (join (CHR '','') (map fst es) @ CHR '']'' # r) = Inr (map snd es, r)"
      using Cons.prems n False solid by (intro Cons.IH) (cases es; auto simp: solid_def)+
    ultimately show ?thesis using shape step e False by (simp add: skip_ws_solid)
  qed
qed simp

lemma reads_as_bracket:
  assumes "reads_as fl t v"
  shows "\<not> starts (CHR '']'') (t @ r)"
proof
  assume "starts (CHR '']'') (t @ r)"
  then obtain t' where t: "t = CHR '']'' # t'" using assms by (cases t) (auto simp: reads_as_def solid_def)
  have "scan_value (Suc (length t)) fl (t @ []) = Inr (v, [])"
    using assms by (intro reads_asD) simp_all
  then show False
    by (simp add: t scan_value.simps(2) scan_atom_def literals_def scan_number_def scan_integer_def quote_def)
qed

lemma join_head: "ts \<noteq> [] \<Longrightarrow> \<exists>r. join c ts = hd ts @ r"
  by (cases ts; cases "tl ts") auto

lemma reads_json: "readable rep fl v \<Longrightarrow> reads_as fl (json_text rep v) (sorted_keys v)"
proof (induction v)
  case (PBool b)
  then show ?case by (auto simp: reads_as_def json_space_def scan_value.simps(2) scan_atom_def literals_def quote_def)
next
  case PNone
  then show ?case by (auto simp: reads_as_def json_space_def scan_value.simps(2) scan_atom_def literals_def quote_def)
next
  case (PInt i)
  then show ?case using scan_int_text scan_int_text(1) [of "[]"] by (simp add: reads_as_def)
next
  case (PFloat f)
  then show ?case using scan_float_text [of _ "rep f"] scan_float_text(1) [of "[]" "rep f"] by (cases f) (auto simp: reads_as_def)
next
  case (PStr s)
  then show ?case using scan_string_text by (simp add: reads_as_def) (simp add: ascii_string_def)
next
  case (PList vs)
  let ?es = "map (\<lambda>v. (json_text rep v, sorted_keys v)) vs"
  have elements: "scan_elements n fl (join (CHR '','') (map (json_text rep) vs) @ CHR '']'' # r) = Inr (map sorted_keys vs, r)"
    if "vs \<noteq> []" and "length (join (CHR '','') (map (json_text rep) vs)) + 1 < n" for n r
    using that PList scan_elements_text [of ?es fl n r] by (auto simp: comp_def list_all_iff)
  have "solid (join (CHR '','') (map (json_text rep) vs))" and
    "\<not> starts (CHR '']'') (join (CHR '','') (map (json_text rep) vs) @ r)" if "vs \<noteq> []" for r
  proof -
    have h: "reads_as fl (json_text rep (hd vs)) (sorted_keys (hd vs))" using that PList by (cases vs) auto
    obtain u where u: "join (CHR '','') (map (json_text rep) vs) = json_text rep (hd vs) @ u"
      using join_head [of "map (json_text rep) vs" "CHR '',''"] \<open>vs \<noteq> []\<close> by (auto simp: hd_map)
    show "solid (join (CHR '','') (map (json_text rep) vs))" using h u by (auto simp: reads_as_def solid_def)
    show "\<not> starts (CHR '']'') (join (CHR '','') (map (json_text rep) vs) @ r)"
      using reads_as_bracket [OF h] u by simp
  qed
  then show ?case
    using elements
    by (cases "vs = []") (simp_all add: reads_as_def scan_value.simps(2) quote_def skip_ws_solid Let_def)
next
  case (PDict d)
  let ?ms = "map (\<lambda>(k, v). (k, json_text rep v, sorted_keys v)) (sort_key fst d)"
  let ?J = "join (CHR '','') (map (\<lambda>(k, v). member_text (k, json_text rep v)) (sort_key fst d))"
  have members: "scan_members n fl (?J @ CHR ''}'' # r) = Inr (map (\<lambda>(k, v). (k, sorted_keys v)) (sort_key fst d), r)"
    if "d \<noteq> []" and "length ?J < n" for n r
  proof -
    have j: "map (\<lambda>(k, t, v). member_text (k, t)) ?ms = map (\<lambda>(k, v). member_text (k, json_text rep v)) (sort_key fst d)"
      by (simp add: comp_def case_prod_unfold)
    have v: "map (\<lambda>(k, t, v). (k, v)) ?ms = map (\<lambda>(k, v). (k, sorted_keys v)) (sort_key fst d)"
      by (simp add: comp_def case_prod_unfold)
    have "sort_key fst d \<noteq> []" using that(1) by (metis set_empty set_sort)
    then show ?thesis
      using scan_members_text [of ?ms fl n r] PDict that(2) unfolding j v
      by (fastforce simp: list_all_iff)
  qed
  have "solid ?J" and "\<not> starts (CHR ''}'') (?J @ r)" if "d \<noteq> []" for r
  proof -
    have "sort_key fst d \<noteq> []" using that by (metis set_empty set_sort)
    then have "\<exists>t. ?J = quote # t"
      by (cases "sort_key fst d"; cases "tl (sort_key fst d)") (auto simp: member_text_def ascii_string_def)
    then show "solid ?J" and "\<not> starts (CHR ''}'') (?J @ r)" by (auto simp: quote_def json_space_def)
  qed
  then show ?case
    using members
    by (cases "d = []")
      (simp_all add: reads_as_def scan_value.simps(2) quote_def skip_ws_solid Let_def json_text_dict sort_map_snd)
qed simp_all

section \<open>What is written is read back\<close>

lemma foldl_dput:
  "distinct (map fst (acc @ ms)) \<Longrightarrow> foldl (\<lambda>a (k, v). dput k v a) acc ms = acc @ ms"
proof (induction ms arbitrary: acc)
  case (Cons m ms)
  obtain k v where m: "m = (k, v)" by (cases m)
  have "dget acc k = None" using Cons.prems by (auto simp: m map_of_eq_None_iff)
  then show ?case using Cons by (simp add: m dput_fresh)
qed simp

lemma keys_sorted: "mset (map fst (sort_key fst (map (\<lambda>(k, v). (k, g v)) d))) = mset (map fst d)"
proof -
  have "map fst (sort_key fst (map (\<lambda>(k, v). (k, g v)) d)) = map fst (sort_key fst d)"
    unfolding sort_map_snd by (simp add: comp_def case_prod_unfold)
  then show ?thesis by (simp add: mset_map)
qed

lemma last_wins_sorted: "readable rep fl v \<Longrightarrow> last_wins (sorted_keys v) = sorted_keys v"
proof (induction v)
  case (PDict d)
  have "map (\<lambda>(k, v). (k, last_wins v)) (sort_key fst (map (\<lambda>(k, v). (k, sorted_keys v)) d)) =
      sort_key fst (map (\<lambda>(k, v). (k, sorted_keys v)) d)"
    using PDict by (intro map_idI) (fastforce simp: list_all_iff)
  moreover have "distinct (map fst (sort_key fst (map (\<lambda>(k, v). (k, sorted_keys v)) d)))"
    using PDict.prems keys_sorted [where g = sorted_keys and d = d] by (metis mset_eq_imp_distinct_iff readable.simps(4))
  ultimately show ?case using foldl_dput [of "[]"] by simp
next
  case (PList vs)
  then show ?case by (auto simp: list_all_iff)
qed auto

lemma loads_json_text:
  assumes "readable rep fl v"
  shows "loads fl (json_text rep v) = Inr (sorted_keys v)"
proof -
  let ?t = "json_text rep v"
  have r: "reads_as fl ?t (sorted_keys v)" using assms by (rule reads_json)
  have "scan_value (2 * length ?t + 2) fl (?t @ []) = Inr (sorted_keys v, [])"
    using r by (intro reads_asD) simp_all
  moreover have "skip_ws (?t @ []) = ?t @ []" using r by (intro skip_ws_solid) (simp add: reads_as_def)
  ultimately show ?thesis using last_wins_sorted [OF assms] by (simp add: loads_def raw_loads_def)
qed

lemma get_sorted_keys:
  assumes "wf_dict d"
  shows "sorted_keys (PDict d) = PDict e \<Longrightarrow> get e k = sorted_keys (get d k)"
proof -
  let ?e = "sort_key fst (map (\<lambda>(k, v). (k, sorted_keys v)) d)"
  have "dget ?e k = map_option sorted_keys (dget d k)"
  proof -
    have "wf_dict ?e" using assms keys_sorted [where g = sorted_keys and d = d] by (metis mset_eq_imp_distinct_iff)
    moreover have "wf_dict (map (\<lambda>(k, v). (k, sorted_keys v)) d)"
      using assms by (simp add: comp_def case_prod_unfold)
    ultimately have "dget ?e k = Some v \<longleftrightarrow> dget (map (\<lambda>(k, v). (k, sorted_keys v)) d) k = Some v" for v
      by (simp add: map_of_eq_Some_iff)
    then have "dget ?e k = dget (map (\<lambda>(k, v). (k, sorted_keys v)) d) k"
      by (metis not_None_eq)
    then show ?thesis by (simp add: map_of_map)
  qed
  then show "sorted_keys (PDict d) = PDict e \<Longrightarrow> get e k = sorted_keys (get d k)"
    by (auto simp: get_def split: option.splits)
qed

section \<open>A text cut short is torn\<close>

fun short_escapes :: "pyval \<Rightarrow> bool" where
  "short_escapes (PStr s) = list_all (\<lambda>c. \<not> escapes_unicode c) s"
| "short_escapes (PList vs) = list_all short_escapes vs"
| "short_escapes (PDict d) = list_all (\<lambda>p. list_all (\<lambda>c. \<not> escapes_unicode c) (fst p) \<and> short_escapes (snd p)) d"
| "short_escapes v = True"

definition torn_scan :: "json_error + 'a \<Rightarrow> bool" where
  "torn_scan res \<longleftrightarrow> (\<exists>e. res = Inl e \<and> torn_error e)"

definition partial_scan :: "json_error + 'a \<times> string \<Rightarrow> bool" where
  "partial_scan res \<longleftrightarrow> torn_scan res \<or> (\<exists>v r. res = Inr (v, r) \<and> r \<in> insert [] (set number_tails))"

definition tears :: "(string \<Rightarrow> pyfloat) \<Rightarrow> string \<Rightarrow> bool" where
  "tears fl t \<longleftrightarrow> (\<forall>p n. strict_prefix p t \<longrightarrow> 2 * length p < n \<longrightarrow> partial_scan (scan_value n fl p))"

lemma torn_end [simp]: "torn_error (problem, [])" "torn_error (UnterminatedString, s)"
  by (simp_all add: torn_error_def)

lemma torn_comma: "r \<in> insert [] (set number_tails) \<Longrightarrow> torn_error (ExpectingComma, r)"
  by (auto simp: torn_error_def Let_def)

lemma tail_no_separator: "r \<in> insert [] (set number_tails) \<Longrightarrow> skip_ws r = r \<and> \<not> starts (CHR '','') r \<and> \<not> starts (CHR ''}'') r \<and> \<not> starts (CHR '']'') r"
  by (auto simp: number_tails_def skip_ws_def json_space_def)

lemma skip_ws_prefix: "solid t \<Longrightarrow> prefix p t \<Longrightarrow> skip_ws p = p"
  by (cases p) (auto simp: solid_def skip_ws_def prefix_def)

lemma scan_members_torn:
  assumes "ms \<noteq> []"
    and "\<And>k t v. (k, t, v) \<in> set ms \<Longrightarrow> reads_as fl t v \<and> tears fl t \<and> list_all (\<lambda>c. \<not> escapes_unicode c) k"
    and "strict_prefix p (join (CHR '','') (map (\<lambda>(k, t, v). member_text (k, t)) ms) @ ''}'')"
    and "2 * length p + 1 < n"
  shows "torn_scan (scan_members n fl p)"
  using assms
proof (induction ms arbitrary: p n)
  case (Cons m ms)
  obtain k t v where m: "m = (k, t, v)" by (cases m)
  obtain n' where n: "n = Suc n'" using Cons.prems(4) by (cases n) auto
  have t: "reads_as fl t v" "tears fl t" "list_all (\<lambda>c. \<not> escapes_unicode c) k"
    using Cons.prems(2) [of k t v] m by auto
  have solid: "solid t" using t by (simp add: reads_as_def)
  let ?M = "join (CHR '','') (map (\<lambda>(k, t, v). member_text (k, t)) ms) @ ''}''"
  let ?rest = "if ms = [] then ''}'' else CHR '','' # ?M"
  have shape: "join (CHR '','') (map (\<lambda>(k, t, v). member_text (k, t)) (m # ms)) @ ''}'' =
      quote # (concat (map ascii_char k) @ [quote]) @ CHR '':'' # t @ ?rest"
    using m by (cases ms) (auto simp: member_text_def ascii_string_def)
  have step: "scan_members n fl (quote # concat (map ascii_char k) @ quote # CHR '':'' # u) =
      bindR (scan_value n' fl (skip_ws u)) (\<lambda>(v, r3).
        let r4 = skip_ws r3 in
        if starts (CHR ''}'') r4 then Inr ([(k, v)], tl r4)
        else if \<not> starts (CHR '','') r4 then Inl (ExpectingComma, r4)
        else bindR (scan_members n' fl (skip_ws (tl r4))) (\<lambda>(ms, r5). Inr ((k, v) # ms, r5)))" for u
    unfolding n by (simp add: scan_members.simps(2) scan_ascii_chars)
  consider "p = []"
    | q where "p = quote # q" "strict_prefix q (concat (map ascii_char k) @ [quote])"
    | "p = quote # concat (map ascii_char k) @ [quote]"
    | q where "p = quote # concat (map ascii_char k) @ quote # CHR '':'' # q" "strict_prefix q t"
    | q where "p = quote # concat (map ascii_char k) @ quote # CHR '':'' # t @ q" "strict_prefix q ?rest"
    using Cons.prems(3) unfolding shape strict_prefix_Cons_iff strict_prefix_append [of _ "concat (map ascii_char k) @ [quote]"]
    by (auto simp del: append_assoc simp add: strict_prefix_append [of _ t] append_assoc [symmetric]) auto
  then show ?case
  proof cases
    case 1
    then show ?thesis by (simp add: n scan_members.simps(2) torn_scan_def)
  next
    case (2 q)
    then show ?thesis
      using scan_torn_chars [OF 2(2) t(3)] by (simp add: n scan_members.simps(2) torn_scan_def)
  next
    case 3
    then show ?thesis
      using scan_ascii_chars [of p k "[]"] by (simp add: n scan_members.simps(2) torn_scan_def)
  next
    case (4 q)
    have "partial_scan (scan_value n' fl q)"
      using t(2) 4 Cons.prems(4) n by (simp add: tears_def)
    moreover have "skip_ws q = q" using solid 4(2) by (intro skip_ws_prefix) (auto simp: strict_prefix_def)
    ultimately show ?thesis
      unfolding 4(1) step partial_scan_def torn_scan_def
      by (auto simp: tail_no_separator torn_comma dest!: tail_no_separator)
  next
    case (5 q)
    have q: "q = [] \<or> ms \<noteq> [] \<and> (\<exists>q'. q = CHR '','' # q' \<and> strict_prefix q' ?M)"
      using 5(2) by (auto simp: strict_prefix_Cons_iff split: if_splits)
    have "scan_value n' fl (t @ q) = Inr (v, q)"
      using 5 q Cons.prems(4) n by (intro reads_asD [OF t(1)]) auto
    moreover have "skip_ws (t @ q) = t @ q" using solid by (rule skip_ws_solid)
    ultimately have run: "scan_members n fl p =
        (if q = [] then Inl (ExpectingComma, [])
         else bindR (scan_members n' fl (skip_ws (tl q))) (\<lambda>(ms, r5). Inr ((k, v) # ms, r5)))"
      using q unfolding 5(1) step by auto
    show ?thesis
    proof (cases "q = []")
      case True
      then show ?thesis using run by (simp add: torn_scan_def)
    next
      case False
      then obtain q' where q': "q = CHR '','' # q'" "strict_prefix q' ?M" and ms: "ms \<noteq> []" using q by auto
      have "solid ?M"
        using ms by (cases ms; cases "tl ms") (auto simp: member_text_def ascii_string_def)
      then have "skip_ws q' = q'" using q'(2) by (intro skip_ws_prefix) (auto simp: strict_prefix_def)
      moreover have "torn_scan (scan_members n' fl q')"
        using Cons.prems ms q' 5(1) n by (intro Cons.IH) auto
      ultimately show ?thesis using run q' by (auto simp: torn_scan_def)
    qed
  qed
qed simp

lemma scan_elements_torn:
  assumes "es \<noteq> []" and "\<And>t v. (t, v) \<in> set es \<Longrightarrow> reads_as fl t v \<and> tears fl t"
    and "strict_prefix p (join (CHR '','') (map fst es) @ '']'')" and "2 * length p + 1 < n"
  shows "torn_scan (scan_elements n fl p)"
  using assms
proof (induction es arbitrary: p n)
  case (Cons e es)
  obtain t v where e: "e = (t, v)" by (cases e)
  obtain n' where n: "n = Suc n'" using Cons.prems(4) by (cases n) auto
  have t: "reads_as fl t v" "tears fl t" using Cons.prems(2) [of t v] e by auto
  have solid: "solid t" using t by (simp add: reads_as_def)
  let ?E = "join (CHR '','') (map fst es) @ '']''"
  let ?rest = "if es = [] then '']'' else CHR '','' # ?E"
  have shape: "join (CHR '','') (map fst (e # es)) @ '']'' = t @ ?rest"
    using e by (cases es) auto
  consider "strict_prefix p t" | q where "p = t @ q" "strict_prefix q ?rest"
    using Cons.prems(3) unfolding shape strict_prefix_append by auto
  then show ?case
  proof cases
    case 1
    have "partial_scan (scan_value n' fl p)" using t(2) 1 Cons.prems(4) n by (simp add: tears_def)
    then show ?thesis
      unfolding n scan_elements.simps(2) partial_scan_def torn_scan_def
      by (auto simp: tail_no_separator torn_comma dest!: tail_no_separator)
  next
    case (2 q)
    have q: "q = [] \<or> es \<noteq> [] \<and> (\<exists>q'. q = CHR '','' # q' \<and> strict_prefix q' ?E)"
      using 2(2) by (auto simp: strict_prefix_Cons_iff split: if_splits)
    have "scan_value n' fl (t @ q) = Inr (v, q)"
      using 2 q Cons.prems(4) n by (intro reads_asD [OF t(1)]) auto
    then have run: "scan_elements n fl p =
        (if q = [] then Inl (ExpectingComma, [])
         else bindR (scan_elements n' fl (skip_ws (tl q))) (\<lambda>(vs, r3). Inr (v # vs, r3)))"
      using q unfolding 2(1) n by (auto simp: scan_elements.simps(2))
    show ?thesis
    proof (cases "q = []")
      case True
      then show ?thesis using run by (simp add: torn_scan_def)
    next
      case False
      then obtain q' where q': "q = CHR '','' # q'" "strict_prefix q' ?E" and es: "es \<noteq> []" using q by auto
      have "solid (fst (hd es))" using Cons.prems(2) [of "fst (hd es)" "snd (hd es)"] es by (cases es) (auto simp: reads_as_def)
      then have "solid ?E" using join_head [of "map fst es" "CHR '',''"] es by (auto simp: hd_map solid_def)
      then have "skip_ws q' = q'" using q'(2) by (intro skip_ws_prefix) (auto simp: strict_prefix_def)
      moreover have "torn_scan (scan_elements n' fl q')"
        using Cons.prems es q' 2(1) n solid by (intro Cons.IH) (auto simp: solid_def)
      ultimately show ?thesis using run q' by (auto simp: torn_scan_def)
    qed
  qed
qed simp

lemma tearsI:
  assumes "\<And>p n. strict_prefix p t \<Longrightarrow> p \<noteq> [] \<Longrightarrow> 2 * length p < Suc n \<Longrightarrow> partial_scan (scan_value (Suc n) fl p)"
  shows "tears fl t"
proof -
  have "partial_scan (scan_value n fl [])" for n
    by (cases n) (auto simp: scan_value.simps(2) partial_scan_def torn_scan_def)
  then show ?thesis using assms unfolding tears_def by (metis gr0_implies_Suc gr_implies_not0 not_gr_zero)
qed

lemma tears_number:
  assumes p: "number_parts sg ip fp ep" and t: "t = sg @ ip @ fp @ ep"
  shows "tears fl t"
proof (rule tearsI)
  fix p n
  assume pre: "strict_prefix p t" "p \<noteq> []"
  have start: "number_start t" using number_start_parts [OF p, of "fp @ ep"] t by simp
  have "number_start p" using number_start_prefix [OF start _ pre(2)] pre(1) by (simp add: strict_prefix_def)
  moreover have "number_cut (scan_number fl p) p" using scan_number_prefix [OF p] pre(1) t by simp
  moreover have "scan_number fl ''-'' = Inl (ExpectingValue, ''-'')"
    by (simp add: scan_number_def scan_integer_def Let_def)
  moreover have "torn_error (ExpectingValue, ''-'')" by (simp add: torn_error_def Let_def)
  ultimately show "partial_scan (scan_value (Suc n) fl p)"
    using pre(2) by (auto simp: scan_value_number number_cut_def partial_scan_def torn_scan_def)
qed

lemma scan_literal_head:
  assumes "c \<in> set ''ntf''" and "List.find (\<lambda>(t, v). take (length t) (c # s) = t) literals = None"
  shows "scan_value (Suc n) fl (c # s) = Inl (ExpectingValue, c # s)"
proof -
  have "\<not> is_digit c" and "c \<noteq> quote \<and> c \<noteq> CHR ''{'' \<and> c \<noteq> CHR ''['' \<and> c \<noteq> CHR ''-'' \<and> c \<noteq> CHR ''0''"
    using assms(1) by (auto simp: is_digit_iff quote_def)
  then show ?thesis
    by (simp add: scan_value.simps(2) scan_atom_def assms(2) scan_number_def scan_integer_def)
qed

lemma tears_literal:
  assumes "t \<in> {''null'', ''true'', ''false''}"
  shows "tears fl t"
proof (rule tearsI)
  fix p n
  assume pre: "strict_prefix p t" "p \<noteq> []"
  then have p: "p \<in> {''n'', ''nu'', ''nul'', ''t'', ''tr'', ''tru'', ''f'', ''fa'', ''fal'', ''fals''}"
    using assms by (auto simp: strict_prefix_Cons_iff)
  then have "List.find (\<lambda>(t, v). take (length t) p = t) literals = None" by (auto simp: literals_def)
  moreover have "hd p \<in> set ''ntf''" using p by auto
  ultimately have "scan_value (Suc n) fl p = Inl (ExpectingValue, p)"
    using scan_literal_head [of "hd p" "tl p"] pre(2) by simp
  moreover have "torn_error (ExpectingValue, p)"
    using pre(1) assms by (auto simp: torn_error_def strict_prefix_def Let_def)
  ultimately show "partial_scan (scan_value (Suc n) fl p)" by (simp add: partial_scan_def torn_scan_def)
qed

lemma tears_string:
  assumes "list_all (\<lambda>c. \<not> escapes_unicode c) s"
  shows "tears fl (ascii_string s)"
proof (rule tearsI)
  fix p n
  assume "strict_prefix p (ascii_string s)" "p \<noteq> []"
  then obtain q where "p = quote # q" "strict_prefix q (concat (map ascii_char s) @ [quote])"
    by (auto simp: ascii_string_def strict_prefix_Cons_iff)
  then show "partial_scan (scan_value (Suc n) fl p)"
    using scan_torn_chars [OF _ assms] by (simp add: scan_value.simps(2) partial_scan_def torn_scan_def)
qed

lemma dict_torn:
  assumes v: "\<And>k v. (k, v) \<in> set d \<Longrightarrow> readable rep fl v \<and> tears fl (json_text rep v) \<and> list_all (\<lambda>c. \<not> escapes_unicode c) k"
    and "strict_prefix p (json_text rep (PDict d))" "p \<noteq> []" and n: "2 * length p < Suc n"
  shows "torn_scan (scan_value (Suc n) fl p)"
proof -
  let ?ms = "map (\<lambda>(k, v). (k, json_text rep v, sorted_keys v)) (sort_key fst d)"
  let ?J = "join (CHR '','') (map (\<lambda>(k, v). member_text (k, json_text rep v)) (sort_key fst d)) @ ''}''"
  have ms: "map (\<lambda>(k, t, v). member_text (k, t)) ?ms = map (\<lambda>(k, v). member_text (k, json_text rep v)) (sort_key fst d)"
    by (simp add: comp_def case_prod_unfold)
  have ne: "sort_key fst d \<noteq> []" if "d \<noteq> []" using that by (metis set_empty set_sort)
  obtain q where p: "p = CHR ''{'' # q" and q: "strict_prefix q ?J"
    using assms(2, 3) by (auto simp: strict_prefix_Cons_iff json_text_dict)
  have head: "?J = quote # tl ?J \<or> d = []"
    using ne by (cases "sort_key fst d"; cases "tl (sort_key fst d)") (auto simp: member_text_def ascii_string_def)
  then have "solid ?J" by (cases "d = []") (auto simp: solid_def dest: arg_cong [of _ _ hd])
  then have ws: "skip_ws q = q" using q by (intro skip_ws_prefix) (auto simp: strict_prefix_def)
  show ?thesis
  proof (cases "q = [] \<or> d = []")
    case True
    have "q = []" using True q by (auto simp: strict_prefix_Cons_iff)
    moreover obtain n' where "n = Suc n'" using n p by (cases n) auto
    ultimately show ?thesis
      using p by (simp add: scan_value.simps(2) scan_members.simps(2) quote_def torn_scan_def)
  next
    case False
    then have "hd q = quote" using head q by (cases q) (auto simp: strict_prefix_def prefix_def dest: arg_cong [of _ _ hd])
    then have "\<not> starts (CHR ''}'') q" by (auto simp: starts_def quote_def)
    moreover have "torn_scan (scan_members n fl q)"
    proof (rule scan_members_torn [of ?ms])
      show "?ms \<noteq> []" using ne False by simp
      show "strict_prefix q (join (CHR '','') (map (\<lambda>(k, t, v). member_text (k, t)) ?ms) @ ''}'')"
        using q unfolding ms .
      show "2 * length q + 1 < n" using n p by simp
    qed (use v reads_json in \<open>fastforce\<close>)
    ultimately show ?thesis
      using p ws by (auto simp: scan_value.simps(2) quote_def torn_scan_def)
  qed
qed

lemma json_text_tears:
  assumes "readable rep fl v" and "short_escapes v"
  shows "tears fl (json_text rep v)"
  using assms
proof (induction v)
  case (PInt i)
  then show ?case using show_int_parts [of i] tears_number by fastforce
next
  case (PFloat f)
  then show ?case using tears_number by (cases f) (fastforce simp: float_literal_def)+
next
  case (PStr s)
  then show ?case using tears_string by simp
next
  case (PList vs)
  let ?es = "map (\<lambda>v. (json_text rep v, sorted_keys v)) vs"
  let ?J = "join (CHR '','') (map (json_text rep) vs) @ '']''"
  show ?case
  proof (rule tearsI)
    fix p n
    assume "strict_prefix p (json_text rep (PList vs))" "p \<noteq> []" and n: "2 * length p < Suc n"
    then obtain q where p: "p = CHR ''['' # q" and q: "strict_prefix q ?J"
      by (auto simp: strict_prefix_Cons_iff)
    have solid: "solid ?J \<and> (starts (CHR '']'') ?J \<longrightarrow> vs = [])"
    proof (cases "vs = []")
      case False
      then have h: "reads_as fl (json_text rep (hd vs)) (sorted_keys (hd vs))"
        using PList.prems reads_json by (cases vs) auto
      obtain u where "join (CHR '','') (map (json_text rep) vs) = json_text rep (hd vs) @ u"
        using join_head [of "map (json_text rep) vs" "CHR '',''"] False by (auto simp: hd_map)
      then show ?thesis using h reads_as_bracket [OF h, of "u @ '']''"] by (auto simp: reads_as_def solid_def)
    qed simp
    then have ws: "skip_ws q = q" using q by (intro skip_ws_prefix) (auto simp: strict_prefix_def)
    show "partial_scan (scan_value (Suc n) fl p)"
    proof (cases "q = [] \<or> vs = []")
      case True
      have "q = []" using True q by (auto simp: strict_prefix_Cons_iff)
      moreover obtain n' where "n = Suc n'" using n p by (cases n) auto
      moreover obtain n'' where "n' = Suc n''" using n p \<open>n = Suc n'\<close> by (cases n') auto
      ultimately show ?thesis
        using p by (simp add: scan_value.simps(2) scan_elements.simps(2) quote_def partial_scan_def torn_scan_def)
    next
      case False
      have "\<not> starts (CHR '']'') q"
        using False solid q by (cases q) (auto simp: strict_prefix_def prefix_def starts_def)
      moreover have "torn_scan (scan_elements n fl q)"
        using False PList reads_json q n p
        by (intro scan_elements_torn [of ?es]) (auto simp: comp_def list_all_iff)
      ultimately show ?thesis
        using p ws by (auto simp: scan_value.simps(2) quote_def partial_scan_def torn_scan_def)
    qed
  qed
next
  case (PDict d)
  show ?case
  proof (rule tearsI)
    fix p n
    assume "strict_prefix p (json_text rep (PDict d))" "p \<noteq> []" "2 * length p < Suc n"
    then have "torn_scan (scan_value (Suc n) fl p)"
      using PDict by (intro dict_torn [of d rep fl]) (fastforce simp: list_all_iff)+
    then show "partial_scan (scan_value (Suc n) fl p)" by (simp add: partial_scan_def)
  qed
qed (simp_all add: tears_literal)

lemma torn_prefix:
  assumes "readable rep fl (PDict d)" and "short_escapes (PDict d)"
    and "strict_prefix p (json_text rep (PDict d))" and "p \<noteq> []"
  shows "torn_fragment fl p"
proof -
  obtain q where p: "p = CHR ''{'' # q" using assms(3, 4) by (auto simp: strict_prefix_Cons_iff json_text_dict)
  have "torn_scan (scan_value (Suc (2 * length p + 1)) fl p)"
    using assms json_text_tears by (intro dict_torn [of d rep fl]) (fastforce simp: list_all_iff)+
  then show ?thesis using p by (auto simp: torn_fragment_def raw_loads_def torn_scan_def)
qed

section \<open>Enough fuel\<close>

lemma scan_chars_shorter: "scan_chars b s = Inr (t, r) \<Longrightarrow> length r < length s"
proof (induction b s arbitrary: t r rule: scan_chars.induct)
  case (2 b c s)
  then show ?case
    by (auto simp: scan_chars.simps(2) split: if_splits list.splits option.splits) fastforce+
qed simp

lemma skip_ws_shorter: "length (skip_ws s) \<le> length s"
  by (simp add: skip_ws_def length_dropWhile_le)

lemma scan_number_shorter: "scan_number fl s = Inr (v, r) \<Longrightarrow> length r < length s"
proof -
  assume a: "scan_number fl s = Inr (v, r)"
  let ?sg = "if starts (CHR ''-'') s then ''-'' else []"
  have "scan_integer (drop (length ?sg) s) \<noteq> []"
    using a by (auto simp: scan_number_def Let_def split: if_splits)
  moreover from this have "s \<noteq> []" by (auto simp: scan_integer_def split: if_splits)
  ultimately show ?thesis using a
    by (auto simp: scan_number_def Let_def split: if_splits intro: le_less_trans [OF diff_le_self])
qed

lemma scan_atom_shorter:
  assumes "scan_atom fl s = Inr (v, r)"
  shows "length r < length s"
proof (cases "List.find (\<lambda>(t, v). take (length t) s = t) literals")
  case None
  then show ?thesis using assms scan_number_shorter by (simp add: scan_atom_def)
next
  case (Some tv)
  then have "take (length (fst tv)) s = fst tv" and "fst tv \<noteq> []"
    by (auto simp: literals_def find_Some_iff split: if_splits)
  moreover from this have "s \<noteq> []" by auto
  moreover have "r = drop (length (fst tv)) s" using assms Some by (cases tv) (simp add: scan_atom_def)
  ultimately show ?thesis by simp
qed

lemma starts_tl: "starts c s \<Longrightarrow> length (tl s) < length s"
  by (cases s) auto

lemma scan_value_Inr:
  assumes "scan_value (Suc n) fl s = Inr (v, r)"
  shows "s \<noteq> [] \<and> ((\<exists>t. scan_chars s (tl s) = Inr (t, r)) \<or>
    skip_ws (tl s) \<noteq> [] \<and> r = tl (skip_ws (tl s)) \<or> (\<exists>ms. scan_members n fl (skip_ws (tl s)) = Inr (ms, r)) \<or>
    (\<exists>vs. scan_elements n fl (skip_ws (tl s)) = Inr (vs, r)) \<or> scan_atom fl s = Inr (v, r))"
  using assms by (auto simp: scan_value.simps(2) Let_def starts_def split: if_splits)

lemma scan_members_Inr:
  assumes "scan_members (Suc n) fl s = Inr (ms, r)"
  shows "s \<noteq> [] \<and> (\<exists>k r1 v r3. scan_chars s (tl s) = Inr (k, r1) \<and> skip_ws r1 \<noteq> [] \<and>
    scan_value n fl (skip_ws (tl (skip_ws r1))) = Inr (v, r3) \<and> skip_ws r3 \<noteq> [] \<and>
    (r = tl (skip_ws r3) \<or> (\<exists>ms. scan_members n fl (skip_ws (tl (skip_ws r3))) = Inr (ms, r))))"
  using assms by (fastforce simp: scan_members.simps(2) Let_def starts_def split: if_splits)

lemma scan_elements_Inr:
  assumes "scan_elements (Suc n) fl s = Inr (vs, r)"
  shows "\<exists>v r1. scan_value n fl s = Inr (v, r1) \<and> skip_ws r1 \<noteq> [] \<and>
    (r = tl (skip_ws r1) \<or> (\<exists>vs. scan_elements n fl (skip_ws (tl (skip_ws r1))) = Inr (vs, r)))"
  using assms by (fastforce simp: scan_elements.simps(2) Let_def starts_def split: if_splits)

lemma ws_tl_shorter: "s \<noteq> [] \<Longrightarrow> length (skip_ws (tl s)) < length s"
  using skip_ws_shorter [of "tl s"] by (cases s) auto

lemma tl_shorter: "s \<noteq> [] \<Longrightarrow> length (tl s) < length s"
  by (cases s) auto

lemma scan_shorter:
  "scan_value n fl s = Inr (v, r) \<Longrightarrow> length r < length s"
  "scan_members n fl s = Inr (ms, r) \<Longrightarrow> length r < length s"
  "scan_elements n fl s = Inr (vs, r) \<Longrightarrow> length r < length s"
proof (induction n arbitrary: s v ms vs r)
  case (Suc n)
  {
    case 1
    then have s: "s \<noteq> []" by (auto dest: scan_value_Inr)
    show ?case
      using scan_value_Inr [OF 1] ws_tl_shorter [OF s] tl_shorter [OF s] tl_shorter [of "skip_ws (tl s)"]
      by (elim conjE disjE exE) (auto dest: scan_chars_shorter Suc(2) Suc(3) scan_atom_shorter)
  next
    case 2
    then obtain k r1 v r3 where s: "s \<noteq> []" and k: "scan_chars s (tl s) = Inr (k, r1)" "skip_ws r1 \<noteq> []"
      and v: "scan_value n fl (skip_ws (tl (skip_ws r1))) = Inr (v, r3)" "skip_ws r3 \<noteq> []"
      and r: "r = tl (skip_ws r3) \<or> (\<exists>ms. scan_members n fl (skip_ws (tl (skip_ws r3))) = Inr (ms, r))"
      using scan_members_Inr by blast
    have "length r1 < length s" using scan_chars_shorter [OF k(1)] tl_shorter [OF s] by simp
    moreover have "length r3 < length r1"
      using Suc(1) [OF v(1)] ws_tl_shorter [OF k(2)] skip_ws_shorter [of r1] by simp
    moreover have "length r < length r3"
      using r Suc(2) ws_tl_shorter [OF v(2)] tl_shorter [OF v(2)] skip_ws_shorter [of r3] by fastforce
    ultimately show ?case by simp
  next
    case 3
    then obtain v r1 where v: "scan_value n fl s = Inr (v, r1)" "skip_ws r1 \<noteq> []"
      and r: "r = tl (skip_ws r1) \<or> (\<exists>vs. scan_elements n fl (skip_ws (tl (skip_ws r1))) = Inr (vs, r))"
      using scan_elements_Inr by blast
    have "length r < length r1"
      using r Suc(3) ws_tl_shorter [OF v(2)] tl_shorter [OF v(2)] skip_ws_shorter [of r1] by fastforce
    then show ?case using Suc(1) [OF v(1)] by simp
  }
qed simp_all

lemma scan_fuel:
  "2 * length s < n \<Longrightarrow> 2 * length s < m \<Longrightarrow> scan_value n fl s = scan_value m fl s"
  "2 * length s + 1 < n \<Longrightarrow> 2 * length s + 1 < m \<Longrightarrow> scan_members n fl s = scan_members m fl s"
  "2 * length s + 1 < n \<Longrightarrow> 2 * length s + 1 < m \<Longrightarrow> scan_elements n fl s = scan_elements m fl s"
proof (induction n arbitrary: m s)
  case (Suc n)
  {
    case 1
    then obtain k where m: "m = Suc k" by (cases m) auto
    have "s \<noteq> [] \<Longrightarrow> scan_members n fl (skip_ws (tl s)) = scan_members k fl (skip_ws (tl s))"
      and "s \<noteq> [] \<Longrightarrow> scan_elements n fl (skip_ws (tl s)) = scan_elements k fl (skip_ws (tl s))"
      using 1 m ws_tl_shorter [of s] by (auto intro!: Suc(2) Suc(3))
    then show ?case unfolding m by (simp add: scan_value.simps(2) Let_def)
  next
    case 2
    then obtain k where m: "m = Suc k" by (cases m) auto
    show ?case
    proof (cases "starts quote s \<and> (\<exists>key r1. scan_chars s (tl s) = Inr (key, r1) \<and> starts (CHR '':'') (skip_ws r1))")
      case True
      then obtain key r1 where key: "starts quote s" "scan_chars s (tl s) = Inr (key, r1)" "starts (CHR '':'') (skip_ws r1)"
        by blast
      have r1: "length (skip_ws (tl (skip_ws r1))) + 1 < length s"
        using scan_chars_shorter [OF key(2)] starts_tl [OF key(1)] starts_tl [OF key(3)] skip_ws_shorter [of r1]
          skip_ws_shorter [of "tl (skip_ws r1)"] by simp
      have v: "scan_value n fl (skip_ws (tl (skip_ws r1))) = scan_value k fl (skip_ws (tl (skip_ws r1)))"
        using 2 m r1 by (intro Suc(1)) auto
      have rest: "scan_members n fl (skip_ws (tl (skip_ws r3))) = scan_members k fl (skip_ws (tl (skip_ws r3)))"
        if "scan_value k fl (skip_ws (tl (skip_ws r1))) = Inr (v', r3)" for v' r3
        using 2 m r1 scan_shorter(1) [OF that] skip_ws_shorter [of r3] skip_ws_shorter [of "tl (skip_ws r3)"]
        by (intro Suc(2)) auto
      show ?thesis
        using v rest by (auto simp: m scan_members.simps(2) key Let_def intro!: bindR_cong)
    next
      case False
      then show ?thesis
        by (cases "scan_chars s (tl s)") (auto simp: m scan_members.simps(2) Let_def)
    qed
  next
    case 3
    then obtain k where m: "m = Suc k" by (cases m) auto
    have v: "scan_value n fl s = scan_value k fl s" using 3 m by (intro Suc(1)) auto
    have rest: "scan_elements n fl (skip_ws (tl (skip_ws r1))) = scan_elements k fl (skip_ws (tl (skip_ws r1)))"
      if "scan_value k fl s = Inr (v', r1)" for v' r1
      using 3 m scan_shorter(1) [OF that] skip_ws_shorter [of r1] skip_ws_shorter [of "tl (skip_ws r1)"]
      by (intro Suc(3)) auto
    show ?case
      using v rest by (auto simp: m scan_elements.simps(2) Let_def intro!: bindR_cong)
  }
qed simp_all

end
