(* ===== verification/Journal.thy ===== *)
theory Journal
  imports Request PyJson
begin

text \<open>
  The event journal of \<open>runner.py\<close>: the record \<open>_append_event\<close> writes, \<open>_read_event_history\<close> with the
  truncation of a torn tail, \<open>_recover_history\<close> and \<open>_prior_elapsed_seconds\<close>.  The journal is its bytes, a
  list of \<open>char\<close>.  \<open>decode\<close> is \<open>bytes.decode()\<close>, \<open>fl\<close> is \<open>float(text)\<close> and \<open>rep\<close> is \<open>repr\<close> of a finite float.
\<close>

section \<open>Records\<close>

definition opt_str :: "string option \<Rightarrow> pyval" where
  "opt_str s = (case s of None \<Rightarrow> PNone | Some t \<Rightarrow> PStr t)"

definition event_record ::
  "string \<Rightarrow> int \<Rightarrow> string \<Rightarrow> string option \<Rightarrow> pyfloat \<Rightarrow> pyfloat \<Rightarrow> pydict \<Rightarrow> pydict" where
  "event_record run_id sequence kind phase elapsed wall extra =
     foldl (\<lambda>e (k, v). dput k v e)
       [(''protocol'', PStr ''run-event/1''), (''run_id'', PStr run_id), (''sequence'', PInt sequence),
        (''kind'', PStr kind), (''phase'', opt_str phase), (''monotonic_seconds'', PFloat elapsed),
        (''recorded_at_unix'', PFloat wall)] extra"

definition encode_record :: "(pyfloat \<Rightarrow> string) \<Rightarrow> pydict \<Rightarrow> string" where
  "encode_record rep d = json_text rep (PDict d) @ [newline]"

section \<open>Reading the journal\<close>

text \<open>\<open>str.splitlines()\<close>, on code points below 256.\<close>

definition line_break :: "char \<Rightarrow> bool" where
  "line_break c \<longleftrightarrow> (of_char c :: nat) \<in> {10, 11, 12, 13, 28, 29, 30, 133}"

function splitlines :: "string \<Rightarrow> string list" where
  "splitlines s =
     (if s = [] then []
      else takeWhile (\<lambda>c. \<not> line_break c) s #
        (case dropWhile (\<lambda>c. \<not> line_break c) s of
           [] \<Rightarrow> []
         | c # r \<Rightarrow> splitlines (if c = CHR 0x0D \<and> starts newline r then tl r else r)))"
  by pat_completeness auto
termination
proof (relation "measure length", goal_cases)
  case (2 s c r)
  have "length (c # r) \<le> length s" using length_dropWhile_le [of "\<lambda>c. \<not> line_break c" s] 2(2) by simp
  then show ?case by (cases r) auto
qed simp

declare splitlines.simps [simp del]

datatype decoded = Decoded string | TruncatedEnd | Undecodable

type_synonym decoder = "string \<Rightarrow> decoded"

definition is_torn :: "decoder \<Rightarrow> (string \<Rightarrow> pyfloat) \<Rightarrow> string \<Rightarrow> bool" where
  "is_torn decode fl fragment =
     (case decode fragment of
        Undecodable \<Rightarrow> False | TruncatedEnd \<Rightarrow> True | Decoded t \<Rightarrow> torn_fragment fl t)"

definition event_kinds :: "string list" where
  "event_kinds = [''ready'', ''runner_resumed'', ''launch_authorized'', ''phase_started'', ''phase_completed'',
     ''phase_failed'', ''phase_start_failed'', ''phase_disabled'', ''terminal'']"

definition hashable :: "pyval \<Rightarrow> bool" where
  "hashable v \<longleftrightarrow> as_list v = None \<and> as_dict v = None"

definition check_event :: "string \<Rightarrow> int \<Rightarrow> pydict \<Rightarrow> exn + unit" where
  "check_event run_id expected event =
     bindR (require (pyeq (get event ''protocol'') (PStr ''run-event/1'') \<and> pyeq (get event ''run_id'') (PStr run_id))
              (RequestError ''events.jsonl does not belong to this run'')) (\<lambda>_.
     bindR (require (as_int (get event ''sequence'') = Some expected)
              (RequestError ''events.jsonl sequence is not contiguous'')) (\<lambda>_.
     bindR (require (hashable (get event ''kind'')) (TypeError ''unhashable type'')) (\<lambda>_.
     bindR (require (py_in (get event ''kind'') (map PStr event_kinds))
              (RequestError ''events.jsonl contains an unknown event kind'')) (\<lambda>_.
       require (get event ''phase'' = PNone \<or> py_in (get event ''phase'') (map PStr phase_order))
         (RequestError ''events.jsonl contains an unknown phase'')))))"

definition parse_event :: "(string \<Rightarrow> pyfloat) \<Rightarrow> string \<Rightarrow> exn + pydict" where
  "parse_event fl line =
     (case loads fl line of
        Inl _ \<Rightarrow> Inl (RequestError ''events.jsonl contains invalid JSON'')
      | Inr v \<Rightarrow> req_mapping v ''events.jsonl event'')"

definition read_line ::
  "(string \<Rightarrow> pyfloat) \<Rightarrow> string \<Rightarrow> pydict list \<times> int \<Rightarrow> string \<Rightarrow> exn + pydict list \<times> int" where
  "read_line fl run_id st line =
     (if strip line = [] then Inr st
      else bindR (parse_event fl line) (\<lambda>event.
           bindR (check_event run_id (snd st) event) (\<lambda>_. Inr (fst st @ [event], snd st + 1))))"

text \<open>The journal file, and the part of it before and after its last newline.\<close>

datatype journal_file = NoJournal | UnreadableJournal | JournalBytes string

definition final_fragment :: "string \<Rightarrow> string" where
  "final_fragment journal = rev (takeWhile (\<lambda>c. c \<noteq> newline) (rev journal))"

definition complete_records :: "string \<Rightarrow> string" where
  "complete_records journal = take (length journal - length (final_fragment journal)) journal"

definition read_lines :: "decoder \<Rightarrow> (string \<Rightarrow> pyfloat) \<Rightarrow> string \<Rightarrow> string \<Rightarrow> exn + pydict list" where
  "read_lines decode fl run_id journal =
     (case decode journal of
        Decoded t \<Rightarrow> bindR (foldR (read_line fl run_id) ([], 1) (splitlines t)) (\<lambda>st. Inr (fst st))
      | _ \<Rightarrow> Inl (RequestError ''events.jsonl contains invalid JSON''))"

definition read_event_history ::
  "decoder \<Rightarrow> (string \<Rightarrow> pyfloat) \<Rightarrow> string \<Rightarrow> journal_file \<Rightarrow> (exn + pydict list) \<times> journal_file" where
  "read_event_history decode fl run_id f =
     (case f of
        NoJournal \<Rightarrow> (Inr [], f)
      | UnreadableJournal \<Rightarrow> (Inl (RequestError ''events.jsonl is unavailable''), f)
      | JournalBytes journal \<Rightarrow>
          if final_fragment journal \<noteq> [] then
            (if \<not> is_torn decode fl (final_fragment journal)
             then (Inl (RequestError ''events.jsonl contains an incomplete record terminator''), f)
             else (read_lines decode fl run_id (complete_records journal), JournalBytes (complete_records journal)))
          else (read_lines decode fl run_id journal, f))"

section \<open>What a history says\<close>

record recovered =
  rc_active :: "string option"
  rc_completed :: "string list"
  rc_settled :: "string list"
  rc_exit_codes :: "int dict"
  rc_failure :: "(string \<times> string) option"

definition no_history :: recovered where
  "no_history = \<lparr>rc_active = None, rc_completed = [], rc_settled = [], rc_exit_codes = [], rc_failure = None\<rparr>"

definition note_exit :: "string \<Rightarrow> pydict \<Rightarrow> recovered \<Rightarrow> recovered" where
  "note_exit phase event r =
     (case as_int (get event ''exit_code'') of
        None \<Rightarrow> r | Some code \<Rightarrow> r\<lparr>rc_exit_codes := dput phase code (rc_exit_codes r)\<rparr>)"

definition recover_event :: "recovered \<Rightarrow> pydict \<Rightarrow> recovered" where
  "recover_event r event =
     (let kind = get event ''kind'' in
      case as_str (get event ''phase'') of
        None \<Rightarrow> r
      | Some phase \<Rightarrow>
          if kind = PStr ''phase_started'' then r\<lparr>rc_active := Some phase\<rparr>
          else if kind = PStr ''phase_completed'' then
            note_exit phase event (r\<lparr>rc_active := None, rc_settled := List.insert phase (rc_settled r),
                                     rc_completed := rc_completed r @ [phase]\<rparr>)
          else if kind = PStr ''phase_disabled'' then r\<lparr>rc_settled := List.insert phase (rc_settled r)\<rparr>
          else if kind = PStr ''phase_failed'' \<or> kind = PStr ''phase_start_failed'' then
            note_exit phase event (r\<lparr>rc_active := None,
              rc_failure := Some (phase, if kind = PStr ''phase_failed'' then ''phase_nonzero_exit''
                                         else ''phase_start_failed'')\<rparr>)
          else r)"

definition recover_history :: "pydict list \<Rightarrow> recovered" where
  "recover_history history = foldl recover_event no_history history"

text \<open>\<open>max(elapsed, float(v))\<close>, which keeps the first unless the second is greater.\<close>

definition max_elapsed :: "pyfloat \<Rightarrow> pyval \<Rightarrow> exn + pyfloat" where
  "max_elapsed elapsed v =
     bindR (to_float v) (\<lambda>f.
       Inr (case f of None \<Rightarrow> elapsed | Some x \<Rightarrow> if flt elapsed x then x else elapsed))"

definition prior_elapsed_seconds :: "pydict list \<Rightarrow> json_file \<Rightarrow> string \<Rightarrow> exn + pyfloat" where
  "prior_elapsed_seconds history status run_id =
     bindR (if history = [] then Inr (Fin 0) else max_elapsed (Fin 0) (get (last history) ''monotonic_seconds''))
       (\<lambda>elapsed.
         case status of
           NoJson \<Rightarrow> Inr elapsed
         | JsonValue v \<Rightarrow>
             (case as_dict v of
                None \<Rightarrow> Inr elapsed
              | Some d \<Rightarrow>
                  if pyeq (get d ''run_id'') (PStr run_id)
                  then max_elapsed elapsed (get d ''heartbeat_monotonic_seconds'') else Inr elapsed))"

section \<open>The bytes of a journal\<close>

definition printable :: "char \<Rightarrow> bool" where
  "printable c \<longleftrightarrow> 32 \<le> (of_char c :: nat) \<and> (of_char c :: nat) < 127"

lemma printable_brackets [simp]:
  "printable (CHR ''['')" "printable (CHR '']'')" "printable (CHR ''{'')" "printable (CHR ''}'')"
  "printable (CHR '','')" "printable (CHR '':'')"
  by (simp_all add: printable_def)

lemma printable_ascii_char: "c \<in> set (ascii_char d) \<Longrightarrow> printable c"
proof -
  have "printable (hex_digit n)" if "n < 16" for n
    using that by (auto simp: printable_def hex_digit_def)
  then have "printable (hex_digit (of_char d div 16))" "printable (hex_digit (of_char d mod 16))"
    by (simp_all add: div_less_iff_less_mult)
  then show "c \<in> set (ascii_char d) \<Longrightarrow> printable c"
    by (auto simp: ascii_char_def printable_def quote_def backslash_def split: if_splits)
qed

lemma printable_ascii_string: "list_all printable (ascii_string s)"
  using printable_ascii_char by (auto simp: ascii_string_def list_all_iff) (auto simp: printable_def quote_def)

lemma printable_digits: "list_all is_digit s \<Longrightarrow> list_all printable s"
  by (auto simp: list_all_iff is_digit_iff printable_def)

lemma printable_number:
  assumes "number_parts sg ip fp ep"
  shows "list_all printable (sg @ ip @ fp @ ep)"
proof -
  have "list_all printable sg" "list_all printable ip" "list_all printable fp" "list_all printable ep"
    using assms printable_digits by (auto simp: number_parts_def printable_def)
  then show ?thesis by simp
qed

lemma printable_join: "(\<And>t. t \<in> set ts \<Longrightarrow> list_all printable t) \<Longrightarrow> list_all printable (join (CHR '','') ts)"
  using set_join [of "CHR '',''" ts] by (force simp: list_all_iff printable_def)

lemma printable_json: "readable rep fl v \<Longrightarrow> list_all printable (json_text rep v)"
proof (induction v)
  case (PInt i)
  then show ?case using show_int_parts [of i] printable_number [of _ _ "[]" "[]"] by fastforce
next
  case (PFloat f)
  then show ?case using printable_number by (cases f) (fastforce simp: float_literal_def)+
next
  case (PStr s)
  then show ?case using printable_ascii_string by simp
next
  case (PList vs)
  then have "list_all printable (join (CHR '','') (map (json_text rep) vs))"
    by (intro printable_join) (auto simp: list_all_iff)
  then show ?case by simp
next
  case (PDict d)
  have "list_all printable (join (CHR '','') (map (\<lambda>(k, v). member_text (k, json_text rep v)) (sort_key fst d)))"
    using PDict printable_ascii_string
    by (intro printable_join) (fastforce simp: list_all_iff member_text_def)
  then show ?case by (simp add: json_text_dict)
qed (auto simp: printable_def)

lemma printable_not_break: "printable c \<Longrightarrow> \<not> line_break c \<and> c \<noteq> newline \<and> is_ascii c"
  by (auto simp: printable_def line_break_def newline_def is_ascii_def)

definition journal_bytes :: "(pyfloat \<Rightarrow> string) \<Rightarrow> pydict list \<Rightarrow> string" where
  "journal_bytes rep es = concat (map (encode_record rep) es)"

lemma splitlines_line:
  assumes "list_all (\<lambda>c. \<not> line_break c) t"
  shows "splitlines (t @ newline # r) = t # splitlines r"
proof -
  have "line_break newline" by (simp add: line_break_def newline_def)
  then have "takeWhile (\<lambda>c. \<not> line_break c) (t @ newline # r) = t"
    and "dropWhile (\<lambda>c. \<not> line_break c) (t @ newline # r) = newline # r"
    using assms by (induction t) auto
  then show ?thesis by (subst splitlines.simps) (simp add: newline_def)
qed

lemma splitlines_lines:
  "(\<And>t. t \<in> set ts \<Longrightarrow> list_all printable t) \<Longrightarrow> splitlines (concat (map (\<lambda>t. t @ [newline]) ts)) = ts"
proof (induction ts)
  case Nil
  then show ?case by (subst splitlines.simps) simp
next
  case (Cons t ts)
  then have "list_all (\<lambda>c. \<not> line_break c) t" using printable_not_break by (auto simp: list_all_iff)
  then show ?case using Cons splitlines_line by simp
qed

lemma final_fragment_append:
  assumes "J = [] \<or> last J = newline" and "newline \<notin> set p"
  shows "final_fragment (J @ p) = p" and "complete_records (J @ p) = J"
proof -
  have "takeWhile (\<lambda>c. c \<noteq> newline) (rev p @ rev J) = rev p"
    using assms by (cases J rule: rev_cases) (auto simp: takeWhile_append)
  then show f: "final_fragment (J @ p) = p" by (simp add: final_fragment_def)
  show "complete_records (J @ p) = J" by (simp add: complete_records_def f)
qed

lemma journal_bytes_ends: "journal_bytes rep es = [] \<or> last (journal_bytes rep es) = newline"
  by (cases es rule: rev_cases) (auto simp: journal_bytes_def encode_record_def)

lemma journal_bytes_ascii:
  assumes "\<And>e. e \<in> set es \<Longrightarrow> readable rep fl (PDict e)"
  shows "list_all is_ascii (journal_bytes rep es)"
proof -
  have "list_all is_ascii (encode_record rep e)" if "e \<in> set es" for e
    using printable_json [OF assms [OF that]] printable_not_break
    by (auto simp: encode_record_def list_all_iff) (simp add: newline_def is_ascii_def)
  then show ?thesis by (auto simp: journal_bytes_def list_all_iff)
qed

section \<open>Events read back\<close>

definition ascii_decoder :: "decoder \<Rightarrow> bool" where
  "ascii_decoder decode \<longleftrightarrow> (\<forall>b. list_all is_ascii b \<longrightarrow> decode b = Decoded b)"

definition sort_event :: "pydict \<Rightarrow> pydict" where
  "sort_event e = sort_key fst (map (\<lambda>(k, v). (k, sorted_keys v)) e)"

lemma sorted_keys_event: "sorted_keys (PDict e) = PDict (sort_event e)"
  by (simp add: sort_event_def)

lemma get_sort_event: "wf_dict e \<Longrightarrow> get (sort_event e) k = sorted_keys (get e k)"
  by (rule get_sorted_keys) (simp_all add: sort_event_def)

lemma sorted_keys_scalar [simp]:
  "sorted_keys v = PStr s \<longleftrightarrow> v = PStr s" "sorted_keys v = PNone \<longleftrightarrow> v = PNone"
  "sorted_keys v = PInt i \<longleftrightarrow> v = PInt i"
  "as_int (sorted_keys v) = as_int v" "as_str (sorted_keys v) = as_str v" "to_float (sorted_keys v) = to_float v"
  "hashable (sorted_keys v) = hashable v"
  by (cases v; simp add: to_float_def hashable_def)+

lemma py_in_strings: "py_in v (map PStr ss) \<longleftrightarrow> (\<exists>s \<in> set ss. v = PStr s)"
  by (auto simp: py_in_def list_ex_iff)

lemma check_sort_event: "wf_dict e \<Longrightarrow> check_event run_id n (sort_event e) = check_event run_id n e"
  by (simp add: check_event_def get_sort_event py_in_strings)

lemma note_exit_sort_event: "wf_dict e \<Longrightarrow> note_exit phase (sort_event e) r = note_exit phase e r"
  by (simp add: note_exit_def get_sort_event)

lemma recover_sort_event: "wf_dict e \<Longrightarrow> recover_event r (sort_event e) = recover_event r e"
  by (cases "as_str (get e ''phase'')")
    (simp_all add: recover_event_def note_exit_sort_event get_sort_event Let_def)

lemma recover_sorted:
  assumes "\<And>e. e \<in> set es \<Longrightarrow> wf_dict e"
  shows "recover_history (map sort_event es) = recover_history es"
proof -
  have "foldl recover_event r (map sort_event es) = foldl recover_event r es" for r
    using assms by (induction es arbitrary: r) (simp_all add: recover_sort_event)
  then show ?thesis by (simp add: recover_history_def)
qed

text \<open>A history as the runner writes it: records that read back, in sequence.\<close>

definition good_event :: "(pyfloat \<Rightarrow> string) \<Rightarrow> (string \<Rightarrow> pyfloat) \<Rightarrow> string \<Rightarrow> int \<Rightarrow> pydict \<Rightarrow> bool" where
  "good_event rep fl run_id n e \<longleftrightarrow>
     readable rep fl (PDict e) \<and> short_escapes (PDict e) \<and> check_event run_id n e = Inr ()"

fun good_history :: "(pyfloat \<Rightarrow> string) \<Rightarrow> (string \<Rightarrow> pyfloat) \<Rightarrow> string \<Rightarrow> int \<Rightarrow> pydict list \<Rightarrow> bool" where
  "good_history rep fl run_id n [] = True"
| "good_history rep fl run_id n (e # es) = (good_event rep fl run_id n e \<and> good_history rep fl run_id (n + 1) es)"

lemma good_history_append:
  "good_history rep fl run_id n (es @ es') \<longleftrightarrow>
     good_history rep fl run_id n es \<and> good_history rep fl run_id (n + int (length es)) es'"
  by (induction es arbitrary: n) (auto simp: algebra_simps)

lemma good_history_event:
  "good_history rep fl run_id n es \<Longrightarrow> e \<in> set es \<Longrightarrow> \<exists>m. good_event rep fl run_id m e"
  by (induction es arbitrary: n) auto

lemma read_good_line:
  assumes "good_event rep fl run_id n e"
  shows "read_line fl run_id (h, n) (json_text rep (PDict e)) = Inr (h @ [sort_event e], n + 1)"
proof -
  have "\<not> is_space (CHR ''{'')" by (simp add: is_space_def)
  then have "strip (json_text rep (PDict e)) \<noteq> []"
    by (auto simp: json_text_dict strip_def dropWhile_eq_Nil_conv)
  then show ?thesis
    using assms
    by (simp add: read_line_def parse_event_def loads_json_text sorted_keys_event good_event_def check_sort_event
        del: sorted_keys.simps)
qed

lemma read_good_lines:
  "good_history rep fl run_id n es \<Longrightarrow>
     foldR (read_line fl run_id) (h, n) (map (\<lambda>e. json_text rep (PDict e)) es) =
     Inr (h @ map sort_event es, n + int (length es))"
proof (induction es arbitrary: h n)
  case (Cons e es)
  then show ?case by (simp add: read_good_line algebra_simps)
qed simp

lemma read_good_history:
  assumes "good_history rep fl run_id 1 es" and "ascii_decoder decode"
  shows "read_lines decode fl run_id (journal_bytes rep es) = Inr (map sort_event es)"
proof -
  have r: "readable rep fl (PDict e)" if "e \<in> set es" for e
    using good_history_event [OF assms(1) that] by (auto simp: good_event_def)
  have "decode (journal_bytes rep es) = Decoded (journal_bytes rep es)"
    using assms(2) journal_bytes_ascii [OF r] by (simp add: ascii_decoder_def)
  moreover have "journal_bytes rep es = concat (map (\<lambda>t. t @ [newline]) (map (\<lambda>e. json_text rep (PDict e)) es))"
    by (auto simp: journal_bytes_def encode_record_def comp_def intro!: arg_cong [where f = concat])
  moreover have "splitlines (concat (map (\<lambda>t. t @ [newline]) (map (\<lambda>e. json_text rep (PDict e)) es))) =
      map (\<lambda>e. json_text rep (PDict e)) es"
    using printable_json [OF r] by (intro splitlines_lines) auto
  ultimately show ?thesis using read_good_lines [OF assms(1), of "[]"] by (simp add: read_lines_def)
qed

section \<open>An append that is cut short\<close>

lemma torn_append:
  assumes good: "good_history rep fl run_id 1 (es @ [e])" and ascii: "ascii_decoder decode"
    and cut: "prefix p (encode_record rep e)"
  shows "read_event_history decode fl run_id (JournalBytes (journal_bytes rep es @ p)) =
    (if p = encode_record rep e
     then (Inr (map sort_event (es @ [e])), JournalBytes (journal_bytes rep (es @ [e])))
     else if p = json_text rep (PDict e)
     then (Inl (RequestError ''events.jsonl contains an incomplete record terminator''),
           JournalBytes (journal_bytes rep es @ p))
     else (Inr (map sort_event es), JournalBytes (journal_bytes rep es)))"
proof -
  let ?J = "journal_bytes rep es" and ?t = "json_text rep (PDict e)"
  have e: "readable rep fl (PDict e)" "short_escapes (PDict e)" and es: "good_history rep fl run_id 1 es"
    using good by (auto simp: good_history_append good_event_def)
  have text_chars: "c \<noteq> newline \<and> is_ascii c" if "c \<in> set ?t" for c
    using printable_json [OF e(1)] that printable_not_break by (auto simp: list_all_iff)
  consider "p = encode_record rep e" | "prefix p ?t"
    using cut by (auto simp: encode_record_def prefix_append prefix_Cons)
  then show ?thesis
  proof cases
    case 1
    have J: "?J @ p = journal_bytes rep (es @ [e])" using 1 by (simp add: journal_bytes_def)
    have "final_fragment (journal_bytes rep (es @ [e])) = []"
      using final_fragment_append(1) [of "journal_bytes rep (es @ [e])" "[]"] journal_bytes_ends [of rep "es @ [e]"] by simp
    then show ?thesis
      using 1 read_good_history [OF good ascii] unfolding J by (simp add: read_event_history_def)
  next
    case 2
    have nl: "newline \<notin> set p" and asc: "list_all is_ascii p"
      using set_mono_prefix [OF 2] text_chars by (auto simp: list_all_iff)
    have ne: "p \<noteq> encode_record rep e" using nl by (auto simp: encode_record_def)
    have frag: "final_fragment (?J @ p) = p" "complete_records (?J @ p) = ?J"
      using final_fragment_append [OF journal_bytes_ends nl] by simp_all
    have dec: "decode p = Decoded p" using ascii asc by (simp add: ascii_decoder_def)
    consider "p = []" | "p = ?t" | "strict_prefix p ?t" "p \<noteq> []" using 2 by (auto simp: strict_prefix_def)
    then show ?thesis
    proof cases
      case 1
      have "?t \<noteq> []" by (simp add: json_text_dict)
      then show ?thesis
        using 1 ne frag read_good_history [OF es ascii] by (simp add: read_event_history_def)
    next
      case p: 2
      have "\<not> torn_fragment fl p"
        using loads_json_text [OF e(1)] p
        by (auto simp: torn_fragment_def loads_def result_simps split: sum.splits)
      moreover have "p \<noteq> []" using p by (simp add: json_text_dict)
      ultimately show ?thesis using p ne frag dec by (simp add: read_event_history_def is_torn_def)
    next
      case 3
      have "torn_fragment fl p" using torn_prefix [OF e 3] .
      then show ?thesis
        using 3 ne frag dec read_good_history [OF es ascii]
        by (auto simp: read_event_history_def is_torn_def strict_prefix_def)
    qed
  qed
qed

text \<open>
  C34: whatever part of the next record's line reached the disk when the runner died, the next start reads the
  journal correctly: nothing of the record, or a proper part of its JSON, and the history is that of the complete
  records, with the part truncated away; the whole line, and the history has the new event; the whole JSON without
  its newline, and the start is refused with the file unchanged.
\<close>

theorem torn_append_recovered:
  assumes good: "good_history rep fl run_id 1 (es @ [e])" and ascii: "ascii_decoder decode"
    and cut: "prefix p (encode_record rep e)"
  shows "read_event_history decode fl run_id (JournalBytes (journal_bytes rep es @ p)) =
    (if p = encode_record rep e
     then (Inr (map sort_event (es @ [e])), JournalBytes (journal_bytes rep (es @ [e])))
     else if p = json_text rep (PDict e)
     then (Inl (RequestError ''events.jsonl contains an incomplete record terminator''),
           JournalBytes (journal_bytes rep es @ p))
     else (Inr (map sort_event es), JournalBytes (journal_bytes rep es)))"
  using torn_append [OF assms] .

section \<open>The records the runner writes\<close>

definition plain_text :: "string \<Rightarrow> bool" where
  "plain_text s \<longleftrightarrow> list_all (\<lambda>c. \<not> escapes_unicode c) s"

text \<open>What \<open>fields\<close> may hold: an exit code or an outcome.\<close>

definition good_extra :: "pydict \<Rightarrow> bool" where
  "good_extra extra \<longleftrightarrow> extra = [] \<or> (\<exists>code. extra = [(''exit_code'', PInt code)]) \<or>
     (\<exists>t. extra = [(''outcome'', PStr t)] \<and> plain_text t)"

lemma plain_printable: "printable c \<Longrightarrow> \<not> escapes_unicode c"
  by (simp add: printable_def escapes_unicode_def ascii_char_def)

lemma printable_id_char: "id_char c \<Longrightarrow> printable c"
  by (auto simp: id_char_def is_alnum_def is_digit_def is_lower_def is_upper_def less_eq_char_def printable_def)

lemma plain_id: "list_all id_char s \<Longrightarrow> plain_text s"
  using printable_id_char plain_printable by (auto simp: plain_text_def list_all_iff)

lemma plain_strings [simp]:
  "plain_text ''protocol''" "plain_text ''run_id''" "plain_text ''sequence''" "plain_text ''kind''" "plain_text ''phase''"
  "plain_text ''monotonic_seconds''" "plain_text ''recorded_at_unix''" "plain_text ''exit_code''" "plain_text ''outcome''"
  "plain_text ''run-event/1''"
  by code_simp+

lemma plain_kinds: "list_all plain_text event_kinds" "list_all plain_text phase_order"
  by code_simp+

definition readable_float :: "(pyfloat \<Rightarrow> string) \<Rightarrow> (string \<Rightarrow> pyfloat) \<Rightarrow> pyfloat \<Rightarrow> bool" where
  "readable_float rep fl x \<longleftrightarrow> readable rep fl (PFloat x)"

lemma good_event_record:
  assumes "plain_text run_id" and "kind \<in> set event_kinds" and "\<forall>p. phase = Some p \<longrightarrow> p \<in> set phase_order"
    and "readable_float rep fl elapsed" and "readable_float rep fl wall" and "good_extra extra"
  shows "good_event rep fl run_id n (event_record run_id n kind phase elapsed wall extra)"
proof -
  have plain: "plain_text kind" "\<And>p. phase = Some p \<Longrightarrow> plain_text p"
    using assms(2, 3) plain_kinds by (auto simp: list_all_iff)
  have extra: "extra = [] \<or> (\<exists>k v. extra = [(k, v)] \<and> k \<in> {''exit_code'', ''outcome''} \<and> plain_text k \<and>
      readable rep fl v \<and> short_escapes v)"
    using assms(6) by (auto simp: good_extra_def plain_text_def [symmetric])
  let ?base = "[(''protocol'', PStr ''run-event/1''), (''run_id'', PStr run_id), (''sequence'', PInt n),
        (''kind'', PStr kind), (''phase'', opt_str phase), (''monotonic_seconds'', PFloat elapsed),
        (''recorded_at_unix'', PFloat wall)]"
  have shape: "event_record run_id n kind phase elapsed wall extra = ?base @ extra"
    using extra by (auto simp: event_record_def)
  have "py_in (PStr kind) (map PStr event_kinds)" and
    "opt_str phase = PNone \<or> py_in (opt_str phase) (map PStr phase_order)"
    using assms(2, 3) by (auto simp: py_in_strings opt_str_def split: option.splits)
  then have "check_event run_id n (?base @ extra) = Inr ()"
    by (simp add: check_event_def hashable_def)
  moreover have "readable rep fl (PDict (?base @ extra))"
    using extra assms(4, 5) by (cases phase) (auto simp: opt_str_def readable_float_def)
  moreover have "short_escapes (opt_str phase)"
    using plain(2) by (cases phase) (auto simp: opt_str_def plain_text_def)
  then have "short_escapes (PDict (?base @ extra))"
    using extra assms(1) plain(1) plain_strings by (auto simp: plain_text_def [symmetric])
  ultimately show ?thesis unfolding shape good_event_def by blast
qed

text \<open>A concrete \<open>repr\<close> and a clock that always shows 1.5, for the witnesses.\<close>

definition rep_15 :: "pyfloat \<Rightarrow> string" where
  "rep_15 x = ''1.5''"

definition read_15 :: "string \<Rightarrow> pyfloat" where
  "read_15 t = Fin (3 / 2)"

lemma readable_15: "readable_float rep_15 read_15 (Fin (3 / 2))"
proof -
  have "''1.5'' = [] @ ''1'' @ ''.5'' @ [] \<and> number_parts [] ''1'' ''.5'' [] \<and> ''.5'' @ [] \<noteq> []"
    by (auto simp: number_parts_def is_digit_iff)
  then have "float_literal ''1.5''" unfolding float_literal_def by blast
  then show ?thesis by (simp add: readable_float_def rep_15_def read_15_def)
qed

theorem torn_append_recovered_witness:
  "let e1 = event_record ''run-1'' 1 ''ready'' None (Fin (3 / 2)) (Fin (3 / 2)) [];
       e2 = event_record ''run-1'' 2 ''phase_started'' (Some ''train'') (Fin (3 / 2)) (Fin (3 / 2)) []
   in prefix ''{'' (encode_record rep_15 e2) \<and>
      read_event_history Decoded read_15 ''run-1'' (JournalBytes (journal_bytes rep_15 [e1] @ ''{'')) =
        (Inr [sort_event e1], JournalBytes (journal_bytes rep_15 [e1]))"
proof -
  let ?e1 = "event_record ''run-1'' 1 ''ready'' None (Fin (3 / 2)) (Fin (3 / 2)) []"
  let ?e2 = "event_record ''run-1'' 2 ''phase_started'' (Some ''train'') (Fin (3 / 2)) (Fin (3 / 2)) []"
  have "good_event rep_15 read_15 ''run-1'' 1 ?e1" and "good_event rep_15 read_15 ''run-1'' 2 ?e2"
    by (rule good_event_record; simp add: event_kinds_def phase_order_def readable_15 good_extra_def plain_id id_char_def
        is_alnum_def is_digit_def is_lower_def is_upper_def)+
  then have good: "good_history rep_15 read_15 ''run-1'' 1 ([?e1] @ [?e2])" by simp
  have ascii: "ascii_decoder Decoded" by (simp add: ascii_decoder_def)
  have pre: "prefix ''{'' (encode_record rep_15 ?e2)" by (simp add: encode_record_def json_text_dict)
  have "''{'' \<noteq> encode_record rep_15 ?e2" and "''{'' \<noteq> json_text rep_15 (PDict ?e2)"
    by (simp_all add: encode_record_def json_text_dict)
  then show ?thesis
    using torn_append_recovered [OF good ascii pre] pre by (simp add: Let_def)
qed

end
