(* ===== verification/Artifacts.thy ===== *)
theory Artifacts
  imports Bundle Journal
begin

text \<open>
  The artifacts of a run in \<open>runner.py\<close>: \<open>_artifact_receipt\<close>, which verifies the declared manifest and every
  file it lists, and \<open>_ensure_failure_artifact_manifest\<close>, which writes a manifest of the phase logs when a
  failed run left none.  The run root is a tree of \<open>node\<close>s that does not change while it is verified.  \<open>sha\<close> is
  SHA-256 of the bytes, \<open>decode\<close> is UTF-8, \<open>fl\<close> is \<open>float(text)\<close>.
\<close>

section \<open>Files below the run root\<close>

datatype found = Missing | Through_symlink | Found node

fun find_node :: "node \<Rightarrow> string list \<Rightarrow> found" where
  "find_node n [] = Found n"
| "find_node (Directory es) (p # ps) =
     (case dget es p of
        None \<Rightarrow> Missing
      | Some n \<Rightarrow> if n = Symlink then Through_symlink else find_node n ps)"
| "find_node n (p # ps) = Missing"

definition artifact_error :: "string \<Rightarrow> exn + 'a" where
  "artifact_error reason = Inl (ArtifactVerificationError reason)"

definition ends_with :: "string \<Rightarrow> string \<Rightarrow> bool" where
  "ends_with s t \<longleftrightarrow> suffix t s"

definition safe_storage_file :: "node \<Rightarrow> string \<Rightarrow> exn + string" where
  "safe_storage_file storage_root candidate =
     (case runner_relative_path (PStr candidate) ''artifact path'' of
        Inl _ \<Rightarrow> artifact_error ''artifact_manifest_invalid''
      | Inr relative \<Rightarrow>
          (case find_node storage_root (path_parts (pure_posix_path relative)) of
             Through_symlink \<Rightarrow> artifact_error ''artifact_manifest_invalid''
           | Missing \<Rightarrow>
               artifact_error (if ends_with candidate ''manifest.json'' then ''artifact_manifest_missing''
                               else ''artifact_file_missing'')
           | Found (Regular bytes) \<Rightarrow> Inr bytes
           | Found _ \<Rightarrow> artifact_error ''artifact_file_missing''))"

section \<open>The receipt\<close>

definition max_manifest_bytes :: int where
  "max_manifest_bytes = 16 * 1024 * 1024"

definition artifact_mapping :: "pyval \<Rightarrow> exn + pydict" where
  "artifact_mapping v =
     (case as_dict v of None \<Rightarrow> artifact_error ''artifact_manifest_invalid'' | Some d \<Rightarrow> Inr d)"

definition verify_artifact :: "(string \<Rightarrow> string) \<Rightarrow> node \<Rightarrow> string list \<Rightarrow> pyval \<Rightarrow> exn + string list" where
  "verify_artifact sha run_root seen raw =
     bindR (artifact_mapping raw) (\<lambda>entry.
       let invalid = artifact_error ''artifact_manifest_invalid'' in
       case as_str (get entry ''path'') of None \<Rightarrow> invalid
       | Some path_value \<Rightarrow>
           (case as_int (get entry ''size'') of None \<Rightarrow> invalid
            | Some declared \<Rightarrow>
                (case as_str (get entry ''sha256'') of None \<Rightarrow> invalid
                 | Some expected \<Rightarrow>
                     if declared < 0 \<or> \<not> is_sha256 expected \<or> path_value \<in> set seen then invalid
                     else bindR (safe_storage_file run_root path_value) (\<lambda>bytes.
                       if int (length bytes) \<noteq> declared then artifact_error ''artifact_size_mismatch''
                       else if sha bytes \<noteq> expected then artifact_error ''artifact_hash_mismatch''
                       else Inr (seen @ [path_value])))))"

definition load_manifest :: "decoder \<Rightarrow> (string \<Rightarrow> pyfloat) \<Rightarrow> string \<Rightarrow> exn + pydict" where
  "load_manifest decode fl bytes =
     (case decode bytes of
        Decoded t \<Rightarrow>
          (case raw_loads fl t of
             Inr v \<Rightarrow> if duplicate_keys v then artifact_error ''artifact_manifest_invalid'' else artifact_mapping v
           | Inl _ \<Rightarrow> artifact_error ''artifact_manifest_invalid'')
      | _ \<Rightarrow> artifact_error ''artifact_manifest_invalid'')"

definition artifact_receipt ::
  "(string \<Rightarrow> string) \<Rightarrow> decoder \<Rightarrow> (string \<Rightarrow> pyfloat) \<Rightarrow> string \<Rightarrow> pyval \<Rightarrow> node \<Rightarrow> exn + pydict" where
  "artifact_receipt sha decode fl run_id manifest_value run_root =
     (case as_str manifest_value of
        None \<Rightarrow> Inr []
      | Some manifest_path \<Rightarrow>
          bindR (safe_storage_file run_root manifest_path) (\<lambda>bytes.
            if max_manifest_bytes < int (length bytes) then artifact_error ''artifact_manifest_invalid''
            else bindR (load_manifest decode fl bytes) (\<lambda>manifest.
              if \<not> pyeq (get manifest ''protocol'') (PStr ''artifact-manifest/1'')
              then artifact_error ''artifact_manifest_invalid''
              else if get manifest ''run_id'' \<noteq> PNone \<and> \<not> pyeq (get manifest ''run_id'') (PStr run_id)
              then artifact_error ''artifact_manifest_invalid''
              else (case as_list (get manifest ''files'') of
                 None \<Rightarrow> artifact_error ''artifact_manifest_invalid''
               | Some files \<Rightarrow>
                   bindR (foldR (verify_artifact sha run_root) [] files) (\<lambda>_.
                     Inr [(''artifact_manifest_sha256'', PStr (sha bytes)),
                          (''artifact_manifest_size'', PInt (int (length bytes)))])))))"

section \<open>The manifest of a failed run\<close>

text \<open>Writing a file and the directories above it; \<open>None\<close> is an \<open>OSError\<close>.\<close>

fun put_file :: "string list \<Rightarrow> string \<Rightarrow> node \<Rightarrow> node option" where
  "put_file (p # ps) bytes (Directory es) =
     (if ps = [] then Some (Directory (dput p (Regular bytes) es))
      else map_option (\<lambda>n. Directory (dput p n es))
        (put_file ps bytes (case dget es p of None \<Rightarrow> Directory [] | Some n \<Rightarrow> n)))"
| "put_file ps bytes n = None"

definition is_log :: "string \<times> node \<Rightarrow> bool" where
  "is_log e \<longleftrightarrow> ends_with (fst e) ''.log'' \<and> (case snd e of Regular _ \<Rightarrow> True | _ \<Rightarrow> False)"

definition log_entry :: "(string \<Rightarrow> string) \<Rightarrow> string list \<Rightarrow> string \<times> node \<Rightarrow> pyval" where
  "log_entry sha parts e =
     (let bytes = (case snd e of Regular b \<Rightarrow> b | _ \<Rightarrow> []) in
      PDict [(''path'', PStr (join slash (parts @ [fst e]))), (''size'', PInt (int (length bytes))),
             (''sha256'', PStr (sha bytes))])"

text \<open>
  \<open>is_dir\<close> and \<open>glob\<close> follow symbolic links: \<open>linked\<close> says which directory, if any, a path through a link leads to.
\<close>

definition directory_entries :: "(string list \<Rightarrow> (string \<times> node) list option) \<Rightarrow> node \<Rightarrow> string list \<Rightarrow> (string \<times> node) list" where
  "directory_entries linked run_root parts =
     (case find_node run_root parts of
        Found (Directory es) \<Rightarrow> es
      | Through_symlink \<Rightarrow> (case linked parts of None \<Rightarrow> [] | Some es \<Rightarrow> es)
      | _ \<Rightarrow> [])"

definition failure_manifest ::
  "(string \<Rightarrow> string) \<Rightarrow> string \<Rightarrow> string list \<Rightarrow> (string list \<Rightarrow> (string \<times> node) list option) \<Rightarrow> node \<Rightarrow> pyval" where
  "failure_manifest sha run_id parent linked run_root =
     (let diagnostics = parent @ [''diagnostics'', ''phases''] in
      PDict [(''protocol'', PStr ''artifact-manifest/1''), (''run_id'', PStr run_id),
             (''files'', PList (map (log_entry sha diagnostics)
                (filter is_log (sort_key fst (directory_entries linked run_root diagnostics)))))])"

text \<open>A manifest path through a symbolic link is left alone here: the receipt refuses it in either case.\<close>

definition ensure_failure_artifact_manifest ::
  "(string \<Rightarrow> string) \<Rightarrow> (pyfloat \<Rightarrow> string) \<Rightarrow> string \<Rightarrow> pyval \<Rightarrow> (string list \<Rightarrow> (string \<times> node) list option) \<Rightarrow> node \<Rightarrow>
     node" where
  "ensure_failure_artifact_manifest sha rep run_id manifest_value linked run_root =
     (case as_str manifest_value of
        None \<Rightarrow> run_root
      | Some manifest_path \<Rightarrow>
          let parts = path_parts (pure_posix_path manifest_path) in
          if find_node run_root parts \<noteq> Missing then run_root
          else (case put_file parts (json_text rep (failure_manifest sha run_id (butlast parts) linked run_root) @ [newline]) run_root of
             None \<Rightarrow> run_root | Some run_root' \<Rightarrow> run_root'))"

section \<open>What a receipt proves\<close>

lemma artifact_error_Inr [simp]: "artifact_error e \<noteq> Inr x"
  by (simp add: artifact_error_def)

lemma safe_storage_file_Inr:
  "safe_storage_file tree s = Inr bytes \<longleftrightarrow>
     runner_relative_path (PStr s) ''artifact path'' = Inr s \<and>
     find_node tree (path_parts (pure_posix_path s)) = Found (Regular bytes)"
proof (cases "runner_relative_path (PStr s) ''artifact path''")
  case (Inr t)
  then have "t = s" by (simp add: runner_relative_path_Inr)
  with Inr show ?thesis
    by (auto simp: safe_storage_file_def split: found.splits node.splits)
qed (simp add: safe_storage_file_def)

text \<open>A manifest entry that describes a regular file below the run root.\<close>

definition entry_matches :: "(string \<Rightarrow> string) \<Rightarrow> node \<Rightarrow> string \<Rightarrow> pyval \<Rightarrow> bool" where
  "entry_matches sha tree path v \<longleftrightarrow>
     (\<exists>d bytes. v = PDict d \<and> get d ''path'' = PStr path \<and> get d ''size'' = PInt (int (length bytes)) \<and>
        get d ''sha256'' = PStr (sha bytes) \<and> is_sha256 (sha bytes) \<and>
        runner_relative_path (PStr path) ''artifact path'' = Inr path \<and>
        find_node tree (path_parts (pure_posix_path path)) = Found (Regular bytes))"

lemma verify_artifact_iff:
  "verify_artifact sha tree seen v = Inr seen' \<longleftrightarrow>
     (\<exists>path. entry_matches sha tree path v \<and> path \<notin> set seen \<and> seen' = seen @ [path])"
proof
  assume v: "verify_artifact sha tree seen v = Inr seen'"
  then obtain d where d: "v = PDict d" by (cases v) (auto simp: verify_artifact_def artifact_mapping_def)
  with v obtain path n h where f: "get d ''path'' = PStr path" "get d ''size'' = PInt n" "get d ''sha256'' = PStr h"
    by (auto simp: verify_artifact_def artifact_mapping_def Let_def split: option.splits)
  then show "\<exists>path. entry_matches sha tree path v \<and> path \<notin> set seen \<and> seen' = seen @ [path]"
    using v d by (auto simp: verify_artifact_def artifact_mapping_def safe_storage_file_Inr entry_matches_def split: if_splits)
next
  assume "\<exists>path. entry_matches sha tree path v \<and> path \<notin> set seen \<and> seen' = seen @ [path]"
  then show "verify_artifact sha tree seen v = Inr seen'"
    by (auto simp: entry_matches_def verify_artifact_def artifact_mapping_def safe_storage_file_Inr [THEN iffD2])
qed

lemma verify_artifacts_iff:
  "foldR (verify_artifact sha tree) seen vs = Inr seen' \<longleftrightarrow>
     (\<exists>paths. list_all2 (entry_matches sha tree) paths vs \<and> distinct paths \<and> set paths \<inter> set seen = {} \<and>
        seen' = seen @ paths)"
proof (induction vs arbitrary: seen)
  case (Cons v vs)
  show ?case
    by (auto simp: verify_artifact_iff Cons.IH list_all2_Cons2) (auto intro: exI [of _ "_ # _"])
qed auto

lemma load_manifest_Inr:
  "load_manifest decode fl bytes = Inr d \<longleftrightarrow>
     (\<exists>t. decode bytes = Decoded t \<and> raw_loads fl t = Inr (PDict d) \<and> \<not> duplicate_keys (PDict d))"
  by (auto simp: load_manifest_def artifact_mapping_def split: decoded.splits sum.splits option.splits)

text \<open>
  C35: a receipt proves the artifacts.  When \<open>_artifact_receipt\<close> returns one, the declared manifest is a regular
  file below the run root whose text is an artifact manifest for this run or for none in particular, the receipt
  carries its hash and size, and every entry names, under a path of its own that stays inside and meets no
  symbolic link, a regular file of exactly the recorded size and hash.
\<close>

theorem artifact_receipt_exact:
  assumes "artifact_receipt sha decode fl run_id (PStr manifest_path) tree = Inr receipt"
  shows "\<exists>bytes manifest files paths.
    find_node tree (path_parts (pure_posix_path manifest_path)) = Found (Regular bytes) \<and>
    load_manifest decode fl bytes = Inr manifest \<and>
    get manifest ''protocol'' = PStr ''artifact-manifest/1'' \<and>
    get manifest ''run_id'' \<in> {PNone, PStr run_id} \<and> get manifest ''files'' = PList files \<and>
    list_all2 (entry_matches sha tree) paths files \<and> distinct paths \<and>
    receipt = [(''artifact_manifest_sha256'', PStr (sha bytes)), (''artifact_manifest_size'', PInt (int (length bytes)))]"
proof -
  obtain bytes where b: "safe_storage_file tree manifest_path = Inr bytes"
    using assms by (auto simp: artifact_receipt_def)
  then obtain manifest where m: "load_manifest decode fl bytes = Inr manifest"
    using assms by (auto simp: artifact_receipt_def split: if_splits)
  obtain files where f: "get manifest ''files'' = PList files"
    using assms b m by (auto simp: artifact_receipt_def split: if_splits option.splits)
  have "\<exists>seen. foldR (verify_artifact sha tree) [] files = Inr seen"
    and "get manifest ''protocol'' = PStr ''artifact-manifest/1''" and "get manifest ''run_id'' \<in> {PNone, PStr run_id}"
    and "receipt = [(''artifact_manifest_sha256'', PStr (sha bytes)), (''artifact_manifest_size'', PInt (int (length bytes)))]"
    using assms b m f by (auto simp: artifact_receipt_def split: if_splits)
  then show ?thesis using b m f by (auto simp: safe_storage_file_Inr verify_artifacts_iff)
qed

section \<open>The manifest of a failed run verifies\<close>

lemma put_file_found:
  "put_file ps bytes n = Some n' \<Longrightarrow> find_node n ps = Missing \<Longrightarrow> find_node n' ps = Found (Regular bytes)"
proof (induction ps bytes n arbitrary: n' rule: put_file.induct)
  case (1 p ps bytes es)
  show ?case
  proof (cases "ps = []")
    case True
    then show ?thesis using 1 by auto
  next
    case False
    let ?m = "case dget es p of None \<Rightarrow> Directory [] | Some n \<Rightarrow> n"
    obtain m' where m': "put_file ps bytes ?m = Some m'" and n': "n' = Directory (dput p m' es)"
      using 1(2) False by auto
    have "find_node ?m ps = Missing"
      using 1(3) False by (cases "dget es p"; cases ps) (auto split: if_splits)
    then have "find_node m' ps = Found (Regular bytes)" using 1(1) [OF False m'] by simp
    moreover have "m' \<noteq> Symlink" using m' False by (cases ps; cases ?m) (auto split: if_splits)
    ultimately show ?thesis using n' by simp
  qed
qed auto

lemma put_file_keeps:
  assumes "put_file ps bytes n = Some n'" and "find_node n ps = Missing" and "find_node n qs = Found (Regular b)"
  shows "find_node n' qs = Found (Regular b)"
  using assms
proof (induction ps bytes n arbitrary: n' qs rule: put_file.induct)
  case (1 p ps bytes es)
  obtain q qs' where qs: "qs = q # qs'" using 1(4) by (cases qs) auto
  then obtain m where m: "dget es q = Some m" "m \<noteq> Symlink" and found: "find_node m qs' = Found (Regular b)"
    using 1(4) by (auto split: option.splits if_splits)
  show ?case
  proof (cases "ps = []")
    case True
    then have "q \<noteq> p" using 1(3) m by (auto split: option.splits if_splits)
    then show ?thesis using True 1(2) qs m found by auto
  next
    case False
    let ?m = "case dget es p of None \<Rightarrow> Directory [] | Some n \<Rightarrow> n"
    obtain m' where m': "put_file ps bytes ?m = Some m'" and n': "n' = Directory (dput p m' es)"
      using 1(2) False by auto
    show ?thesis
    proof (cases "q = p")
      case True
      then have "find_node m' qs' = Found (Regular b)"
        using 1(1) [OF False m'] 1(3) m found False by auto
      moreover have "m' \<noteq> Symlink" using m' False by (cases ps; cases ?m) (auto split: if_splits)
      ultimately show ?thesis using qs n' True by simp
    next
      case False
      then show ?thesis using qs n' m found by simp
    qed
  qed
qed auto

lemma normal_join:
  assumes "ps \<noteq> []" and "\<And>p. p \<in> set ps \<Longrightarrow> \<not> dotted p \<and> slash \<notin> set p"
  shows "normal_path (join slash ps)" and "path_parts (pure_posix_path (join slash ps)) = ps"
proof -
  have s: "split_on slash (join slash ps) = ps" using assms by (intro split_on_join) auto
  then show n: "normal_path (join slash ps)" using assms by (simp add: normal_path_def list_all_iff)
  show "path_parts (pure_posix_path (join slash ps)) = ps" using normal_path_parts(2) [OF n] s by simp
qed

lemma join_no_bad:
  assumes "\<And>p. p \<in> set ps \<Longrightarrow> \<not> list_ex backslash_or_nul p"
  shows "\<not> list_ex backslash_or_nul (join slash ps)"
proof
  assume "list_ex backslash_or_nul (join slash ps)"
  then obtain c where c: "c \<in> set (join slash ps)" "backslash_or_nul c" by (auto simp: list_ex_iff)
  have "\<not> backslash_or_nul slash" by (simp add: backslash_or_nul_def slash_def)
  then obtain p where "p \<in> set ps" "c \<in> set p" using c set_join [of slash ps] by auto
  then show False using assms [of p] c(2) by (auto simp: list_ex_iff)
qed

lemma raw_loads_line:
  assumes "readable rep fl v"
  shows "raw_loads fl (json_text rep v @ [newline]) = Inr (sorted_keys v)"
proof -
  let ?t = "json_text rep v"
  have r: "reads_as fl ?t (sorted_keys v)" using assms by (rule reads_json)
  have "\<not> is_digit newline" and "newline \<noteq> CHR ''.''" and "newline \<notin> set ''eE''"
    by (simp_all add: newline_def is_digit_iff)
  then have "stops [newline]" by (simp add: stops_def scan_fraction_def scan_exponent_def)
  then have "scan_value (2 * length (?t @ [newline]) + 2) fl (?t @ [newline]) = Inr (sorted_keys v, [newline])"
    using r by (intro reads_asD) simp_all
  moreover have "skip_ws (?t @ [newline]) = ?t @ [newline]" using r by (intro skip_ws_solid) (simp add: reads_as_def)
  ultimately show ?thesis by (simp add: raw_loads_def) (simp add: skip_ws_def json_space_def newline_def)
qed

lemma no_duplicate_keys: "readable rep fl v \<Longrightarrow> \<not> duplicate_keys (sorted_keys v)"
proof (induction v)
  case (PDict d)
  have "distinct (map fst (sort_key fst (map (\<lambda>(k, v). (k, sorted_keys v)) d)))"
    using PDict.prems keys_sorted [where g = sorted_keys and d = d] by (metis mset_eq_imp_distinct_iff readable.simps(4))
  then show ?case using PDict by (fastforce simp: list_ex_iff list_all_iff)
next
  case (PList vs)
  then show ?case by (auto simp: list_ex_iff list_all_iff)
qed auto

lemma find_node_append: "find_node n ps = Found m \<Longrightarrow> find_node n (ps @ qs) = find_node m qs"
  by (induction n ps rule: find_node.induct) (auto split: option.splits if_splits)

lemma log_entry_matches:
  assumes parts: "list_all (\<lambda>p. \<not> dotted p \<and> slash \<notin> set p \<and> \<not> list_ex backslash_or_nul p) (dir @ [fst e])"
    and log: "is_log e" and sha: "\<And>b. is_sha256 (sha b)"
    and found: "find_node tree (dir @ [fst e]) = Found (snd e)"
  shows "entry_matches sha tree (join slash (dir @ [fst e])) (sorted_keys (log_entry sha dir e))"
proof -
  obtain b where b: "snd e = Regular b" using log by (auto simp: is_log_def split: node.splits)
  have ps: "\<not> dotted p \<and> slash \<notin> set p" if "p \<in> set (dir @ [fst e])" for p
    using parts that by (auto simp: list_all_iff)
  have n: "normal_path (join slash (dir @ [fst e]))" "path_parts (pure_posix_path (join slash (dir @ [fst e]))) = dir @ [fst e]"
    using normal_join [of "dir @ [fst e]"] ps by simp_all
  have "\<not> list_ex backslash_or_nul (join slash (dir @ [fst e]))"
    using parts by (intro join_no_bad) (auto simp: list_all_iff)
  then have "runner_relative_path (PStr (join slash (dir @ [fst e]))) ''artifact path'' = Inr (join slash (dir @ [fst e]))"
    using n by (simp add: runner_relative_path_Inr)
  moreover have "sorted_keys (log_entry sha dir e) =
      PDict [(''path'', PStr (join slash (dir @ [fst e]))), (''sha256'', PStr (sha b)), (''size'', PInt (int (length b)))]"
    by (simp add: log_entry_def b)
  ultimately show ?thesis using n sha found b by (auto simp: entry_matches_def)
qed

text \<open>The logs below a directory that is not reached through a link.\<close>

definition logs_at :: "node \<Rightarrow> string list \<Rightarrow> (string \<times> node) list" where
  "logs_at tree dir = (case find_node tree dir of Found (Directory es) \<Rightarrow> filter is_log (sort_key fst es) | _ \<Rightarrow> [])"

abbreviation plain_parts :: "string list \<Rightarrow> bool" where
  "plain_parts \<equiv> list_all (\<lambda>p. \<not> dotted p \<and> slash \<notin> set p \<and> \<not> list_ex backslash_or_nul p)"

definition plain_names :: "node \<Rightarrow> string list \<Rightarrow> bool" where
  "plain_names tree dir \<longleftrightarrow> (\<forall>es. find_node tree dir = Found (Directory es) \<longrightarrow>
     wf_dict es \<and> list_all (\<lambda>e. slash \<notin> set (fst e) \<and> \<not> list_ex backslash_or_nul (fst e)) es)"

lemma logs_at_member:
  assumes "e \<in> set (logs_at tree dir)" and "plain_names tree dir"
  shows "is_log e" "plain_parts [fst e]" "find_node tree (dir @ [fst e]) = Found (snd e)"
proof -
  obtain es where es: "find_node tree dir = Found (Directory es)" and e: "e \<in> set es" and log: "is_log e"
    using assms(1) unfolding logs_at_def by (cases "find_node tree dir") (auto split: node.splits)
  show "is_log e" by (rule log)
  have wf: "wf_dict es" "slash \<notin> set (fst e)" "\<not> list_ex backslash_or_nul (fst e)"
    using assms(2) es e by (auto simp: plain_names_def list_all_iff)
  have "\<not> dotted (fst e)" using log by (auto simp: is_log_def ends_with_def dotted_def suffix_def Cons_eq_append_conv)
  then show "plain_parts [fst e]" using wf by simp
  have "dget es (fst e) = Some (snd e)" using wf(1) e by (simp add: map_of_eq_Some_iff)
  moreover have "snd e \<noteq> Symlink" using log by (auto simp: is_log_def)
  ultimately show "find_node tree (dir @ [fst e]) = Found (snd e)" using find_node_append [OF es, of "[fst e]"] by simp
qed

lemma logs_at_distinct:
  assumes "plain_names tree dir"
  shows "distinct (map fst (logs_at tree dir))"
proof (cases "\<exists>es. find_node tree dir = Found (Directory es)")
  case True
  then obtain es where es: "find_node tree dir = Found (Directory es)" by blast
  have "mset (map fst (sort_key fst es)) = mset (map fst es)" by simp
  then have "distinct (map fst (sort_key fst es))" using assms es by (metis mset_eq_imp_distinct_iff plain_names_def)
  then show ?thesis using es by (simp add: logs_at_def distinct_map_filter)
qed (auto simp: logs_at_def split: found.splits node.splits)

lemma log_paths_distinct:
  assumes "plain_names tree dir" and "plain_parts dir"
  shows "distinct (map (\<lambda>e. join slash (dir @ [fst e])) (logs_at tree dir))"
proof -
  have split: "split_on slash (join slash (dir @ [fst e])) = dir @ [fst e]" if "e \<in> set (logs_at tree dir)" for e
    using assms(2) logs_at_member(2) [OF that assms(1)] by (intro split_on_join) (auto simp: list_all_iff)
  have "inj_on (\<lambda>n. join slash (dir @ [n])) (set (map fst (logs_at tree dir)))"
    using split by (auto simp: inj_on_def) (metis fst_conv last_snoc)
  then have "distinct (map (\<lambda>n. join slash (dir @ [n])) (map fst (logs_at tree dir)))"
    using logs_at_distinct [OF assms(1)] by (simp only: distinct_map)
  then show ?thesis by (simp add: comp_def)
qed

lemma logs_match:
  assumes put: "put_file parts t tree = Some tree'" "find_node tree parts = Missing"
    and dir: "plain_names tree dir" "plain_parts dir" and sha: "\<And>b. is_sha256 (sha b)"
  shows "list_all2 (entry_matches sha tree') (map (\<lambda>e. join slash (dir @ [fst e])) (logs_at tree dir))
    (map sorted_keys (map (log_entry sha dir) (logs_at tree dir)))"
proof -
  have "entry_matches sha tree' (join slash (dir @ [fst e])) (sorted_keys (log_entry sha dir e))"
    if e: "e \<in> set (logs_at tree dir)" for e
  proof (rule log_entry_matches)
    note l = logs_at_member [OF e dir(1)]
    show "plain_parts (dir @ [fst e])" using dir(2) l(2) by (simp only: list_all_append)
    show "is_log e" by (rule l(1))
    obtain b where "snd e = Regular b" using l(1) by (auto simp: is_log_def split: node.splits)
    then show "find_node tree' (dir @ [fst e]) = Found (snd e)" using put_file_keeps [OF put] l(3) by simp
  qed (rule sha)
  then show ?thesis by (auto simp: list_all2_conv_all_nth)
qed

lemma manifest_directory:
  assumes "normal_path m" and "\<not> list_ex backslash_or_nul m"
  shows "plain_parts (butlast (path_parts (pure_posix_path m)) @ [''diagnostics'', ''phases''])"
proof -
  have "\<not> dotted p \<and> slash \<notin> set p \<and> \<not> list_ex backslash_or_nul p" if "p \<in> set (split_on slash m)" for p
    using that assms split_on_no_sep [OF that] mem_set_join [OF that, of _ slash]
    by (auto simp: normal_path_def list_all_iff list_ex_iff join_split_on)
  then show ?thesis
    using normal_path_parts(2) [OF assms(1)]
    by (auto simp: list_all_iff dotted_def slash_def backslash_or_nul_def dest: in_set_butlastD)
qed

text \<open>
  C39: a failed run leaves a manifest that verifies.  When \<open>_ensure_failure_artifact_manifest\<close> writes the manifest
  of the phase logs, the receipt the runner takes next accepts it, whatever logs there are, and carries its hash and
  size.  The directory of the logs is not reached through a symbolic link, the names in it are distinct and hold no
  slash, backslash or NUL, and the manifest is within its size limit.
\<close>

theorem failure_manifest_verifies:
  defines "manifest m \<equiv> \<lambda>sha rep run_id linked tree. json_text rep
      (failure_manifest sha run_id (butlast (path_parts (pure_posix_path m))) linked tree) @ [newline]"
  assumes m: "runner_relative_path (PStr m) ''artifact_manifest_path'' = Inr m"
    and wrote: "ensure_failure_artifact_manifest sha rep run_id (PStr m) linked tree = tree'" "tree' \<noteq> tree"
    and direct: "find_node tree (butlast (path_parts (pure_posix_path m)) @ [''diagnostics'', ''phases'']) \<noteq> Through_symlink"
    and names: "\<And>es. find_node tree (butlast (path_parts (pure_posix_path m)) @ [''diagnostics'', ''phases'']) = Found (Directory es) \<Longrightarrow>
        wf_dict es \<and> list_all (\<lambda>e. slash \<notin> set (fst e) \<and> \<not> list_ex backslash_or_nul (fst e)) es"
    and sha: "\<And>b. is_sha256 (sha b)" and ascii: "ascii_decoder decode"
    and bound: "int (length (manifest m sha rep run_id linked tree)) \<le> max_manifest_bytes"
  shows "artifact_receipt sha decode fl run_id (PStr m) tree' =
    Inr [(''artifact_manifest_sha256'', PStr (sha (manifest m sha rep run_id linked tree))),
         (''artifact_manifest_size'', PInt (int (length (manifest m sha rep run_id linked tree))))]"
proof -
  let ?parts = "path_parts (pure_posix_path m)"
  let ?dir = "butlast ?parts @ [''diagnostics'', ''phases'']"
  let ?d = "failure_manifest sha run_id (butlast ?parts) linked tree" and ?logs = "logs_at tree ?dir"
  let ?t = "json_text rep ?d @ [newline]"
  have t: "manifest m sha rep run_id linked tree = ?t" by (simp add: manifest_def)
  have missing: "find_node tree ?parts = Missing" and put: "put_file ?parts ?t tree = Some tree'"
    using wrote by (auto simp: ensure_failure_artifact_manifest_def Let_def split: if_splits option.splits)
  have bad: "\<not> list_ex backslash_or_nul m" and "normal_path m \<or> m = ''.''"
    using m by (auto simp: runner_relative_path_Inr)
  moreover have "m \<noteq> ''.''" using missing no_parts_iff [of m] by auto
  ultimately have normal: "normal_path m" by blast
  note dir = manifest_directory [OF normal bad]
  have plain: "plain_names tree ?dir" using names by (simp add: plain_names_def)
  have d: "?d = PDict [(''protocol'', PStr ''artifact-manifest/1''), (''run_id'', PStr run_id),
      (''files'', PList (map (log_entry sha ?dir) ?logs))]"
    using direct by (auto simp: failure_manifest_def directory_entries_def logs_at_def Let_def split: found.splits node.splits)
  have readable: "readable rep fl ?d" unfolding d by (auto simp: log_entry_def Let_def list_all_iff)
  have stored: "safe_storage_file tree' m = Inr ?t"
    using put_file_found [OF put missing] m by (auto simp: safe_storage_file_Inr runner_relative_path_Inr)
  have "list_all is_ascii ?t"
    using printable_json [OF readable] printable_not_break by (auto simp: list_all_iff) (simp add: newline_def is_ascii_def)
  then have loaded: "load_manifest decode fl ?t =
      Inr (sort_event [(''protocol'', PStr ''artifact-manifest/1''), (''run_id'', PStr run_id),
        (''files'', PList (map (log_entry sha ?dir) ?logs))])"
    using ascii raw_loads_line [OF readable] no_duplicate_keys [OF readable]
    by (auto simp: load_manifest_Inr ascii_decoder_def d sort_event_def simp del: duplicate_keys.simps)
  have "foldR (verify_artifact sha tree') [] (map sorted_keys (map (log_entry sha ?dir) ?logs)) =
      Inr (map (\<lambda>e. join slash (?dir @ [fst e])) ?logs)"
    using logs_match [OF put missing plain dir sha] log_paths_distinct [OF plain dir] by (auto simp: verify_artifacts_iff)
  then show ?thesis
    using stored loaded bound unfolding t by (simp add: artifact_receipt_def get_sort_event)
qed

section \<open>Witnesses\<close>

definition sample_sha :: "string \<Rightarrow> string" where
  "sample_sha s = replicate 64 (CHR ''a'')"

definition sample_manifest :: pyval where
  "sample_manifest =
     PDict [(''files'', PList [PDict [(''path'', PStr ''out/w''), (''sha256'', PStr (sample_sha [])), (''size'', PInt 2)]]),
            (''protocol'', PStr ''artifact-manifest/1'')]"

definition sample_tree :: node where
  "sample_tree =
     Directory [(''m.json'', Regular (json_text rep_15 sample_manifest @ [newline])),
                (''out'', Directory [(''w'', Regular ''ok'')])]"

lemma sample_receipt:
  "artifact_receipt sample_sha Decoded read_15 ''run-1'' (PStr ''m.json'') sample_tree =
     Inr [(''artifact_manifest_sha256'', PStr (sample_sha [])),
          (''artifact_manifest_size'', PInt (int (length (json_text rep_15 sample_manifest @ [newline]))))]"
  by code_simp

theorem artifact_receipt_exact_witness:
  "\<exists>bytes manifest files paths.
    find_node sample_tree (path_parts (pure_posix_path ''m.json'')) = Found (Regular bytes) \<and>
    load_manifest Decoded read_15 bytes = Inr manifest \<and> get manifest ''files'' = PList files \<and>
    list_all2 (entry_matches sample_sha sample_tree) paths files"
  using artifact_receipt_exact [OF sample_receipt] by blast

definition sample_logs :: node where
  "sample_logs =
     Directory [(''out'', Directory [(''diagnostics'', Directory [(''phases'', Directory [(''train.log'', Regular ''x'')])])])]"

theorem failure_manifest_verifies_witness:
  "\<exists>receipt. artifact_receipt sample_sha Decoded read_15 ''run-1'' (PStr ''out/manifest.json'')
     (ensure_failure_artifact_manifest sample_sha rep_15 ''run-1'' (PStr ''out/manifest.json'') (\<lambda>_. None) sample_logs) = Inr receipt"
proof -
  have "runner_relative_path (PStr ''out/manifest.json'') ''artifact_manifest_path'' = Inr ''out/manifest.json''"
    by code_simp
  moreover have "ensure_failure_artifact_manifest sample_sha rep_15 ''run-1'' (PStr ''out/manifest.json'') (\<lambda>_. None) sample_logs \<noteq> sample_logs"
    by code_simp
  moreover have "find_node sample_logs (butlast (path_parts (pure_posix_path ''out/manifest.json'')) @ [''diagnostics'', ''phases'']) =
      Found (Directory [(''train.log'', Regular ''x'')])"
    by code_simp
  moreover have "wf_dict [(''train.log'', Regular ''x'')] \<and>
      list_all (\<lambda>e. slash \<notin> set (fst e) \<and> \<not> list_ex backslash_or_nul (fst e)) [(''train.log'', Regular ''x'')]"
    by code_simp
  moreover have "is_sha256 (sample_sha b)" for b by (simp add: is_sha256_def sample_sha_def list_all_iff is_hex_def)
  moreover have "ascii_decoder Decoded" by (simp add: ascii_decoder_def)
  moreover have "int (length (json_text rep_15 (failure_manifest sample_sha ''run-1''
      (butlast (path_parts (pure_posix_path ''out/manifest.json''))) (\<lambda>_. None) sample_logs) @ [newline])) \<le> max_manifest_bytes"
    by code_simp
  ultimately show ?thesis
    using failure_manifest_verifies [of "''out/manifest.json''" sample_sha rep_15 "''run-1''" "\<lambda>_. None" sample_logs _ Decoded read_15]
    by auto
qed

end
