(* ===== verification/Ack.thy ===== *)
theory Ack
  imports Artifacts
begin

text \<open>
  \<open>incremental_ack.py\<close>: the run-scoped key of the controller, the acknowledgement it signs for a manifest that is
  durably mirrored, and the check of one.  \<open>ssh-keygen\<close> is a parameter, as are SHA-256 (\<open>digest\<close> gives the raw bytes)
  and the conversions of floats and UTF-8 of the JSON library.
\<close>

section \<open>Base64\<close>

definition sextet_char :: "nat \<Rightarrow> char" where
  "sextet_char n =
     (if n < 26 then char_of (n + 65) else if n < 52 then char_of (n + 71) else if n < 62 then char_of (n - 4)
      else if n = 62 then CHR ''+'' else CHR ''/'')"

definition char_sextet :: "char \<Rightarrow> nat option" where
  "char_sextet c =
     (if is_upper c then Some (of_char c - 65) else if is_lower c then Some (of_char c - 71)
      else if is_digit c then Some (of_char c + 4)
      else if c = CHR ''+'' then Some 62 else if c = CHR ''/'' then Some 63 else None)"

fun b64encode :: "string \<Rightarrow> string" where
  "b64encode [] = []"
| "b64encode [a] =
     [sextet_char (of_char a div 4), sextet_char (of_char a mod 4 * 16), CHR ''='', CHR ''='']"
| "b64encode [a, b] =
     [sextet_char (of_char a div 4), sextet_char (of_char a mod 4 * 16 + of_char b div 16),
      sextet_char (of_char b mod 16 * 4), CHR ''='']"
| "b64encode (a # b # c # s) =
     sextet_char (of_char a div 4) # sextet_char (of_char a mod 4 * 16 + of_char b div 16) #
     sextet_char (of_char b mod 16 * 4 + of_char c div 64) # sextet_char (of_char c mod 64) # b64encode s"

text \<open>\<open>base64.b64decode(text, validate=True)\<close>; \<open>None\<close> is its \<open>ValueError\<close>.\<close>

fun b64decode :: "string \<Rightarrow> string option" where
  "b64decode [] = Some []"
| "b64decode (p # q # r # t # s) =
     (case (char_sextet p, char_sextet q) of
        (Some i, Some j) \<Rightarrow>
          if r = CHR ''='' then (if t = CHR ''='' \<and> s = [] then Some [char_of (i * 4 + j div 16)] else None)
          else (case char_sextet r of None \<Rightarrow> None
             | Some k \<Rightarrow>
                 if t = CHR ''=''
                 then (if s = [] then Some [char_of (i * 4 + j div 16), char_of (j mod 16 * 16 + k div 4)] else None)
                 else (case (char_sextet t, b64decode s) of
                         (Some l, Some rest) \<Rightarrow>
                           Some (char_of (i * 4 + j div 16) # char_of (j mod 16 * 16 + k div 4) #
                                 char_of (k mod 4 * 64 + l) # rest)
                       | _ \<Rightarrow> None))
      | _ \<Rightarrow> None)"
| "b64decode s = None"

lemma sextet_back: "n < 64 \<Longrightarrow> char_sextet (sextet_char n) = Some n \<and> sextet_char n \<noteq> CHR ''=''"
proof -
  have "list_all (\<lambda>n. char_sextet (sextet_char n) = Some n \<and> sextet_char n \<noteq> CHR ''='') [0..<64]" by code_simp
  then show "n < 64 \<Longrightarrow> char_sextet (sextet_char n) = Some n \<and> sextet_char n \<noteq> CHR ''=''" by (simp add: list_all_iff)
qed

lemma byte_parts [simp]:
  "(of_char (a :: char) :: nat) div 4 < 64" "(of_char a :: nat) div 16 < 16" "(of_char a :: nat) div 64 < 4"
  by (simp_all add: less_mult_imp_div_less)

lemma sextet_sums: "i < 4 \<Longrightarrow> j < 16 \<Longrightarrow> i * 16 + j < (64 :: nat)" "i < 16 \<Longrightarrow> j < 4 \<Longrightarrow> i * 4 + j < (64 :: nat)"
  "i < 4 \<Longrightarrow> i * 16 < (64 :: nat)" "i < 16 \<Longrightarrow> i * 4 < (64 :: nat)"
  by linarith+

lemma byte_split [simp]:
  "(of_char (a :: char) :: nat) mod 4 * 16 < 64" "(of_char a :: nat) mod 16 * 4 < 64"
  "(of_char a :: nat) mod 4 * 16 + (of_char (b :: char) :: nat) div 16 < 64"
  "(of_char a :: nat) mod 16 * 4 + (of_char (b :: char) :: nat) div 64 < 64"
  by (rule sextet_sums, simp, simp?)+

lemma byte_joined [simp]:
  "(of_char (b :: char) :: nat) div 16 div 16 = 0" "(of_char (b :: char) :: nat) div 64 div 4 = 0"
  "(of_char b :: nat) div 16 mod 16 * 16 + of_char b mod 16 = of_char b"
  "(of_char b :: nat) div 64 mod 4 * 64 + of_char b mod 64 = of_char b"
proof -
  have "x div 16 div 16 = 0 \<and> x div 64 div 4 = 0 \<and> x div 16 mod 16 * 16 + x mod 16 = x \<and>
      x div 64 mod 4 * 64 + x mod 64 = x" if "x < 256" for x :: nat
  proof -
    have "x div 16 < 16" "x div 64 < 4" using that by (simp_all add: less_mult_imp_div_less)
    then show ?thesis by simp
  qed
  from this [OF nat_of_char_less_256 [of b]] show
    "(of_char (b :: char) :: nat) div 16 div 16 = 0" "(of_char (b :: char) :: nat) div 64 div 4 = 0"
    "(of_char b :: nat) div 16 mod 16 * 16 + of_char b mod 16 = of_char b"
    "(of_char b :: nat) div 64 mod 4 * 64 + of_char b mod 64 = of_char b"
    by blast+
qed

lemma b64_roundtrip [simp]: "b64decode (b64encode s) = Some s"
  by (induction s rule: b64encode.induct) (simp_all add: sextet_back)

section \<open>Public keys\<close>

definition ack_error :: "string \<Rightarrow> exn + 'a" where
  "ack_error m = Inl (IncrementalAckError m)"

text \<open>\<open>text.split()\<close>.\<close>

fun words :: "string \<Rightarrow> string list" where
  "words [] = []"
| "words (c # s) =
     (if is_space c then words s
      else if s = [] \<or> is_space (hd s) then [c] # words s
      else (case words s of [] \<Rightarrow> [[c]] | w # ws \<Rightarrow> (c # w) # ws))"

definition normalized_public_key :: "string \<Rightarrow> exn + string" where
  "normalized_public_key s =
     (case words (strip s) of
        kind # encoded # _ \<Rightarrow>
          if kind \<noteq> ''ssh-ed25519'' then ack_error ''acknowledgement public key must be Ed25519''
          else if b64decode encoded = None then ack_error ''acknowledgement public key is malformed''
          else Inr (''ssh-ed25519 '' @ encoded)
      | _ \<Rightarrow> ack_error ''acknowledgement public key must be Ed25519'')"

definition public_key_id :: "(string \<Rightarrow> string) \<Rightarrow> string \<Rightarrow> exn + string" where
  "public_key_id digest public_key =
     (case words public_key of
        _ # encoded # _ \<Rightarrow>
          (case b64decode encoded of
             None \<Rightarrow> Inl (ValueError ''base64'')
           | Some blob \<Rightarrow> Inr (''SHA256:'' @ rstrip (CHR ''='') (b64encode (digest blob))))
      | _ \<Rightarrow> Inl (ValueError ''IndexError''))"

record ack_signer =
  sg_private_key :: string
  sg_public_key :: string
  sg_key_id :: string
  sg_identity :: string

definition public_fields :: "ack_signer \<Rightarrow> pydict" where
  "public_fields s =
     [(''algorithm'', PStr ''ssh-ed25519''), (''identity'', PStr (sg_identity s)), (''key_id'', PStr (sg_key_id s)),
      (''namespace'', PStr ack_namespace), (''public_key'', PStr (sg_public_key s))]"

text \<open>\<open>_validated_signer_fields\<close>.\<close>

definition validated_signer_fields :: "(string \<Rightarrow> string) \<Rightarrow> pydict \<Rightarrow> exn + string \<times> string" where
  "validated_signer_fields digest signer =
     (if \<not> pyeq (get signer ''algorithm'') (PStr ''ssh-ed25519'') \<or> \<not> pyeq (get signer ''namespace'') (PStr ack_namespace)
      then ack_error ''acknowledgement signer algorithm is unsupported''
      else (case (as_str (get signer ''public_key''), as_str (get signer ''identity'')) of
         (Some key, Some identity) \<Rightarrow>
           bindR (normalized_public_key key) (\<lambda>public_key.
           bindR (public_key_id digest public_key) (\<lambda>key_id.
             if \<not> pyeq (get signer ''key_id'') (PStr key_id) then ack_error ''acknowledgement signer key ID mismatch''
             else Inr (public_key, identity)))
       | _ \<Rightarrow> ack_error ''acknowledgement signer identity is malformed''))"

section \<open>The key of a run\<close>

text \<open>
  What is at a path of the key directory: a regular file with its permission bits and its bytes, or something else.
\<close>

datatype key_file = No_file | Other_file | Key_file nat string

record key_directory =
  kd_private :: bool
  kd_key :: key_file
  kd_pub :: key_file

text \<open>\<open>0o600\<close>.\<close>

definition private_mode :: nat where
  "private_mode = 384"

definition require_regular :: "key_file \<Rightarrow> nat option \<Rightarrow> exn + string" where
  "require_regular f expected_mode =
     (case f of
        Key_file mode data \<Rightarrow>
          if expected_mode \<noteq> None \<and> Some mode \<noteq> expected_mode
          then ack_error ''acknowledgement private key mode is unsafe'' else Inr data
      | _ \<Rightarrow> ack_error ''acknowledgement key file is unavailable'')"

definition load_ack_signer ::
  "(string \<Rightarrow> string) \<Rightarrow> string \<Rightarrow> key_directory option \<Rightarrow> string \<Rightarrow> exn + ack_signer" where
  "load_ack_signer digest private_key directory run_id =
     (case directory of
        None \<Rightarrow> ack_error ''acknowledgement key directory is not private''
      | Some d \<Rightarrow>
          if \<not> kd_private d then ack_error ''acknowledgement key directory is not private''
          else bindR (require_regular (kd_key d) (Some private_mode)) (\<lambda>_.
            bindR (require_regular (kd_pub d) None) (\<lambda>data.
            if \<not> list_all is_ascii data then ack_error ''acknowledgement public key is unreadable''
            else bindR (normalized_public_key data) (\<lambda>public_key.
              bindR (public_key_id digest public_key) (\<lambda>key_id.
                Inr \<lparr>sg_private_key = private_key, sg_public_key = public_key, sg_key_id = key_id,
                     sg_identity = ''runpod-jobrunner:'' @ run_id\<rparr>)))))"

text \<open>What a call of \<open>ssh-keygen\<close> comes to: it cannot be started, it fails, or it leaves a result.\<close>

datatype 'a keygen = No_tool | Refused | Made 'a

definition ensure_ack_signer ::
  "(string \<Rightarrow> string) \<Rightarrow> string \<Rightarrow> bool \<Rightarrow> key_directory keygen \<Rightarrow> key_directory option \<Rightarrow> string \<Rightarrow>
     (exn + ack_signer) \<times> key_directory option" where
  "ensure_ack_signer digest private_key secrets_private generated directory run_id =
     (if run_id = [] \<or> list_ex is_space run_id
      then (ack_error ''acknowledgement signer needs a stable run ID'', directory)
      else if \<not> secrets_private then (ack_error ''acknowledgement key directory is not private'', directory)
      else (case directory of
         Some d \<Rightarrow> (load_ack_signer digest private_key directory run_id, directory)
       | None \<Rightarrow>
           (case generated of
              No_tool \<Rightarrow> (ack_error ''ssh-keygen is required to generate the acknowledgement key'', None)
            | Refused \<Rightarrow> (ack_error ''could not generate the run-scoped Ed25519 key'', None)
            | Made d \<Rightarrow>
                (case bindR (require_regular (kd_key d) (Some private_mode)) (\<lambda>_. require_regular (kd_pub d) None) of
                   Inl e \<Rightarrow> (Inl e, None)
                 | Inr _ \<Rightarrow> (load_ack_signer digest private_key (Some d) run_id, Some d)))))"

section \<open>Signing and verifying\<close>

text \<open>\<open>json.dumps(v, sort_keys=True, separators=(",", ":"), ensure_ascii=False)\<close>.\<close>

fun plain_json :: "(pyfloat \<Rightarrow> string) \<Rightarrow> pyval \<Rightarrow> string" where
  "plain_json rep (PStr s) = json_string s"
| "plain_json rep (PList vs) = CHR ''['' # join (CHR '','') (map (plain_json rep) vs) @ '']''"
| "plain_json rep (PDict d) =
     CHR ''{'' # join (CHR '','') (map (\<lambda>(k, t). json_string k @ CHR '':'' # t)
       (sort_key fst (map (\<lambda>(k, v). (k, plain_json rep v)) d))) @ ''}''"
| "plain_json rep v = json_text rep v"

text \<open>What \<open>allow_nan=False\<close> and the types of the encoder let through.\<close>

fun dumpable :: "pyval \<Rightarrow> bool" where
  "dumpable (PFloat f) = isfinite f"
| "dumpable (PDec d) = False"
| "dumpable (PList vs) = list_all dumpable vs"
| "dumpable (PDict d) = list_all (\<lambda>p. dumpable (snd p)) d"
| "dumpable v = True"

definition ack_canonical :: "(pyfloat \<Rightarrow> string) \<Rightarrow> pydict \<Rightarrow> exn + string" where
  "ack_canonical rep d =
     (if dumpable (PDict d) then Inr (utf8 (plain_json rep (PDict d)))
      else ack_error ''acknowledgement is not canonically encodable'')"

text \<open>
  \<open>ssh-keygen -Y sign\<close> with a private key and a namespace, and \<open>-Y verify\<close> with the text of the allowed signers, an
  identity, a namespace and the signature.
\<close>

record keygen_tool =
  kg_sign :: "string \<Rightarrow> string \<Rightarrow> string \<Rightarrow> string keygen"
  kg_verify :: "string \<Rightarrow> string \<Rightarrow> string \<Rightarrow> string \<Rightarrow> string \<Rightarrow> unit keygen"

definition sign_ack ::
  "(pyfloat \<Rightarrow> string) \<Rightarrow> keygen_tool \<Rightarrow> pydict \<Rightarrow> ack_signer \<Rightarrow> exn + string" where
  "sign_ack rep tool record signer =
     (if \<not> pyeq (get record ''protocol'') (PStr ack_protocol) \<or> dget record ''signature'' \<noteq> None
      then ack_error ''acknowledgement statement is malformed''
      else if \<not> pyeq (get record ''signer'') (PDict (public_fields signer))
      then ack_error ''acknowledgement signer fields do not match the local key''
      else bindR (ack_canonical rep record) (\<lambda>statement.
        case kg_sign tool (sg_private_key signer) ack_namespace statement of
          No_tool \<Rightarrow> ack_error ''ssh-keygen is required to sign the acknowledgement''
        | Refused \<Rightarrow> ack_error ''could not sign the incremental mirror acknowledgement''
        | Made signature \<Rightarrow>
            bindR (ack_canonical rep (dput ''signature'' (PStr (b64encode signature)) record)) (\<lambda>t.
              Inr (t @ [newline]))))"

definition allowed_signers :: "string \<Rightarrow> string \<Rightarrow> string" where
  "allowed_signers identity public_key = identity @ CHR '' '' # public_key @ [newline]"

definition read_ack :: "decoder \<Rightarrow> (string \<Rightarrow> pyfloat) \<Rightarrow> string \<Rightarrow> exn + pydict" where
  "read_ack decode fl encoded =
     (case decode encoded of
        Decoded t \<Rightarrow>
          (case raw_loads fl t of
             Inl _ \<Rightarrow> ack_error ''acknowledgement is not valid JSON''
           | Inr v \<Rightarrow>
               if duplicate_keys v then ack_error ''acknowledgement contains duplicate key''
               else (case as_dict v of None \<Rightarrow> ack_error ''acknowledgement must be an object'' | Some d \<Rightarrow> Inr d))
      | _ \<Rightarrow> ack_error ''acknowledgement is not valid JSON'')"

definition verify_ack ::
  "(pyfloat \<Rightarrow> string) \<Rightarrow> decoder \<Rightarrow> (string \<Rightarrow> pyfloat) \<Rightarrow> (string \<Rightarrow> string) \<Rightarrow> keygen_tool \<Rightarrow> string \<Rightarrow> pydict \<Rightarrow> pydict \<Rightarrow>
     exn + pydict" where
  "verify_ack rep decode fl digest tool encoded expected signer =
     bindR (read_ack decode fl encoded) (\<lambda>candidate.
       let record = AList.delete ''signature'' candidate in
       case as_str (get candidate ''signature'') of
         None \<Rightarrow> ack_error ''acknowledgement signature is absent''
       | Some text64 \<Rightarrow>
           if \<not> pyeq (PDict record) (PDict expected) then ack_error ''acknowledgement authority binding mismatch''
           else bindR (validated_signer_fields digest signer) (\<lambda>(public_key, identity).
             if \<not> pyeq (get record ''signer'') (PDict signer) then ack_error ''acknowledgement signer binding mismatch''
             else case b64decode text64 of
               None \<Rightarrow> ack_error ''acknowledgement signature encoding is invalid''
             | Some signature \<Rightarrow>
                 if \<not> list_all is_ascii identity then Inl (ValueError ''ascii'')
                 else bindR (ack_canonical rep record) (\<lambda>statement.
                   case kg_verify tool (allowed_signers identity public_key) identity ack_namespace signature statement of
                     No_tool \<Rightarrow> ack_error ''ssh-keygen is required to verify the acknowledgement''
                   | Refused \<Rightarrow> ack_error ''acknowledgement signature verification failed''
                   | Made _ \<Rightarrow> Inr record)))"

section \<open>The tool, and what a verified acknowledgement means\<close>

text \<open>
  The contract of the tool: a signature made with the private half of a public key verifies the same statement under
  that key, for an identity that means itself in a file of allowed signers (one that is not empty, with no blank,
  comment, quote or pattern character).  \<open>pair\<close> says which public key belongs to a private one.
\<close>

definition plain_identity :: "string \<Rightarrow> bool" where
  "plain_identity identity \<longleftrightarrow> identity \<noteq> [] \<and> list_all (\<lambda>c. id_char c \<or> c = CHR '':'') identity"

definition signing_contract :: "keygen_tool \<Rightarrow> (string \<Rightarrow> string) \<Rightarrow> bool" where
  "signing_contract tool pair \<longleftrightarrow>
     (\<forall>key statement signature identity.
        kg_sign tool key ack_namespace statement = Made signature \<longrightarrow> plain_identity identity \<longrightarrow>
        kg_verify tool (allowed_signers identity (pair key)) identity ack_namespace signature statement = Made ())"

lemma plain_identity_ascii: "plain_identity identity \<Longrightarrow> list_all is_ascii identity"
  by (auto simp: plain_identity_def id_char_def is_alnum_def is_digit_def is_lower_def is_upper_def less_eq_char_def
      is_ascii_def list_all_iff)

lemma verify_ack_Inr:
  assumes "verify_ack rep decode fl digest tool encoded expected signer = Inr record"
  obtains candidate text64 signature public_key identity statement where
    "read_ack decode fl encoded = Inr candidate" "record = AList.delete ''signature'' candidate"
    "get candidate ''signature'' = PStr text64" "b64decode text64 = Some signature"
    "pyeq (PDict record) (PDict expected)" "pyeq (get record ''signer'') (PDict signer)"
    "validated_signer_fields digest signer = Inr (public_key, identity)"
    "ack_canonical rep record = Inr statement"
    "kg_verify tool (allowed_signers identity public_key) identity ack_namespace signature statement = Made ()"
proof -
  obtain candidate where c: "read_ack decode fl encoded = Inr candidate"
    using assms by (auto simp: verify_ack_def bindR_eq_Inr)
  let ?r = "AList.delete ''signature'' candidate"
  obtain text64 where t: "as_str (get candidate ''signature'') = Some text64"
    using assms c by (cases "as_str (get candidate ''signature'')") (simp_all add: verify_ack_def Let_def ack_error_def)
  have e: "pyeq (PDict ?r) (PDict expected)"
    using assms c t by (simp add: verify_ack_def Let_def ack_error_def del: pyeq.simps split: if_split_asm)
  then obtain key identity where k: "validated_signer_fields digest signer = Inr (key, identity)"
    using assms c t
    by (cases "validated_signer_fields digest signer") (auto simp: verify_ack_def Let_def ack_error_def simp del: pyeq.simps)
  have g: "pyeq (get ?r ''signer'') (PDict signer)"
    using assms c t e k by (simp add: verify_ack_def Let_def ack_error_def del: pyeq.simps split: if_split_asm)
  then obtain signature where b: "b64decode text64 = Some signature"
    using assms c t e k by (cases "b64decode text64") (simp_all add: verify_ack_def Let_def ack_error_def del: pyeq.simps)
  then obtain statement where m: "ack_canonical rep ?r = Inr statement" "list_all is_ascii identity"
    using assms c t e k g
    by (cases "ack_canonical rep ?r") (simp_all add: verify_ack_def Let_def ack_error_def del: pyeq.simps split: if_split_asm)
  have "kg_verify tool (allowed_signers identity key) identity ack_namespace signature statement = Made () \<and> ?r = record"
    using assms c t e k g b m
    by (cases "kg_verify tool (allowed_signers identity key) identity ack_namespace signature statement")
      (simp_all add: verify_ack_def Let_def ack_error_def del: pyeq.simps)
  moreover have "get candidate ''signature'' = PStr text64" using t by (cases "get candidate ''signature''") auto
  ultimately show thesis using that c e g k b m(1) by blast
qed

text \<open>The other way round: what every check asks for is enough.\<close>

lemma verify_ack_accepts:
  assumes "read_ack decode fl encoded = Inr candidate" "get candidate ''signature'' = PStr text64"
    "b64decode text64 = Some signature" "pyeq (PDict (AList.delete ''signature'' candidate)) (PDict expected)"
    "pyeq (get (AList.delete ''signature'' candidate) ''signer'') (PDict signer)"
    "validated_signer_fields digest signer = Inr (public_key, identity)" "list_all is_ascii identity"
    "ack_canonical rep (AList.delete ''signature'' candidate) = Inr statement"
    "kg_verify tool (allowed_signers identity public_key) identity ack_namespace signature statement = Made ()"
  shows "verify_ack rep decode fl digest tool encoded expected signer = Inr (AList.delete ''signature'' candidate)"
  using assms by (simp add: verify_ack_def Let_def del: pyeq.simps)

section \<open>A key that was loaded is a valid signer\<close>

lemma words_nonspace: "\<forall>w \<in> set (words s). w \<noteq> [] \<and> (\<forall>c \<in> set w. \<not> is_space c)"
proof (induction s)
  case (Cons c s)
  then show ?case by (cases "words s") simp_all
qed simp

lemma words_one: "w \<noteq> [] \<Longrightarrow> \<forall>c \<in> set w. \<not> is_space c \<Longrightarrow> words w = [w]"
proof (induction w)
  case (Cons c w)
  then show ?case by (cases w) auto
qed simp

lemma words_two:
  assumes "v \<noteq> []" "\<forall>c \<in> set v. \<not> is_space c" "w \<noteq> []" "\<forall>c \<in> set w. \<not> is_space c" "is_space b"
  shows "words (v @ b # w) = [v, w]"
  using assms(1,2)
proof (induction v)
  case (Cons c v)
  have "words (b # w) = [w]" using assms(5) words_one [OF assms(3,4)] by simp
  then show ?case using Cons assms(5) by (cases v) auto
qed simp

lemma ed25519_text: "''ssh-ed25519 '' @ encoded = ''ssh-ed25519'' @ CHR '' '' # encoded"
  by simp

lemma ed25519_key:
  assumes "encoded \<noteq> []" "\<forall>c \<in> set encoded. \<not> is_space c"
  shows "words (''ssh-ed25519 '' @ encoded) = [''ssh-ed25519'', encoded]" and "strip (''ssh-ed25519 '' @ encoded) = ''ssh-ed25519 '' @ encoded"
proof -
  have sp: "is_space (CHR '' '')" "\<forall>c \<in> set ''ssh-ed25519''. \<not> is_space c" by (simp_all add: is_space_def)
  show "words (''ssh-ed25519 '' @ encoded) = [''ssh-ed25519'', encoded]"
    unfolding ed25519_text by (rule words_two [OF _ sp(2) assms sp(1)]) simp
  obtain e c where e: "encoded = e @ [c]" "\<not> is_space c" using assms by (cases encoded rule: rev_cases) auto
  show "strip (''ssh-ed25519 '' @ encoded) = ''ssh-ed25519 '' @ encoded"
    using e(2) unfolding e(1) strip_def by (simp add: is_space_def)
qed

lemma normalized_twice:
  assumes "normalized_public_key s = Inr key"
  obtains encoded blob where "key = ''ssh-ed25519 '' @ encoded" "b64decode encoded = Some blob"
    "normalized_public_key key = Inr key" "words key = [''ssh-ed25519'', encoded]"
proof -
  obtain encoded rest where w: "words (strip s) = ''ssh-ed25519'' # encoded # rest" "b64decode encoded \<noteq> None"
    "key = ''ssh-ed25519 '' @ encoded"
    using assms by (auto simp: normalized_public_key_def ack_error_def split: list.splits if_splits)
  then have "encoded \<in> set (words (strip s))" by simp
  then have n: "encoded \<noteq> []" "\<forall>c \<in> set encoded. \<not> is_space c" using words_nonspace by blast+
  have "normalized_public_key key = Inr key"
    using w(2) by (simp only: w(3) normalized_public_key_def ed25519_key [OF n]) auto
  then show thesis using that w n ed25519_key(1) [OF n] by auto
qed

lemma loaded_signer_valid:
  assumes "load_ack_signer digest key directory run_id = Inr signer"
  shows "validated_signer_fields digest (public_fields signer) = Inr (sg_public_key signer, sg_identity signer)"
    and "sg_identity signer = ''runpod-jobrunner:'' @ run_id" and "sg_private_key signer = key"
proof -
  obtain d data where d: "directory = Some d" "normalized_public_key data = Inr (sg_public_key signer)"
    "public_key_id digest (sg_public_key signer) = Inr (sg_key_id signer)"
    "sg_identity signer = ''runpod-jobrunner:'' @ run_id" "sg_private_key signer = key"
    using assms
    by (auto simp: load_ack_signer_def ack_error_def bindR_eq_Inr split: option.splits if_splits)
  then have "normalized_public_key (sg_public_key signer) = Inr (sg_public_key signer)"
    by (auto elim: normalized_twice)
  then show "validated_signer_fields digest (public_fields signer) = Inr (sg_public_key signer, sg_identity signer)"
    using d(3) by (simp add: validated_signer_fields_def public_fields_def get_def)
  show "sg_identity signer = ''runpod-jobrunner:'' @ run_id" "sg_private_key signer = key" by (fact d)+
qed

section \<open>Statements that read back\<close>

definition plain_char :: "char \<Rightarrow> bool" where
  "plain_char c \<longleftrightarrow> (of_char c :: nat) < 127"

fun plain_texts :: "pyval \<Rightarrow> bool" where
  "plain_texts (PStr s) = list_all plain_char s"
| "plain_texts (PList vs) = list_all plain_texts vs"
| "plain_texts (PDict d) = list_all (\<lambda>p. list_all plain_char (fst p) \<and> plain_texts (snd p)) d"
| "plain_texts v = True"

lemma json_string_plain: "list_all plain_char s \<Longrightarrow> json_string s = ascii_string s"
proof -
  have "plain_char c \<Longrightarrow> json_char c = ascii_char c" for c
    by (simp add: plain_char_def json_char_def ascii_char_def)
  then show "list_all plain_char s \<Longrightarrow> json_string s = ascii_string s"
    unfolding json_string_def ascii_string_def by (induction s) auto
qed

lemma plain_json_text: "plain_texts v \<Longrightarrow> plain_json rep v = json_text rep v"
proof (induction v)
  case (PList vs)
  then have "map (plain_json rep) vs = map (json_text rep) vs" by (simp add: list_all_iff)
  then show ?case by (simp only: plain_json.simps json_text.simps)
next
  case (PDict d)
  have "map (\<lambda>(k, v). (k, plain_json rep v)) d = map (\<lambda>(k, v). (k, json_text rep v)) d"
    using PDict by (fastforce simp: list_all_iff)
  moreover have "map (\<lambda>(k, t). json_string k @ CHR '':'' # t) (sort_key fst (map (\<lambda>(k, v). (k, json_text rep v)) d)) =
      map (\<lambda>(k, t). ascii_string k @ CHR '':'' # t) (sort_key fst (map (\<lambda>(k, v). (k, json_text rep v)) d))"
    using PDict.prems by (fastforce simp: list_all_iff json_string_plain)
  ultimately show ?case by (simp only: plain_json.simps json_text.simps(8))
qed (simp_all add: json_string_plain)

lemma readable_dumpable: "readable rep fl v \<Longrightarrow> dumpable v"
  by (induction v) (auto simp: list_all_iff)

lemma utf8_ascii: "list_all is_ascii t \<Longrightarrow> utf8 t = t"
  by (induction t) (auto simp: utf8_def utf8_char_def is_ascii_def)

lemma printable_ascii: "list_all printable t \<Longrightarrow> list_all is_ascii t"
  by (auto simp: list_all_iff printable_def is_ascii_def)

lemma ack_canonical_text:
  assumes "readable rep fl (PDict d)" "plain_texts (PDict d)"
  shows "ack_canonical rep d = Inr (json_text rep (PDict d))"
  using assms readable_dumpable [OF assms(1)] printable_ascii [OF printable_json [OF assms(1)]]
  by (simp add: ack_canonical_def plain_json_text utf8_ascii del: plain_json.simps)

lemma readable_no_duplicates: "readable rep fl v \<Longrightarrow> \<not> duplicate_keys (sorted_keys v)"
proof (induction v)
  case (PDict d)
  have "wf_dict (sort_key fst (map (\<lambda>(k, v). (k, sorted_keys v)) d))"
    using PDict.prems keys_sorted [where g = sorted_keys and d = d] by (metis mset_eq_imp_distinct_iff readable.simps(4))
  then show ?case using PDict by (auto simp: list_ex_iff list_all_iff) 
qed (auto simp: list_ex_iff list_all_iff)

lemma pyeq_items_iff: "pyeq_items d e \<longleftrightarrow> (\<forall>(k, v) \<in> set d. case dget e k of None \<Rightarrow> False | Some w \<Rightarrow> pyeq v w)"
  by (induction d) auto

lemma pyeq_list_iff: "pyeq_list xs ys \<longleftrightarrow> list_all2 pyeq xs ys"
  by (induction xs arbitrary: ys) (auto split: list.splits)

lemma pyeq_sorted: "pyeq (sorted_keys v) w = pyeq v w"
proof (induction v arbitrary: w)
  case (PList vs)
  then have "list_all2 (\<lambda>x. pyeq (sorted_keys x)) vs ys = list_all2 pyeq vs ys" for ys
    by (intro list.rel_cong_simp) (auto simp: simp_implies_def)
  then show ?case by (auto simp: pyeq_list_iff list_all2_map1 split: option.splits)
next
  case (PDict d)
  have "(case dget e k of None \<Rightarrow> False | Some w \<Rightarrow> pyeq (sorted_keys v) w) = (case dget e k of None \<Rightarrow> False | Some w \<Rightarrow> pyeq v w)"
    if "(k, v) \<in> set d" for k v e
  proof -
    have "pyeq (sorted_keys v) w = pyeq v w" for w by (rule PDict.IH [OF that]) simp
    then show ?thesis by (simp split: option.split)
  qed
  then have "(\<forall>(k, v) \<in> set d. case dget e k of None \<Rightarrow> False | Some w \<Rightarrow> pyeq (sorted_keys v) w) =
      (\<forall>(k, v) \<in> set d. case dget e k of None \<Rightarrow> False | Some w \<Rightarrow> pyeq v w)" for e
    by blast
  then show ?case by (cases w) (simp_all add: pyeq_items_iff case_prod_unfold cong: option.case_cong)
qed (simp_all add: num_eq_def)

lemma readable_plain: "readable rep fl v \<Longrightarrow> plain v"
  by (induction v) (auto simp: list_all_iff)

lemma json_text_sorted: "json_text rep (sorted_keys v) = json_text rep v"
proof (induction v)
  case (PList vs)
  then have "map (json_text rep) (map sorted_keys vs) = map (json_text rep) vs" by simp
  then show ?case by (simp only: sorted_keys.simps json_text.simps)
next
  case (PDict d)
  have i: "map (\<lambda>(k, v). (k, json_text rep (sorted_keys v))) d = map (\<lambda>(k, v). (k, json_text rep v)) d"
    using PDict by fastforce
  have "sort_key fst (map (\<lambda>(k, v). (k, json_text rep v)) (sort_key fst (map (\<lambda>(k, v). (k, sorted_keys v)) d))) =
      map (\<lambda>(k, v). (k, json_text rep v)) (sort_key fst (sort_key fst (map (\<lambda>(k, v). (k, sorted_keys v)) d)))"
    by (rule sort_map_snd)
  also have "sort_key fst (sort_key fst (map (\<lambda>(k, v). (k, sorted_keys v)) d)) = sort_key fst (map (\<lambda>(k, v). (k, sorted_keys v)) d)"
    by (simp add: sort_key_id_if_sorted)
  also have "map (\<lambda>(k, v). (k, json_text rep v)) (sort_key fst (map (\<lambda>(k, v). (k, sorted_keys v)) d)) =
      sort_key fst (map (\<lambda>(k, v). (k, json_text rep v)) (map (\<lambda>(k, v). (k, sorted_keys v)) d))"
    by (rule sort_map_snd [symmetric])
  also have "map (\<lambda>(k, v). (k, json_text rep v)) (map (\<lambda>(k, v). (k, sorted_keys v)) d) = map (\<lambda>(k, v). (k, json_text rep v)) d"
    using i by (simp add: comp_def case_prod_unfold)
  finally show ?case by (simp only: sorted_keys.simps json_text.simps(8))
qed simp_all

lemma readable_sorted: "readable rep fl v \<Longrightarrow> readable rep fl (sorted_keys v)"
proof (induction v)
  case (PDict d)
  have "wf_dict (sort_key fst (map (\<lambda>(k, v). (k, sorted_keys v)) d))"
    using PDict.prems keys_sorted [where g = sorted_keys and d = d] by (metis mset_eq_imp_distinct_iff readable.simps(4))
  then show ?case using PDict by (auto simp: list_all_iff)
qed (auto simp: list_all_iff)

lemma plain_texts_sorted: "plain_texts v \<Longrightarrow> plain_texts (sorted_keys v)"
  by (induction v) (auto simp: list_all_iff)

text \<open>A signed statement loses its signature again.\<close>

lemma delete_sorted:
  assumes "dget d k = None"
  shows "AList.delete k (sort_key fst (map (\<lambda>(k, v). (k, sorted_keys v)) (dput k w d))) =
    sort_key fst (map (\<lambda>(k, v). (k, sorted_keys v)) d)"
proof -
  have f: "dput k w d = d @ [(k, w)]" using assms by (rule dput_fresh)
  have m: "map (\<lambda>(k, v). (k, sorted_keys v)) (d @ [(k, w)]) = map (\<lambda>(k, v). (k, sorted_keys v)) d @ [(k, sorted_keys w)]"
    by simp
  have "filter (\<lambda>p. k \<noteq> fst p) (map (\<lambda>(k, v). (k, sorted_keys v)) d) = map (\<lambda>(k, v). (k, sorted_keys v)) d"
    using assms by (auto simp: filter_id_conv map_of_eq_None_iff image_iff)
  then show ?thesis unfolding f m by (simp add: AList.delete_eq case_prod_unfold filter_sort)
qed

lemma sextet_plain: "n < 64 \<Longrightarrow> plain_char (sextet_char n)"
  by (auto simp: sextet_char_def plain_char_def)

lemma b64_plain: "list_all plain_char (b64encode s)"
proof -
  have "plain_char (CHR ''='')" by (simp add: plain_char_def)
  then show ?thesis by (induction s rule: b64encode.induct) (simp_all add: sextet_plain)
qed

lemma sign_ack_Inr:
  assumes "sign_ack rep tool statement signer = Inr encoded"
  obtains st signature t where "dget statement ''signature'' = None" "ack_canonical rep statement = Inr st"
    "kg_sign tool (sg_private_key signer) ack_namespace st = Made signature"
    "ack_canonical rep (dput ''signature'' (PStr (b64encode signature)) statement) = Inr t" "encoded = t @ [newline]"
    "pyeq (get statement ''signer'') (PDict (public_fields signer))"
proof -
  have c: "dget statement ''signature'' = None" "pyeq (get statement ''signer'') (PDict (public_fields signer))"
    using assms by (simp_all add: sign_ack_def ack_error_def del: pyeq.simps split: if_split_asm)
  obtain st where st: "ack_canonical rep statement = Inr st"
    using assms by (cases "ack_canonical rep statement") (simp_all add: sign_ack_def ack_error_def del: pyeq.simps split: if_split_asm)
  obtain signature where k: "kg_sign tool (sg_private_key signer) ack_namespace st = Made signature"
    using assms st
    by (cases "kg_sign tool (sg_private_key signer) ack_namespace st")
      (simp_all add: sign_ack_def ack_error_def del: pyeq.simps split: if_split_asm)
  then obtain t where "ack_canonical rep (dput ''signature'' (PStr (b64encode signature)) statement) = Inr t" "encoded = t @ [newline]"
    using assms st
    by (cases "ack_canonical rep (dput ''signature'' (PStr (b64encode signature)) statement)")
      (simp_all add: sign_ack_def ack_error_def del: pyeq.simps split: if_split_asm)
  then show thesis using that c st k by blast
qed

text \<open>What the signer's fields hold when they are valid.\<close>

lemma validated_fields:
  assumes "validated_signer_fields digest signer = Inr (public_key, identity)"
  obtains key encoded_key comment blob where "get signer ''algorithm'' = PStr ''ssh-ed25519''"
    "get signer ''identity'' = PStr identity" "get signer ''public_key'' = PStr key"
    "words (strip key) = ''ssh-ed25519'' # encoded_key # comment" "b64decode encoded_key = Some blob"
    "get signer ''key_id'' = PStr (''SHA256:'' @ rstrip (CHR ''='') (b64encode (digest blob)))"
    "public_key = ''ssh-ed25519 '' @ encoded_key"
proof -
  have algorithm: "get signer ''algorithm'' = PStr ''ssh-ed25519''"
    using assms by (cases "get signer ''algorithm''") (simp_all add: validated_signer_fields_def ack_error_def split: if_split_asm)
  obtain key id where k: "get signer ''public_key'' = PStr key" "get signer ''identity'' = PStr identity"
    "normalized_public_key key = Inr public_key" "public_key_id digest public_key = Inr id"
    "pyeq (get signer ''key_id'') (PStr id)"
    using assms by (auto simp: validated_signer_fields_def ack_error_def bindR_eq_Inr split: option.splits if_split_asm)
  obtain encoded_key comment where w: "words (strip key) = ''ssh-ed25519'' # encoded_key # comment"
    "public_key = ''ssh-ed25519 '' @ encoded_key" "b64decode encoded_key \<noteq> None"
    using k(3) by (auto simp: normalized_public_key_def ack_error_def split: list.splits if_split_asm)
  have "encoded_key \<in> set (words (strip key))" using w(1) by simp
  then have "encoded_key \<noteq> []" "\<forall>c \<in> set encoded_key. \<not> is_space c" using words_nonspace by blast+
  then have "words public_key = [''ssh-ed25519'', encoded_key]" unfolding w(2) by (rule ed25519_key(1))
  then obtain blob where "b64decode encoded_key = Some blob"
    "id = ''SHA256:'' @ rstrip (CHR ''='') (b64encode (digest blob))"
    using k(4) by (auto simp: public_key_id_def split: option.splits)
  then show thesis using that algorithm k(1,2,5) w by (cases "get signer ''key_id''") auto
qed

text \<open>
  C13: an acknowledgement that verifies is bound to what it acknowledges: it is the expected statement with a signature
  and names the signer it was checked against; that signer is an Ed25519 key whose id is the hash of the very key that
  was checked; and \<open>ssh-keygen\<close> accepted the signature for the whole canonical text of the record, under a list of
  allowed signers that holds this identity with this key and nothing else, in the namespace of acknowledgements.
\<close>

theorem verified_ack_is_bound:
  assumes "verify_ack rep decode fl digest tool encoded expected signer = Inr record"
  shows "pyeq (PDict record) (PDict expected) \<and> pyeq (get record ''signer'') (PDict signer) \<and>
    (\<exists>candidate signature bytes key encoded_key comment blob identity.
       read_ack decode fl encoded = Inr candidate \<and> record = AList.delete ''signature'' candidate \<and>
       get candidate ''signature'' = PStr signature \<and> b64decode signature = Some bytes \<and>
       get signer ''algorithm'' = PStr ''ssh-ed25519'' \<and> get signer ''identity'' = PStr identity \<and>
       get signer ''public_key'' = PStr key \<and> words (strip key) = ''ssh-ed25519'' # encoded_key # comment \<and>
       b64decode encoded_key = Some blob \<and>
       get signer ''key_id'' = PStr (''SHA256:'' @ rstrip (CHR ''='') (b64encode (digest blob))) \<and>
       kg_verify tool (identity @ '' ssh-ed25519 '' @ encoded_key @ [newline]) identity
         ''runpod-jobrunner-incremental-mirror'' bytes (utf8 (plain_json rep (PDict record))) = Made ())"
  using assms
proof (rule verify_ack_Inr)
  fix candidate signature bytes public_key identity statement
  assume a: "read_ack decode fl encoded = Inr candidate" "record = AList.delete ''signature'' candidate"
    "get candidate ''signature'' = PStr signature" "b64decode signature = Some bytes"
    "pyeq (PDict record) (PDict expected)" "pyeq (get record ''signer'') (PDict signer)"
    and v: "validated_signer_fields digest signer = Inr (public_key, identity)"
    and m: "ack_canonical rep record = Inr statement"
    and k: "kg_verify tool (allowed_signers identity public_key) identity ack_namespace bytes statement = Made ()"
  obtain key encoded_key comment blob where f: "get signer ''algorithm'' = PStr ''ssh-ed25519''"
    "get signer ''identity'' = PStr identity" "get signer ''public_key'' = PStr key"
    "words (strip key) = ''ssh-ed25519'' # encoded_key # comment" "b64decode encoded_key = Some blob"
    "get signer ''key_id'' = PStr (''SHA256:'' @ rstrip (CHR ''='') (b64encode (digest blob)))"
    "public_key = ''ssh-ed25519 '' @ encoded_key"
    using v by (rule validated_fields)
  have "statement = utf8 (plain_json rep (PDict record))" using m by (simp add: ack_canonical_def ack_error_def split: if_split_asm)
  then have "kg_verify tool (identity @ '' ssh-ed25519 '' @ encoded_key @ [newline]) identity
      ''runpod-jobrunner-incremental-mirror'' bytes (utf8 (plain_json rep (PDict record))) = Made ()"
    using k by (simp add: f(7) allowed_signers_def ack_namespace_def)
  with a f show ?thesis by blast
qed

text \<open>
  C14: what the controller signs verifies.  With a key that was loaded from the run's directory, a signed statement is
  accepted as the acknowledgement of that statement by that signer, and reads back as an equal record.  The run id has
  the characters of identifiers, the statement is one that JSON carries (finite numbers, distinct keys), its texts are
  ASCII without characters that JSON escapes, and the tool keeps its contract for plain identities.
\<close>

theorem signed_ack_verifies:
  assumes loaded: "load_ack_signer digest key directory run_id = Inr signer"
    and signed: "sign_ack rep tool statement signer = Inr encoded"
    and tool: "signing_contract tool pair" and key: "pair key = sg_public_key signer"
    and run: "list_all id_char run_id" and ascii: "\<And>t. list_all is_ascii t \<Longrightarrow> decode t = Decoded t"
    and reads: "readable rep fl (PDict statement)" and texts: "plain_texts (PDict statement)"
  shows "\<exists>record. verify_ack rep decode fl digest tool encoded statement (public_fields signer) = Inr record \<and>
    pyeq (PDict record) (PDict statement)"
proof -
  note valid = loaded_signer_valid [OF loaded]
  obtain st signature t where s: "dget statement ''signature'' = None" "ack_canonical rep statement = Inr st"
    "kg_sign tool (sg_private_key signer) ack_namespace st = Made signature"
    "ack_canonical rep (dput ''signature'' (PStr (b64encode signature)) statement) = Inr t" "encoded = t @ [newline]"
    "pyeq (get statement ''signer'') (PDict (public_fields signer))"
    using signed by (rule sign_ack_Inr)
  define full where "full = dput ''signature'' (PStr (b64encode signature)) statement"
  define e where "e = sort_key fst (map (\<lambda>(k, v). (k, sorted_keys v)) full)"
  define acked where "acked = sort_key fst (map (\<lambda>(k, v). (k, sorted_keys v)) statement)"
  have f: "full = statement @ [(''signature'', PStr (b64encode signature))]" unfolding full_def by (rule dput_fresh) (rule s(1))
  have r: "readable rep fl (PDict full)" using reads s(1) by (auto simp: f map_of_eq_None_iff)
  have "plain_texts (PDict full)" using texts b64_plain by (simp add: f) (simp add: plain_char_def)
  then have t: "t = json_text rep (PDict full)" using s(4) ack_canonical_text [OF r] by (simp add: full_def)
  have "list_all is_ascii encoded"
    using printable_ascii [OF printable_json [OF r]] by (simp add: s(5) t is_ascii_def newline_def)
  moreover have "raw_loads fl encoded = Inr (PDict e)" using raw_loads_line [OF r] by (simp add: s(5) t e_def)
  moreover have "\<not> duplicate_keys (PDict e)" using readable_no_duplicates [OF r] by (simp add: e_def del: duplicate_keys.simps)
  ultimately have read: "read_ack decode fl encoded = Inr e" using ascii by (simp add: read_ack_def del: duplicate_keys.simps)
  have wf: "wf_dict full" "wf_dict statement" using r reads by simp_all
  have g: "get e ''signature'' = PStr (b64encode signature)"
    using get_sorted_keys [OF wf(1), of e "''signature''"] by (simp add: e_def full_def get_def update_conv')
  have d: "AList.delete ''signature'' e = acked" unfolding e_def acked_def full_def by (rule delete_sorted) (rule s(1))
  have eq: "pyeq (PDict acked) (PDict statement)"
    using pyeq_sorted [of "PDict statement" "PDict statement"] pyeq_refl [OF readable_plain [OF reads]]
    by (simp add: acked_def del: pyeq.simps)
  have "get acked ''signer'' = sorted_keys (get statement ''signer'')"
    using get_sorted_keys [OF wf(2), of acked] by (simp add: acked_def)
  then have signer: "pyeq (get acked ''signer'') (PDict (public_fields signer))" using s(6) pyeq_sorted by simp
  have c: "ack_canonical rep acked = Inr st"
  proof -
    have "PDict acked = sorted_keys (PDict statement)" by (simp add: acked_def)
    then have "readable rep fl (PDict acked)" "plain_texts (PDict acked)" "json_text rep (PDict acked) = json_text rep (PDict statement)"
      using readable_sorted [OF reads] plain_texts_sorted [OF texts] json_text_sorted by metis+
    from ack_canonical_text [OF this(1,2)] this(3) show ?thesis using ack_canonical_text [OF reads texts] s(2) by simp
  qed
  have plain: "plain_identity (sg_identity signer)"
  proof -
    have "plain_identity ''runpod-jobrunner:''" by code_simp
    then show ?thesis unfolding valid(2) using run by (auto simp: plain_identity_def list_all_iff)
  qed
  then have ia: "list_all is_ascii (sg_identity signer)" by (rule plain_identity_ascii)
  moreover have "kg_verify tool (allowed_signers (sg_identity signer) (sg_public_key signer)) (sg_identity signer) ack_namespace signature st = Made ()"
    using tool s(3) key valid(3) plain unfolding signing_contract_def by metis
  ultimately have "verify_ack rep decode fl digest tool encoded statement (public_fields signer) = Inr acked"
    using verify_ack_accepts [OF read g b64_roundtrip, unfolded d, OF eq signer valid(1) _ c] by blast
  then show ?thesis using eq by blast
qed

section \<open>A key and an acknowledgement\<close>

definition sample_tool :: keygen_tool where
  "sample_tool = \<lparr>kg_sign = (\<lambda>key namespace st. Made (take 6 st)),
     kg_verify = (\<lambda>allowed identity namespace signature st. if signature = take 6 st then Made () else Refused)\<rparr>"

definition sample_keys :: key_directory where
  "sample_keys = \<lparr>kd_private = True, kd_key = Key_file private_mode ''secret'',
     kd_pub = Key_file 420 (''ssh-ed25519 AAAA comment'' @ [newline])\<rparr>"

definition sample_signer :: ack_signer where
  "sample_signer = \<lparr>sg_private_key = ''key'', sg_public_key = ''ssh-ed25519 AAAA'', sg_key_id = ''SHA256:ZA'',
     sg_identity = ''runpod-jobrunner:r''\<rparr>"

definition sample_statement :: pydict where
  "sample_statement = [(''protocol'', PStr ack_protocol), (''run_id'', PStr ''r''), (''manifest_size'', PInt 7),
     (''signer'', PDict (public_fields sample_signer))]"

lemma sample_loaded: "load_ack_signer (\<lambda>_. ''d'') ''key'' (Some sample_keys) ''r'' = Inr sample_signer"
  by code_simp

lemma sample_verifies:
  "(case sign_ack (\<lambda>_. []) sample_tool sample_statement sample_signer of Inl _ \<Rightarrow> False
    | Inr encoded \<Rightarrow> \<not> isl (verify_ack (\<lambda>_. []) Decoded (\<lambda>_. NotANumber) (\<lambda>_. ''d'') sample_tool encoded sample_statement
        (public_fields sample_signer)))"
  by code_simp

theorem verified_ack_is_bound_witness:
  "\<exists>encoded acked. verify_ack (\<lambda>_. []) Decoded (\<lambda>_. NotANumber) (\<lambda>_. ''d'') sample_tool encoded sample_statement
      (public_fields sample_signer) = Inr acked \<and> pyeq (PDict acked) (PDict sample_statement)"
proof -
  obtain encoded acked where "verify_ack (\<lambda>_. []) Decoded (\<lambda>_. NotANumber) (\<lambda>_. ''d'') sample_tool encoded sample_statement
      (public_fields sample_signer) = Inr acked"
    using sample_verifies by (cases "sign_ack (\<lambda>_. []) sample_tool sample_statement sample_signer") (simp_all, metis sum.disc(1) sum.exhaust)
  then show ?thesis using verified_ack_is_bound by blast
qed

theorem signed_ack_verifies_witness:
  "\<exists>encoded acked. sign_ack (\<lambda>_. []) sample_tool sample_statement sample_signer = Inr encoded \<and>
     verify_ack (\<lambda>_. []) Decoded (\<lambda>_. NotANumber) (\<lambda>_. ''d'') sample_tool encoded sample_statement
      (public_fields sample_signer) = Inr acked"
proof -
  obtain encoded where e: "sign_ack (\<lambda>_. []) sample_tool sample_statement sample_signer = Inr encoded"
    using sample_verifies by (auto split: sum.splits)
  have "signing_contract sample_tool (\<lambda>_. ''ssh-ed25519 AAAA'')" by (auto simp: signing_contract_def sample_tool_def)
  moreover have "list_all id_char ''r''" by code_simp
  moreover have "readable (\<lambda>_. []) (\<lambda>_. NotANumber) (PDict sample_statement)"
    by (simp add: sample_statement_def public_fields_def)
  moreover have "plain_texts (PDict sample_statement)" by code_simp
  ultimately show ?thesis
    using signed_ack_verifies [OF sample_loaded e, where pair = "\<lambda>_. ''ssh-ed25519 AAAA''" and decode = Decoded] e
    by (fastforce simp: sample_signer_def)
qed

end
