(* ===== verification/RunJournal.thy ===== *)
theory RunJournal
  imports RunStore Ack
begin

text \<open>
  \<open>run_store.py\<close> on the bytes of its files: the encoding of a record, its append byte by byte, what \<open>_read_events\<close>
  makes of a journal, and the store's operations on dictionaries.  \<open>RunStore\<close> is the same store on decoded records;
  \<open>RunRefines\<close> shows that it is what the bytes come to.  The theorems are about states and payloads whose texts are ASCII
  without the characters that JSON writes as \<open>\uXXXX\<close>; the definitions are not, and with other texts a journal may not
  read back (a line break of Unicode is one for \<open>splitlines\<close>, and a tear after the last digit of an escape is not
  recognised).
\<close>

section \<open>Files and encodings\<close>

record run_disk =
  rd_request :: "string option"
  rd_events :: journal_file
  rd_state :: "string option"
  rd_receipt :: "string option"

text \<open>
  The parameters: \<open>repr\<close> of a float, UTF-8, \<open>float(text)\<close>, and the closeout-receipt/1 schema.
\<close>

record codec =
  cd_repr :: "pyfloat \<Rightarrow> string"
  cd_decode :: decoder
  cd_float :: "string \<Rightarrow> pyfloat"
  cd_valid :: "pydict \<Rightarrow> bool"

text \<open>\<open>_json_bytes\<close>, which raises \<open>TypeError\<close> or \<open>ValueError\<close> before anything is written.\<close>

definition json_bytes :: "codec \<Rightarrow> pydict \<Rightarrow> exn + string" where
  "json_bytes cd d =
     (if dumpable (PDict d) then Inr (utf8 (plain_json (cd_repr cd) (PDict d) @ [newline]))
      else Inl (TypeError ''not JSON serializable''))"

definition corrupt :: "string \<Rightarrow> exn + 'a" where
  "corrupt what = Inl (ValueError (''corrupt '' @ what))"

definition read_object :: "codec \<Rightarrow> string \<Rightarrow> exn + pydict" where
  "read_object cd bytes =
     (case cd_decode cd bytes of
        Decoded t \<Rightarrow>
          (case loads (cd_float cd) t of
             Inl _ \<Rightarrow> corrupt ''JSON state''
           | Inr v \<Rightarrow> (case as_dict v of None \<Rightarrow> Inl (ValueError ''JSON state must be an object'') | Some d \<Rightarrow> Inr d))
      | _ \<Rightarrow> Inl (ValueError ''codec''))"

section \<open>Reading the journal\<close>

definition check_record :: "codec \<Rightarrow> int \<Rightarrow> string \<Rightarrow> exn + pydict" where
  "check_record cd expected line =
     (case loads (cd_float cd) line of
        Inl _ \<Rightarrow> corrupt ''event journal''
      | Inr v \<Rightarrow>
          (case as_dict v of
             None \<Rightarrow> corrupt ''event journal sequence''
           | Some event \<Rightarrow>
               if \<not> pyeq (get event ''sequence'') (PInt expected) then corrupt ''event journal sequence''
               else (case as_dict (get event ''projection'') of
                  None \<Rightarrow> corrupt ''event journal projection''
                | Some projection \<Rightarrow>
                    if \<not> pyeq (get projection ''event_sequence'') (PInt expected) then corrupt ''event journal projection''
                    else Inr event)))"

fun check_records :: "codec \<Rightarrow> int \<Rightarrow> string list \<Rightarrow> exn + pydict list" where
  "check_records cd expected [] = Inr []"
| "check_records cd expected (line # ls) =
     bindR (check_record cd expected line) (\<lambda>event.
     bindR (check_records cd (expected + 1) ls) (\<lambda>events. Inr (event # events)))"

definition decode_records :: "codec \<Rightarrow> string \<Rightarrow> exn + pydict list" where
  "decode_records cd bytes =
     (case cd_decode cd bytes of
        Decoded t \<Rightarrow> check_records cd 1 (splitlines t)
      | _ \<Rightarrow> corrupt ''event journal'')"

text \<open>\<open>_is_torn_json_fragment\<close> is the same function in \<open>run_store.py\<close> and \<open>runner.py\<close>.\<close>

abbreviation is_torn_json_fragment :: "codec \<Rightarrow> string \<Rightarrow> bool" where
  "is_torn_json_fragment cd \<equiv> is_torn (cd_decode cd) (cd_float cd)"

text \<open>
  \<open>_read_events\<close>: a last line that is torn JSON is cut off the file; any other line without its end is refused.
\<close>

definition read_journal :: "codec \<Rightarrow> journal_file \<Rightarrow> (exn + pydict list) \<times> journal_file" where
  "read_journal cd f =
     (case f of
        NoJournal \<Rightarrow> (Inr [], f)
      | UnreadableJournal \<Rightarrow> (Inl (ValueError ''cannot read event journal''), f)
      | JournalBytes bytes \<Rightarrow>
          if final_fragment bytes \<noteq> [] then
            (if \<not> is_torn_json_fragment cd (final_fragment bytes) then (corrupt ''event journal'', f)
             else (decode_records cd (complete_records bytes), JournalBytes (complete_records bytes)))
          else (decode_records cd bytes, f))"

section \<open>The state of a run\<close>

definition record_projection :: "pydict \<Rightarrow> pydict" where
  "record_projection event = (case as_dict (get event ''projection'') of None \<Rightarrow> [] | Some d \<Rightarrow> d)"

text \<open>\<open>snapshot.get("event_sequence", 0)\<close>, which has to be an \<open>int\<close>; \<open>bool\<close> is one.\<close>

definition snapshot_sequence :: "pydict \<Rightarrow> exn + int" where
  "snapshot_sequence snapshot =
     (case get_or snapshot ''event_sequence'' (PInt 0) of
        PInt n \<Rightarrow> Inr n
      | PBool b \<Rightarrow> Inr (if b then 1 else 0)
      | _ \<Rightarrow> corrupt ''state projection sequence'')"

text \<open>\<open>_effective_state\<close>; the sequence of the last record's projection is the number of records.\<close>

definition effective_projection :: "codec \<Rightarrow> run_disk \<Rightarrow> (exn + pydict) \<times> run_disk" where
  "effective_projection cd dk =
     (case read_journal cd (rd_events dk) of (events, f) \<Rightarrow>
       (bindR events (\<lambda>es.
        bindR (case rd_state dk of None \<Rightarrow> Inr None | Some bytes \<Rightarrow> bindR (read_object cd bytes) (\<lambda>s. Inr (Some s)))
          (\<lambda>snapshot.
             if es = [] then
               (case snapshot of None \<Rightarrow> Inl (RunNotFoundError ''run state does not exist'') | Some s \<Rightarrow> Inr s)
             else (case snapshot of
                None \<Rightarrow> Inr (record_projection (last es))
              | Some s \<Rightarrow>
                  bindR (snapshot_sequence s) (\<lambda>n.
                    if n \<le> int (length es) then Inr (record_projection (last es)) else Inr s)))),
        dk\<lparr>rd_events := f\<rparr>))"

definition is_closed :: "pydict \<Rightarrow> bool" where
  "is_closed state \<longleftrightarrow> pyeq (get state ''lifecycle'') (PStr ''closed'')"

definition make_receipt :: "codec \<Rightarrow> pydict \<Rightarrow> exn + pydict" where
  "make_receipt cd state =
     (let receipt = dput ''protocol'' (PStr ''closeout-receipt/1'') state in
      if cd_valid cd receipt then Inr receipt else Inl (ProtocolValidationError ''closeout receipt''))"

definition validated_receipt :: "codec \<Rightarrow> string \<Rightarrow> exn + pydict" where
  "validated_receipt cd bytes =
     bindR (read_object cd bytes) (\<lambda>receipt.
       if pyeq (get receipt ''protocol'') (PStr ''closeout-receipt/1'') \<and> cd_valid cd receipt then Inr receipt
       else Inl (RunStoreError ''invalid durable closeout receipt''))"

definition ensure_receipt :: "codec \<Rightarrow> pydict \<Rightarrow> run_disk \<Rightarrow> (exn + unit) \<times> run_disk" where
  "ensure_receipt cd state dk =
     (case make_receipt cd state of
        Inl e \<Rightarrow> (Inl e, dk)
      | Inr expected \<Rightarrow>
          (case rd_receipt dk of
             None \<Rightarrow>
               (case json_bytes cd expected of
                  Inl e \<Rightarrow> (Inl e, dk) | Inr bytes \<Rightarrow> (Inr (), dk\<lparr>rd_receipt := Some bytes\<rparr>))
           | Some bytes \<Rightarrow>
               (bindR (validated_receipt cd bytes) (\<lambda>recorded.
                  if pyeq (PDict recorded) (PDict expected) then Inr ()
                  else Inl (RunStoreError ''durable closeout receipt does not match closed state'')), dk)))"

definition read_run :: "codec \<Rightarrow> run_disk \<Rightarrow> (exn + pydict) \<times> run_disk" where
  "read_run cd dk =
     (case effective_projection cd dk of
        (Inl e, dk') \<Rightarrow> (Inl e, dk')
      | (Inr state, dk') \<Rightarrow>
          if is_closed state then
            (case ensure_receipt cd state dk' of
               (Inl e, dk'') \<Rightarrow> (Inl e, dk'') | (Inr _, dk'') \<Rightarrow> (Inr state, dk''))
          else (Inr state, dk'))"

definition read_receipt :: "codec \<Rightarrow> run_disk \<Rightarrow> (exn + pydict) \<times> run_disk" where
  "read_receipt cd dk =
     (case read_run cd dk of
        (Inl e, dk') \<Rightarrow> (Inl e, dk')
      | (Inr state, dk') \<Rightarrow>
          (if \<not> is_closed state then Inl (RunStoreError ''run is not closed'')
           else (case rd_receipt dk' of None \<Rightarrow> corrupt ''JSON state'' | Some bytes \<Rightarrow> validated_receipt cd bytes), dk'))"

section \<open>Committing a state\<close>

text \<open>\<open>events[-1]["sequence"] + 1\<close>, of a number that equals the record's position.\<close>

definition next_sequence :: "pyval \<Rightarrow> pyval" where
  "next_sequence v =
     (case v of
        PInt n \<Rightarrow> PInt (n + 1)
      | PBool b \<Rightarrow> PInt (if b then 2 else 1)
      | PFloat (Fin q) \<Rightarrow> PFloat (Fin (q + 1))
      | _ \<Rightarrow> PNone)"

definition store_event :: "string \<Rightarrow> pydict \<Rightarrow> pydict \<Rightarrow> string \<Rightarrow> pyval \<Rightarrow> pydict" where
  "store_event kind projection payload now sequence =
     [(''protocol'', PStr ''run-event/1''), (''sequence'', sequence), (''recorded_at'', PStr now), (''kind'', PStr kind),
      (''payload'', PDict payload), (''projection'', PDict projection)]"

text \<open>
  What a commit is going to write: the line, \<open>state.json\<close>, and the receipt of a closing commit.  The code encodes each
  right before it writes it; the line holds the projection, so once it can be encoded the others can be too.
\<close>

record commit_plan =
  pn_projection :: pydict
  pn_line :: string
  pn_state :: string
  pn_receipt :: "string option"

definition plan_commit ::
  "codec \<Rightarrow> string \<Rightarrow> pydict \<Rightarrow> pydict \<Rightarrow> string \<Rightarrow> pydict list \<Rightarrow> exn + commit_plan" where
  "plan_commit cd kind state payload now es =
     (let sequence = (if es = [] then PInt 1 else next_sequence (get (last es) ''sequence''));
          projection = dput ''event_sequence'' sequence state in
      bindR (if is_closed projection then bindR (make_receipt cd projection) (\<lambda>r. Inr (Some r)) else Inr None) (\<lambda>receipt.
      bindR (json_bytes cd (store_event kind projection payload now sequence)) (\<lambda>line.
      bindR (json_bytes cd projection) (\<lambda>state_bytes.
      bindR (case receipt of None \<Rightarrow> Inr None | Some r \<Rightarrow> bindR (json_bytes cd r) (\<lambda>b. Inr (Some b))) (\<lambda>receipt_bytes.
        Inr \<lparr>pn_projection = projection, pn_line = line, pn_state = state_bytes, pn_receipt = receipt_bytes\<rparr>)))))"

definition extend_journal :: "journal_file \<Rightarrow> string \<Rightarrow> journal_file" where
  "extend_journal f bytes =
     (case f of JournalBytes b \<Rightarrow> JournalBytes (b @ bytes) | NoJournal \<Rightarrow> JournalBytes bytes | UnreadableJournal \<Rightarrow> f)"

text \<open>
  Where a commit may die: with a proper part of the JSON on disk, with the whole of it but not its newline, after the
  append, or after the replacement of \<open>state.json\<close>.  The replacements are atomic.
\<close>

datatype death = Part nat | No_newline | Appended | State_written

definition carry_out :: "death option \<Rightarrow> commit_plan \<Rightarrow> run_disk \<Rightarrow> run_disk" where
  "carry_out death plan dk =
     (let line = pn_line plan;
          written = (case death of
             Some (Part k) \<Rightarrow> take (k mod (length line - 1)) line
           | Some No_newline \<Rightarrow> butlast line
           | _ \<Rightarrow> line);
          dk1 = dk\<lparr>rd_events := extend_journal (rd_events dk) written\<rparr>;
          dk2 = dk1\<lparr>rd_state := Some (pn_state plan)\<rparr>
      in case death of
           None \<Rightarrow> (case pn_receipt plan of None \<Rightarrow> dk2 | Some bytes \<Rightarrow> dk2\<lparr>rd_receipt := Some bytes\<rparr>)
         | Some State_written \<Rightarrow> dk2
         | Some _ \<Rightarrow> dk1)"

definition commit_projection ::
  "codec \<Rightarrow> death option \<Rightarrow> string \<Rightarrow> pydict \<Rightarrow> pydict \<Rightarrow> string \<Rightarrow> run_disk \<Rightarrow> (exn + pydict) \<times> run_disk" where
  "commit_projection cd death kind state payload now dk =
     (case read_journal cd (rd_events dk) of
        (Inl e, f) \<Rightarrow> (Inl e, dk\<lparr>rd_events := f\<rparr>)
      | (Inr es, f) \<Rightarrow>
          (case plan_commit cd kind state payload now es of
             Inl e \<Rightarrow> (Inl e, dk\<lparr>rd_events := f\<rparr>)
           | Inr plan \<Rightarrow> (Inr (pn_projection plan), carry_out death plan (dk\<lparr>rd_events := f\<rparr>))))"

text \<open>\<open>create_run\<close>, whose commit may die.\<close>

definition create_run_record ::
  "codec \<Rightarrow> death option \<Rightarrow> pydict \<Rightarrow> pydict \<Rightarrow> string \<Rightarrow> run_disk \<Rightarrow> (exn + pydict) \<times> run_disk" where
  "create_run_record cd death request initial now dk =
     (case rd_request dk of
        None \<Rightarrow>
          (case json_bytes cd request of
             Inl e \<Rightarrow> (Inl e, dk)
           | Inr bytes \<Rightarrow> commit_projection cd death ''run_planned'' initial [] now (dk\<lparr>rd_request := Some bytes\<rparr>))
      | Some bytes \<Rightarrow>
          (case read_object cd bytes of
             Inl e \<Rightarrow> (Inl e, dk)
           | Inr existing \<Rightarrow>
               if \<not> pyeq (PDict existing) (PDict request)
               then (Inl (RunAlreadyExistsError ''run already exists with a different request''), dk)
               else (case effective_projection cd dk of
                       (Inl (RunNotFoundError m), dk') \<Rightarrow> commit_projection cd death ''run_planned'' initial [] now dk'
                     | r \<Rightarrow> r)))"

section \<open>What is carried\<close>

text \<open>
  Values that the encoding carries: JSON values whose floats are finite and whose texts are ASCII without the characters
  that are written as \<open>\uXXXX\<close>.
\<close>

definition carried :: "codec \<Rightarrow> pyval \<Rightarrow> bool" where
  "carried cd v \<longleftrightarrow> readable (cd_repr cd) (cd_float cd) v \<and> plain_texts v \<and> short_escapes v"

lemma carried_simps [simp]:
  "carried cd (PInt n)" "carried cd PNone" "carried cd (PBool b)"
  "carried cd (PDict []) "
  "carried cd (PDict ((k, v) # d)) \<longleftrightarrow> carried cd (PStr k) \<and> dget d k = None \<and> carried cd v \<and> carried cd (PDict d)"
  by (auto simp: carried_def map_of_eq_None_iff)

lemma carried_member: "carried cd (PDict d) \<Longrightarrow> (k, v) \<in> set d \<Longrightarrow> carried cd v"
  by (auto simp: carried_def list_all_iff)

lemma carried_get: "carried cd (PDict d) \<Longrightarrow> carried cd (get d k)"
  using carried_member map_of_SomeD by (fastforce simp: get_def split: option.splits)

lemma carried_wf: "carried cd (PDict d) \<Longrightarrow> wf_dict d"
  by (simp add: carried_def)

lemma carried_dput: "carried cd (PDict d) \<Longrightarrow> carried cd (PStr k) \<Longrightarrow> carried cd v \<Longrightarrow> carried cd (PDict (dput k v d))"
  by (auto simp: carried_def list_all_iff dest!: set_dputD)

lemma carried_sorted: "carried cd (PDict d) \<Longrightarrow> carried cd (PDict (sort_event d))"
proof -
  have "short_escapes v \<Longrightarrow> short_escapes (sorted_keys v)" for v
    by (induction v) (auto simp: list_all_iff)
  then show "carried cd (PDict d) \<Longrightarrow> carried cd (PDict (sort_event d))"
    unfolding carried_def sorted_keys_event [symmetric] using readable_sorted plain_texts_sorted by blast
qed

abbreviation text_of_dict :: "codec \<Rightarrow> pydict \<Rightarrow> string" where
  "text_of_dict cd d \<equiv> json_text (cd_repr cd) (PDict d)"

lemma carried_bytes:
  assumes "carried cd (PDict d)"
  shows "json_bytes cd d = Inr (text_of_dict cd d @ [newline])"
proof -
  have r: "readable (cd_repr cd) (cd_float cd) (PDict d)" "plain_texts (PDict d)" using assms by (simp_all add: carried_def)
  have "list_all is_ascii (text_of_dict cd d @ [newline])"
    using printable_ascii [OF printable_json [OF r(1)]] by (simp add: is_ascii_def newline_def)
  then show ?thesis
    using readable_dumpable [OF r(1)] by (simp only: json_bytes_def plain_json_text [OF r(2)] utf8_ascii if_True)
qed

lemma loads_line:
  assumes "readable rep fl v"
  shows "loads fl (json_text rep v @ [newline]) = Inr (sorted_keys v)"
  using raw_loads_line [OF assms] last_wins_sorted [OF assms] by (simp add: loads_def)

lemma carried_read:
  assumes "carried cd (PDict d)" and "ascii_decoder (cd_decode cd)"
  shows "read_object cd (text_of_dict cd d @ [newline]) = Inr (sort_event d)"
proof -
  have r: "readable (cd_repr cd) (cd_float cd) (PDict d)" using assms(1) by (simp add: carried_def)
  have "list_all is_ascii (text_of_dict cd d @ [newline])"
    using printable_ascii [OF printable_json [OF r]] by (simp add: is_ascii_def newline_def)
  then show ?thesis
    using assms(2) loads_line [OF r] by (simp add: read_object_def ascii_decoder_def sort_event_def)
qed

section \<open>Records in sequence\<close>

definition record_ok :: "codec \<Rightarrow> int \<Rightarrow> pydict \<Rightarrow> bool" where
  "record_ok cd n e \<longleftrightarrow>
     carried cd (PDict e) \<and> get e ''sequence'' = PInt n \<and>
     (\<exists>p. get e ''projection'' = PDict p \<and> get p ''event_sequence'' = PInt n)"

fun records_ok :: "codec \<Rightarrow> int \<Rightarrow> pydict list \<Rightarrow> bool" where
  "records_ok cd n [] = True"
| "records_ok cd n (e # es) = (record_ok cd n e \<and> records_ok cd (n + 1) es)"

lemma records_ok_append:
  "records_ok cd n (es @ es') \<longleftrightarrow> records_ok cd n es \<and> records_ok cd (n + int (length es)) es'"
  by (induction es arbitrary: n) (auto simp: algebra_simps)

lemma records_ok_member: "records_ok cd n es \<Longrightarrow> e \<in> set es \<Longrightarrow> carried cd (PDict e)"
  by (induction es arbitrary: n) (auto simp: record_ok_def)

lemma check_good_record:
  assumes "record_ok cd n e" shows "check_record cd n (text_of_dict cd e) = Inr (sort_event e)"
proof -
  obtain p where e: "carried cd (PDict e)" "get e ''sequence'' = PInt n" "get e ''projection'' = PDict p"
    "get p ''event_sequence'' = PInt n"
    using assms by (auto simp: record_ok_def)
  have "carried cd (PDict p)" using carried_get [OF e(1), of "''projection''"] e(3) by simp
  then have wf: "wf_dict e" "wf_dict p" using e(1) carried_wf by blast+
  have "loads (cd_float cd) (text_of_dict cd e) = Inr (PDict (sort_event e))"
    using e(1) loads_json_text sorted_keys_event by (metis carried_def)
  moreover have "get (sort_event e) ''sequence'' = PInt n" "get (sort_event e) ''projection'' = PDict (sort_event p)"
    "get (sort_event p) ''event_sequence'' = PInt n"
    using e(2-4) by (simp_all add: get_sort_event [OF wf(1)] get_sort_event [OF wf(2)] sorted_keys_event del: sorted_keys.simps(1))
  ultimately show ?thesis by (simp add: check_record_def num_eq_def)
qed

lemma check_good_records:
  "records_ok cd n es \<Longrightarrow> check_records cd n (map (text_of_dict cd) es) = Inr (map sort_event es)"
  by (induction es arbitrary: n) (simp_all add: check_good_record)

abbreviation records_bytes :: "codec \<Rightarrow> pydict list \<Rightarrow> string" where
  "records_bytes cd es \<equiv> journal_bytes (cd_repr cd) es"

lemma decode_good_records:
  assumes "records_ok cd 1 es" and "ascii_decoder (cd_decode cd)"
  shows "decode_records cd (records_bytes cd es) = Inr (map sort_event es)"
proof -
  have r: "readable (cd_repr cd) (cd_float cd) (PDict e)" if "e \<in> set es" for e
    using records_ok_member [OF assms(1) that] by (simp add: carried_def)
  have "cd_decode cd (records_bytes cd es) = Decoded (records_bytes cd es)"
    using assms(2) journal_bytes_ascii [OF r] by (simp add: ascii_decoder_def)
  moreover have "records_bytes cd es = concat (map (\<lambda>t. t @ [newline]) (map (text_of_dict cd) es))"
    by (auto simp: journal_bytes_def encode_record_def comp_def intro!: arg_cong [where f = concat])
  moreover have "splitlines (concat (map (\<lambda>t. t @ [newline]) (map (text_of_dict cd) es))) = map (text_of_dict cd) es"
    using printable_json [OF r] by (intro splitlines_lines) auto
  ultimately show ?thesis using check_good_records [OF assms(1)] by (simp add: decode_records_def)
qed

text \<open>A journal of whole records and what follows them: nothing, a part of one, or one without its newline.\<close>

definition whole_journal :: "codec \<Rightarrow> pydict list \<Rightarrow> journal_file \<Rightarrow> bool" where
  "whole_journal cd es f \<longleftrightarrow> (f = NoJournal \<and> es = []) \<or> f = JournalBytes (records_bytes cd es)"

definition torn_by :: "codec \<Rightarrow> pydict list \<Rightarrow> string \<Rightarrow> journal_file \<Rightarrow> bool" where
  "torn_by cd es p f \<longleftrightarrow>
     f = JournalBytes (records_bytes cd es @ p) \<and> (\<exists>e. carried cd (PDict e) \<and> strict_prefix p (text_of_dict cd e))"

definition unfinished :: "codec \<Rightarrow> journal_file \<Rightarrow> bool" where
  "unfinished cd f \<longleftrightarrow> (\<exists>es e. f = JournalBytes (records_bytes cd es @ text_of_dict cd e) \<and> carried cd (PDict e))"

lemma text_printable: "carried cd (PDict e) \<Longrightarrow> c \<in> set (text_of_dict cd e) \<Longrightarrow> c \<noteq> newline \<and> is_ascii c"
  using printable_json [of "cd_repr cd" "cd_float cd" "PDict e"] printable_not_break by (auto simp: carried_def list_all_iff)

lemma text_not_empty: "text_of_dict cd e \<noteq> []"
  by (simp add: json_text_dict)

lemma read_whole_journal:
  assumes "whole_journal cd es f" and "records_ok cd 1 es" and "ascii_decoder (cd_decode cd)"
  shows "read_journal cd f = (Inr (map sort_event es), f)"
proof (cases f)
  case (JournalBytes b)
  then have b: "b = records_bytes cd es" using assms(1) by (simp add: whole_journal_def)
  have "final_fragment b = []"
    using final_fragment_append(1) [OF journal_bytes_ends, of "[]"] b by simp
  then show ?thesis using decode_good_records [OF assms(2, 3)] JournalBytes b by (simp add: read_journal_def)
qed (use assms(1) in \<open>simp_all add: whole_journal_def read_journal_def\<close>)

lemma read_torn_journal:
  assumes "torn_by cd es p f" and "records_ok cd 1 es" and "ascii_decoder (cd_decode cd)"
  shows "read_journal cd f = (Inr (map sort_event es), JournalBytes (records_bytes cd es))"
proof -
  obtain e where f: "f = JournalBytes (records_bytes cd es @ p)" and e: "carried cd (PDict e)"
    and p: "strict_prefix p (text_of_dict cd e)"
    using assms(1) by (auto simp: torn_by_def)
  have "set p \<subseteq> set (text_of_dict cd e)" using p set_mono_prefix by (auto simp: strict_prefix_def)
  then have nl: "newline \<notin> set p" and asc: "list_all is_ascii p"
    using text_printable [OF e] by (auto simp: list_all_iff)
  note frag = final_fragment_append [OF journal_bytes_ends nl, of "cd_repr cd" es]
  have dec: "cd_decode cd p = Decoded p" using assms(3) asc by (simp add: ascii_decoder_def)
  show ?thesis
  proof (cases "p = []")
    case True
    then show ?thesis using read_whole_journal [OF _ assms(2, 3), of f] f by (simp add: whole_journal_def)
  next
    case False
    have "torn_fragment (cd_float cd) p"
      using e p False by (intro torn_prefix [of "cd_repr cd" _ e]) (simp_all add: carried_def)
    then show ?thesis
      using f frag False dec decode_good_records [OF assms(2, 3)] by (simp add: read_journal_def is_torn_def)
  qed
qed

lemma read_unfinished:
  assumes "unfinished cd f" and "ascii_decoder (cd_decode cd)"
  shows "read_journal cd f = (corrupt ''event journal'', f)"
proof -
  obtain es e where f: "f = JournalBytes (records_bytes cd es @ text_of_dict cd e)" and e: "carried cd (PDict e)"
    using assms(1) by (auto simp: unfinished_def)
  let ?t = "text_of_dict cd e"
  have nl: "newline \<notin> set ?t" and "list_all is_ascii ?t" using text_printable [OF e] by (auto simp: list_all_iff)
  then have "cd_decode cd ?t = Decoded ?t" using assms(2) by (simp add: ascii_decoder_def)
  moreover have "\<not> torn_fragment (cd_float cd) ?t"
    using e loads_json_text [of "cd_repr cd" "cd_float cd" "PDict e"]
    by (auto simp: torn_fragment_def loads_def carried_def result_simps split: sum.splits)
  ultimately show ?thesis
    using f final_fragment_append [OF journal_bytes_ends nl, of "cd_repr cd" es] text_not_empty [of cd e]
    by (simp add: read_journal_def is_torn_def)
qed

section \<open>What a history of commits leaves\<close>

record journal_op =
  jo_death :: "death option"
  jo_kind :: string
  jo_state :: pydict
  jo_payload :: pydict
  jo_time :: string

definition op_carried :: "codec \<Rightarrow> journal_op \<Rightarrow> bool" where
  "op_carried cd op \<longleftrightarrow>
     carried cd (PDict (jo_state op)) \<and> carried cd (PDict (jo_payload op)) \<and> carried cd (PStr (jo_kind op)) \<and>
     carried cd (PStr (jo_time op))"

definition run_op :: "codec \<Rightarrow> run_disk \<Rightarrow> journal_op \<Rightarrow> run_disk" where
  "run_op cd dk op = snd (commit_projection cd (jo_death op) (jo_kind op) (jo_state op) (jo_payload op) (jo_time op) dk)"

definition empty_disk :: run_disk where
  "empty_disk = \<lparr>rd_request = None, rd_events = NoJournal, rd_state = None, rd_receipt = None\<rparr>"

text \<open>
  The specification: the projections committed so far, in order, or \<open>None\<close> when the journal is corrupt for good.  A
  closing projection that is not a valid receipt is refused, and a death that leaves no whole line leaves nothing.
\<close>

definition stamp :: "nat \<Rightarrow> pydict \<Rightarrow> pydict" where
  "stamp n state = dput ''event_sequence'' (PInt (int n + 1)) state"

definition receipt_of_state :: "pydict \<Rightarrow> pydict" where
  "receipt_of_state state = dput ''protocol'' (PStr ''closeout-receipt/1'') state"

definition accepted :: "(pydict \<Rightarrow> bool) \<Rightarrow> pydict \<Rightarrow> bool" where
  "accepted valid projection \<longleftrightarrow> (is_closed projection \<longrightarrow> valid (receipt_of_state projection))"

definition durable_step :: "(pydict \<Rightarrow> bool) \<Rightarrow> pydict list option \<Rightarrow> journal_op \<Rightarrow> pydict list option" where
  "durable_step valid st op =
     (case st of
        None \<Rightarrow> None
      | Some ps \<Rightarrow>
          let projection = stamp (length ps) (jo_state op) in
          if \<not> accepted valid projection then Some ps
          else (case jo_death op of
                  Some (Part k) \<Rightarrow> Some ps
                | Some No_newline \<Rightarrow> None
                | _ \<Rightarrow> Some (ps @ [projection])))"

definition durable :: "(pydict \<Rightarrow> bool) \<Rightarrow> journal_op list \<Rightarrow> pydict list option" where
  "durable valid ops = foldl (durable_step valid) (Some []) ops"

text \<open>The files stand for those projections.\<close>

definition snapshot_ok :: "codec \<Rightarrow> nat \<Rightarrow> string option \<Rightarrow> bool" where
  "snapshot_ok cd n snapshot \<longleftrightarrow>
     (case snapshot of
        None \<Rightarrow> True
      | Some bytes \<Rightarrow> \<exists>s m. bytes = text_of_dict cd s @ [newline] \<and> carried cd (PDict s) \<and>
          get s ''event_sequence'' = PInt m \<and> m \<le> int n \<and> 0 < n)"

definition stands_for :: "codec \<Rightarrow> run_disk \<Rightarrow> pydict list option \<Rightarrow> bool" where
  "stands_for cd dk st \<longleftrightarrow>
     (case st of
        None \<Rightarrow> unfinished cd (rd_events dk)
      | Some ps \<Rightarrow> \<exists>es. (whole_journal cd es (rd_events dk) \<or> (\<exists>p. torn_by cd es p (rd_events dk))) \<and> records_ok cd 1 es \<and>
          map (\<lambda>e. get e ''projection'') es = map PDict ps \<and> snapshot_ok cd (length es) (rd_state dk))"

lemma stands_for_read:
  assumes "stands_for cd dk (Some ps)" and "ascii_decoder (cd_decode cd)"
  obtains es f where "read_journal cd (rd_events dk) = (Inr (map sort_event es), f)" "whole_journal cd es f" "records_ok cd 1 es"
    "map (\<lambda>e. get e ''projection'') es = map PDict ps" "snapshot_ok cd (length es) (rd_state dk)"
proof -
  obtain es where es: "whole_journal cd es (rd_events dk) \<or> (\<exists>p. torn_by cd es p (rd_events dk))" "records_ok cd 1 es"
    "map (\<lambda>e. get e ''projection'') es = map PDict ps" "snapshot_ok cd (length es) (rd_state dk)"
    using assms(1) by (auto simp: stands_for_def)
  from es(1) show thesis
  proof
    assume "whole_journal cd es (rd_events dk)"
    then show thesis using that es(2-4) read_whole_journal [OF _ es(2) assms(2)] by blast
  next
    assume "\<exists>p. torn_by cd es p (rd_events dk)"
    then show thesis using that [OF _ _ es(2-4)] read_torn_journal [OF _ es(2) assms(2)] by (auto simp: whole_journal_def)
  qed
qed

lemma last_sequence: "records_ok cd n es \<Longrightarrow> es \<noteq> [] \<Longrightarrow> get (last es) ''sequence'' = PInt (n + int (length es) - 1)"
  by (induction es arbitrary: n) (auto simp: record_ok_def)

lemma following_sequence:
  assumes "records_ok cd 1 es"
  shows "(if map sort_event es = [] then PInt 1 else next_sequence (get (last (map sort_event es)) ''sequence'')) =
    PInt (1 + int (length es))"
proof (cases "es = []")
  case False
  then have "wf_dict (last es)" using records_ok_member [OF assms] carried_wf last_in_set by blast
  then show ?thesis using False last_sequence [OF assms False] by (simp add: last_map get_sort_event next_sequence_def)
qed simp

lemma carried_texts [simp]:
  "carried cd (PStr ''event_sequence'')" "carried cd (PStr ''protocol'')" "carried cd (PStr ''closeout-receipt/1'')"
  "carried cd (PStr ''sequence'')" "carried cd (PStr ''recorded_at'')" "carried cd (PStr ''kind'')"
  "carried cd (PStr ''payload'')" "carried cd (PStr ''projection'')" "carried cd (PStr ''run-event/1'')"
  by (simp_all add: carried_def plain_char_def escapes_unicode_def ascii_char_def quote_def backslash_def)

text \<open>A commit on such files: what it is going to write.\<close>

lemma plan_carried:
  assumes ok: "records_ok cd 1 es" "length es = length ps" and op: "op_carried cd op"
    and accepted: "accepted (cd_valid cd) (stamp (length ps) (jo_state op))"
  obtains e plan where
    "plan_commit cd (jo_kind op) (jo_state op) (jo_payload op) (jo_time op) (map sort_event es) = Inr plan"
    "pn_projection plan = stamp (length ps) (jo_state op)" "pn_line plan = text_of_dict cd e @ [newline]"
    "pn_state plan = text_of_dict cd (stamp (length ps) (jo_state op)) @ [newline]"
    "record_ok cd (1 + int (length es)) e" "get e ''projection'' = PDict (stamp (length ps) (jo_state op))"
    "carried cd (PDict (stamp (length ps) (jo_state op)))"
    "pn_receipt plan = (if is_closed (stamp (length ps) (jo_state op))
       then Some (text_of_dict cd (receipt_of_state (stamp (length ps) (jo_state op))) @ [newline]) else None)"
proof -
  let ?p = "stamp (length ps) (jo_state op)"
  define e where "e = store_event (jo_kind op) ?p (jo_payload op) (jo_time op) (PInt (1 + int (length es)))"
  have p: "carried cd (PDict ?p)" using op by (simp add: stamp_def op_carried_def carried_dput)
  then have r: "carried cd (PDict (receipt_of_state ?p))" by (simp add: receipt_of_state_def carried_dput)
  have e: "carried cd (PDict e)" using op p by (simp add: e_def store_event_def op_carried_def)
  note seq = following_sequence [OF ok(1)]
  have stamped: "dput ''event_sequence'' (PInt (1 + int (length es))) (jo_state op) = ?p"
    by (simp add: stamp_def ok(2) add.commute)
  have receipt: "is_closed ?p \<Longrightarrow> make_receipt cd ?p = Inr (receipt_of_state ?p)"
    using accepted by (simp add: make_receipt_def accepted_def receipt_of_state_def)
  have "plan_commit cd (jo_kind op) (jo_state op) (jo_payload op) (jo_time op) (map sort_event es) =
      Inr \<lparr>pn_projection = ?p, pn_line = text_of_dict cd e @ [newline], pn_state = text_of_dict cd ?p @ [newline],
        pn_receipt = (if is_closed ?p then Some (text_of_dict cd (receipt_of_state ?p) @ [newline]) else None)\<rparr>"
    unfolding plan_commit_def Let_def seq stamped e_def [symmetric] carried_bytes [OF e] carried_bytes [OF p]
    using receipt carried_bytes [OF r] by simp
  moreover have "record_ok cd (1 + int (length es)) e"
    using e by (simp add: record_ok_def) (simp add: e_def store_event_def stamp_def ok(2))
  ultimately show thesis using that p by (simp add: e_def store_event_def)
qed

lemma plan_refused:
  assumes ok: "records_ok cd 1 es" "length es = length ps"
    and refused: "\<not> accepted (cd_valid cd) (stamp (length ps) (jo_state op))"
  shows "plan_commit cd (jo_kind op) (jo_state op) (jo_payload op) (jo_time op) (map sort_event es) =
    Inl (ProtocolValidationError ''closeout receipt'')"
proof -
  note seq = following_sequence [OF ok(1)]
  have stamped: "dput ''event_sequence'' (PInt (1 + int (length es))) (jo_state op) = stamp (length ps) (jo_state op)"
    by (simp add: stamp_def ok(2) add.commute)
  show ?thesis
    unfolding plan_commit_def Let_def seq stamped
    using refused by (simp add: make_receipt_def accepted_def receipt_of_state_def)
qed

lemma extend_whole:
  "whole_journal cd es f \<Longrightarrow> extend_journal f bytes = JournalBytes (records_bytes cd es @ bytes)"
  by (auto simp: whole_journal_def extend_journal_def journal_bytes_def)

lemma records_bytes_snoc: "records_bytes cd (es @ [e]) = records_bytes cd es @ text_of_dict cd e @ [newline]"
  by (simp add: journal_bytes_def encode_record_def)

lemma snapshot_ok_mono: "snapshot_ok cd n b \<Longrightarrow> n \<le> m \<Longrightarrow> snapshot_ok cd m b"
  by (fastforce simp: snapshot_ok_def split: option.splits)

lemma snapshot_ok_stamp:
  "carried cd (PDict (stamp n state)) \<Longrightarrow> snapshot_ok cd (Suc n) (Some (text_of_dict cd (stamp n state) @ [newline]))"
  by (fastforce simp: snapshot_ok_def stamp_def)

lemma run_op_stands:
  assumes st: "stands_for cd dk st" and op: "op_carried cd op" and ascii: "ascii_decoder (cd_decode cd)"
  shows "stands_for cd (run_op cd dk op) (durable_step (cd_valid cd) st op)"
proof (cases st)
  case None
  then have "run_op cd dk op = dk"
    using read_unfinished [OF _ ascii, of "rd_events dk"] st
    by (simp add: run_op_def commit_projection_def stands_for_def corrupt_def)
  then show ?thesis using st None by (simp add: durable_step_def)
next
  case (Some ps)
  obtain es f where r: "read_journal cd (rd_events dk) = (Inr (map sort_event es), f)" "whole_journal cd es f"
    "records_ok cd 1 es" "map (\<lambda>e. get e ''projection'') es = map PDict ps" "snapshot_ok cd (length es) (rd_state dk)"
    using stands_for_read [OF st [unfolded Some] ascii] .
  have len: "length es = length ps" using arg_cong [OF r(4), of length] by simp
  let ?p = "stamp (length ps) (jo_state op)"
  show ?thesis
  proof (cases "accepted (cd_valid cd) ?p")
    case False
    then have "run_op cd dk op = dk\<lparr>rd_events := f\<rparr>"
      using r(1) plan_refused [OF r(3) len False] by (simp add: run_op_def commit_projection_def)
    then show ?thesis using r False Some by (auto simp: stands_for_def durable_step_def)
  next
    case True
    obtain e plan where plan: "plan_commit cd (jo_kind op) (jo_state op) (jo_payload op) (jo_time op) (map sort_event es) = Inr plan"
      "pn_projection plan = ?p" "pn_line plan = text_of_dict cd e @ [newline]" "pn_state plan = text_of_dict cd ?p @ [newline]"
      "record_ok cd (1 + int (length es)) e" "get e ''projection'' = PDict ?p" "carried cd (PDict ?p)"
      using plan_carried [OF r(3) len op True] .
    have e: "carried cd (PDict e)" using plan(5) by (simp add: record_ok_def)
    let ?dk = "dk\<lparr>rd_events := f\<rparr>"
    have run: "run_op cd dk op = carry_out (jo_death op) plan ?dk"
      using r(1) plan(1) by (simp add: run_op_def commit_projection_def)
    note ext = extend_whole [OF r(2)]
    have whole: "stands_for cd (?dk\<lparr>rd_events := JournalBytes (records_bytes cd es @ text_of_dict cd e @ [newline]),
        rd_state := b, rd_receipt := c\<rparr>) (Some (ps @ [?p]))"
      if "snapshot_ok cd (Suc (length es)) b" for b c
      using r(3, 4) plan(5, 6) that
      by (auto simp: stands_for_def whole_journal_def records_bytes_snoc records_ok_append intro!: exI [of _ "es @ [e]"])
    have old: "snapshot_ok cd (Suc (length es)) (rd_state dk)" using r(5) snapshot_ok_mono by fastforce
    have new: "snapshot_ok cd (Suc (length es)) (Some (text_of_dict cd ?p @ [newline]))"
      unfolding len using plan(7) by (rule snapshot_ok_stamp)
    show ?thesis
    proof (cases "jo_death op")
      case None
      then have "\<exists>c. run_op cd dk op = ?dk\<lparr>rd_events := JournalBytes (records_bytes cd es @ text_of_dict cd e @ [newline]),
          rd_state := Some (text_of_dict cd ?p @ [newline]), rd_receipt := c\<rparr>"
        unfolding run by (cases "pn_receipt plan") (auto simp: carry_out_def Let_def ext plan(3, 4) intro: exI [of _ "rd_receipt dk"])
      then show ?thesis using whole [OF new] None True Some by (auto simp: durable_step_def Let_def)
    next
      case (Some death)
      show ?thesis
      proof (cases death)
        case (Part k)
        let ?k = "k mod length (text_of_dict cd e)"
        have "?k < length (text_of_dict cd e)" using text_not_empty [of cd e] by simp
        then have p: "strict_prefix (take ?k (text_of_dict cd e)) (text_of_dict cd e)"
          by (metis length_take min.absorb4 nat_neq_iff strict_prefixI take_is_prefix)
        have "run_op cd dk op = ?dk\<lparr>rd_events := JournalBytes (records_bytes cd es @ take ?k (text_of_dict cd e))\<rparr>"
          unfolding run using \<open>?k < _\<close> by (simp add: carry_out_def Let_def ext plan(3) \<open>jo_death op = _\<close> Part)
        moreover have "torn_by cd es (take ?k (text_of_dict cd e)) (JournalBytes (records_bytes cd es @ take ?k (text_of_dict cd e)))"
          using e p by (auto simp: torn_by_def)
        ultimately show ?thesis
          using r(3-5) True \<open>st = _\<close> \<open>jo_death op = _\<close> Part by (auto simp: stands_for_def durable_step_def Let_def)
      next
        case No_newline
        then show ?thesis
          using True \<open>st = _\<close> \<open>jo_death op = _\<close> e
          by (auto simp: run carry_out_def Let_def ext plan(3) stands_for_def durable_step_def unfinished_def)
      next
        case Appended
        then have "run_op cd dk op = ?dk\<lparr>rd_events := JournalBytes (records_bytes cd es @ text_of_dict cd e @ [newline]),
            rd_state := rd_state dk, rd_receipt := rd_receipt dk\<rparr>"
          unfolding run by (simp add: carry_out_def Let_def ext plan(3) \<open>jo_death op = _\<close>)
        then show ?thesis using whole [OF old, of "rd_receipt dk"] True \<open>st = _\<close> \<open>jo_death op = _\<close> Appended by (auto simp: durable_step_def Let_def)
      next
        case State_written
        then have "run_op cd dk op = ?dk\<lparr>rd_events := JournalBytes (records_bytes cd es @ text_of_dict cd e @ [newline]),
            rd_state := Some (text_of_dict cd ?p @ [newline]), rd_receipt := rd_receipt dk\<rparr>"
          unfolding run by (simp add: carry_out_def Let_def ext plan(3, 4) \<open>jo_death op = _\<close>)
        then show ?thesis using whole [OF new, of "rd_receipt dk"] True \<open>st = _\<close> \<open>jo_death op = _\<close> State_written by (auto simp: durable_step_def Let_def)
      qed
    qed
  qed
qed

lemma history_stands:
  assumes "list_all (op_carried cd) ops" and "ascii_decoder (cd_decode cd)" and "stands_for cd dk st"
  shows "stands_for cd (foldl (run_op cd) dk ops) (foldl (durable_step (cd_valid cd)) st ops)"
  using assms(1, 3) by (induction ops arbitrary: dk st) (auto intro: run_op_stands [OF _ _ assms(2)])

lemma empty_stands: "stands_for cd empty_disk (Some [])"
  by (simp add: stands_for_def empty_disk_def whole_journal_def snapshot_ok_def)

lemma effective_stands:
  assumes st: "stands_for cd dk st" and ascii: "ascii_decoder (cd_decode cd)"
  shows "fst (effective_projection cd dk) =
      (case st of
         None \<Rightarrow> Inl (ValueError ''corrupt event journal'')
       | Some ps \<Rightarrow> if ps = [] then Inl (RunNotFoundError ''run state does not exist'') else Inr (sort_event (last ps)))"
    and "stands_for cd (snd (effective_projection cd dk)) st"
    and "rd_receipt (snd (effective_projection cd dk)) = rd_receipt dk"
proof -
  have "fst (effective_projection cd dk) =
      (case st of
         None \<Rightarrow> Inl (ValueError ''corrupt event journal'')
       | Some ps \<Rightarrow> if ps = [] then Inl (RunNotFoundError ''run state does not exist'') else Inr (sort_event (last ps))) \<and>
    stands_for cd (snd (effective_projection cd dk)) st"
  proof (cases st)
    case None
    then show ?thesis
      using read_unfinished [OF _ ascii, of "rd_events dk"] st by (simp add: effective_projection_def stands_for_def corrupt_def)
  next
    case (Some ps)
    obtain es f where r: "read_journal cd (rd_events dk) = (Inr (map sort_event es), f)" "whole_journal cd es f"
      "records_ok cd 1 es" "map (\<lambda>e. get e ''projection'') es = map PDict ps" "snapshot_ok cd (length es) (rd_state dk)"
      using stands_for_read [OF st [unfolded Some] ascii] .
    have "stands_for cd (dk\<lparr>rd_events := f\<rparr>) (Some ps)" using r by (auto simp: stands_for_def)
    moreover have "fst (effective_projection cd dk) =
        (if ps = [] then Inl (RunNotFoundError ''run state does not exist'') else Inr (sort_event (last ps)))"
    proof (cases "es = []")
      case True
      then have "rd_state dk = None" using r(5) by (auto simp: snapshot_ok_def split: option.splits)
      then show ?thesis using True r(1, 4) by (simp add: effective_projection_def)
    next
      case False
      then have ps: "ps \<noteq> []" using r(4) by auto
      have "wf_dict (last es)" using False records_ok_member [OF r(3)] carried_wf last_in_set by blast
      moreover have "get (last es) ''projection'' = PDict (last ps)"
        using arg_cong [OF r(4), of last] False ps by (simp add: last_map)
      ultimately have last: "record_projection (last (map sort_event es)) = sort_event (last ps)"
        using False by (simp add: record_projection_def last_map get_sort_event sorted_keys_event del: sorted_keys.simps(1))
      show ?thesis
      proof (cases "rd_state dk")
        case None
        then show ?thesis using False ps r(1) last by (simp add: effective_projection_def)
      next
        case (Some b)
        then obtain t m where t: "b = text_of_dict cd t @ [newline]" "carried cd (PDict t)"
          "get t ''event_sequence'' = PInt m" "m \<le> int (length es)"
          using r(5) by (auto simp: snapshot_ok_def)
        have "get_or (sort_event t) ''event_sequence'' (PInt 0) = PInt m"
          using get_sort_event [OF carried_wf [OF t(2)], of "''event_sequence''"] t(3)
          by (auto simp: get_or_def get_def split: option.splits)
        then show ?thesis
          using False ps r(1) last Some t(4) carried_read [OF t(2) ascii]
          by (simp add: effective_projection_def snapshot_sequence_def t(1))
      qed
    qed
    ultimately show ?thesis using Some r(1) by (simp add: effective_projection_def)
  qed
  then show "fst (effective_projection cd dk) =
      (case st of
         None \<Rightarrow> Inl (ValueError ''corrupt event journal'')
       | Some ps \<Rightarrow> if ps = [] then Inl (RunNotFoundError ''run state does not exist'') else Inr (sort_event (last ps)))"
    and "stands_for cd (snd (effective_projection cd dk)) st"
    by blast+
  show "rd_receipt (snd (effective_projection cd dk)) = rd_receipt dk" by (simp add: effective_projection_def split: prod.split)
qed

text \<open>
  C4: the journal makes commits atomic, byte by byte.  After any sequence of commits on a fresh run directory, with the
  process dying inside any of them after any number of bytes of the record or after the replacement of
  \<open>state.json\<close>, a read gives exactly the last projection whose line was completed, or reports that there is none; it is
  refused for good exactly when a death left a record that lacks only its newline.  The states, payloads, kinds and
  times are JSON values with finite floats and ASCII texts without the characters that JSON writes as \<open>\uXXXX\<close>.
\<close>

theorem history_reads_back:
  assumes "list_all (op_carried cd) ops" and "ascii_decoder (cd_decode cd)"
  shows "fst (effective_projection cd (foldl (run_op cd) empty_disk ops)) =
    (case durable (cd_valid cd) ops of
       None \<Rightarrow> Inl (ValueError ''corrupt event journal'')
     | Some ps \<Rightarrow> if ps = [] then Inl (RunNotFoundError ''run state does not exist'') else Inr (sort_event (last ps)))"
  using effective_stands(1) [OF history_stands [OF assms empty_stands] assms(2)] unfolding durable_def .

text \<open>A codec for the witnesses.\<close>

definition sample_codec :: codec where
  "sample_codec = \<lparr>cd_repr = rep_15, cd_decode = Decoded, cd_float = read_15, cd_valid = (\<lambda>_. True)\<rparr>"

lemma sample_ascii: "ascii_decoder (cd_decode sample_codec)"
  by (simp add: ascii_decoder_def sample_codec_def)

theorem history_reads_back_witness:
  "let ops = [\<lparr>jo_death = None, jo_kind = ''run_planned'', jo_state = [(''lifecycle'', PStr ''planned'')],
         jo_payload = [], jo_time = ''t''\<rparr>,
       \<lparr>jo_death = Some (Part 7), jo_kind = ''provision_intended'', jo_state = [(''lifecycle'', PStr ''provisioning'')],
         jo_payload = [], jo_time = ''t''\<rparr>]
   in fst (effective_projection sample_codec (foldl (run_op sample_codec) empty_disk ops)) =
     Inr [(''event_sequence'', PInt 1), (''lifecycle'', PStr ''planned'')]"
proof -
  let ?ops = "[\<lparr>jo_death = None, jo_kind = ''run_planned'', jo_state = [(''lifecycle'', PStr ''planned'')],
         jo_payload = [], jo_time = ''t''\<rparr>,
       \<lparr>jo_death = Some (Part 7), jo_kind = ''provision_intended'', jo_state = [(''lifecycle'', PStr ''provisioning'')],
         jo_payload = [], jo_time = ''t''\<rparr>]"
  have "list_all (op_carried sample_codec) ?ops"
    by (simp add: op_carried_def carried_def plain_char_def escapes_unicode_def ascii_char_def quote_def backslash_def)
  moreover have "durable (cd_valid sample_codec) ?ops =
      Some [[(''lifecycle'', PStr ''planned''), (''event_sequence'', PInt 1)]]"
    by (simp add: durable_def durable_step_def stamp_def accepted_def is_closed_def get_def)
  ultimately show ?thesis
    using history_reads_back [of sample_codec ?ops] sample_ascii by (simp add: Let_def sort_event_def)
qed

section \<open>Closing a run\<close>

lemma reordered_sorted: "readable rep fl v \<Longrightarrow> reordered v (sorted_keys v)"
proof (induction v)
  case (PList vs)
  then have "list_all2 reordered vs (map sorted_keys vs)" by (simp add: list_all2_conv_all_nth list_all_length)
  then show ?case by (simp add: reordered.array)
next
  case (PDict d)
  let ?e = "sort_event d"
  have wf: "wf_dict d" "wf_dict ?e"
    using PDict.prems keys_sorted [where g = sorted_keys and d = d] by (simp, metis mset_eq_imp_distinct_iff readable.simps(4) sort_event_def)
  have "mset (dkeys ?e) = mset (dkeys d)" unfolding sort_event_def by (rule keys_sorted)
  then have keys: "set (dkeys d) = set (dkeys ?e)" by (metis mset_eq_setD)
  have "reordered v w" if "dget d k = Some v" "dget ?e k = Some w" for k v w
  proof -
    have "(k, v) \<in> set d" using that(1) by (rule map_of_SomeD)
    moreover have "w = sorted_keys v" using get_sort_event [OF wf(1), of k] that by (simp add: get_def)
    ultimately show ?thesis using PDict by (force simp: list_all_iff)
  qed
  then show ?case unfolding sorted_keys_event using reordered.object [OF wf keys] by blast
qed (simp_all add: reordered.same)

lemma reordered_receipt:
  assumes "carried cd (PDict d)"
  shows "reordered (PDict (receipt_of_state d)) (PDict (receipt_of_state (sort_event d)))"
proof (rule reordered.object)
  have r: "readable (cd_repr cd) (cd_float cd) (PDict d)" using assms by (simp add: carried_def)
  have wf: "wf_dict d" "wf_dict (sort_event d)" using assms carried_sorted [OF assms] carried_wf by blast+
  then show "wf_dict (receipt_of_state d)" "wf_dict (receipt_of_state (sort_event d))" by (simp_all add: receipt_of_state_def)
  have "mset (dkeys (sort_event d)) = mset (dkeys d)" unfolding sort_event_def by (rule keys_sorted)
  then have keys: "set (dkeys d) = set (dkeys (sort_event d))" by (metis mset_eq_setD)
  then show "set (dkeys (receipt_of_state d)) = set (dkeys (receipt_of_state (sort_event d)))"
    by (simp add: receipt_of_state_def AList.dom_update)
  fix k v w assume v: "dget (receipt_of_state d) k = Some v" and w: "dget (receipt_of_state (sort_event d)) k = Some w"
  show "reordered v w"
  proof (cases "k = ''protocol''")
    case True
    then show ?thesis using v w by (simp add: receipt_of_state_def reordered.same)
  next
    case False
    then have "dget d k = Some v" "dget (sort_event d) k = Some w" using v w by (simp_all add: receipt_of_state_def)
    then have "w = sorted_keys v" "readable (cd_repr cd) (cd_float cd) v"
      using get_sort_event [OF wf(1), of k] r map_of_SomeD by (fastforce simp: get_def list_all_iff)+
    then show ?thesis using reordered_sorted by blast
  qed
qed

lemma reordered_same_sorted: "reordered v w \<Longrightarrow> sorted_keys v = sorted_keys w"
proof (induction rule: reordered.induct)
  case (array vs ws)
  then have "map sorted_keys vs = map sorted_keys ws" by (induction rule: list_all2_induct) auto
  then show ?case by simp
next
  case (object d e)
  let ?f = "\<lambda>(k, v). (k, sorted_keys v)"
  have lookup: "dget (map ?f c) k = map_option sorted_keys (dget c k)" for c k by (simp add: map_of_map)
  have wf: "wf_dict (map ?f d)" "wf_dict (map ?f e)" using object(1, 2) by (simp_all add: comp_def case_prod_unfold)
  have "map_option sorted_keys (dget d k) = map_option sorted_keys (dget e k)" for k
  proof (cases "dget d k")
    case None
    then have "dget e k = None" using object(3) by (metis list.set_map map_of_eq_None_iff)
    with None show ?thesis by simp
  next
    case (Some v)
    then have "dget e k \<noteq> None" using object(3) by (metis list.set_map map_of_eq_None_iff option.distinct(1))
    with Some object(5) show ?thesis by auto
  qed
  then have "dget (map ?f d) = dget (map ?f e)" unfolding lookup fun_eq_iff by blast
  then have same: "set (map ?f d) = set (map ?f e)" using wf map_of_inject_set by blast
  have "sort_key fst (map ?f d) = sort_key fst (map ?f e)"
  proof (rule map_sorted_distinct_set_unique [of fst])
    have "set (sort_key fst (map ?f d)) \<union> set (sort_key fst (map ?f e)) = set (map ?f d)" using same by simp
    then show "inj_on fst (set (sort_key fst (map ?f d)) \<union> set (sort_key fst (map ?f e)))"
      using wf(1) by (simp only: distinct_map)
    have "mset (map fst (sort_key fst c)) = mset (map fst c)" for c :: pydict by simp
    then show "distinct (map fst (sort_key fst (map ?f d)))" "distinct (map fst (sort_key fst (map ?f e)))"
      using wf by (metis mset_eq_imp_distinct_iff)+
  qed (use same in simp_all)
  then show ?case by simp
qed simp

lemma is_closed_simps [simp]:
  "is_closed (dput ''event_sequence'' v state) \<longleftrightarrow> is_closed state" "is_closed (stamp n state) \<longleftrightarrow> is_closed state"
  by (simp_all add: is_closed_def stamp_def)

lemma is_closed_sorted: "carried cd (PDict d) \<Longrightarrow> is_closed (sort_event d) \<longleftrightarrow> is_closed d"
  by (simp add: is_closed_def get_sort_event [OF carried_wf])

lemma open_keeps_receipt:
  assumes "\<not> is_closed (jo_state op)"
  shows "rd_receipt (run_op cd dk op) = rd_receipt dk"
proof (cases "read_journal cd (rd_events dk)")
  case (Pair r f)
  show ?thesis
  proof (cases r)
    case (Inl e)
    then show ?thesis using Pair by (simp add: run_op_def commit_projection_def)
  next
    case (Inr es)
    show ?thesis
    proof (cases "plan_commit cd (jo_kind op) (jo_state op) (jo_payload op) (jo_time op) es")
      case (Inl e)
      then show ?thesis using Pair Inr by (simp add: run_op_def commit_projection_def)
    next
      case plan: (Inr plan)
      then have "pn_receipt plan = None" using assms by (auto simp: plan_commit_def Let_def)
      then show ?thesis
        using Pair Inr plan
        by (auto simp: run_op_def commit_projection_def carry_out_def Let_def split: option.split death.split)
    qed
  qed
qed

lemma history_receipt:
  "list_all (\<lambda>op. \<not> is_closed (jo_state op)) ops \<Longrightarrow> rd_receipt (foldl (run_op cd) dk ops) = rd_receipt dk"
  by (induction ops arbitrary: dk) (simp_all add: open_keeps_receipt)

lemma ordered_valid:
  "(\<And>d e. reordered (PDict d) (PDict e) \<Longrightarrow> cd_valid cd d = cd_valid cd e) \<Longrightarrow> carried cd (PDict d) \<Longrightarrow>
     cd_valid cd (sort_event d) = cd_valid cd d"
  using reordered_sorted [of "cd_repr cd" "cd_float cd" "PDict d"] by (auto simp: carried_def sorted_keys_event simp del: sorted_keys.simps(1))

text \<open>A read of a closed run whose receipt is absent or is the one the closing commit wrote.\<close>

lemma read_closed:
  assumes st: "stands_for cd dk (Some (ps @ [q]))" and ascii: "ascii_decoder (cd_decode cd)"
    and q: "carried cd (PDict q)" "is_closed q" "cd_valid cd (receipt_of_state q)"
    and order: "\<And>d e. reordered (PDict d) (PDict e) \<Longrightarrow> cd_valid cd d = cd_valid cd e"
    and receipt: "rd_receipt dk \<in> {None, Some (text_of_dict cd (receipt_of_state q) @ [newline]),
      Some (text_of_dict cd (receipt_of_state (sort_event q)) @ [newline])}"
  shows "fst (read_run cd dk) = Inr (sort_event q) \<and> stands_for cd (snd (read_run cd dk)) (Some (ps @ [q])) \<and>
    rd_receipt (snd (read_run cd dk)) = Some (text_of_dict cd (receipt_of_state (sort_event q)) @ [newline]) \<and>
    fst (read_receipt cd dk) = Inr (sort_event (receipt_of_state (sort_event q))) \<and>
    pyeq (PDict (sort_event (receipt_of_state (sort_event q)))) (PDict (receipt_of_state (sort_event q)))"
proof -
  let ?r = "receipt_of_state (sort_event q)"
  have s: "carried cd (PDict (sort_event q))" by (rule carried_sorted [OF q(1)])
  have c: "carried cd (PDict (receipt_of_state q))" "carried cd (PDict ?r)"
    using q(1) s by (simp_all add: receipt_of_state_def carried_dput)
  note ro = reordered_receipt [OF q(1)]
  have same: "sort_event (receipt_of_state q) = sort_event ?r"
    using reordered_same_sorted [OF ro] by (simp add: sort_event_def)
  then have written: "text_of_dict cd (receipt_of_state q) = text_of_dict cd ?r"
    using json_text_sorted [of "cd_repr cd" "PDict (receipt_of_state q)"] json_text_sorted [of "cd_repr cd" "PDict ?r"]
    by (simp add: sorted_keys_event del: sorted_keys.simps(1))
  have valid: "cd_valid cd ?r" "cd_valid cd (sort_event ?r)"
    using order [OF ro] q(3) ordered_valid [OF order c(2)] by simp_all
  have closed: "is_closed (sort_event q)" using q is_closed_sorted by blast
  have "get (sort_event ?r) ''protocol'' = PStr ''closeout-receipt/1''"
    using get_sort_event [OF carried_wf [OF c(2)], of "''protocol''"] by (simp add: receipt_of_state_def)
  then have validated: "validated_receipt cd (text_of_dict cd ?r @ [newline]) = Inr (sort_event ?r)"
    using carried_read [OF c(2) ascii] valid(2) by (simp add: validated_receipt_def)
  have eq: "pyeq (PDict (sort_event ?r)) (PDict ?r)"
  proof -
    have "pyeq (PDict ?r) (PDict ?r)"
      using pyeq_refl [OF readable_plain] c(2) unfolding carried_def by blast
    then show ?thesis using pyeq_sorted [of "PDict ?r" "PDict ?r"] by (simp only: sorted_keys_event)
  qed
  obtain r dk' where e: "effective_projection cd dk = (r, dk')" by fastforce
  have r: "r = Inr (sort_event q)" and dk': "stands_for cd dk' (Some (ps @ [q]))" "rd_receipt dk' = rd_receipt dk"
    using effective_stands [OF st ascii] unfolding e by simp_all
  have make: "make_receipt cd (sort_event q) = Inr ?r" using valid(1) by (simp add: make_receipt_def receipt_of_state_def)
  have ensure: "ensure_receipt cd (sort_event q) dk' = (Inr (), dk'\<lparr>rd_receipt := Some (text_of_dict cd ?r @ [newline])\<rparr>)"
    using receipt carried_bytes [OF c(2)] validated eq dk'(2)
    by (auto simp: ensure_receipt_def make written simp del: pyeq.simps)
  have "stands_for cd (dk'\<lparr>rd_receipt := b\<rparr>) (Some (ps @ [q]))" for b
    using dk'(1) by (simp add: stands_for_def)
  moreover have run: "read_run cd dk = (Inr (sort_event q), dk'\<lparr>rd_receipt := Some (text_of_dict cd ?r @ [newline])\<rparr>)"
    using closed r e ensure by (simp add: read_run_def)
  ultimately show ?thesis using closed validated eq by (simp add: read_receipt_def del: pyeq.simps)
qed

text \<open>
  C18: closing a run survives a death before the receipt is written.  When the closing commit of a run completes, or
  dies after its append or after the replacement of \<open>state.json\<close>, the next read returns the closed state and leaves a
  receipt, which \<open>read_closeout_receipt\<close> accepts and returns, and which is the state under the name of the receipt
  protocol.  The run was not closed before and its journal is not corrupt, the schema accepts the receipt and does not
  look at the order of keys, and the texts are ASCII without the characters that JSON writes as \<open>\uXXXX\<close>.
\<close>

theorem closing_commit_survives:
  assumes "list_all (op_carried cd) (ops @ [op])" and ascii: "ascii_decoder (cd_decode cd)"
    and "list_all (\<lambda>op. \<not> is_closed (jo_state op)) ops" and closing: "is_closed (jo_state op)"
    and before: "durable (cd_valid cd) ops = Some ps"
    and valid: "cd_valid cd (receipt_of_state (stamp (length ps) (jo_state op)))"
    and order: "\<And>d e. reordered (PDict d) (PDict e) \<Longrightarrow> cd_valid cd d = cd_valid cd e"
    and death: "jo_death op \<in> {None, Some Appended, Some State_written}"
  shows "let q = sort_event (stamp (length ps) (jo_state op)); dk = foldl (run_op cd) empty_disk (ops @ [op])
    in fst (read_run cd dk) = Inr q \<and> rd_receipt (snd (read_run cd dk)) \<noteq> None \<and>
       (\<exists>receipt. fst (read_receipt cd dk) = Inr receipt \<and> pyeq (PDict receipt) (PDict (receipt_of_state q)))"
proof -
  let ?q = "stamp (length ps) (jo_state op)" and ?dk = "foldl (run_op cd) empty_disk ops"
  have carried: "list_all (op_carried cd) ops" "op_carried cd op" using assms(1) by simp_all
  have q: "carried cd (PDict ?q)" using carried(2) by (simp add: stamp_def op_carried_def carried_dput)
  have st: "stands_for cd ?dk (Some ps)"
    using history_stands [OF carried(1) ascii empty_stands] before by (simp add: durable_def)
  have accepted: "accepted (cd_valid cd) ?q" using valid by (simp add: accepted_def)
  have "durable_step (cd_valid cd) (Some ps) op = Some (ps @ [?q])"
    using death accepted by (auto simp: durable_step_def Let_def)
  then have next_st: "stands_for cd (run_op cd ?dk op) (Some (ps @ [?q]))"
    using run_op_stands [OF st carried(2) ascii] by simp
  have none: "rd_receipt ?dk = None" using history_receipt [OF assms(3)] by (simp add: empty_disk_def)
  have "rd_receipt (run_op cd ?dk op) \<in> {None, Some (text_of_dict cd (receipt_of_state ?q) @ [newline])}"
  proof -
    obtain es f where r: "read_journal cd (rd_events ?dk) = (Inr (map sort_event es), f)" "records_ok cd 1 es"
      "map (\<lambda>e. get e ''projection'') es = map PDict ps"
      using stands_for_read [OF st ascii] by metis
    have "length es = length ps" using arg_cong [OF r(3), of length] by simp
    from plan_carried [OF r(2) this carried(2) accepted] obtain plan where
      "plan_commit cd (jo_kind op) (jo_state op) (jo_payload op) (jo_time op) (map sort_event es) = Inr plan"
      "pn_receipt plan = (if is_closed ?q then Some (text_of_dict cd (receipt_of_state ?q) @ [newline]) else None)"
      by metis
    then show ?thesis
      using r(1) none by (auto simp: run_op_def commit_projection_def carry_out_def Let_def split: option.split death.split)
  qed
  then have "rd_receipt (run_op cd ?dk op) \<in> {None, Some (text_of_dict cd (receipt_of_state ?q) @ [newline]),
      Some (text_of_dict cd (receipt_of_state (sort_event ?q)) @ [newline])}"
    by blast
  from read_closed [OF next_st ascii q _ valid order this] closing show ?thesis by (simp add: Let_def del: pyeq.simps)
qed

theorem closing_commit_survives_witness:
  "let ops = [\<lparr>jo_death = None, jo_kind = ''run_planned'', jo_state = [(''lifecycle'', PStr ''planned'')],
         jo_payload = [], jo_time = ''t''\<rparr>];
       op = \<lparr>jo_death = Some Appended, jo_kind = ''run_closed'', jo_state = [(''lifecycle'', PStr ''closed'')],
         jo_payload = [], jo_time = ''t''\<rparr>;
       dk = foldl (run_op sample_codec) empty_disk (ops @ [op])
   in fst (read_run sample_codec dk) = Inr [(''event_sequence'', PInt 2), (''lifecycle'', PStr ''closed'')] \<and>
      rd_receipt (snd (read_run sample_codec dk)) \<noteq> None"
proof -
  let ?ops = "[\<lparr>jo_death = None, jo_kind = ''run_planned'', jo_state = [(''lifecycle'', PStr ''planned'')],
         jo_payload = [], jo_time = ''t''\<rparr>]"
  let ?op = "\<lparr>jo_death = Some Appended, jo_kind = ''run_closed'', jo_state = [(''lifecycle'', PStr ''closed'')],
         jo_payload = [], jo_time = ''t''\<rparr>"
  have carried: "list_all (op_carried sample_codec) (?ops @ [?op])"
    by (simp add: op_carried_def carried_def plain_char_def escapes_unicode_def ascii_char_def quote_def backslash_def)
  have before: "durable (cd_valid sample_codec) ?ops =
      Some [[(''lifecycle'', PStr ''planned''), (''event_sequence'', PInt 1)]]"
    by (simp add: durable_def durable_step_def stamp_def accepted_def is_closed_def get_def)
  have "list_all (\<lambda>op. \<not> is_closed (jo_state op)) ?ops" "is_closed (jo_state ?op)"
    by (simp_all add: is_closed_def get_def)
  moreover have "cd_valid sample_codec d" for d by (simp add: sample_codec_def)
  ultimately show ?thesis
    using closing_commit_survives [OF carried sample_ascii _ _ before]
    by (simp add: Let_def stamp_def sort_event_def)
qed

section \<open>Creating a run\<close>

lemma stands_for_request [simp]: "stands_for cd (dk\<lparr>rd_request := r\<rparr>) st = stands_for cd dk st"
  by (cases dk; cases st) (simp_all add: stands_for_def)

lemma run_op_request [simp]: "rd_request (run_op cd dk op) = rd_request dk"
  by (auto simp: run_op_def commit_projection_def carry_out_def Let_def split: prod.split sum.split option.split death.split)

lemma commit_projection_result:
  assumes "stands_for cd dk (Some ps)" and "op_carried cd op" and "ascii_decoder (cd_decode cd)"
    and "accepted (cd_valid cd) (stamp (length ps) (jo_state op))"
  shows "fst (commit_projection cd death (jo_kind op) (jo_state op) (jo_payload op) (jo_time op) dk) =
    Inr (stamp (length ps) (jo_state op))"
proof -
  obtain es f where r: "read_journal cd (rd_events dk) = (Inr (map sort_event es), f)" "records_ok cd 1 es"
    "map (\<lambda>e. get e ''projection'') es = map PDict ps"
    using stands_for_read [OF assms(1, 3)] by metis
  have "length es = length ps" using arg_cong [OF r(3), of length] by simp
  from plan_carried [OF r(2) this assms(2, 4)] obtain plan where
    "plan_commit cd (jo_kind op) (jo_state op) (jo_payload op) (jo_time op) (map sort_event es) = Inr plan"
    "pn_projection plan = stamp (length ps) (jo_state op)"
    by metis
  then show ?thesis using r(1) by (simp add: commit_projection_def)
qed

definition creation :: "pydict \<Rightarrow> string \<Rightarrow> death option \<Rightarrow> journal_op" where
  "creation initial now death =
     \<lparr>jo_death = death, jo_kind = ''run_planned'', jo_state = initial, jo_payload = [], jo_time = now\<rparr>"

lemma read_own_request:
  assumes "carried cd (PDict request)" and "ascii_decoder (cd_decode cd)"
  shows "read_object cd (text_of_dict cd request @ [newline]) = Inr (sort_event request)"
    and "pyeq (PDict (sort_event request)) (PDict request)"
proof -
  show "read_object cd (text_of_dict cd request @ [newline]) = Inr (sort_event request)"
    by (rule carried_read [OF assms])
  have "pyeq (PDict request) (PDict request)"
    using pyeq_refl [OF readable_plain] assms(1) unfolding carried_def by blast
  then show "pyeq (PDict (sort_event request)) (PDict request)"
    using pyeq_sorted [of "PDict request" "PDict request"] by (simp only: sorted_keys_event)
qed

lemma created_disk:
  assumes "carried cd (PDict request)"
  shows "snd (create_run_record cd death request initial now empty_disk) =
    run_op cd (empty_disk\<lparr>rd_request := Some (text_of_dict cd request @ [newline])\<rparr>) (creation initial now death)"
  using carried_bytes [OF assms] by (simp add: create_run_record_def run_op_def creation_def empty_disk_def)

text \<open>
  C19: a run is created once, whatever happens to the call that creates it.  When a call of \<open>create_run\<close> on a fresh
  directory has completed, or has died inside its append or later, a second call with the same request returns the state
  that the first one committed, or commits its own when the first one left none; a call with another request is refused and
  changes nothing.  (Excluded is the death that leaves a record without its newline, which every later read refuses.  The
  initial states are not closed, and what is written are JSON values with finite floats and ASCII texts without the
  characters that JSON writes as \<open>\uXXXX\<close>.)
\<close>

theorem created_once:
  assumes request: "carried cd (PDict request)" and op: "op_carried cd (creation initial now death)"
    and op': "op_carried cd (creation initial' now' None)" and ascii: "ascii_decoder (cd_decode cd)"
    and opens: "\<not> is_closed initial" "\<not> is_closed initial'" and death: "death \<noteq> Some No_newline"
  shows "let dk = snd (create_run_record cd death request initial now empty_disk)
    in fst (create_run_record cd None request initial' now' dk) =
         Inr (case death of Some (Part k) \<Rightarrow> stamp 0 initial' | _ \<Rightarrow> sort_event (stamp 0 initial)) \<and>
       (\<not> pyeq (PDict (sort_event request)) (PDict other) \<longrightarrow>
         create_run_record cd None other initial' now' dk =
           (Inl (RunAlreadyExistsError ''run already exists with a different request''), dk))"
proof -
  let ?start = "empty_disk\<lparr>rd_request := Some (text_of_dict cd request @ [newline])\<rparr>"
  let ?op = "creation initial now death" and ?op' = "creation initial' now' None"
  define dk where "dk = run_op cd ?start ?op"
  define ps where "ps = (case death of Some (Part k) \<Rightarrow> [] | _ \<Rightarrow> [stamp 0 initial])"
  have accepted: "accepted (cd_valid cd) (stamp n initial)" "accepted (cd_valid cd) (stamp n initial')" for n
    using opens by (simp_all add: accepted_def)
  have "durable_step (cd_valid cd) (Some []) ?op = Some ps"
    using death accepted(1) [of 0] by (auto simp: durable_step_def creation_def ps_def split: option.split death.split)
  then have st: "stands_for cd dk (Some ps)"
    using run_op_stands [of cd ?start "Some []", OF _ op ascii] empty_stands unfolding dk_def by simp
  have request_kept: "rd_request dk = Some (text_of_dict cd request @ [newline])" by (simp add: dk_def)
  note read = read_own_request [OF request ascii]
  obtain r dk' where e: "effective_projection cd dk = (r, dk')" by fastforce
  have r: "r = (if ps = [] then Inl (RunNotFoundError ''run state does not exist'') else Inr (sort_event (last ps)))"
    and st': "stands_for cd dk' (Some ps)"
    using effective_stands [OF st ascii] unfolding e by simp_all
  have "fst (create_run_record cd None request initial' now' dk) =
    Inr (case death of Some (Part k) \<Rightarrow> stamp 0 initial' | _ \<Rightarrow> sort_event (stamp 0 initial))"
  proof (cases "ps = []")
    case True
    then have "fst (commit_projection cd None ''run_planned'' initial' [] now' dk') = Inr (stamp 0 initial')"
      using commit_projection_result [OF st' op' ascii] accepted(2) [of 0] by (simp add: creation_def)
    moreover have "\<exists>k. death = Some (Part k)" using True by (auto simp: ps_def split: option.splits death.splits)
    ultimately show ?thesis using request_kept read e r True by (auto simp: create_run_record_def)
  next
    case False
    then have "ps = [stamp 0 initial]" "\<forall>k. death \<noteq> Some (Part k)" by (auto simp: ps_def split: option.splits death.splits)
    then show ?thesis
      using request_kept read e r by (auto simp: create_run_record_def split: option.split death.split)
  qed
  moreover have "\<not> pyeq (PDict (sort_event request)) (PDict other) \<longrightarrow> create_run_record cd None other initial' now' dk =
      (Inl (RunAlreadyExistsError ''run already exists with a different request''), dk)"
    using request_kept read(1) by (auto simp: create_run_record_def simp del: pyeq.simps)
  ultimately show ?thesis unfolding created_disk [OF request] dk_def [symmetric] Let_def by blast
qed

theorem created_once_witness:
  "let request = [(''job'', PStr ''j'')]; initial = [(''lifecycle'', PStr ''planned'')];
     dk = snd (create_run_record sample_codec (Some Appended) request initial ''t'' empty_disk)
   in fst (create_run_record sample_codec None request initial ''u'' dk) =
        Inr [(''event_sequence'', PInt 1), (''lifecycle'', PStr ''planned'')] \<and>
      fst (create_run_record sample_codec None [(''job'', PStr ''k'')] initial ''u'' dk) =
        Inl (RunAlreadyExistsError ''run already exists with a different request'')"
proof -
  let ?initial = "[(''lifecycle'', PStr ''planned'')]"
  have "carried sample_codec (PDict [(''job'', PStr ''j'')])"
    by (simp add: carried_def plain_char_def escapes_unicode_def ascii_char_def quote_def backslash_def)
  moreover have "op_carried sample_codec (creation ?initial ''t'' (Some Appended))"
    "op_carried sample_codec (creation ?initial ''u'' None)"
    by (simp_all add: op_carried_def creation_def carried_def plain_char_def escapes_unicode_def ascii_char_def quote_def
        backslash_def)
  moreover have "\<not> is_closed ?initial" by (simp add: is_closed_def get_def)
  ultimately show ?thesis
    using created_once [of sample_codec "[(''job'', PStr ''j'')]" ?initial "''t''" "Some Appended" ?initial "''u''"
        "[(''job'', PStr ''k'')]"] sample_ascii
    by (simp add: Let_def stamp_def sort_event_def)
qed

end
