(* ===== verification/CloudApi.thy ===== *)
theory CloudApi
  imports Journal Provider
begin

text \<open>
  \<open>runpod_provider.py\<close>, \<open>RunPodHTTP\<close>: the requests to RunPod's REST and GraphQL services, the classification of what
  can go wrong with one, and the reading of the records they answer.  What is on the other side of the network is a
  parameter: an \<open>opener\<close> from a request to any answer, over a world \<open>'w\<close>.  The \<open>pod_api\<close> record is what the provider
  adapter and the remote executor use of the client.
\<close>

section \<open>Effects that may raise\<close>

definition bindW :: "('e + 'a) \<times> 'w \<Rightarrow> ('a \<Rightarrow> 'w \<Rightarrow> ('e + 'b) \<times> 'w) \<Rightarrow> ('e + 'b) \<times> 'w" where
  "bindW m f = (case m of (Inl e, w) \<Rightarrow> (Inl e, w) | (Inr a, w) \<Rightarrow> f a w)"

definition pureW :: "'e + 'a \<Rightarrow> 'w \<Rightarrow> ('e + 'a) \<times> 'w" where
  "pureW r w = (r, w)"

lemma bindW_simps [simp, result_simps]:
  "bindW (Inl e, w) f = (Inl e, w)" "bindW (Inr a, w) f = f a w" "pureW r w = (r, w)"
  by (simp_all add: bindW_def pureW_def)

lemma bindW_eq_Inr [result_simps]:
  "bindW m f = (Inr b, w') \<longleftrightarrow> (\<exists>a w. m = (Inr a, w) \<and> f a w = (Inr b, w'))"
  by (cases m; cases "fst m") auto

lemma bindW_eq_Inl [result_simps]:
  "bindW m f = (Inl e, w') \<longleftrightarrow> m = (Inl e, w') \<or> (\<exists>a w. m = (Inr a, w) \<and> f a w = (Inl e, w'))"
  by (cases m; cases "fst m") auto

section \<open>Exceptions, requests and answers\<close>

text \<open>
  \<open>ProviderProtocolError\<close>, its subclass \<open>RunPodTransportOutcomeUnknown\<close>, \<open>SecurityInvariantError\<close> with its resource,
  and \<open>ValueError\<close>.
\<close>

datatype cloud_exn =
    Cloud_protocol string
  | Cloud_unknown string
  | Cloud_security string "string option"
  | Cloud_value string

text \<open>
  A request: its payload is sent as its JSON text, its authorization as a header; the headers that every request has
  are left out.
\<close>

record http_request =
  hr_method :: string
  hr_url :: string
  hr_payload :: "pydict option"
  hr_authorization :: "string option"

text \<open>
  What comes back: a body, an HTTP error with the first 65,537 bytes of its body (\<open>None\<close> when reading them fails), or
  the class of the \<open>OSError\<close> (\<open>URLError\<close>, \<open>TimeoutError\<close>) when nothing does.
\<close>

datatype http_answer = Http_body string | Http_error int "string option" | Http_failed string

type_synonym 'w opener = "http_request \<Rightarrow> 'w \<Rightarrow> http_answer \<times> 'w"

text \<open>
  A client: the key, and the decoding of bytes by \<open>json.loads\<close> and the reading and writing of floats, which are the
  library's.
\<close>

record client =
  cl_key :: string
  cl_decode :: decoder
  cl_float :: "string \<Rightarrow> pyfloat"
  cl_repr :: "pyfloat \<Rightarrow> string"

definition new_client :: "string \<Rightarrow> decoder \<Rightarrow> (string \<Rightarrow> pyfloat) \<Rightarrow> (pyfloat \<Rightarrow> string) \<Rightarrow> cloud_exn + client" where
  "new_client key decode fl rep =
     (if key = [] then Inl (Cloud_value ''RunPod API key is required'')
      else Inr \<lparr>cl_key = key, cl_decode = decode, cl_float = fl, cl_repr = rep\<rparr>)"

definition json_of :: "client \<Rightarrow> string \<Rightarrow> pyval option" where
  "json_of cl raw =
     (case cl_decode cl raw of
        Decoded t \<Rightarrow> (case loads (cl_float cl) t of Inl _ \<Rightarrow> None | Inr v \<Rightarrow> Some v)
      | _ \<Rightarrow> None)"

text \<open>One item of a GraphQL error list.\<close>

definition validation_failure :: "pyval \<Rightarrow> bool" where
  "validation_failure v =
     (case as_dict v of None \<Rightarrow> False
      | Some d \<Rightarrow> (case as_dict (get d ''extensions'') of None \<Rightarrow> False
         | Some e \<Rightarrow> pyeq (get e ''code'') (PStr ''GRAPHQL_VALIDATION_FAILED'')))"

definition graphql_http_error_suffix :: "client \<Rightarrow> string \<Rightarrow> string" where
  "graphql_http_error_suffix cl raw =
     (if raw = [] \<or> 65536 < length raw then []
      else (case json_of cl raw of None \<Rightarrow> []
        | Some v \<Rightarrow> (case as_dict v of None \<Rightarrow> []
            | Some d \<Rightarrow> (case as_list (get d ''errors'') of None \<Rightarrow> []
                | Some items \<Rightarrow>
                    if list_ex validation_failure items then '' (GraphQL validation failed)'' else []))))"

definition json_request ::
  "client \<Rightarrow> 'w opener \<Rightarrow> string \<Rightarrow> string \<Rightarrow> pydict option \<Rightarrow> bool \<Rightarrow> bool \<Rightarrow> 'w \<Rightarrow> (cloud_exn + pyval) \<times> 'w" where
  "json_request cl op method url payload allow_not_found authorize w =
     (case op \<lparr>hr_method = method, hr_url = url, hr_payload = payload,
               hr_authorization = (if authorize then Some (''Bearer '' @ cl_key cl) else None)\<rparr> w of
        (Http_failed kind, w') \<Rightarrow> (Inl (Cloud_unknown (''RunPod transport outcome unknown ('' @ kind @ '')'')), w')
      | (Http_error code body, w') \<Rightarrow>
          if allow_not_found \<and> code = 404 then (Inr PNone, w')
          else (Inl (Cloud_protocol (''RunPod HTTP error '' @ show_int code @
                  (if authorize then []
                   else (case body of None \<Rightarrow> [] | Some raw \<Rightarrow> graphql_http_error_suffix cl raw)))), w')
      | (Http_body raw, w') \<Rightarrow>
          (if raw = [] then Inr (PDict [])
           else (case json_of cl raw of
                   None \<Rightarrow> Inl (Cloud_protocol ''RunPod returned invalid JSON'')
                 | Some v \<Rightarrow> Inr v), w'))"

text \<open>\<open>urlencode\<close> of one pair: UTF-8 bytes outside the unreserved ones are escaped, a blank is a plus.\<close>

definition url_safe :: "char \<Rightarrow> bool" where
  "url_safe c \<longleftrightarrow> is_alnum c \<or> c \<in> set ''_.-~''"

definition upper_hex :: "nat \<Rightarrow> char" where
  "upper_hex n = (if n < 10 then digit_char n else char_of (n + 55))"

definition quote_byte :: "char \<Rightarrow> string" where
  "quote_byte c =
     (if url_safe c then [c] else if c = CHR '' '' then ''+''
      else CHR ''%'' # [upper_hex (of_char c div 16), upper_hex (of_char c mod 16)])"

definition urlencode :: "string \<Rightarrow> string \<Rightarrow> string" where
  "urlencode k v = concat (map quote_byte (utf8 k)) @ CHR ''='' # concat (map quote_byte (utf8 v))"

definition graphql_url :: string where
  "graphql_url = ''https://api.runpod.io/graphql''"

definition rest_pods_url :: string where
  "rest_pods_url = ''https://rest.runpod.io/v1/pods''"

definition pod_url :: "string \<Rightarrow> string" where
  "pod_url pod_id = rest_pods_url @ CHR ''/'' # pod_id"

definition with_network_volume :: "string \<Rightarrow> string" where
  "with_network_volume url = url @ CHR ''?'' # urlencode ''includeNetworkVolume'' ''true''"

definition graphql_data :: "pyval \<Rightarrow> cloud_exn + pydict" where
  "graphql_data raw =
     (case as_dict raw of
        None \<Rightarrow> Inl (Cloud_protocol ''RunPod GraphQL response was not an object'')
      | Some response \<Rightarrow>
          bindR (if get response ''errors'' = PNone then Inr []
                 else (case as_list (get response ''errors'') of
                         None \<Rightarrow> Inl (Cloud_protocol ''RunPod GraphQL errors field was malformed'')
                       | Some errors \<Rightarrow> Inr errors)) (\<lambda>errors.
            if errors \<noteq> [] then Inl (Cloud_protocol ''RunPod GraphQL request failed'')
            else (case as_dict (get response ''data'') of
                    None \<Rightarrow> Inl (Cloud_protocol ''RunPod GraphQL response had no data'')
                  | Some d \<Rightarrow> Inr d)))"

definition graphql :: "client \<Rightarrow> 'w opener \<Rightarrow> string \<Rightarrow> pydict \<Rightarrow> 'w \<Rightarrow> (cloud_exn + pydict) \<times> 'w" where
  "graphql cl op query variables w =
     bindW (json_request cl op ''POST'' (graphql_url @ CHR ''?'' # urlencode ''api_key'' (cl_key cl))
              (Some [(''query'', PStr query), (''variables'', PDict variables)]) False False w)
       (\<lambda>raw. pureW (graphql_data raw))"

section \<open>Reading a pod\<close>

record pod_observation =
  po_id :: string
  po_name :: string
  po_desired_status :: "string option"
  po_cost_per_hour :: "decimal option"
  po_volume_encrypted :: "bool option"
  po_network_volume_id :: "string option"
  po_image :: "string option"
  po_public_ip :: "string option"
  po_port_mappings :: "pydict option"
  po_environment :: "string dict option"

text \<open>\<open>Decimal(str(v))\<close>: the texts of a boolean, of \<open>None\<close> and of a container are not decimals.\<close>

fun decimal_of_value :: "(pyfloat \<Rightarrow> string) \<Rightarrow> pyval \<Rightarrow> decimal option" where
  "decimal_of_value rep (PStr s) = dec_of_string s"
| "decimal_of_value rep (PInt i) = dec_of_string (show_int i)"
| "decimal_of_value rep (PFloat f) = dec_of_string (rep f)"
| "decimal_of_value rep (PDec d) = Some d"
| "decimal_of_value rep _ = None"

definition finite_money :: "decimal \<Rightarrow> bool" where
  "finite_money d \<longleftrightarrow> is_finite d \<and> \<not> dec_lt d dec_zero"

definition parse_cost :: "(pyfloat \<Rightarrow> string) \<Rightarrow> pyval \<Rightarrow> cloud_exn + decimal option" where
  "parse_cost rep v =
     (if v = PNone then Inr None
      else (case decimal_of_value rep v of
              None \<Rightarrow> Inl (Cloud_protocol ''RunPod pod record has an invalid hourly rate'')
            | Some d \<Rightarrow>
                if finite_money d then Inr (Some d)
                else Inl (Cloud_protocol ''RunPod pod record has an invalid hourly rate'')))"

definition parse_network_volume_id :: "pyval \<Rightarrow> cloud_exn + string option" where
  "parse_network_volume_id v =
     (if v = PNone then Inr None
      else (case as_dict v of
              None \<Rightarrow> Inl (Cloud_protocol ''RunPod pod record has malformed network volume data'')
            | Some d \<Rightarrow>
                (case as_str (get d ''id'') of
                   None \<Rightarrow> Inl (Cloud_protocol ''RunPod pod record lacks network volume identity'')
                 | Some i \<Rightarrow>
                     if i = [] then Inl (Cloud_protocol ''RunPod pod record lacks network volume identity'')
                     else Inr (Some i))))"

definition environment_item :: "string dict \<Rightarrow> pyval \<Rightarrow> string dict" where
  "environment_item env v =
     (case as_dict v of None \<Rightarrow> env
      | Some d \<Rightarrow> (case (as_str (get d ''key''), as_str (get d ''value'')) of
           (Some k, Some x) \<Rightarrow> dput k x env
         | _ \<Rightarrow> env))"

definition string_items :: "pydict \<Rightarrow> string dict" where
  "string_items d = List.map_filter (\<lambda>(k, v). map_option (Pair k) (as_str v)) d"

fun parse_environment :: "pyval \<Rightarrow> string dict option" where
  "parse_environment (PDict d) = Some (string_items d)"
| "parse_environment (PList vs) = Some (foldl environment_item [] vs)"
| "parse_environment _ = None"

definition parse_pod :: "(pyfloat \<Rightarrow> string) \<Rightarrow> pydict \<Rightarrow> cloud_exn + pod_observation" where
  "parse_pod rep raw =
     (case (as_str (get raw ''id''), as_str (get raw ''name'')) of
        (Some pod_id, Some name) \<Rightarrow>
          bindR (parse_cost rep (get raw ''costPerHr'')) (\<lambda>cost.
          bindR (parse_network_volume_id (get raw ''networkVolume'')) (\<lambda>volume.
            Inr \<lparr>po_id = pod_id, po_name = name, po_desired_status = as_str (get raw ''desiredStatus''),
                 po_cost_per_hour = cost, po_volume_encrypted = as_bool (get raw ''volumeEncrypted''),
                 po_network_volume_id = volume,
                 po_image = as_str (get_or raw ''imageName'' (get raw ''image'')),
                 po_public_ip = as_str (get raw ''publicIp''),
                 po_port_mappings = as_dict (get raw ''portMappings''),
                 po_environment = parse_environment (get raw ''env'')\<rparr>))
      | _ \<Rightarrow> Inl (Cloud_protocol ''RunPod pod record lacks string id/name''))"

text \<open>A record where the service answers something else.\<close>

definition pod_of :: "client \<Rightarrow> string \<Rightarrow> pyval \<Rightarrow> cloud_exn + pod_observation" where
  "pod_of cl message v =
     (case as_dict v of None \<Rightarrow> Inl (Cloud_protocol message) | Some d \<Rightarrow> parse_pod (cl_repr cl) d)"

section \<open>Creating a pod\<close>

record create_pod_request =
  pc_name :: string
  pc_image :: string
  pc_gpu_type_id :: string
  pc_gpu_count :: int
  pc_container_disk_gb :: int
  pc_volume_gb :: "int option"
  pc_volume_mount_path :: string
  pc_ports :: "string list"
  pc_environment :: "string dict"
  pc_terminate_at :: string
  pc_network_volume_id :: "string option"
  pc_cloud_type :: string

definition create_query :: string where
  "create_query = concat (map (\<lambda>l. newline # l)
     [''          mutation CreatePod($input: PodFindAndDeployOnDemandInput!) {'',
      ''            podFindAndDeployOnDemand(input: $input) {'',
      ''              id name imageName desiredStatus costPerHr volumeEncrypted env'',
      ''              volumeInGb volumeMountPath'',
      ''              networkVolume { id }'',
      ''              machine { dataCenterId secureCloud gpuTypeId currentPricePerGpu }'',
      ''            }'',
      ''          }'',
      ''        ''])"

definition create_input :: "create_pod_request \<Rightarrow> pydict \<Rightarrow> pydict" where
  "create_input request storage =
     foldl (\<lambda>d (k, v). dput k v d)
       [(''name'', PStr (pc_name request)), (''imageName'', PStr (pc_image request)),
        (''gpuTypeId'', PStr (pc_gpu_type_id request)), (''gpuCount'', PInt (pc_gpu_count request)),
        (''cloudType'', PStr (pc_cloud_type request)),
        (''containerDiskInGb'', PInt (pc_container_disk_gb request)),
        (''volumeMountPath'', PStr (pc_volume_mount_path request)),
        (''ports'', PStr (join (CHR '','') (pc_ports request))),
        (''startSsh'', PBool True), (''startJupyter'', PBool False),
        (''terminateAfter'', PStr (pc_terminate_at request)),
        (''env'', PList (map (\<lambda>(k, v). PDict [(''key'', PStr k), (''value'', PStr v)])
                      (sort_key fst (pc_environment request))))] storage"

definition create_pod ::
  "client \<Rightarrow> 'w opener \<Rightarrow> create_pod_request \<Rightarrow> pydict \<Rightarrow> 'w \<Rightarrow> (cloud_exn + pod_observation) \<times> 'w" where
  "create_pod cl op request storage w =
     (case bindW (graphql cl op create_query [(''input'', PDict (create_input request storage))] w) (\<lambda>result.
             pureW (pod_of cl ''RunPod create returned no pod'' (get result ''podFindAndDeployOnDemand''))) of
        (Inl (Cloud_protocol m), w') \<Rightarrow> (Inl (Cloud_unknown (''RunPod create outcome unknown: '' @ m)), w')
      | out \<Rightarrow> out)"

definition delete_pod :: "client \<Rightarrow> 'w opener \<Rightarrow> string \<Rightarrow> 'w \<Rightarrow> (cloud_exn + bool) \<times> 'w" where
  "delete_pod cl op pod_id w =
     bindW (json_request cl op ''DELETE'' (pod_url pod_id) None True True w) (\<lambda>response.
       pureW (Inr (response \<noteq> PNone)))"

definition reject_created_pod ::
  "client \<Rightarrow> 'w opener \<Rightarrow> string \<Rightarrow> string \<Rightarrow> 'w \<Rightarrow> (cloud_exn + 'a) \<times> 'w" where
  "reject_created_pod cl op pod_id message w =
     (let rejected = (\<lambda>suffix. Inl (Cloud_security (message @ ''; deletion requested'' @ suffix) (Some pod_id)))
      in case delete_pod cl op pod_id w of
           (Inl (Cloud_protocol m), w') \<Rightarrow> (rejected (''; cleanup also failed: '' @ m), w')
         | (Inl (Cloud_unknown m), w') \<Rightarrow> (rejected (''; cleanup also failed: '' @ m), w')
         | (Inl e, w') \<Rightarrow> (Inl e, w')
         | (Inr _, w') \<Rightarrow> (rejected [], w'))"

definition volume_key_ok :: "string \<Rightarrow> bool" where
  "volume_key_ok s \<longleftrightarrow> 1 \<le> length s \<and> length s \<le> 30 \<and> list_all is_alnum s"

definition create_encrypted_pod ::
  "client \<Rightarrow> 'w opener \<Rightarrow> create_pod_request \<Rightarrow> string \<Rightarrow> 'w \<Rightarrow> (cloud_exn + pod_observation) \<times> 'w" where
  "create_encrypted_pod cl op request volume_key w =
     (if \<not> volume_key_ok volume_key
      then (Inl (Cloud_value ''volume key must be 1-30 alphanumeric characters''), w)
      else case pc_volume_gb request of
        None \<Rightarrow> (Inl (Cloud_value ''encrypted pod storage requires a positive volume size''), w)
      | Some gb \<Rightarrow>
          if gb \<le> 0 then (Inl (Cloud_value ''encrypted pod storage requires a positive volume size''), w)
          else if pc_network_volume_id request \<noteq> None
          then (Inl (Cloud_value ''encrypted pod storage cannot attach a network volume''), w)
          else if pc_cloud_type request \<noteq> ''SECURE''
          then (Inl (Cloud_security ''encrypted jobs require Secure Cloud'' None), w)
          else bindW (create_pod cl op request [(''volumeInGb'', PInt gb), (''volumeKey'', PStr volume_key)] w) (\<lambda>pod w'.
            if po_volume_encrypted pod \<noteq> Some True
            then reject_created_pod cl op (po_id pod) ''RunPod created an unencrypted pod'' w'
            else (Inr pod, w')))"

text \<open>A network volume id: not blank, without the characters that end a header or a line.\<close>

definition volume_id_ok :: "string \<Rightarrow> bool" where
  "volume_id_ok s \<longleftrightarrow> strip s \<noteq> [] \<and> list_all (\<lambda>c. (of_char c :: nat) \<notin> {0, 10, 13}) s"

definition create_network_volume_pod ::
  "client \<Rightarrow> 'w opener \<Rightarrow> create_pod_request \<Rightarrow> 'w \<Rightarrow> (cloud_exn + pod_observation) \<times> 'w" where
  "create_network_volume_pod cl op request w =
     (case pc_network_volume_id request of
        None \<Rightarrow> (Inl (Cloud_value ''network volume ID must be a non-empty provider ID''), w)
      | Some volume \<Rightarrow>
          if \<not> volume_id_ok volume
          then (Inl (Cloud_value ''network volume ID must be a non-empty provider ID''), w)
          else if pc_volume_gb request \<noteq> None
          then (Inl (Cloud_value ''a network-volume pod must not request a pod volume disk''), w)
          else if pc_cloud_type request \<noteq> ''SECURE''
          then (Inl (Cloud_security ''network volumes require Secure Cloud'' None), w)
          else bindW (create_pod cl op request [(''networkVolumeId'', PStr volume)] w) (\<lambda>pod w'.
            if po_network_volume_id pod \<noteq> Some volume
            then reject_created_pod cl op (po_id pod) ''RunPod did not prove the requested network volume attachment'' w'
            else (Inr pod, w')))"

section \<open>Reading, starting and spending\<close>

definition list_pods :: "client \<Rightarrow> 'w opener \<Rightarrow> 'w \<Rightarrow> (cloud_exn + pod_observation list) \<times> 'w" where
  "list_pods cl op w =
     bindW (json_request cl op ''GET'' (with_network_volume rest_pods_url) None False True w) (\<lambda>raw.
       pureW (case as_list raw of
                None \<Rightarrow> Inl (Cloud_protocol ''RunPod pod list was not an array'')
              | Some vs \<Rightarrow> mapR (pod_of cl ''RunPod pod list item was not an object'') vs))"

definition find_pods_by_exact_name ::
  "client \<Rightarrow> 'w opener \<Rightarrow> string \<Rightarrow> 'w \<Rightarrow> (cloud_exn + pod_observation list) \<times> 'w" where
  "find_pods_by_exact_name cl op name w =
     bindW (list_pods cl op w) (\<lambda>pods. pureW (Inr (filter (\<lambda>pod. po_name pod = name) pods)))"

definition get_pod :: "client \<Rightarrow> 'w opener \<Rightarrow> string \<Rightarrow> 'w \<Rightarrow> (cloud_exn + pod_observation option) \<times> 'w" where
  "get_pod cl op pod_id w =
     bindW (json_request cl op ''GET'' (with_network_volume (pod_url pod_id)) None True True w) (\<lambda>raw.
       pureW (if raw = PNone then Inr None
              else bindR (pod_of cl ''RunPod pod response was not an object'' raw) (\<lambda>pod. Inr (Some pod))))"

definition start_pod :: "client \<Rightarrow> 'w opener \<Rightarrow> string \<Rightarrow> 'w \<Rightarrow> (cloud_exn + pod_observation) \<times> 'w" where
  "start_pod cl op pod_id w =
     bindW (json_request cl op ''POST'' (pod_url pod_id @ ''/start'') (Some []) False True w) (\<lambda>raw.
       pureW (pod_of cl ''RunPod start response was not an object'' raw))"

definition spend_value :: "(pyfloat \<Rightarrow> string) \<Rightarrow> pydict \<Rightarrow> cloud_exn + decimal" where
  "spend_value rep data =
     (let malformed = Inl (Cloud_protocol ''RunPod spend response was malformed'') in
      case as_dict (get data ''myself'') of
        None \<Rightarrow> malformed
      | Some myself \<Rightarrow>
          (case dget myself ''currentSpendPerHr'' of
             None \<Rightarrow> malformed
           | Some v \<Rightarrow>
               (case decimal_of_value rep v of
                  None \<Rightarrow> malformed
                | Some d \<Rightarrow> if finite_money d then Inr d else malformed)))"

definition current_spend_per_hour :: "client \<Rightarrow> 'w opener \<Rightarrow> 'w \<Rightarrow> (cloud_exn + decimal) \<times> 'w" where
  "current_spend_per_hour cl op w =
     bindW (graphql cl op ''query CurrentSpend { myself { currentSpendPerHr } }'' [] w)
       (\<lambda>data. pureW (spend_value (cl_repr cl) data))"

text \<open>\<open>class _RunPodAPI(Protocol)\<close>, and the client as one.\<close>

record 'w pod_api =
  a_create_encrypted :: "create_pod_request \<Rightarrow> string \<Rightarrow> 'w \<Rightarrow> (cloud_exn + pod_observation) \<times> 'w"
  a_create_network :: "create_pod_request \<Rightarrow> 'w \<Rightarrow> (cloud_exn + pod_observation) \<times> 'w"
  a_list :: "'w \<Rightarrow> (cloud_exn + pod_observation list) \<times> 'w"
  a_get :: "string \<Rightarrow> 'w \<Rightarrow> (cloud_exn + pod_observation option) \<times> 'w"
  a_start :: "string \<Rightarrow> 'w \<Rightarrow> (cloud_exn + pod_observation) \<times> 'w"
  a_delete :: "string \<Rightarrow> 'w \<Rightarrow> (cloud_exn + bool) \<times> 'w"
  a_spend :: "'w \<Rightarrow> (cloud_exn + decimal) \<times> 'w"

definition runpod_http :: "client \<Rightarrow> 'w opener \<Rightarrow> 'w pod_api" where
  "runpod_http cl op = \<lparr>a_create_encrypted = create_encrypted_pod cl op,
     a_create_network = create_network_volume_pod cl op, a_list = list_pods cl op, a_get = get_pod cl op,
     a_start = start_pod cl op, a_delete = delete_pod cl op, a_spend = current_spend_per_hour cl op\<rparr>"

section \<open>What the client promises the adapter\<close>

text \<open>
  An observation is well formed: its rate is a finite, non-negative amount and its network volume is named.
\<close>

definition observation_ok :: "pod_observation \<Rightarrow> bool" where
  "observation_ok pod \<longleftrightarrow>
     (case po_cost_per_hour pod of None \<Rightarrow> True | Some d \<Rightarrow> finite_money d) \<and> po_network_volume_id pod \<noteq> Some []"

text \<open>
  The contract of the calls: what they return is well formed, no call but a create raises a security error, a create
  never fails with a plain protocol error, and a security error that names a pod comes after a deletion of that pod.
\<close>

definition protocol_failure :: "cloud_exn \<Rightarrow> bool" where
  "protocol_failure e = (case e of Cloud_protocol _ \<Rightarrow> True | Cloud_unknown _ \<Rightarrow> True | _ \<Rightarrow> False)"

locale pod_service =
  fixes api :: "'w pod_api"
  assumes list_ok: "a_list api w = (Inr pods, w') \<Longrightarrow> list_all observation_ok pods"
    and get_ok: "a_get api i w = (Inr (Some pod), w') \<Longrightarrow> observation_ok pod"
    and start_ok: "a_start api i w = (Inr pod, w') \<Longrightarrow> observation_ok pod"
    and encrypted_ok: "a_create_encrypted api q k w = (Inr pod, w') \<Longrightarrow>
      observation_ok pod \<and> po_volume_encrypted pod = Some True"
    and network_ok: "a_create_network api q w = (Inr pod, w') \<Longrightarrow>
      observation_ok pod \<and> po_network_volume_id pod = pc_network_volume_id q"
    and spend_ok: "a_spend api w = (Inr d, w') \<Longrightarrow> finite_money d"
    and delete_fails: "a_delete api i w = (Inl e, w') \<Longrightarrow> protocol_failure e"
    and list_fails: "a_list api w = (Inl e, w') \<Longrightarrow> protocol_failure e"
    and get_fails: "a_get api i w = (Inl e, w') \<Longrightarrow> protocol_failure e"
    and start_fails: "a_start api i w = (Inl e, w') \<Longrightarrow> protocol_failure e"
    and spend_fails: "a_spend api w = (Inl e, w') \<Longrightarrow> protocol_failure e"
    and encrypted_fails: "a_create_encrypted api q k w = (Inl e, w') \<Longrightarrow>
      (\<exists>m. e = Cloud_unknown m) \<or> (\<exists>m. e \<in> {Cloud_value m, Cloud_security m None} \<and> w' = w) \<or>
      (\<exists>m i v r. e = Cloud_security m (Some i) \<and> a_delete api i v = (r, w'))"
    and network_fails: "a_create_network api q w = (Inl e, w') \<Longrightarrow>
      (\<exists>m. e = Cloud_unknown m) \<or> (\<exists>m. e \<in> {Cloud_value m, Cloud_security m None} \<and> w' = w) \<or>
      (\<exists>m i v r. e = Cloud_security m (Some i) \<and> a_delete api i v = (r, w'))"
begin

end

section \<open>The client keeps the contract\<close>

lemma parse_pod_ok: "parse_pod rep raw = Inr pod \<Longrightarrow> observation_ok pod"
  by (auto simp: parse_pod_def parse_cost_def parse_network_volume_id_def observation_ok_def
      split: option.splits if_splits)

lemma pod_of_ok: "pod_of cl m v = Inr pod \<Longrightarrow> observation_ok pod"
  by (auto simp: pod_of_def parse_pod_ok split: option.splits)

lemma parse_pod_fails: "parse_pod rep raw = Inl e \<Longrightarrow> \<exists>m. e = Cloud_protocol m"
  by (auto simp: parse_pod_def parse_cost_def parse_network_volume_id_def bindR_eq_Inl split: option.splits if_splits)

lemma pod_of_fails: "pod_of cl m v = Inl e \<Longrightarrow> \<exists>m. e = Cloud_protocol m"
  by (auto simp: pod_of_def parse_pod_fails split: option.splits)

lemma json_request_fails:
  "json_request cl op method url payload b b' w = (Inl e, w') \<Longrightarrow> protocol_failure e"
  by (auto simp: json_request_def protocol_failure_def split: prod.splits http_answer.splits if_splits option.splits)

lemma graphql_data_fails: "graphql_data raw = Inl e \<Longrightarrow> \<exists>m. e = Cloud_protocol m"
  by (auto simp: graphql_data_def bindR_eq_Inl split: option.splits if_splits)

lemma graphql_fails: "graphql cl op q vs w = (Inl e, w') \<Longrightarrow> protocol_failure e"
  by (auto simp: graphql_def bindW_eq_Inl dest: json_request_fails graphql_data_fails)
    (auto simp: protocol_failure_def dest: graphql_data_fails)

lemma delete_pod_fails: "delete_pod cl op i w = (Inl e, w') \<Longrightarrow> protocol_failure e"
  by (auto simp: delete_pod_def bindW_eq_Inl dest: json_request_fails)

lemma mapR_fails: "mapR f xs = Inl e \<Longrightarrow> \<exists>x \<in> set xs. f x = Inl e"
  by (induction xs) (auto simp: bindR_eq_Inl)

lemma spend_value_result:
  "spend_value rep data = Inr d \<Longrightarrow> finite_money d"
  "spend_value rep data = Inl e \<Longrightarrow> \<exists>m. e = Cloud_protocol m"
  by (auto simp: spend_value_def Let_def split: option.splits if_splits)

lemma create_pod_result:
  "create_pod cl op q storage w = (Inr pod, w') \<Longrightarrow> observation_ok pod"
  "create_pod cl op q storage w = (Inl e, w') \<Longrightarrow> \<exists>m. e = Cloud_unknown m"
proof -
  let ?m = "bindW (graphql cl op create_query [(''input'', PDict (create_input q storage))] w) (\<lambda>result.
    pureW (pod_of cl ''RunPod create returned no pod'' (get result ''podFindAndDeployOnDemand'')))"
  have ok: "?m = (Inr pod, v) \<Longrightarrow> observation_ok pod" for v pod
    using pod_of_ok by (auto simp: bindW_eq_Inr)
  have fails: "?m = (Inl e', v) \<Longrightarrow> protocol_failure e'" for e' v
    using graphql_fails pod_of_fails by (fastforce simp: bindW_eq_Inl protocol_failure_def)
  show "create_pod cl op q storage w = (Inr pod, w') \<Longrightarrow> observation_ok pod"
    using ok unfolding create_pod_def by (auto split: prod.splits sum.splits cloud_exn.splits)
  show "create_pod cl op q storage w = (Inl e, w') \<Longrightarrow> \<exists>m. e = Cloud_unknown m"
    using fails unfolding create_pod_def
    by (fastforce simp: protocol_failure_def split: prod.splits sum.splits cloud_exn.splits)
qed

lemma reject_created_pod_result:
  "reject_created_pod cl op i m w = (r, w') \<Longrightarrow>
     \<exists>m' d. r = Inl (Cloud_security m' (Some i)) \<and> delete_pod cl op i w = (d, w')"
  using delete_pod_fails [of cl op i w]
  by (fastforce simp: reject_created_pod_def Let_def protocol_failure_def
      split: prod.splits sum.splits cloud_exn.splits)

interpretation http: pod_service "runpod_http cl op" for cl :: client and op :: "'w opener"
proof
  show "\<And>w pods w'. a_list (runpod_http cl op) w = (Inr pods, w') \<Longrightarrow> list_all observation_ok pods"
    by (auto simp: runpod_http_def list_pods_def bindW_eq_Inr mapR_Inr_iff list_all_length list_all2_conv_all_nth
        split: option.splits) (metis pod_of_ok)
  show "\<And>i w pod w'. a_get (runpod_http cl op) i w = (Inr (Some pod), w') \<Longrightarrow> observation_ok pod"
    by (auto simp: runpod_http_def get_pod_def bindW_eq_Inr pod_of_ok split: if_splits)
  show "\<And>i w pod w'. a_start (runpod_http cl op) i w = (Inr pod, w') \<Longrightarrow> observation_ok pod"
    by (auto simp: runpod_http_def start_pod_def bindW_eq_Inr pod_of_ok)
  show "\<And>w d w'. a_spend (runpod_http cl op) w = (Inr d, w') \<Longrightarrow> finite_money d"
    by (auto simp: runpod_http_def current_spend_per_hour_def bindW_eq_Inr spend_value_result)
  show "\<And>i w e w'. a_delete (runpod_http cl op) i w = (Inl e, w') \<Longrightarrow> protocol_failure e"
    by (simp add: runpod_http_def delete_pod_fails)
  show "\<And>w e w'. a_list (runpod_http cl op) w = (Inl e, w') \<Longrightarrow> protocol_failure e"
    by (auto simp: runpod_http_def list_pods_def bindW_eq_Inl dest: json_request_fails split: option.splits)
      (auto simp: protocol_failure_def dest!: mapR_fails pod_of_fails)
  show "\<And>i w e w'. a_get (runpod_http cl op) i w = (Inl e, w') \<Longrightarrow> protocol_failure e"
    by (auto simp: runpod_http_def get_pod_def bindW_eq_Inl bindR_eq_Inl dest: json_request_fails split: if_splits)
      (auto simp: protocol_failure_def dest!: pod_of_fails)
  show "\<And>i w e w'. a_start (runpod_http cl op) i w = (Inl e, w') \<Longrightarrow> protocol_failure e"
    by (auto simp: runpod_http_def start_pod_def bindW_eq_Inl dest: json_request_fails)
      (auto simp: protocol_failure_def dest!: pod_of_fails)
  show "\<And>w e w'. a_spend (runpod_http cl op) w = (Inl e, w') \<Longrightarrow> protocol_failure e"
    by (auto simp: runpod_http_def current_spend_per_hour_def bindW_eq_Inl dest: graphql_fails)
      (auto simp: protocol_failure_def dest: spend_value_result(2))
  show "\<And>q k w pod w'. a_create_encrypted (runpod_http cl op) q k w = (Inr pod, w') \<Longrightarrow>
      observation_ok pod \<and> po_volume_encrypted pod = Some True"
    by (auto simp: runpod_http_def create_encrypted_pod_def bindW_eq_Inr dest: create_pod_result(1)
        reject_created_pod_result split: option.splits if_splits)
  show "\<And>q w pod w'. a_create_network (runpod_http cl op) q w = (Inr pod, w') \<Longrightarrow>
      observation_ok pod \<and> po_network_volume_id pod = pc_network_volume_id q"
    by (auto simp: runpod_http_def create_network_volume_pod_def bindW_eq_Inr dest: create_pod_result(1)
        reject_created_pod_result split: option.splits if_splits)
  show "\<And>q k w e w'. a_create_encrypted (runpod_http cl op) q k w = (Inl e, w') \<Longrightarrow>
      (\<exists>m. e = Cloud_unknown m) \<or> (\<exists>m. e \<in> {Cloud_value m, Cloud_security m None} \<and> w' = w) \<or>
      (\<exists>m i v r. e = Cloud_security m (Some i) \<and> a_delete (runpod_http cl op) i v = (r, w'))"
    by (fastforce simp: runpod_http_def create_encrypted_pod_def bindW_eq_Inl dest: create_pod_result(2)
        reject_created_pod_result split: option.splits if_splits)
  show "\<And>q w e w'. a_create_network (runpod_http cl op) q w = (Inl e, w') \<Longrightarrow>
      (\<exists>m. e = Cloud_unknown m) \<or> (\<exists>m. e \<in> {Cloud_value m, Cloud_security m None} \<and> w' = w) \<or>
      (\<exists>m i v r. e = Cloud_security m (Some i) \<and> a_delete (runpod_http cl op) i v = (r, w'))"
    by (fastforce simp: runpod_http_def create_network_volume_pod_def bindW_eq_Inl dest: create_pod_result(2)
        reject_created_pod_result split: option.splits if_splits)
qed

end
