(* ===== verification/CloudProvider.thy ===== *)
theory CloudProvider
  imports CloudApi
begin

text \<open>
  \<open>runpod_provider.py\<close>, \<open>RunPodProvider\<close>: the provider of the lifecycle over the narrow HTTP client.  What was admitted
  for a create operation (its rate, image, storage, names) is on disk before the pod is created, and every pod that is
  observed afterwards is checked against it.  The directory \<open>secrets_root\<close> is a dictionary from operation ids, which
  are names of one directory, to the texts of their policy files; every operation of the adapter works on it and on the
  world of the client.  A policy file is written in one step.
\<close>

section \<open>Policy files\<close>

type_synonym policies = "string dict dict"
type_synonym 'w site = "'w \<times> policies"

definition policy_file :: "policies \<Rightarrow> string \<Rightarrow> string \<Rightarrow> string option" where
  "policy_file ps op name = (case dget ps op of None \<Rightarrow> None | Some d \<Rightarrow> dget d name)"

definition put_policy :: "string \<Rightarrow> string \<Rightarrow> string \<Rightarrow> policies \<Rightarrow> policies" where
  "put_policy op name data ps =
     dput op (dput name data (case dget ps op of None \<Rightarrow> [] | Some d \<Rightarrow> d)) ps"

definition read_operation_text :: "policies \<Rightarrow> string \<Rightarrow> string \<Rightarrow> provider_exn + string" where
  "read_operation_text ps op name =
     (case policy_file ps op name of
        None \<Rightarrow> Inl (ProtocolError (''durable operation policy '' @ name @ '' is unavailable''))
      | Some data \<Rightarrow>
          if strip data = [] then Inl (ProtocolError (''durable operation policy '' @ name @ '' is empty''))
          else Inr (strip data))"

definition carriage_return :: char where
  "carriage_return = CHR 0x0D"

definition persist_operation_text :: "string \<Rightarrow> string \<Rightarrow> string \<Rightarrow> policies \<Rightarrow> provider_exn + policies" where
  "persist_operation_text op name v ps =
     (if v = [] \<or> newline \<in> set v \<or> carriage_return \<in> set v
      then Inl (ProtocolError (''operation policy '' @ name @ '' is invalid''))
      else case policy_file ps op name of
        None \<Rightarrow> Inr (put_policy op name (v @ [newline]) ps)
      | Some _ \<Rightarrow>
          bindR (read_operation_text ps op name) (\<lambda>existing.
            if existing \<noteq> v then Inl (ProtocolError (''durable operation policy '' @ name @ '' changed''))
            else Inr ps))"

definition required_decimal :: "string \<Rightarrow> pyval \<Rightarrow> provider_exn + decimal" where
  "required_decimal key v =
     (case as_str v of
        None \<Rightarrow> Inl (ProtocolError (''provider spec '' @ key @ '' must be a decimal string''))
      | Some s \<Rightarrow>
          (case dec_of_string s of
             None \<Rightarrow> Inl (ProtocolError (''provider spec '' @ key @ '' must be a decimal string''))
           | Some d \<Rightarrow>
               if is_finite d \<and> dec_lt dec_zero d then Inr d
               else Inl (ProtocolError (''provider spec '' @ key @ '' must be positive''))))"

definition read_maximum_rate :: "policies \<Rightarrow> string \<Rightarrow> provider_exn + decimal" where
  "read_maximum_rate ps op =
     (case policy_file ps op ''max-hourly-rate-usd'' of
        None \<Rightarrow> Inl (ProtocolError ''durable maximum hourly rate is unavailable during reconciliation'')
      | Some data \<Rightarrow> required_decimal ''maximum'' (PStr (strip data)))"

definition persist_maximum_rate :: "string \<Rightarrow> decimal \<Rightarrow> policies \<Rightarrow> provider_exn + policies" where
  "persist_maximum_rate op maximum ps =
     (case policy_file ps op ''max-hourly-rate-usd'' of
        None \<Rightarrow> Inr (put_policy op ''max-hourly-rate-usd'' (format_f maximum @ [newline]) ps)
      | Some _ \<Rightarrow>
          bindR (read_maximum_rate ps op) (\<lambda>existing.
            if \<not> dec_eq existing maximum
            then Inl (ProtocolError ''durable maximum hourly rate changed for one operation'')
            else Inr ps))"

text \<open>\<open>fresh\<close> is what \<open>secrets.token_hex(15)\<close> draws.\<close>

definition volume_key_of :: "string \<Rightarrow> string \<Rightarrow> policies \<Rightarrow> provider_exn + string \<times> policies" where
  "volume_key_of fresh op ps =
     (case policy_file ps op ''volume-key'' of
        None \<Rightarrow> Inr (fresh, put_policy op ''volume-key'' (fresh @ [newline]) ps)
      | Some data \<Rightarrow>
          if volume_key_ok (strip data) then Inr (strip data, ps)
          else Inl (ProtocolError ''stored volume key is invalid''))"

section \<open>Calls of the client\<close>

definition cloud_text :: "cloud_exn \<Rightarrow> string" where
  "cloud_text e =
     (case e of Cloud_protocol m \<Rightarrow> m | Cloud_unknown m \<Rightarrow> m | Cloud_security m _ \<Rightarrow> m | Cloud_value m \<Rightarrow> m)"

definition on_cloud :: "('w \<Rightarrow> (cloud_exn + 'a) \<times> 'w) \<Rightarrow> (cloud_exn \<Rightarrow> provider_exn) \<Rightarrow> 'w site \<Rightarrow>
    (provider_exn + 'a) \<times> 'w site" where
  "on_cloud f h s = (case f (fst s) of (r, w) \<Rightarrow> (catchR r h, (w, snd s)))"

text \<open>An exception no handler catches leaves the adapter as it is.\<close>

definition as_internal :: "cloud_exn \<Rightarrow> provider_exn" where
  "as_internal e = (if protocol_failure e then ProtocolError (cloud_text e) else Interrupted (cloud_text e))"

definition as_outcome :: "string \<Rightarrow> string \<Rightarrow> cloud_exn \<Rightarrow> provider_exn" where
  "as_outcome kind op e = (case e of Cloud_unknown _ \<Rightarrow> OutcomeUnknown kind op | _ \<Rightarrow> as_internal e)"

definition as_create_failure :: "string \<Rightarrow> cloud_exn \<Rightarrow> provider_exn" where
  "as_create_failure op e =
     (case e of
        Cloud_unknown _ \<Rightarrow> OutcomeUnknown ''provision'' op
      | Cloud_security m i \<Rightarrow> Rejected m i []
      | Cloud_protocol _ \<Rightarrow> OutcomeUnknown ''provision'' op
      | Cloud_value m \<Rightarrow> Interrupted m)"

definition delete_rejected_pod ::
  "'w pod_api \<Rightarrow> string \<Rightarrow> string \<Rightarrow> 'w site \<Rightarrow> (provider_exn + 'a) \<times> 'w site" where
  "delete_rejected_pod api pod_id message s =
     (case a_delete api pod_id (fst s) of
        (Inl e, w) \<Rightarrow>
          (if protocol_failure e
           then Inl (Rejected (message @ ''; deletion requested; cleanup outcome unknown: '' @ cloud_text e)
                      (Some pod_id) [])
           else Inl (Interrupted (cloud_text e)), (w, snd s))
      | (Inr _, w) \<Rightarrow> (Inl (Rejected (message @ ''; deletion requested'') (Some pod_id) []), (w, snd s)))"

section \<open>Checking an observation\<close>

text \<open>\<open>str\<close> of a decimal: scientific where the exponent is positive or the value is small.\<close>

fun str_decimal :: "decimal \<Rightarrow> string" where
  "str_decimal (Dec c e) =
     (let ds = show_nat (nat \<bar>c\<bar>);
          left = e + int (length ds);
          point = (if e \<le> 0 \<and> -6 < left then left else 1);
          digits = (if point \<le> 0 then ''0.'' @ replicate (nat (- point)) (CHR ''0'') @ ds
                    else if int (length ds) \<le> point then ds @ replicate (nat point - length ds) (CHR ''0'')
                    else take (nat point) ds @ CHR ''.'' # drop (nat point) ds);
          exponent = (if left = point then []
                      else CHR ''E'' # (if 0 \<le> left - point then ''+'' else []) @ show_int (left - point))
      in (if c < 0 then ''-'' else []) @ digits @ exponent)"
| "str_decimal d = format_f d"

definition rate_violation :: "decimal \<Rightarrow> decimal \<Rightarrow> string" where
  "rate_violation cost maximum =
     ''RunPod hourly rate '' @ str_decimal cost @ '' exceeds admitted '' @ str_decimal maximum"

definition storage_mode :: "policies \<Rightarrow> string \<Rightarrow> provider_exn + string" where
  "storage_mode ps op =
     (case read_operation_text ps op ''storage-mode'' of
        Inr mode \<Rightarrow> Inr mode
      | Inl e \<Rightarrow> if policy_file ps op ''volume-key'' \<noteq> None then Inr ''encrypted-pod-volume'' else Inl e)"

definition storage_violation :: "policies \<Rightarrow> string \<Rightarrow> pod_observation \<Rightarrow> provider_exn + string option" where
  "storage_violation ps op pod =
     bindR (storage_mode ps op) (\<lambda>mode.
       if mode = ''encrypted-pod-volume'' then
         Inr (if po_volume_encrypted pod \<noteq> Some True
              then Some ''RunPod reconciliation could not prove encrypted storage'' else None)
       else if mode = ''network-volume'' then
         bindR (read_operation_text ps op ''expected-network-volume-id'') (\<lambda>expected.
           Inr (if po_network_volume_id pod \<noteq> Some expected
                then Some ''RunPod reconciliation could not prove the requested network volume attachment''
                else None))
       else Inr (Some ''RunPod storage policy is invalid''))"

text \<open>Why a pod is deleted, in the order of the checks.\<close>

definition policy_violation :: "policies \<Rightarrow> string \<Rightarrow> pod_observation \<Rightarrow> provider_exn + string option" where
  "policy_violation ps op pod =
     bindR (storage_violation ps op pod) (\<lambda>violation.
       if violation \<noteq> None then Inr violation
       else bindR (read_maximum_rate ps op) (\<lambda>maximum.
         case po_cost_per_hour pod of
           None \<Rightarrow> Inr (Some ''RunPod pod has no hourly rate'')
         | Some cost \<Rightarrow>
             if \<not> is_finite cost \<or> dec_le cost dec_zero then Inr (Some ''RunPod pod hourly rate is invalid'')
             else if dec_lt maximum cost then Inr (Some (rate_violation cost maximum))
             else bindR (read_operation_text ps op ''expected-image'') (\<lambda>expected.
               Inr (if po_image pod \<noteq> Some expected
                    then Some ''RunPod image identity does not match the admitted digest'' else None))))"

definition checked_observation ::
  "'w pod_api \<Rightarrow> string \<Rightarrow> pod_observation \<Rightarrow> 'w site \<Rightarrow> (provider_exn + pod_observation) \<times> 'w site" where
  "checked_observation api op pod s =
     (case policy_violation (snd s) op pod of
        Inl e \<Rightarrow> (Inl e, s)
      | Inr None \<Rightarrow> (Inr pod, s)
      | Inr (Some message) \<Rightarrow> delete_rejected_pod api (po_id pod) message s)"

fun checked_observations ::
  "'w pod_api \<Rightarrow> string \<Rightarrow> pod_observation list \<Rightarrow> 'w site \<Rightarrow> (provider_exn + pod_observation list) \<times> 'w site" where
  "checked_observations api op [] s = (Inr [], s)"
| "checked_observations api op (pod # pods) s =
     bindW (checked_observation api op pod s) (\<lambda>p s'.
     bindW (checked_observations api op pods s') (\<lambda>ps s''. (Inr (p # ps), s'')))"

definition environment_of :: "pod_observation \<Rightarrow> string dict" where
  "environment_of pod = (case po_environment pod of None \<Rightarrow> [] | Some env \<Rightarrow> env)"

text \<open>The directory is there when an operation has been persisted.\<close>

definition operation_id_for_pod :: "policies \<Rightarrow> pod_observation \<Rightarrow> provider_exn + string" where
  "operation_id_for_pod ps pod =
     (case dget (environment_of pod) ''RUNPOD_JOBRUNNER_OPERATION_ID'' of
        Some op \<Rightarrow> Inr op
      | None \<Rightarrow>
          if ps = [] then Inl (ProtocolError ''RunPod pod lacks create operation identity'')
          else (case filter (\<lambda>op. read_operation_text ps op ''resource-id'' = Inr (po_id pod)) (dkeys ps) of
                  [op] \<Rightarrow> Inr op
                | _ \<Rightarrow> Inl (ProtocolError ''RunPod pod lacks unique operation identity'')))"

definition provider_state :: "string option \<Rightarrow> resource_state" where
  "provider_state status =
     (if status = Some ''RUNNING'' then Pod_RUNNING
      else if status = Some ''RESTARTING'' then Pod_STARTING
      else if status \<in> {Some ''EXITED'', Some ''PAUSED'', Some ''DEAD'', Some ''TERMINATED''} then Pod_STOPPED
      else Pod_PROVISIONED)"

definition resource_of :: "string \<Rightarrow> string \<Rightarrow> pod_observation \<Rightarrow> provider_exn + provider_resource" where
  "resource_of op observed_run_id pod =
     (case (if observed_run_id \<noteq> [] then Some observed_run_id
            else dget (environment_of pod) ''RUNPOD_JOBRUNNER_RUN_ID'') of
        None \<Rightarrow> Inl (ProtocolError ''RunPod pod lacks run identity'')
      | Some run_id \<Rightarrow>
          (case po_cost_per_hour pod of
             None \<Rightarrow> Inl (ProtocolError ''RunPod pod has no hourly rate'')
           | Some cost \<Rightarrow>
               Inr \<lparr>res_id = po_id pod, res_run_id = run_id, res_create_operation_id = op,
                    res_name = po_name pod, res_state = provider_state (po_desired_status pod),
                    res_hourly_rate_usd = cost\<rparr>))"

text \<open>A pod the client returned, checked and translated.\<close>

definition observed_resource ::
  "'w pod_api \<Rightarrow> pod_observation \<Rightarrow> 'w site \<Rightarrow> (provider_exn + provider_resource) \<times> 'w site" where
  "observed_resource api pod s =
     (case operation_id_for_pod (snd s) pod of
        Inl e \<Rightarrow> (Inl e, s)
      | Inr op \<Rightarrow>
          bindW (checked_observation api op pod s) (\<lambda>checked s'.
            pureW (bindR (read_operation_text (snd s') op ''run-id'') (\<lambda>run_id. resource_of op run_id checked)) s'))"

section \<open>The operations of the provider\<close>

definition belongs_to :: "string \<Rightarrow> string option \<Rightarrow> pod_observation \<Rightarrow> bool" where
  "belongs_to op expected_name pod \<longleftrightarrow>
     dget (environment_of pod) ''RUNPOD_JOBRUNNER_OPERATION_ID'' = Some op \<or>
     (case expected_name of None \<Rightarrow> False | Some n \<Rightarrow> po_name pod = n)"

definition record_primary :: "string \<Rightarrow> pod_observation list \<Rightarrow> policies \<Rightarrow> provider_exn + policies" where
  "record_primary op pods ps =
     (if pods = [] then Inr ps
      else if policy_file ps op ''resource-id'' \<noteq> None
      then bindR (read_operation_text ps op ''resource-id'') (\<lambda>_. Inr ps)
      else persist_operation_text op ''resource-id'' (min_list (map po_id pods)) ps)"

definition cloud_find ::
  "'w pod_api \<Rightarrow> string \<Rightarrow> 'w site \<Rightarrow> (provider_exn + provider_resource list) \<times> 'w site" where
  "cloud_find api op s =
     bindW (on_cloud (a_list api) as_internal s) (\<lambda>pods s1.
       let expected_name = (case read_operation_text (snd s1) op ''resource-name'' of
                              Inr n \<Rightarrow> Some n | Inl _ \<Rightarrow> None);
           matches = filter (belongs_to op expected_name) pods
       in case checked_observations api op matches s1 of
            (Inl (Rejected m i _), s2) \<Rightarrow> (Inl (Rejected m i (map po_id matches)), s2)
          | (Inl e, s2) \<Rightarrow> (Inl e, s2)
          | (Inr checked, s2) \<Rightarrow>
              (case (if checked = [] then Inr [] else read_operation_text (snd s2) op ''run-id'') of
                 Inl e \<Rightarrow> (Inl e, s2)
               | Inr run_id \<Rightarrow>
                   (case record_primary op checked (snd s2) of
                      Inl e \<Rightarrow> (Inl e, s2)
                    | Inr ps \<Rightarrow> (mapR (resource_of op run_id) checked, (fst s2, ps)))))"

definition cloud_get ::
  "'w pod_api \<Rightarrow> string \<Rightarrow> 'w site \<Rightarrow> (provider_exn + provider_resource option) \<times> 'w site" where
  "cloud_get api i s =
     bindW (on_cloud (a_get api i) as_internal s) (\<lambda>found s1.
       case found of None \<Rightarrow> (Inr None, s1)
       | Some pod \<Rightarrow> bindW (observed_resource api pod s1) (\<lambda>r s2. (Inr (Some r), s2)))"

definition cloud_start ::
  "'w pod_api \<Rightarrow> string \<Rightarrow> string \<Rightarrow> 'w site \<Rightarrow> (provider_exn + provider_resource) \<times> 'w site" where
  "cloud_start api i op s =
     bindW (on_cloud (a_start api i) (as_outcome ''start'' op) s) (observed_resource api)"

definition cloud_delete ::
  "'w pod_api \<Rightarrow> string \<Rightarrow> string \<Rightarrow> 'w site \<Rightarrow> (provider_exn + delete_receipt) \<times> 'w site" where
  "cloud_delete api i op s =
     bindW (on_cloud (a_delete api i) (as_outcome ''delete'' op) s) (\<lambda>existed s1.
       (Inr \<lparr>dr_operation_id = op, dr_acknowledged = True, dr_already_absent = \<not> existed\<rparr>, s1))"

definition cloud_spend ::
  "'w pod_api \<Rightarrow> string option \<Rightarrow> 'w site \<Rightarrow> (provider_exn + decimal) \<times> 'w site" where
  "cloud_spend api resource_id s =
     (case resource_id of
        Some i \<Rightarrow>
          bindW (cloud_get api i s) (\<lambda>r s1.
            (Inr (case r of None \<Rightarrow> dec_zero | Some resource \<Rightarrow> res_hourly_rate_usd resource), s1))
      | None \<Rightarrow>
          bindW (on_cloud (a_spend api) as_internal s) (\<lambda>spend s1.
            (if finite_money spend then Inr spend
             else Inl (ProtocolError ''RunPod current spend was invalid''), s1)))"

section \<open>Creating\<close>

definition spec_string :: "pydict \<Rightarrow> string \<Rightarrow> provider_exn + string" where
  "spec_string spec key =
     (case as_str (get spec key) of
        None \<Rightarrow> Inl (ProtocolError (''provider spec '' @ key @ '' must be a string''))
      | Some s \<Rightarrow> if s = [] then Inl (ProtocolError (''provider spec '' @ key @ '' must be a string'')) else Inr s)"

definition positive_integer :: "pydict \<Rightarrow> string \<Rightarrow> provider_exn + int" where
  "positive_integer spec key =
     (case as_int (get spec key) of
        None \<Rightarrow> Inl (ProtocolError (''provider spec '' @ key @ '' must be a positive integer''))
      | Some n \<Rightarrow>
          if n \<le> 0 then Inl (ProtocolError (''provider spec '' @ key @ '' must be a positive integer''))
          else Inr n)"

definition spec_error :: "string \<Rightarrow> string \<Rightarrow> provider_exn + 'a" where
  "spec_error name kind = Inl (ProtocolError (''provider spec '' @ name @ '' must be a string '' @ kind))"

definition string_tuple :: "pyval \<Rightarrow> string \<Rightarrow> provider_exn + string list" where
  "string_tuple v name =
     (case as_list v of None \<Rightarrow> spec_error name ''array''
      | Some vs \<Rightarrow>
          mapR (\<lambda>x. case as_str x of None \<Rightarrow> spec_error name ''array''
                    | Some s \<Rightarrow> if s = [] then spec_error name ''array'' else Inr s) vs)"

definition string_mapping :: "pyval \<Rightarrow> string \<Rightarrow> provider_exn + string dict" where
  "string_mapping v name =
     (case as_dict v of None \<Rightarrow> spec_error name ''map''
      | Some d \<Rightarrow> mapR (\<lambda>(k, x). case as_str x of None \<Rightarrow> spec_error name ''map'' | Some s \<Rightarrow> Inr (k, s)) d)"

text \<open>The storage a specification asks for: a network volume, or a volume of its own.\<close>

definition storage_of :: "pydict \<Rightarrow> provider_exn + string option \<times> int option" where
  "storage_of spec =
     (if dget spec ''network_volume_id'' \<noteq> None then
        bindR (spec_string spec ''network_volume_id'') (\<lambda>volume.
          if \<not> volume_id_ok volume
          then Inl (ProtocolError ''provider spec network_volume_id must be a non-empty provider ID'')
          else if dget spec ''volume_gb'' \<noteq> None
          then Inl (ProtocolError ''provider spec cannot request both network_volume_id and volume_gb'')
          else Inr (Some volume, None))
      else bindR (positive_integer spec ''volume_gb'') (\<lambda>gb. Inr (None, Some gb)))"

definition pod_request_of :: "provider_create_request \<Rightarrow> provider_exn + create_pod_request" where
  "pod_request_of request =
     (let spec = cr_spec request in
      bindR (storage_of spec) (\<lambda>(volume, gb).
      bindR (string_mapping (get_or spec ''environment'' (PDict [])) ''environment'') (\<lambda>env.
      bindR (spec_string spec ''image'') (\<lambda>image.
      bindR (spec_string spec ''gpu_type_id'') (\<lambda>gpu.
      bindR (positive_integer spec ''gpu_count'') (\<lambda>gpus.
      bindR (positive_integer spec ''container_disk_gb'') (\<lambda>disk.
      bindR (spec_string spec ''volume_mount_path'') (\<lambda>mount.
      bindR (string_tuple (get spec ''ports'') ''ports'') (\<lambda>ports.
      bindR (spec_string spec ''terminate_at'') (\<lambda>terminate_at.
        Inr \<lparr>pc_name = cr_resource_name request, pc_image = image, pc_gpu_type_id = gpu, pc_gpu_count = gpus,
             pc_container_disk_gb = disk, pc_volume_gb = gb, pc_volume_mount_path = mount, pc_ports = ports,
             pc_environment = dput ''RUNPOD_JOBRUNNER_OPERATION_ID'' (cr_operation_id request)
               (dput ''RUNPOD_JOBRUNNER_RUN_ID'' (cr_run_id request) env),
             pc_terminate_at = terminate_at, pc_network_volume_id = volume,
             pc_cloud_type = ''SECURE''\<rparr>))))))))))"

text \<open>
  Everything that is admitted for the operation, on disk before the pod is asked for; the files written before a step
  that fails stay.
\<close>

definition kept :: "provider_exn + policies \<Rightarrow> policies \<Rightarrow> (provider_exn + unit) \<times> policies" where
  "kept r ps = (case r of Inl e \<Rightarrow> (Inl e, ps) | Inr ps' \<Rightarrow> (Inr (), ps'))"

fun persist_all :: "(policies \<Rightarrow> provider_exn + policies) list \<Rightarrow> policies \<Rightarrow> (provider_exn + unit) \<times> policies" where
  "persist_all [] ps = (Inr (), ps)"
| "persist_all (step # steps) ps = bindW (kept (step ps) ps) (\<lambda>_. persist_all steps)"

definition persist_admission ::
  "provider_create_request \<Rightarrow> create_pod_request \<Rightarrow> decimal \<Rightarrow> policies \<Rightarrow> (provider_exn + unit) \<times> policies" where
  "persist_admission request pod maximum ps =
     (let op = cr_operation_id request in
      persist_all
        ([persist_maximum_rate op maximum,
          persist_operation_text op ''resource-name'' (cr_resource_name request),
          persist_operation_text op ''run-id'' (cr_run_id request),
          persist_operation_text op ''expected-image'' (pc_image pod),
          persist_operation_text op ''storage-mode''
            (if pc_network_volume_id pod \<noteq> None then ''network-volume'' else ''encrypted-pod-volume'')] @
         (case pc_network_volume_id pod of
            None \<Rightarrow> []
          | Some volume \<Rightarrow> [persist_operation_text op ''expected-network-volume-id'' volume])) ps)"

definition ask_for_pod ::
  "'w pod_api \<Rightarrow> string \<Rightarrow> string \<Rightarrow> create_pod_request \<Rightarrow> 'w site \<Rightarrow> (provider_exn + pod_observation) \<times> 'w site" where
  "ask_for_pod api fresh op pod s =
     (if pc_network_volume_id pod \<noteq> None
      then on_cloud (a_create_network api pod) (as_create_failure op) s
      else case volume_key_of fresh op (snd s) of
        Inl e \<Rightarrow> (Inl e, s)
      | Inr (key, ps) \<Rightarrow> on_cloud (a_create_encrypted api pod key) (as_create_failure op) (fst s, ps))"

definition admit_pod ::
  "'w pod_api \<Rightarrow> provider_create_request \<Rightarrow> decimal \<Rightarrow> pod_observation \<Rightarrow> 'w site \<Rightarrow>
     (provider_exn + provider_resource) \<times> 'w site" where
  "admit_pod api request maximum pod s =
     (let op = cr_operation_id request in
      case po_cost_per_hour pod of
        None \<Rightarrow> delete_rejected_pod api (po_id pod) ''RunPod pod has no hourly rate'' s
      | Some cost \<Rightarrow>
          if dec_lt maximum cost
          then delete_rejected_pod api (po_id pod) (rate_violation cost maximum) s
          else bindW (checked_observation api op pod s) (\<lambda>checked s1.
            case persist_operation_text op ''resource-id'' (po_id checked) (snd s1) of
              Inl e \<Rightarrow> (Inl e, s1)
            | Inr ps \<Rightarrow> (resource_of op (cr_run_id request) checked, (fst s1, ps))))"

definition cloud_create ::
  "'w pod_api \<Rightarrow> (string \<Rightarrow> string) \<Rightarrow> provider_create_request \<Rightarrow> 'w site \<Rightarrow>
     (provider_exn + provider_resource) \<times> 'w site" where
  "cloud_create api fresh request s =
     (case pod_request_of request of
        Inl e \<Rightarrow> (Inl e, s)
      | Inr pod_request \<Rightarrow>
          (case required_decimal ''max_hourly_rate_usd'' (get (cr_spec request) ''max_hourly_rate_usd'') of
             Inl e \<Rightarrow> (Inl e, s)
           | Inr maximum \<Rightarrow>
               (case persist_admission request pod_request maximum (snd s) of
                  (Inl e, ps) \<Rightarrow> (Inl e, (fst s, ps))
                | (Inr _, ps) \<Rightarrow>
                    bindW (ask_for_pod api (fresh (cr_operation_id request)) (cr_operation_id request) pod_request
                             (fst s, ps))
                      (admit_pod api request maximum))))"

definition runpod_provider :: "'w pod_api \<Rightarrow> (string \<Rightarrow> string) \<Rightarrow> 'w site provider" where
  "runpod_provider api fresh = \<lparr>p_find = cloud_find api, p_create = cloud_create api fresh, p_get = cloud_get api,
     p_start = cloud_start api, p_delete = cloud_delete api, p_spend = cloud_spend api\<rparr>"

end
