(* ===== verification/CloudProps.thy ===== *)
theory CloudProps
  imports CloudProvider
begin

text \<open>
  What the RunPod adapter guarantees: a pod it lets through meets the policy that was admitted for its operation, and
  the outcome of a create tells whether a pod may exist.
\<close>

section \<open>Texts written and read back\<close>

lemma strip_snoc_space: "is_space c \<Longrightarrow> strip (s @ [c]) = strip s"
  by (induction s) (auto simp: strip_def dropWhile_append)

lemma is_space_newline [simp]: "is_space newline"
  by (simp add: is_space_def newline_def)

lemma strip_line [simp]: "strip (s @ [newline]) = strip s"
  by (simp add: strip_snoc_space)

lemma dropWhile_twice: "dropWhile P (rev (dropWhile P (rev (dropWhile P s)))) = rev (dropWhile P (rev (dropWhile P s)))"
proof (cases "dropWhile P s")
  case (Cons c t)
  then have c: "\<not> P c" by (metis hd_dropWhile list.distinct(1) list.sel(1))
  then have "dropWhile P (rev t @ [c]) = dropWhile P (rev t) @ [c]" by (auto simp: dropWhile_append)
  then show ?thesis using Cons c by simp
qed (simp only: dropWhile.simps rev.simps)

lemma strip_strip [simp]: "strip (strip s) = strip s"
  by (simp add: strip_def dropWhile_twice dropWhile_idem)

lemma dec_of_strip [simp]: "dec_of_string (strip s) = dec_of_string s"
  by (simp add: dec_of_string_def)

lemma policy_file_put [simp]:
  "policy_file (put_policy op name data ps) op' name' =
     (if op' = op \<and> name' = name then Some data else policy_file ps op' name')"
  by (auto simp: policy_file_def put_policy_def split: option.splits)

text \<open>What a step of the admission leaves: its own text, and the others as they were.\<close>

definition others_kept :: "string \<Rightarrow> string \<Rightarrow> policies \<Rightarrow> policies \<Rightarrow> bool" where
  "others_kept op name ps ps' \<longleftrightarrow>
     (\<forall>op' name'. (op', name') \<noteq> (op, name) \<longrightarrow> policy_file ps' op' name' = policy_file ps op' name')"

lemma persist_text:
  assumes "persist_operation_text op name v ps = Inr ps'"
  shows "others_kept op name ps ps'" and "strip v \<noteq> [] \<Longrightarrow> read_operation_text ps' op name \<in> {Inr v, Inr (strip v)}"
  using assms
  by (auto simp: persist_operation_text_def read_operation_text_def others_kept_def split: option.splits if_splits)

lemma required_decimal_finite: "required_decimal key v = Inr d \<Longrightarrow> is_finite d"
  by (auto simp: required_decimal_def split: option.splits if_splits)

lemma read_rate_finite: "read_maximum_rate ps op = Inr d \<Longrightarrow> is_finite d"
  using required_decimal_finite by (simp add: read_maximum_rate_def split: option.splits)

lemma persist_rate:
  assumes "persist_maximum_rate op maximum ps = Inr ps'" and "is_finite maximum" "0 < dec_val maximum"
  shows "others_kept op ''max-hourly-rate-usd'' ps ps'"
    and "\<exists>d. read_maximum_rate ps' op = Inr d \<and> is_finite d \<and> dec_val d = dec_val maximum"
proof -
  have "required_decimal ''maximum'' (PStr (format_f maximum)) = Inr (canonical maximum)"
    using assms(2,3) by (simp add: required_decimal_def dec_of_format_canonical dec_lt_iff)
  then have fresh: "required_decimal ''maximum'' (PStr (strip (format_f maximum))) = Inr (canonical maximum)"
    by (simp add: required_decimal_def)
  show "others_kept op ''max-hourly-rate-usd'' ps ps'"
    using assms(1) by (auto simp: persist_maximum_rate_def others_kept_def split: option.splits if_splits)
  show "\<exists>d. read_maximum_rate ps' op = Inr d \<and> is_finite d \<and> dec_val d = dec_val maximum"
  proof (cases "policy_file ps op ''max-hourly-rate-usd''")
    case None
    then have "ps' = put_policy op ''max-hourly-rate-usd'' (format_f maximum @ [newline]) ps"
      using assms(1) by (simp add: persist_maximum_rate_def)
    then have "read_maximum_rate ps' op = Inr (canonical maximum)"
      using fresh by (simp only: read_maximum_rate_def policy_file_put option.case strip_line simp_thms if_True)
    then show ?thesis using assms(2) by simp
  next
    case (Some data)
    then have "bindR (read_maximum_rate ps op) (\<lambda>existing. if \<not> dec_eq existing maximum
        then Inl (ProtocolError ''durable maximum hourly rate changed for one operation'') else Inr ps) = Inr ps'"
      using assms(1) by (simp only: persist_maximum_rate_def option.case)
    then obtain d where d: "read_maximum_rate ps op = Inr d" "dec_eq d maximum" "ps' = ps"
      by (cases "read_maximum_rate ps op") (simp_all split: if_split_asm)
    then show ?thesis using read_rate_finite [OF d(1)] assms(2) by (simp add: dec_eq_iff)
  qed
qed

section \<open>A pod that is let through\<close>

definition meets_policy :: "policies \<Rightarrow> string \<Rightarrow> pod_observation \<Rightarrow> bool" where
  "meets_policy ps op pod \<longleftrightarrow>
     (\<exists>maximum cost image. read_maximum_rate ps op = Inr maximum \<and> po_cost_per_hour pod = Some cost \<and>
        is_finite cost \<and> 0 < dec_val cost \<and> dec_val cost \<le> dec_val maximum \<and>
        read_operation_text ps op ''expected-image'' = Inr image \<and> po_image pod = Some image) \<and>
     (storage_mode ps op = Inr ''encrypted-pod-volume'' \<and> po_volume_encrypted pod = Some True \<or>
      storage_mode ps op = Inr ''network-volume'' \<and>
        (\<exists>volume. read_operation_text ps op ''expected-network-volume-id'' = Inr volume \<and>
           po_network_volume_id pod = Some volume))"

lemma storage_violation_None:
  "storage_violation ps op pod = Inr None \<longleftrightarrow>
     (storage_mode ps op = Inr ''encrypted-pod-volume'' \<and> po_volume_encrypted pod = Some True \<or>
      storage_mode ps op = Inr ''network-volume'' \<and>
        (\<exists>volume. read_operation_text ps op ''expected-network-volume-id'' = Inr volume \<and>
           po_network_volume_id pod = Some volume))"
  by (cases "storage_mode ps op"; cases "read_operation_text ps op ''expected-network-volume-id''")
    (simp_all add: storage_violation_def)

lemma policy_violation_None: "policy_violation ps op pod = Inr None \<longleftrightarrow> meets_policy ps op pod"
proof
  assume v: "policy_violation ps op pod = Inr None"
  then obtain maximum cost where "storage_violation ps op pod = Inr None" "read_maximum_rate ps op = Inr maximum"
    "po_cost_per_hour pod = Some cost" "is_finite cost" "\<not> dec_le cost dec_zero" "\<not> dec_lt maximum cost"
    "\<exists>image. read_operation_text ps op ''expected-image'' = Inr image \<and> po_image pod = Some image"
    by (auto simp: policy_violation_def split: option.splits if_splits)
  then show "meets_policy ps op pod"
    using read_rate_finite [of ps op maximum]
    by (auto simp: meets_policy_def storage_violation_None dec_le_iff dec_lt_iff)
next
  assume m: "meets_policy ps op pod"
  then obtain maximum cost image where f: "read_maximum_rate ps op = Inr maximum" "po_cost_per_hour pod = Some cost"
    "is_finite cost" "0 < dec_val cost" "dec_val cost \<le> dec_val maximum"
    "read_operation_text ps op ''expected-image'' = Inr image" "po_image pod = Some image"
    by (auto simp: meets_policy_def)
  have "storage_violation ps op pod = Inr None" using m by (simp add: meets_policy_def storage_violation_None)
  moreover have "\<not> dec_le cost dec_zero" "\<not> dec_lt maximum cost"
    using f(3-5) read_rate_finite [OF f(1)] by (simp_all add: dec_le_iff dec_lt_iff)
  ultimately show "policy_violation ps op pod = Inr None" using f by (simp add: policy_violation_def)
qed

text \<open>A resource that reports this pod, which is within the policy of its operation.\<close>

definition rests_on :: "policies \<Rightarrow> pod_observation \<Rightarrow> provider_resource \<Rightarrow> bool" where
  "rests_on ps pod r \<longleftrightarrow>
     meets_policy ps (res_create_operation_id r) pod \<and> res_id r = po_id pod \<and> res_name r = po_name pod \<and>
     res_state r = provider_state (po_desired_status pod) \<and> po_cost_per_hour pod = Some (res_hourly_rate_usd r)"

lemma resource_of_fields:
  assumes "resource_of op run pod = Inr r"
  shows "res_create_operation_id r = op" "res_id r = po_id pod" "res_name r = po_name pod"
    "po_cost_per_hour pod = Some (res_hourly_rate_usd r)" "run \<noteq> [] \<Longrightarrow> res_run_id r = run"
    "res_state r = provider_state (po_desired_status pod)"
  using assms by (auto simp: resource_of_def split: option.splits if_splits)

lemma resource_of_rests:
  "resource_of op run pod = Inr r \<Longrightarrow> meets_policy ps op pod \<Longrightarrow> rests_on ps pod r \<and> res_create_operation_id r = op"
  using resource_of_fields [of op run pod r] by (auto simp: rests_on_def)

lemma delete_rejected_pod_fails [simp]: "delete_rejected_pod api i m s \<noteq> (Inr r, s')"
  by (auto simp: delete_rejected_pod_def split: prod.splits sum.splits)

lemma checked_observation_accepts:
  "checked_observation api op pod s = (Inr p, s') \<longleftrightarrow> p = pod \<and> s' = s \<and> meets_policy (snd s) op pod"
  by (auto simp: checked_observation_def policy_violation_None [symmetric] split: sum.splits option.splits)

lemma checked_observations_accept:
  "checked_observations api op pods s = (Inr ps, s') \<longleftrightarrow>
     ps = pods \<and> s' = s \<and> list_all (meets_policy (snd s) op) pods"
  by (induction pods arbitrary: ps; cases s) (auto simp: bindW_eq_Inr checked_observation_accepts)

lemma observed_resource_rests: "observed_resource api pod s = (Inr r, s') \<Longrightarrow> s' = s \<and> rests_on (snd s') pod r"
  by (auto simp: observed_resource_def bindW_eq_Inr bindR_eq_Inr checked_observation_accepts resource_of_rests
      split: sum.splits)

lemma meets_policy_kept:
  assumes "others_kept op ''resource-id'' ps ps'"
  shows "meets_policy ps' op' pod = meets_policy ps op' pod"
proof -
  have "policy_file ps' op' name = policy_file ps op' name" if "name \<noteq> ''resource-id''" for name
    using assms that by (simp add: others_kept_def)
  then show ?thesis
    by (simp add: meets_policy_def read_maximum_rate_def read_operation_text_def storage_mode_def
        cong: sum.case_cong if_cong)
qed

lemma others_kept_refl [simp]: "others_kept op name ps ps"
  by (simp add: others_kept_def)

lemma record_primary_kept: "record_primary op pods ps = Inr ps' \<Longrightarrow> others_kept op ''resource-id'' ps ps'"
  by (auto simp: record_primary_def bindR_eq_Inr intro: persist_text(1) split: if_splits)

lemma on_cloud_result:
  "on_cloud f h s = (Inr a, s') \<longleftrightarrow> f (fst s) = (Inr a, fst s') \<and> snd s' = snd s"
  "on_cloud f h s = (Inl e, s') \<longleftrightarrow> (\<exists>e'. e = h e' \<and> f (fst s) = (Inl e', fst s') \<and> snd s' = snd s)"
  by (cases "f (fst s)"; cases "fst (f (fst s))"; cases s'; auto simp: on_cloud_def)+

lemma find_rests:
  assumes "cloud_find api op s = (Inr rs, s')" and r: "r \<in> set rs"
  shows "\<exists>pods pod. a_list api (fst s) = (Inr pods, fst s') \<and> pod \<in> set pods \<and> rests_on (snd s') pod r \<and>
    res_create_operation_id r = op"
proof -
  obtain pods s1 where a: "on_cloud (a_list api) as_internal s = (Inr pods, s1)" using assms(1)
    by (auto simp: cloud_find_def bindW_eq_Inr)
  then obtain pods' run ps where c: "set pods' \<subseteq> set pods" "list_all (meets_policy (snd s1) op) pods'"
    "record_primary op pods' (snd s1) = Inr ps" "mapR (resource_of op run) pods' = Inr rs" "s' = (fst s1, ps)"
    using assms(1)
    by (auto simp: cloud_find_def Let_def checked_observations_accept split: prod.splits sum.splits provider_exn.splits)
      (metis filter_is_subset)+
  obtain pod where pod: "pod \<in> set pods'" "resource_of op run pod = Inr r"
    using c(4) r by (auto simp: mapR_Inr_iff list_all2_conv_all_nth in_set_conv_nth) metis
  then have "meets_policy (snd s') op pod"
    using c(2,5) meets_policy_kept [OF record_primary_kept [OF c(3)]] by (auto simp: list_all_iff)
  moreover have "a_list api (fst s) = (Inr pods, fst s')" using a c(5) by (simp add: on_cloud_result)
  ultimately show ?thesis using c(1) pod resource_of_rests by blast
qed

section \<open>What an admission leaves on disk\<close>

lemma kept_reads:
  assumes "others_kept op name ps ps'" "name' \<noteq> name"
  shows "policy_file ps' op' name' = policy_file ps op' name'"
    and "read_operation_text ps' op' name' = read_operation_text ps op' name'"
  using assms by (simp_all add: others_kept_def read_operation_text_def)

lemma kept_rate:
  "others_kept op name ps ps' \<Longrightarrow> name \<noteq> ''max-hourly-rate-usd'' \<Longrightarrow> read_maximum_rate ps' op' = read_maximum_rate ps op'"
  by (simp add: others_kept_def read_maximum_rate_def)

lemma persisted_text_read:
  assumes "persist_operation_text op name v ps = Inr ps'"
  shows "strip v \<noteq> [] \<Longrightarrow> read_operation_text ps' op name = Inr (strip v)" and "v \<noteq> []"
    and "read_operation_text ps' op name = Inr x \<Longrightarrow> x = strip v"
proof -
  have v: "v \<noteq> []" using assms by (simp add: persist_operation_text_def split: if_split_asm)
  show "v \<noteq> []" by (rule v)
  have "read_operation_text ps' op name = (if strip v = [] then
      Inl (ProtocolError (''durable operation policy '' @ name @ '' is empty'')) else Inr (strip v))"
  proof (cases "policy_file ps op name")
    case None
    then have "ps' = put_policy op name (v @ [newline]) ps"
      using assms by (simp add: persist_operation_text_def split: if_split_asm)
    then show ?thesis by (simp add: read_operation_text_def)
  next
    case (Some data)
    then have same: "read_operation_text ps op name = Inr v" "ps' = ps"
      using assms by (auto simp: persist_operation_text_def bindR_eq_Inr split: if_split_asm)
    then have "v = strip data" using Some by (simp add: read_operation_text_def split: if_split_asm)
    then show ?thesis using v same by simp
  qed
  then show "strip v \<noteq> [] \<Longrightarrow> read_operation_text ps' op name = Inr (strip v)"
    and "read_operation_text ps' op name = Inr x \<Longrightarrow> x = strip v"
    by (simp_all split: if_split_asm)
qed

lemma persist_all_Cons:
  "persist_all (step # steps) ps = (Inr u, ps') \<longleftrightarrow>
     (\<exists>ps1. step ps = Inr ps1 \<and> persist_all steps ps1 = (Inr u, ps'))"
  by (auto simp: kept_def split: sum.splits)

text \<open>The policy of the operation, as its checks read it.\<close>

definition policy_recorded :: "policies \<Rightarrow> string \<Rightarrow> decimal \<Rightarrow> create_pod_request \<Rightarrow> bool" where
  "policy_recorded ps op maximum q \<longleftrightarrow>
     (\<exists>d. read_maximum_rate ps op = Inr d \<and> is_finite d \<and> dec_val d = dec_val maximum) \<and>
     read_operation_text ps op ''expected-image'' = Inr (strip (pc_image q)) \<and>
     (case pc_network_volume_id q of
        None \<Rightarrow> read_operation_text ps op ''storage-mode'' = Inr ''encrypted-pod-volume''
      | Some volume \<Rightarrow> read_operation_text ps op ''storage-mode'' = Inr ''network-volume'' \<and>
          read_operation_text ps op ''expected-network-volume-id'' = Inr (strip volume))"

lemma persist_admission_records:
  assumes p: "persist_admission request q maximum ps = (Inr u, ps')"
    and m: "is_finite maximum" "0 < dec_val maximum"
    and image: "strip (pc_image q) \<noteq> []" and volume: "\<And>v. pc_network_volume_id q = Some v \<Longrightarrow> strip v \<noteq> []"
  shows "policy_recorded ps' (cr_operation_id request) maximum q" "cr_run_id request \<noteq> []"
    and "policy_file ps' (cr_operation_id request) ''resource-id'' = policy_file ps (cr_operation_id request) ''resource-id''"
proof -
  let ?op = "cr_operation_id request"
  let ?mode = "if pc_network_volume_id q \<noteq> None then ''network-volume'' else ''encrypted-pod-volume''"
  obtain p1 p2 p3 p4 p5 where
    s1: "persist_maximum_rate ?op maximum ps = Inr p1" and
    s2: "persist_operation_text ?op ''resource-name'' (cr_resource_name request) p1 = Inr p2" and
    s3: "persist_operation_text ?op ''run-id'' (cr_run_id request) p2 = Inr p3" and
    s4: "persist_operation_text ?op ''expected-image'' (pc_image q) p3 = Inr p4" and
    s5: "persist_operation_text ?op ''storage-mode'' ?mode p4 = Inr p5" and
    s6: "persist_all (case pc_network_volume_id q of None \<Rightarrow> []
      | Some v \<Rightarrow> [persist_operation_text ?op ''expected-network-volume-id'' v]) p5 = (Inr u, ps')"
    using p by (simp only: persist_admission_def Let_def append.simps persist_all_Cons) blast
  have k6: "others_kept ?op ''expected-network-volume-id'' p5 ps'" and
    v6: "\<And>v. pc_network_volume_id q = Some v \<Longrightarrow>
      read_operation_text ps' ?op ''expected-network-volume-id'' = Inr (strip v)"
    using s6 volume persist_text(1) persisted_text_read(1)
    by (auto simp: persist_all_Cons simp del: persist_all.simps(2) split: option.splits)
  note k = kept_reads(2) [OF persist_text(1) [OF s2]] kept_reads(2) [OF persist_text(1) [OF s3]]
    kept_reads(2) [OF persist_text(1) [OF s4]] kept_reads(2) [OF persist_text(1) [OF s5]] kept_reads(2) [OF k6]
  note f = kept_reads(1) [OF persist_rate(1) [OF s1 m]] kept_reads(1) [OF persist_text(1) [OF s2]]
    kept_reads(1) [OF persist_text(1) [OF s3]] kept_reads(1) [OF persist_text(1) [OF s4]]
    kept_reads(1) [OF persist_text(1) [OF s5]] kept_reads(1) [OF k6]
  note r = kept_rate [OF persist_text(1) [OF s2]] kept_rate [OF persist_text(1) [OF s3]]
    kept_rate [OF persist_text(1) [OF s4]] kept_rate [OF persist_text(1) [OF s5]] kept_rate [OF k6]
  have rate: "\<exists>d. read_maximum_rate ps' ?op = Inr d \<and> is_finite d \<and> dec_val d = dec_val maximum"
    using persist_rate(2) [OF s1 m] by (simp add: r)
  have i: "read_operation_text ps' ?op ''expected-image'' = Inr (strip (pc_image q))"
    using persisted_text_read(1) [OF s4 image] by (simp add: k)
  have mode: "strip ?mode = ?mode" "strip ?mode \<noteq> []" by (simp_all add: strip_def is_space_def)
  have "read_operation_text p5 ?op ''storage-mode'' = Inr ?mode"
    using persisted_text_read(1) [OF s5 mode(2)] by (simp only: mode(1))
  then have "read_operation_text ps' ?op ''storage-mode'' = Inr ?mode"
    by (subst kept_reads(2) [OF k6]) simp_all
  then show "policy_recorded ps' ?op maximum q"
    using rate i v6 by (simp add: policy_recorded_def split: option.split)
  show "cr_run_id request \<noteq> []" by (rule persisted_text_read(2) [OF s3])
  show "policy_file ps' ?op ''resource-id'' = policy_file ps ?op ''resource-id''" by (simp add: f)
qed

lemma policy_recorded_decides:
  assumes "policy_recorded ps op maximum q" shows "\<exists>v. policy_violation ps op pod = Inr v"
proof -
  have "\<exists>v. storage_violation ps op pod = Inr v"
    using assms by (cases "pc_network_volume_id q") (simp_all add: policy_recorded_def storage_violation_def storage_mode_def)
  then obtain v where v: "storage_violation ps op pod = Inr v" ..
  obtain d where "read_maximum_rate ps op = Inr d" "read_operation_text ps op ''expected-image'' = Inr (strip (pc_image q))"
    using assms by (auto simp: policy_recorded_def)
  then show ?thesis using v by (cases "po_cost_per_hour pod") (simp_all add: policy_violation_def)
qed

section \<open>Creating\<close>

lemma pod_request_of_fields:
  assumes "pod_request_of request = Inr q"
  shows "as_str (get (cr_spec request) ''image'') = Some (pc_image q)"
    and "storage_of (cr_spec request) = Inr (pc_network_volume_id q, pc_volume_gb q)"
  using assms
  by (auto simp: pod_request_of_def Let_def bindR_eq_Inr spec_string_def split: option.splits if_splits prod.splits)

lemma storage_of_volume: "storage_of spec = Inr (Some v, gb) \<Longrightarrow> strip v \<noteq> []"
  by (auto simp: storage_of_def bindR_eq_Inr volume_id_ok_def split: if_splits)

lemma required_decimal_positive: "required_decimal key v = Inr d \<Longrightarrow> 0 < dec_val d"
  by (auto simp: required_decimal_def dec_lt_iff split: option.splits if_splits)

definition recordable :: "string \<Rightarrow> bool" where
  "recordable i \<longleftrightarrow> i \<noteq> [] \<and> newline \<notin> set i \<and> carriage_return \<notin> set i"

definition created :: "'w pod_api \<Rightarrow> pod_observation \<Rightarrow> 'w \<Rightarrow> 'w \<Rightarrow> bool" where
  "created api pod w w' \<longleftrightarrow>
     (\<exists>q k. a_create_encrypted api q k w = (Inr pod, w') \<or> a_create_network api q w = (Inr pod, w'))"

text \<open>What each way a create can fail says of the world before it and after it.\<close>

definition honest_failure :: "'w pod_api \<Rightarrow> string \<Rightarrow> 'w \<Rightarrow> provider_exn \<Rightarrow> 'w \<Rightarrow> bool" where
  "honest_failure api op w e w' =
     (case e of
        OutcomeUnknown kind op' \<Rightarrow> kind = ''provision'' \<and> op' = op
      | Rejected _ (Some i) _ \<Rightarrow> \<exists>v r. a_delete api i v = (r, w')
      | Rejected _ None _ \<Rightarrow> w' = w
      | Interrupted _ \<Rightarrow> w' = w
      | ProtocolError _ \<Rightarrow> w' = w \<or> (\<exists>pod. created api pod w w' \<and> \<not> recordable (po_id pod))
      | _ \<Rightarrow> False)"

text \<open>The pod is the one the specification asks for.\<close>

definition as_specified :: "pydict \<Rightarrow> pod_observation \<Rightarrow> bool" where
  "as_specified spec pod \<longleftrightarrow>
     (\<exists>maximum cost image. required_decimal ''max_hourly_rate_usd'' (get spec ''max_hourly_rate_usd'') = Inr maximum \<and>
        po_cost_per_hour pod = Some cost \<and> 0 < dec_val cost \<and> dec_val cost \<le> dec_val maximum \<and>
        as_str (get spec ''image'') = Some image \<and> po_image pod = Some (strip image)) \<and>
     (if dget spec ''network_volume_id'' \<noteq> None then po_network_volume_id pod = as_str (get spec ''network_volume_id'')
      else po_volume_encrypted pod = Some True)"

lemma volume_key_of_kept: "volume_key_of fresh op ps = Inr (key, ps') \<Longrightarrow> others_kept op ''volume-key'' ps ps'"
  by (auto simp: volume_key_of_def others_kept_def split: option.splits if_splits)

lemma policy_recorded_kept:
  "others_kept op ''volume-key'' ps ps' \<Longrightarrow> policy_recorded ps' op maximum q = policy_recorded ps op maximum q"
  using kept_reads(2) [of op "''volume-key''" ps ps'] kept_rate [of op "''volume-key''" ps ps' op]
  by (simp add: policy_recorded_def cong: option.case_cong)

lemma ask_for_pod_accepts:
  assumes "ask_for_pod api fresh op q s = (Inr pod, s')"
  shows "created api pod (fst s) (fst s')"
    and "(\<exists>k. a_create_encrypted api q k (fst s) = (Inr pod, fst s')) \<and> pc_network_volume_id q = None \<or>
      a_create_network api q (fst s) = (Inr pod, fst s') \<and> pc_network_volume_id q \<noteq> None"
    and "others_kept op ''volume-key'' (snd s) (snd s')"
  using assms volume_key_of_kept
  by (fastforce simp: ask_for_pod_def created_def on_cloud_result split: if_splits sum.splits prod.splits)+

text \<open>What the adapter concludes about a pod that was created.\<close>

lemma admit_pod_accepts:
  assumes "admit_pod api request maximum pod s = (Inr r, s')" and finite: "is_finite maximum"
  shows "meets_policy (snd s') (cr_operation_id request) pod" "meets_policy (snd s) (cr_operation_id request) pod"
    and "resource_of (cr_operation_id request) (cr_run_id request) pod = Inr r"
    and "\<exists>cost. po_cost_per_hour pod = Some cost \<and> 0 < dec_val cost \<and> dec_val cost \<le> dec_val maximum"
proof -
  let ?op = "cr_operation_id request"
  obtain cost ps where c: "po_cost_per_hour pod = Some cost" "\<not> dec_lt maximum cost" "meets_policy (snd s) ?op pod"
    "persist_operation_text ?op ''resource-id'' (po_id pod) (snd s) = Inr ps" "snd s' = ps"
    "resource_of ?op (cr_run_id request) pod = Inr r"
    using assms(1) by (auto simp: admit_pod_def Let_def bindW_eq_Inr checked_observation_accepts
        split: option.splits if_splits sum.splits)
  then show "meets_policy (snd s) ?op pod" "resource_of ?op (cr_run_id request) pod = Inr r" by simp_all
  show "meets_policy (snd s') ?op pod" using c meets_policy_kept [OF persist_text(1) [OF c(4)]] by simp
  have "is_finite cost" "0 < dec_val cost" using c(1,3) by (auto simp: meets_policy_def)
  then show "\<exists>cost. po_cost_per_hour pod = Some cost \<and> 0 < dec_val cost \<and> dec_val cost \<le> dec_val maximum"
    using c(1,2) finite by (simp add: dec_lt_iff)
qed

lemma admit_pod_world: "admit_pod api request maximum pod s = (Inr r, s') \<Longrightarrow> fst s' = fst s"
  by (auto simp: admit_pod_def Let_def bindW_eq_Inr checked_observation_accepts split: option.splits if_splits sum.splits)

text \<open>Everything that is refused before the client is called is a protocol error.\<close>

definition protocol :: "provider_exn \<Rightarrow> bool" where
  "protocol e \<longleftrightarrow> (\<exists>m. e = ProtocolError m)"

lemma protocol_error [simp]: "protocol (ProtocolError m)"
  by (simp add: protocol_def)

lemma read_fails:
  "read_operation_text ps op name = Inl e \<Longrightarrow> protocol e"
  "required_decimal key v = Inl e \<Longrightarrow> protocol e"
  by (auto simp: read_operation_text_def required_decimal_def split: option.splits if_splits)

lemma read_maximum_rate_fails: "read_maximum_rate ps op = Inl e \<Longrightarrow> protocol e"
  by (auto simp: read_maximum_rate_def read_fails(2) split: option.splits)

lemma persist_fails:
  "persist_operation_text op name v ps = Inl e \<Longrightarrow> protocol e"
  "persist_maximum_rate op maximum ps = Inl e \<Longrightarrow> protocol e"
  "volume_key_of fresh op ps = Inl e \<Longrightarrow> protocol e"
  using read_fails(1) read_maximum_rate_fails
  by (auto simp: persist_operation_text_def persist_maximum_rate_def volume_key_of_def bindR_eq_Inl
      split: option.splits if_splits)

lemma persist_all_fails:
  "(\<And>step ps e. step \<in> set steps \<Longrightarrow> step ps = Inl e \<Longrightarrow> protocol e) \<Longrightarrow>
     persist_all steps ps = (Inl e, ps') \<Longrightarrow> protocol e"
proof (induction steps arbitrary: ps)
  case (Cons step steps)
  show ?case
  proof (cases "step ps")
    case (Inl e') then show ?thesis using Cons.prems(2) Cons.prems(1) [of step ps e'] by (simp add: kept_def)
  next
    case (Inr ps1)
    then have "persist_all steps ps1 = (Inl e, ps')" using Cons.prems(2) by (simp add: kept_def)
    then show ?thesis by (rule Cons.IH [rotated]) (blast intro: Cons.prems(1) list.set_intros(2))
  qed
qed simp

lemma persist_admission_fails: "persist_admission request q maximum ps = (Inl e, ps') \<Longrightarrow> protocol e"
  unfolding persist_admission_def Let_def
  by (erule persist_all_fails [rotated]) (auto simp: persist_fails split: option.splits)

lemma spec_fails:
  "spec_string spec key = Inl e \<Longrightarrow> protocol e"
  "positive_integer spec key = Inl e \<Longrightarrow> protocol e"
  by (auto simp: spec_string_def positive_integer_def split: option.splits if_splits)

lemma string_tuple_fails: "string_tuple v name = Inl e \<Longrightarrow> protocol e"
  by (auto simp: string_tuple_def spec_error_def dest!: mapR_fails split: option.splits if_splits)

lemma string_mapping_fails: "string_mapping v name = Inl e \<Longrightarrow> protocol e"
  by (auto simp: string_mapping_def spec_error_def dest!: mapR_fails split: option.splits if_splits)

lemma storage_of_fails: "storage_of spec = Inl e \<Longrightarrow> protocol e"
  using spec_fails by (auto simp: storage_of_def bindR_eq_Inl split: if_splits)

lemma pod_request_of_fails: "pod_request_of request = Inl e \<Longrightarrow> protocol e"
  using spec_fails string_tuple_fails string_mapping_fails storage_of_fails
  by (auto simp: pod_request_of_def Let_def bindR_eq_Inl split: prod.splits)

text \<open>The steps of a create up to the call of the client.\<close>

lemma cloud_create_steps:
  assumes "cloud_create api fresh request s = (out, s')"
  obtains (refused) e where "out = Inl e" "protocol e" "fst s' = fst s"
  | (asked) q maximum ps u where "pod_request_of request = Inr q"
    "required_decimal ''max_hourly_rate_usd'' (get (cr_spec request) ''max_hourly_rate_usd'') = Inr maximum"
    "persist_admission request q maximum (snd s) = (Inr u, ps)"
    "bindW (ask_for_pod api (fresh (cr_operation_id request)) (cr_operation_id request) q (fst s, ps))
       (admit_pod api request maximum) = (out, s')"
proof (cases "pod_request_of request")
  case (Inl e)
  then show thesis using assms refused [of e] pod_request_of_fails by (simp add: cloud_create_def)
next
  case q: (Inr q)
  show thesis
  proof (cases "required_decimal ''max_hourly_rate_usd'' (get (cr_spec request) ''max_hourly_rate_usd'')")
    case (Inl e)
    then show thesis using assms q refused [of e] read_fails(2) by (simp add: cloud_create_def)
  next
    case m: (Inr maximum)
    obtain r ps where p: "persist_admission request q maximum (snd s) = (r, ps)" by fastforce
    show thesis
    proof (cases r)
      case (Inl e)
      then show thesis using assms q m p refused [of e] persist_admission_fails by (auto simp: cloud_create_def)
    next
      case (Inr u)
      then show thesis using assms q m p asked by (simp add: cloud_create_def)
    qed
  qed
qed

lemma created_rests:
  assumes "cloud_create api fresh request s = (Inr r, s')"
  shows "\<exists>pod. created api pod (fst s) (fst s') \<and> rests_on (snd s') pod r \<and>
    res_create_operation_id r = cr_operation_id request"
  using assms
proof (cases rule: cloud_create_steps)
  case (asked q maximum ps u)
  let ?op = "cr_operation_id request"
  obtain pod s1 where p: "ask_for_pod api (fresh ?op) ?op q (fst s, ps) = (Inr pod, s1)"
    "admit_pod api request maximum pod s1 = (Inr r, s')"
    using asked(4) by (auto simp: bindW_eq_Inr)
  note d = admit_pod_accepts [OF p(2) required_decimal_finite [OF asked(2)]]
  have "created api pod (fst s) (fst s')" using ask_for_pod_accepts(1) [OF p(1)] admit_pod_world [OF p(2)] by simp
  then show ?thesis using resource_of_rests [OF d(3,1)] by blast
qed simp

context pod_service
begin

lemma delete_rejected_pod_result:
  assumes "delete_rejected_pod api i m s = (Inl e, s')"
  shows "\<exists>m' v r. e = Rejected m' (Some i) [] \<and> a_delete api i v = (r, fst s')"
  using assms delete_fails [of i "fst s"]
  by (fastforce simp: delete_rejected_pod_def split: prod.splits sum.splits if_splits)

lemma rejected_pod_honest:
  "delete_rejected_pod api i m s = (Inl e, s') \<Longrightarrow> honest_failure api op w e (fst s')"
  by (drule delete_rejected_pod_result, elim exE conjE, simp add: honest_failure_def, rule exI, rule exI, assumption)

lemma asking_fails:
  assumes "ask_for_pod api fresh op q s = (Inl e, s')"
  shows "honest_failure api op (fst s) e (fst s')"
proof -
  have call: "honest_failure api op w (as_create_failure op e') w'"
    if "(\<exists>m. e' = Cloud_unknown m) \<or> (\<exists>m. e' \<in> {Cloud_value m, Cloud_security m None} \<and> w' = w) \<or>
      (\<exists>m i v r. e' = Cloud_security m (Some i) \<and> a_delete api i v = (r, w'))" for e' w w'
    using that by (fastforce simp: honest_failure_def as_create_failure_def)
  show ?thesis
  proof (cases "pc_network_volume_id q")
    case (Some v)
    then obtain e' where "e = as_create_failure op e'" "a_create_network api q (fst s) = (Inl e', fst s')"
      using assms by (auto simp: ask_for_pod_def on_cloud_result)
    then show ?thesis using call [OF network_fails] by simp
  next
    case None
    show ?thesis
    proof (cases "volume_key_of fresh op (snd s)")
      case (Inl e')
      then have "e = e'" "fst s' = fst s" "protocol e'"
        using assms None persist_fails(3) by (auto simp: ask_for_pod_def)
      then show ?thesis by (auto simp: honest_failure_def protocol_def)
    next
      case (Inr kp)
      then obtain e' where "e = as_create_failure op e'" "a_create_encrypted api q (fst kp) (fst s) = (Inl e', fst s')"
        using assms None by (cases kp) (auto simp: ask_for_pod_def on_cloud_result)
      then show ?thesis using call [OF encrypted_fails] by simp
    qed
  qed
qed

text \<open>A pod that was created and is not admitted is deleted, or its id cannot be kept.\<close>

lemma admitting_fails:
  assumes a: "admit_pod api request maximum pod s = (Inl e, s')"
    and p: "policy_recorded (snd s) (cr_operation_id request) maximum q"
    and fresh: "policy_file (snd s) (cr_operation_id request) ''resource-id'' = None"
    and made: "created api pod w (fst s)" and run: "cr_run_id request \<noteq> []"
  shows "honest_failure api (cr_operation_id request) w e (fst s')"
proof -
  let ?op = "cr_operation_id request"
  show ?thesis
  proof (cases "po_cost_per_hour pod")
    case None
    then show ?thesis using a rejected_pod_honest by (simp add: admit_pod_def)
  next
    case cost: (Some cost)
    show ?thesis
    proof (cases "dec_lt maximum cost")
      case True
      then show ?thesis using a rejected_pod_honest cost by (simp add: admit_pod_def)
    next
      case False
      obtain v where v: "policy_violation (snd s) ?op pod = Inr v" using policy_recorded_decides [OF p] ..
      show ?thesis
      proof (cases v)
        case (Some m)
        then have "(delete_rejected_pod api (po_id pod) m s :: (provider_exn + pod_observation) \<times> _) = (Inl e, s')"
          using a cost False v by (auto simp: admit_pod_def Let_def checked_observation_def bindW_eq_Inl)
        then show ?thesis by (rule rejected_pod_honest)
      next
        case None
        have "\<not> recordable (po_id pod)"
        proof
          assume "recordable (po_id pod)"
          then obtain ps where "persist_operation_text ?op ''resource-id'' (po_id pod) (snd s) = Inr ps"
            using fresh by (simp add: persist_operation_text_def recordable_def)
          then show False using a cost False v None run
            by (simp add: admit_pod_def Let_def checked_observation_def resource_of_def)
        qed
        moreover have "protocol e" "fst s' = fst s"
          using a cost False v None run persist_fails(1)
          by (auto simp: admit_pod_def Let_def checked_observation_def resource_of_def split: sum.splits)
        ultimately show ?thesis using made by (auto simp: honest_failure_def protocol_def)
      qed
    qed
  qed
qed

lemma create_fails_honestly:
  assumes c: "cloud_create api fresh request s = (Inl e, s')"
    and image: "\<And>image. as_str (get (cr_spec request) ''image'') = Some image \<Longrightarrow> strip image \<noteq> []"
    and new: "policy_file (snd s) (cr_operation_id request) ''resource-id'' = None"
  shows "honest_failure api (cr_operation_id request) (fst s) e (fst s')"
  using c
proof (cases rule: cloud_create_steps)
  case (refused e')
  then show ?thesis by (auto simp: honest_failure_def protocol_def)
next
  case (asked q maximum ps u)
  let ?op = "cr_operation_id request"
  have fine: "strip (pc_image q) \<noteq> []" using image pod_request_of_fields(1) [OF asked(1)] .
  have volume: "strip v \<noteq> []" if "pc_network_volume_id q = Some v" for v
    using pod_request_of_fields(2) [OF asked(1)] storage_of_volume that by simp
  note m = required_decimal_finite [OF asked(2)] required_decimal_positive [OF asked(2)]
  note recorded = persist_admission_records [OF asked(3) m fine volume]
  show ?thesis
  proof -
    obtain r s1 where Pair: "ask_for_pod api (fresh ?op) ?op q (fst s, ps) = (r, s1)" by (metis surj_pair)
    show ?thesis
    proof (cases r)
      case (Inl e')
      then show ?thesis using asked(4) asking_fails [of "fresh ?op" ?op q "(fst s, ps)" e' s1] Pair by simp
    next
      case (Inr pod)
      note a = ask_for_pod_accepts [OF Pair [unfolded Inr]]
      have "policy_recorded (snd s1) ?op maximum q" using recorded(1) policy_recorded_kept [OF a(3)] by simp
      moreover have "policy_file (snd s1) ?op ''resource-id'' = None"
        using kept_reads(1) [OF a(3), of "''resource-id''" ?op] recorded(3) new by simp
      moreover have "admit_pod api request maximum pod s1 = (Inl e, s')" using asked(4) Pair Inr by simp
      ultimately show ?thesis using admitting_fails [OF _ _ _ a(1) [unfolded fst_conv] recorded(2)] by blast
    qed
  qed
qed

lemma create_admits:
  assumes c: "cloud_create api fresh request s = (Inr r, s')"
    and image: "\<And>image. as_str (get (cr_spec request) ''image'') = Some image \<Longrightarrow> strip image \<noteq> []"
  shows "\<exists>q k pod. pod_request_of request = Inr q \<and>
    (if pc_network_volume_id q = None then a_create_encrypted api q k (fst s) = (Inr pod, fst s')
     else a_create_network api q (fst s) = (Inr pod, fst s')) \<and>
    as_specified (cr_spec request) pod \<and> meets_policy (snd s') (cr_operation_id request) pod \<and>
    resource_of (cr_operation_id request) (cr_run_id request) pod = Inr r"
  using c
proof (cases rule: cloud_create_steps)
  case (asked q maximum ps u)
  let ?op = "cr_operation_id request"
  have fine: "strip (pc_image q) \<noteq> []" using image pod_request_of_fields(1) [OF asked(1)] .
  have volume: "strip v \<noteq> []" if "pc_network_volume_id q = Some v" for v
    using pod_request_of_fields(2) [OF asked(1)] storage_of_volume that by simp
  note m = required_decimal_finite [OF asked(2)] required_decimal_positive [OF asked(2)]
  obtain pod s1 where p: "ask_for_pod api (fresh ?op) ?op q (fst s, ps) = (Inr pod, s1)"
    "admit_pod api request maximum pod s1 = (Inr r, s')"
    using asked(4) by (auto simp: bindW_eq_Inr)
  note a = ask_for_pod_accepts [OF p(1)] and d = admit_pod_accepts [OF p(2) m(1)]
  have "policy_recorded (snd s1) ?op maximum q"
    using persist_admission_records(1) [OF asked(3) m fine volume] policy_recorded_kept [OF a(3)] by simp
  then have "po_image pod = Some (strip (pc_image q))" using d(2) by (auto simp: policy_recorded_def meets_policy_def)
  moreover have "if dget (cr_spec request) ''network_volume_id'' \<noteq> None
      then po_network_volume_id pod = as_str (get (cr_spec request) ''network_volume_id'')
      else po_volume_encrypted pod = Some True"
    using a(2) network_ok encrypted_ok pod_request_of_fields(2) [OF asked(1)]
    by (fastforce simp: storage_of_def bindR_eq_Inr spec_string_def split: if_splits option.splits)
  ultimately have "as_specified (cr_spec request) pod"
    using d(4) asked(2) pod_request_of_fields(1) [OF asked(1)] by (auto simp: as_specified_def)
  moreover have "fst s' = fst s1" by (rule admit_pod_world [OF p(2)])
  then have "\<exists>k. if pc_network_volume_id q = None then a_create_encrypted api q k (fst s) = (Inr pod, fst s')
     else a_create_network api q (fst s) = (Inr pod, fst s')"
    using a(2) by auto
  ultimately show ?thesis using d asked(1) by blast
qed simp

end

end
