(* ===== verification/CloudClaims.thy ===== *)
theory CloudClaims
  imports CloudProps
begin

text \<open>
  The properties of the RunPod adapter and client that the development states, and a session with a small service on
  which they are evaluated.
\<close>

text \<open>
  C9: whichever way the adapter returns a resource to the lifecycle, by looking it up, starting it, searching for it
  or creating it, it reports a pod of the very answer the service gave, and that pod meets the policy recorded on disk
  for its create operation: a positive rate within the admitted maximum, the admitted image, and the admitted
  storage.  A search and a create answer for the operation they were asked about.
\<close>

theorem accepted_pod_meets_policy:
  "(\<forall>i. cloud_get api i s = (Inr (Some r), s') \<longrightarrow>
      (\<exists>pod. a_get api i (fst s) = (Inr (Some pod), fst s') \<and> rests_on (snd s') pod r)) \<and>
   (\<forall>i op. cloud_start api i op s = (Inr r, s') \<longrightarrow>
      (\<exists>pod. a_start api i (fst s) = (Inr pod, fst s') \<and> rests_on (snd s') pod r)) \<and>
   (\<forall>op rs. cloud_find api op s = (Inr rs, s') \<and> r \<in> set rs \<longrightarrow>
      (\<exists>pods pod. a_list api (fst s) = (Inr pods, fst s') \<and> pod \<in> set pods \<and> rests_on (snd s') pod r \<and>
         res_create_operation_id r = op)) \<and>
   (\<forall>request fresh. cloud_create api fresh request s = (Inr r, s') \<longrightarrow>
      (\<exists>pod. created api pod (fst s) (fst s') \<and> rests_on (snd s') pod r \<and>
         res_create_operation_id r = cr_operation_id request))"
proof -
  have "\<exists>pod. a_get api i (fst s) = (Inr (Some pod), fst s') \<and> rests_on (snd s') pod r"
    if "cloud_get api i s = (Inr (Some r), s')" for i
    using that
    by (auto simp: cloud_get_def bindW_eq_Inr on_cloud_result dest!: observed_resource_rests split: option.splits)
  moreover have "\<exists>pod. a_start api i (fst s) = (Inr pod, fst s') \<and> rests_on (snd s') pod r"
    if "cloud_start api i op s = (Inr r, s')" for i op
    using that by (auto simp: cloud_start_def bindW_eq_Inr on_cloud_result dest!: observed_resource_rests)
  moreover have "\<exists>pod. created api pod (fst s) (fst s') \<and> rests_on (snd s') pod r \<and>
      res_create_operation_id r = cr_operation_id request"
    if "cloud_create api fresh request s = (Inr r, s')" for request fresh
    by (rule created_rests [OF that])
  ultimately show ?thesis using find_rests by blast
qed

text \<open>
  C15: a create over HTTP that returns a resource reports the pod that its create call was answered with, and that pod
  is the one the specification asks for: at a positive rate within its maximum, of its image, on its network volume or
  on an encrypted volume of its own, under the run and the operation of the request.  The image of the specification
  is not blank.
\<close>

theorem created_pod_as_specified:
  assumes "cloud_create (runpod_http cl op) fresh request s = (Inr r, s')"
    and "\<And>image. as_str (get (cr_spec request) ''image'') = Some image \<Longrightarrow> strip image \<noteq> []"
  shows "\<exists>q k pod. pod_request_of request = Inr q \<and>
    (if pc_network_volume_id q = None then create_encrypted_pod cl op q k (fst s) = (Inr pod, fst s')
     else create_network_volume_pod cl op q (fst s) = (Inr pod, fst s')) \<and>
    as_specified (cr_spec request) pod \<and> meets_policy (snd s') (cr_operation_id request) pod \<and>
    resource_of (cr_operation_id request) (cr_run_id request) pod = Inr r"
  using http.create_admits [OF assms] by (simp only: runpod_http_def pod_api.select_convs)


text \<open>
  C16: every pod that a call of the client returns is well formed, whatever the service answers: its rate, when there is
  one, is a finite amount that is not negative, and its network volume, when there is one, has a name; a created pod
  also has the storage it was asked for, and the spend is a finite amount that is not negative.
\<close>

theorem client_results_well_formed:
  "(\<forall>pods. fst (list_pods cl op w) = Inr pods \<longrightarrow> list_all observation_ok pods) \<and>
   (\<forall>pod. fst (get_pod cl op i w) = Inr (Some pod) \<or> fst (start_pod cl op i w) = Inr pod \<longrightarrow> observation_ok pod) \<and>
   (\<forall>pod. fst (create_encrypted_pod cl op q k w) = Inr pod \<longrightarrow>
      observation_ok pod \<and> po_volume_encrypted pod = Some True) \<and>
   (\<forall>pod. fst (create_network_volume_pod cl op q w) = Inr pod \<longrightarrow>
      observation_ok pod \<and> po_network_volume_id pod = pc_network_volume_id q) \<and>
   (\<forall>d. fst (current_spend_per_hour cl op w) = Inr d \<longrightarrow> finite_money d)"
proof -
  have "list_all observation_ok pods" if "fst (list_pods cl op w) = Inr pods" for pods
    using http.list_ok [of cl op w pods "snd (list_pods cl op w)"] that
    by (cases "list_pods cl op w") (simp add: runpod_http_def)
  moreover have "observation_ok pod" if "fst (get_pod cl op i w) = Inr (Some pod)" for pod
    using http.get_ok [of cl op i w pod "snd (get_pod cl op i w)"] that
    by (cases "get_pod cl op i w") (simp add: runpod_http_def)
  moreover have "observation_ok pod" if "fst (start_pod cl op i w) = Inr pod" for pod
    using http.start_ok [of cl op i w pod "snd (start_pod cl op i w)"] that
    by (cases "start_pod cl op i w") (simp add: runpod_http_def)
  moreover have "observation_ok pod \<and> po_volume_encrypted pod = Some True"
    if "fst (create_encrypted_pod cl op q k w) = Inr pod" for pod
    using http.encrypted_ok [of cl op q k w pod "snd (create_encrypted_pod cl op q k w)"] that
    by (cases "create_encrypted_pod cl op q k w") (simp add: runpod_http_def)
  moreover have "observation_ok pod \<and> po_network_volume_id pod = pc_network_volume_id q"
    if "fst (create_network_volume_pod cl op q w) = Inr pod" for pod
    using http.network_ok [of cl op q w pod "snd (create_network_volume_pod cl op q w)"] that
    by (cases "create_network_volume_pod cl op q w") (simp add: runpod_http_def)
  moreover have "finite_money d" if "fst (current_spend_per_hour cl op w) = Inr d" for d
    using http.spend_ok [of cl op w d "snd (current_spend_per_hour cl op w)"] that
    by (cases "current_spend_per_hour cl op w") (simp add: runpod_http_def)
  ultimately show ?thesis by blast
qed

section \<open>A session\<close>

definition sample_client :: client where
  "sample_client = \<lparr>cl_key = ''k'', cl_decode = Decoded, cl_float = (\<lambda>_. NotANumber), cl_repr = (\<lambda>_. ''nan'')\<rparr>"

definition sample_pod :: "string \<Rightarrow> string" where
  "sample_pod cost =
     ''{\"id\":\"p\",\"name\":\"n\",\"imageName\":\"im\",\"volumeEncrypted\":true,\"costPerHr\":'' @ cost @ ''}''"

definition sample_spec :: pydict where
  "sample_spec = [(''image'', PStr ''im''), (''gpu_type_id'', PStr ''g''), (''gpu_count'', PInt 1),
     (''container_disk_gb'', PInt 5), (''volume_gb'', PInt 5), (''volume_mount_path'', PStr ''/w''),
     (''ports'', PList []), (''terminate_at'', PStr ''t''), (''max_hourly_rate_usd'', PStr ''2'')]"

definition sample_request :: provider_create_request where
  "sample_request = \<lparr>cr_run_id = ''r'', cr_operation_id = ''o'', cr_resource_name = ''n'', cr_spec = sample_spec\<rparr>"

definition sample_pod_request :: create_pod_request where
  "sample_pod_request = \<lparr>pc_name = ''n'', pc_image = ''im'', pc_gpu_type_id = ''g'', pc_gpu_count = 1,
     pc_container_disk_gb = 5, pc_volume_gb = Some 5, pc_volume_mount_path = ''/w'', pc_ports = [],
     pc_environment = [], pc_terminate_at = ''t'', pc_network_volume_id = None, pc_cloud_type = ''SECURE''\<rparr>"

text \<open>
  A service that counts its requests and answers a create with a pod, one whose pod costs more than was admitted, and
  one that does not answer.
\<close>

definition willing :: "nat opener" where
  "willing request n = (Http_body (''{\"data\":{\"podFindAndDeployOnDemand\":'' @ sample_pod ''1'' @ ''}}''), Suc n)"


definition silent :: "nat opener" where
  "silent request n = (Http_failed ''TimeoutError'', Suc n)"

definition created_resource :: provider_resource where
  "created_resource = \<lparr>res_id = ''p'', res_run_id = ''r'', res_create_operation_id = ''o'', res_name = ''n'',
     res_state = Pod_PROVISIONED, res_hourly_rate_usd = Dec 1 0\<rparr>"

abbreviation sample_create :: "nat opener \<Rightarrow> (provider_exn + provider_resource) \<times> nat site" where
  "sample_create op \<equiv> cloud_create (runpod_http sample_client op) (\<lambda>_. ''key'') sample_request (0, [])"

lemma sample_create_willing: "fst (sample_create willing) = Inr created_resource"
  by code_simp


lemma sample_create_silent: "sample_create silent = (Inl (OutcomeUnknown ''provision'' ''o''), (1, snd (snd (sample_create silent))))"
  by code_simp

lemma sample_image: "as_str (get (cr_spec sample_request) ''image'') = Some im \<Longrightarrow> strip im \<noteq> []"
proof -
  have "as_str (get (cr_spec sample_request) ''image'') = Some ''im''" "strip ''im'' \<noteq> []" by code_simp+
  then show "as_str (get (cr_spec sample_request) ''image'') = Some im \<Longrightarrow> strip im \<noteq> []" by simp
qed

theorem accepted_pod_meets_policy_witness:
  "\<exists>pod. created (runpod_http sample_client willing) pod 0 (fst (snd (sample_create willing))) \<and>
     rests_on (snd (snd (sample_create willing))) pod created_resource"
proof -
  have "sample_create willing = (Inr created_resource, snd (sample_create willing))"
    by (metis sample_create_willing prod.collapse)
  then show ?thesis
    using accepted_pod_meets_policy [of "runpod_http sample_client willing" "(0, [])" created_resource
        "snd (sample_create willing)"]
    by (metis fst_conv)
qed

theorem created_pod_as_specified_witness:
  "\<exists>q k pod. pod_request_of sample_request = Inr q \<and>
     (if pc_network_volume_id q = None
      then create_encrypted_pod sample_client willing q k 0 = (Inr pod, fst (snd (sample_create willing)))
      else create_network_volume_pod sample_client willing q 0 = (Inr pod, fst (snd (sample_create willing)))) \<and>
     as_specified sample_spec pod \<and> meets_policy (snd (snd (sample_create willing))) ''o'' pod \<and>
     resource_of ''o'' ''r'' pod = Inr created_resource"
proof -
  have "sample_create willing = (Inr created_resource, snd (sample_create willing))"
    by (metis sample_create_willing prod.collapse)
  from created_pod_as_specified [OF this sample_image] show ?thesis
    by (simp only: sample_request_def provider_create_request.select_convs fst_conv)
qed


theorem client_results_well_formed_witness:
  "\<exists>pod. fst (create_encrypted_pod sample_client willing sample_pod_request ''key'' 0) = Inr pod \<and>
     observation_ok pod \<and> po_volume_encrypted pod = Some True"
proof -
  have "\<not> isl (fst (create_encrypted_pod sample_client willing sample_pod_request ''key'' 0))" by code_simp
  then obtain pod where pod: "fst (create_encrypted_pod sample_client willing sample_pod_request ''key'' 0) = Inr pod"
    by (cases "fst (create_encrypted_pod sample_client willing sample_pod_request ''key'' 0)") auto
  then show ?thesis
    using client_results_well_formed [of sample_client willing 0 "''p''" sample_pod_request "''key''"] by blast
qed

end
