(* ===== verification/Transfers.thy ===== *)
theory Transfers
  imports Artifacts
begin

text \<open>
  \<open>transfer.py\<close>: manifests, the local transfer, and \<open>RcloneSFTP\<close>.  The \<open>rclone\<close> process is a parameter: a function
  from a command line and the text of its \<open>--files-from-raw\<close> list to what it answers, its destination directory
  included.  Whatever it answers, a download that returns has delivered exactly the declared files, and a
  discovery that returns has found a bounded number of distinct, confined paths that match the glob.

  A directory is a tree of \<open>node\<close>s: the one its path resolves to.  Temporary names (process and uuid) are erased.
\<close>

section \<open>Manifests\<close>

record declared =
  de_path :: posix_path
  de_size :: int
  de_sha256 :: string

record transfer_receipt =
  tr_files :: int
  tr_bytes :: int

record remote_file =
  rf_path :: string
  rf_size :: int
  rf_modified_at :: string

record content_receipt =
  cr_path :: string
  cr_size :: int
  cr_sha256 :: string

definition transfer_error :: "string \<Rightarrow> exn + 'a" where
  "transfer_error m = Inl (TransferError m)"

definition transfer_unavailable :: "string \<Rightarrow> exn + 'a" where
  "transfer_unavailable m = Inl (TransferUnavailable m)"

definition declare_entry :: "declared list \<Rightarrow> pydict \<Rightarrow> exn + declared list" where
  "declare_entry seen raw =
     (let malformed = transfer_error ''manifest entry is malformed'' in
      case as_str (get raw ''path'') of None \<Rightarrow> malformed
      | Some v \<Rightarrow>
          (case as_int (get raw ''size'') of None \<Rightarrow> malformed
           | Some n \<Rightarrow>
               (case as_str (get raw ''sha256'') of None \<Rightarrow> malformed
                | Some expected \<Rightarrow>
                    let p = pure_posix_path v in
                    if n < 0 \<or> length expected \<noteq> 64 \<or> \<not> list_all is_hex expected then malformed
                    else if is_absolute p \<or> v = [] \<or> ''..'' \<in> set (path_parts p) \<or> ''.'' \<in> set (path_parts p) \<or> as_posix p \<noteq> v
                    then transfer_error (''unsafe manifest path: '' @ v)
                    else if v \<in> set (map (as_posix \<circ> de_path) seen)
                    then transfer_error (''duplicate manifest path: '' @ v)
                    else Inr (seen @ [\<lparr>de_path = p, de_size = n, de_sha256 = expected\<rparr>]))))"

definition validated_manifest_entries :: "pydict list \<Rightarrow> exn + declared list" where
  "validated_manifest_entries manifest = foldR declare_entry [] manifest"

definition check_entry :: "(string \<Rightarrow> string) \<Rightarrow> node \<Rightarrow> declared \<Rightarrow> exn + string" where
  "check_entry sha tree e =
     (let v = as_posix (de_path e) in
      case find_node tree (path_parts (de_path e)) of
        Through_symlink \<Rightarrow> transfer_error (''manifest path is a symlink: '' @ v)
      | Found (Regular bytes) \<Rightarrow>
          if int (length bytes) \<noteq> de_size e then transfer_error (''manifest size mismatch: '' @ v)
          else if sha bytes \<noteq> de_sha256 e then transfer_error (''manifest hash mismatch: '' @ v)
          else Inr bytes
      | _ \<Rightarrow> transfer_error (''manifest path is not a regular file: '' @ v))"

definition validated_entries :: "(string \<Rightarrow> string) \<Rightarrow> node \<Rightarrow> pydict list \<Rightarrow> exn + (declared \<times> string) list" where
  "validated_entries sha tree manifest =
     bindR (validated_manifest_entries manifest) (mapR (\<lambda>e. bindR (check_entry sha tree e) (\<lambda>bytes. Inr (e, bytes))))"

definition receipt_of :: "declared list \<Rightarrow> transfer_receipt" where
  "receipt_of entries = \<lparr>tr_files = int (length entries), tr_bytes = sum_list (map de_size entries)\<rparr>"

section \<open>Storing a file\<close>

text \<open>
  Making the directories above a file and renaming a temporary file onto it, where no path leads through a symbolic
  link; \<open>None\<close> is an \<open>OSError\<close>.  The mirror and the executor, which refuse links before they write, store this way.
\<close>

fun store_file :: "string list \<Rightarrow> string \<Rightarrow> node \<Rightarrow> node option" where
  "store_file (p # ps) bytes (Directory es) =
     (if ps = [] then (case dget es p of Some (Directory _) \<Rightarrow> None | _ \<Rightarrow> Some (Directory (dput p (Regular bytes) es)))
      else map_option (\<lambda>n. Directory (dput p n es))
        (store_file ps bytes (case dget es p of None \<Rightarrow> Directory [] | Some n \<Rightarrow> n)))"
| "store_file ps bytes n = None"

section \<open>The local transfer\<close>


definition partial_name :: "string \<Rightarrow> string \<Rightarrow> string" where
  "partial_name pid name = ''.'' @ name @ ''.partial-'' @ pid"





section \<open>RcloneSFTP\<close>

record connection =
  cn_host :: string
  cn_port :: int
  cn_user :: string
  cn_key :: string
  cn_known_hosts :: string

record answer =
  an_timeout :: bool
  an_code :: int
  an_out :: string
  an_err :: string
  an_tree :: node

type_synonym rclone = "string list \<Rightarrow> string \<Rightarrow> answer"

definition connection_arguments :: "connection \<Rightarrow> string list" where
  "connection_arguments cn =
     [''--sftp-host'', cn_host cn, ''--sftp-port'', show_int (cn_port cn), ''--sftp-user'', cn_user cn,
      ''--sftp-key-file'', cn_key cn, ''--sftp-known-hosts-file'', cn_known_hosts cn]"

definition sftp_path :: "string \<Rightarrow> string" where
  "sftp_path s = '':sftp:'' @ as_posix (pure_posix_path s)"

definition file_list :: "declared list \<Rightarrow> string" where
  "file_list entries = concat (map (\<lambda>e. as_posix (de_path e) @ [newline]) entries)"

text \<open>The name of the temporary list stands for itself in the command lines.\<close>

definition upload :: "connection \<Rightarrow> rclone \<Rightarrow> (string \<Rightarrow> string) \<Rightarrow> string \<Rightarrow> node \<Rightarrow> string \<Rightarrow> pydict list \<Rightarrow> exn + transfer_receipt" where
  "upload cn run sha source_root source destination_root manifest =
     bindR (validated_entries sha source manifest) (\<lambda>checked.
       let entries = map fst checked;
           a = run ([''rclone'', ''copy'', source_root, sftp_path destination_root] @ connection_arguments cn @
                    [''--files-from-raw'', ''file_list'', ''--checksum'']) (file_list entries)
       in if an_code a \<noteq> 0 then transfer_unavailable ''rclone SFTP outcome unknown; reconciliation required''
          else Inr (receipt_of entries))"

text \<open>The source file as \<open>stat\<close> sees it, with its size, times and inode.\<close>

type_synonym file_identity = "int \<times> int \<times> int \<times> int"

definition validated_atomic_source :: "(string \<Rightarrow> string) \<Rightarrow> node option \<Rightarrow> int \<Rightarrow> string \<Rightarrow> exn + unit" where
  "validated_atomic_source sha source n sha256 =
     (if n < 0 \<or> \<not> is_sha256 sha256 then transfer_error ''atomic publication receipt is malformed''
      else case source of
        None \<Rightarrow> transfer_error ''atomic publication source is unavailable''
      | Some (Regular bytes) \<Rightarrow>
          if int (length bytes) \<noteq> n then transfer_error ''atomic publication source size mismatch''
          else if sha bytes \<noteq> sha256 then transfer_error ''atomic publication source hash mismatch''
          else Inr ()
      | Some _ \<Rightarrow> transfer_error ''atomic publication source is not a regular file'')"

text \<open>\<open>path.with_name\<close>.\<close>

definition with_name :: "posix_path \<Rightarrow> string \<Rightarrow> posix_path" where
  "with_name p name = p\<lparr>pp_tail := butlast (pp_tail p) @ [name]\<rparr>"

definition publish_atomic ::
  "connection \<Rightarrow> rclone \<Rightarrow> (string \<Rightarrow> string) \<Rightarrow> string \<Rightarrow> string \<Rightarrow> node option \<Rightarrow> file_identity \<Rightarrow> file_identity option \<Rightarrow>
     string \<Rightarrow> int \<Rightarrow> string \<Rightarrow> exn + transfer_receipt" where
  "publish_atomic cn run sha uuid source_path source before after destination_file n sha256 =
     bindR (validated_atomic_source sha source n sha256) (\<lambda>_.
     bindR (safe_remote_absolute_file destination_file) (\<lambda>destination.
       let staging = '':sftp:'' @ as_posix (with_name destination (''.'' @ path_name destination @ ''.partial-'' @ uuid));
           copied = run ([''rclone'', ''copyto'', source_path, staging] @ connection_arguments cn @ [''--checksum'']) []
       in if an_code copied \<noteq> 0 then transfer_unavailable ''atomic SFTP staging outcome unknown; retry required''
          else if after \<noteq> Some before
          then transfer_unavailable ''atomic publication source changed during transfer''
          else
            let moved = run ([''rclone'', ''moveto'', staging, '':sftp:'' @ as_posix destination] @ connection_arguments cn) []
            in if an_code moved \<noteq> 0 then transfer_unavailable ''atomic SFTP publication outcome unknown; reconcile status''
               else Inr \<lparr>tr_files = 1, tr_bytes = n\<rparr>))"

definition download ::
  "connection \<Rightarrow> rclone \<Rightarrow> (string \<Rightarrow> string) \<Rightarrow> string \<Rightarrow> string \<Rightarrow> node \<Rightarrow> pydict list \<Rightarrow> (exn + transfer_receipt) \<times> node" where
  "download cn run sha source_root destination_root destination manifest =
     (case validated_manifest_entries manifest of
        Inl e \<Rightarrow> (Inl e, destination)
      | Inr entries \<Rightarrow>
          let a = run ([''rclone'', ''copy'', sftp_path source_root, destination_root] @ connection_arguments cn @
                       [''--files-from-raw'', ''file_list'', ''--sftp-skip-links'']) (file_list entries)
          in if an_code a \<noteq> 0
             then (transfer_unavailable ''rclone SFTP outcome unknown; reconciliation required'', an_tree a)
             else (bindR (validated_entries sha (an_tree a) manifest) (\<lambda>received. Inr (receipt_of (map fst received))), an_tree a))"

section \<open>Discovery\<close>

definition positive_discovery_limit :: "int \<Rightarrow> exn + int" where
  "positive_discovery_limit n =
     (if 0 < n \<and> n \<le> 4096 then Inr n else transfer_error ''discovery max_matches must be between 1 and 4096'')"

definition utf8_length :: "string \<Rightarrow> nat" where
  "utf8_length s = sum_list (map (\<lambda>c. if is_ascii c then 1 else 2) s)"

text \<open>\<open>"symlink" in text.lower()\<close>.\<close>

definition lower_char :: "char \<Rightarrow> char" where
  "lower_char c = (if is_upper c then char_of ((of_char c :: nat) + 32) else c)"

definition mentions_symlink :: "string \<Rightarrow> bool" where
  "mentions_symlink err = list_ex (\<lambda>n. prefix ''symlink'' (drop n (map lower_char err))) [0..<length err]"

definition discover_item :: "rx \<Rightarrow> int \<Rightarrow> remote_file list \<Rightarrow> pyval \<Rightarrow> exn + remote_file list" where
  "discover_item matcher limit found entry =
     (let malformed = transfer_error ''SFTP discovery entry is malformed'' in
      case as_dict entry of None \<Rightarrow> malformed
      | Some d \<Rightarrow>
          (case as_str (get d ''Path'') of None \<Rightarrow> malformed
           | Some v \<Rightarrow>
               (case as_int (get d ''Size'') of None \<Rightarrow> malformed
                | Some n \<Rightarrow>
                    (case as_str (get d ''ModTime'') of None \<Rightarrow> malformed
                     | Some modified_at \<Rightarrow>
                         if n < 0 \<or> modified_at = [] \<or> get d ''IsDir'' \<noteq> PBool False then malformed
                         else bindR (safe_remote_relative v) (\<lambda>p.
                           let relative = as_posix p in
                           if \<not> fullmatch matcher relative
                           then transfer_error ''SFTP discovery returned a path outside the fixed glob''
                           else if relative \<in> set (map rf_path found)
                           then transfer_error (''SFTP discovery returned duplicate path: '' @ relative)
                           else if limit < int (length found) + 1
                           then transfer_error (''discovery returned more than '' @ show_int limit @ '' matches'')
                           else Inr (found @ [\<lparr>rf_path = relative, rf_size = n, rf_modified_at = modified_at\<rparr>]))))))"

definition discover ::
  "connection \<Rightarrow> rclone \<Rightarrow> (string \<Rightarrow> pyfloat) \<Rightarrow> string \<Rightarrow> string \<Rightarrow> int \<Rightarrow> exn + remote_file list" where
  "discover cn run fl source_root pattern max_matches =
     bindR (discovery_matcher pattern) (\<lambda>matcher.
     bindR (positive_discovery_limit max_matches) (\<lambda>limit.
       let a = run ([''rclone'', ''lsjson'', sftp_path source_root] @ connection_arguments cn @
                    [''--recursive'', ''--files-only'', ''--sftp-skip-links'', ''--include'', pattern, ''--max-depth'', ''32'']) []
       in if an_timeout a then transfer_unavailable ''rclone SFTP listing timed out; retry required''
          else if an_code a \<noteq> 0
          then (if an_code a = 3 then Inr []
                else transfer_unavailable ''rclone SFTP listing outcome unknown; retry required'')
          else if mentions_symlink (an_err a) then transfer_error ''SFTP discovery encountered a symlink''
          else if 4 * 1024 * 1024 < int (utf8_length (an_out a))
          then transfer_error ''SFTP discovery response exceeds the bounded listing size''
          else (case loads fl (an_out a) of
             Inl _ \<Rightarrow> transfer_error ''SFTP discovery returned invalid JSON''
           | Inr raw \<Rightarrow>
               (case as_list raw of
                  None \<Rightarrow> transfer_error ''SFTP discovery did not return an array''
                | Some items \<Rightarrow>
                    bindR (foldR (discover_item matcher limit) [] items) (\<lambda>found. Inr (sort_key rf_path found))))))"

definition validated_remote_file :: "remote_file \<Rightarrow> exn + posix_path" where
  "validated_remote_file f =
     (if rf_size f < 0 \<or> rf_modified_at f = [] then transfer_error ''discovered remote file record is malformed''
      else safe_remote_relative (rf_path f))"

text \<open>A link inside the fresh staging directory leads to no file.\<close>

definition fetch ::
  "connection \<Rightarrow> rclone \<Rightarrow> (string \<Rightarrow> string) \<Rightarrow> string \<Rightarrow> string \<Rightarrow> node \<Rightarrow> remote_file \<Rightarrow> (exn + content_receipt) \<times> node" where
  "fetch cn run sha source_root staging_root destination f =
     (case validated_remote_file f of
        Inl e \<Rightarrow> (Inl e, destination)
      | Inr p \<Rightarrow>
          let relative = as_posix p;
              a = run ([''rclone'', ''copy'', sftp_path source_root, staging_root] @ connection_arguments cn @
                       [''--files-from-raw'', ''file_list'', ''--sftp-skip-links'']) (relative @ [newline])
          in if an_code a \<noteq> 0 then (transfer_unavailable ''rclone SFTP fetch outcome unknown; retry required'', destination)
             else (case find_node (an_tree a) (path_parts p) of
                Found (Regular bytes) \<Rightarrow>
                  if int (length bytes) \<noteq> rf_size f
                  then (transfer_error (''discovered file size changed: '' @ relative), destination)
                  else (case store_file (path_parts p) bytes destination of
                     None \<Rightarrow> (Inl (OSError relative), destination)
                   | Some destination' \<Rightarrow>
                       (Inr \<lparr>cr_path = relative, cr_size = rf_size f, cr_sha256 = sha bytes\<rparr>, destination'))
              | _ \<Rightarrow> (transfer_error (''discovered file is absent or a symlink: '' @ relative), destination)))"

section \<open>What a manifest declares\<close>

definition confined_path :: "posix_path \<Rightarrow> bool" where
  "confined_path p \<longleftrightarrow> \<not> is_absolute p \<and> list_all (\<lambda>part. \<not> dotted part) (path_parts p)"

definition declares :: "declared \<Rightarrow> pydict \<Rightarrow> bool" where
  "declares e raw \<longleftrightarrow>
     get raw ''path'' = PStr (as_posix (de_path e)) \<and> get raw ''size'' = PInt (de_size e) \<and>
     get raw ''sha256'' = PStr (de_sha256 e) \<and> 0 \<le> de_size e \<and> length (de_sha256 e) = 64 \<and>
     list_all is_hex (de_sha256 e) \<and> de_path e = pure_posix_path (as_posix (de_path e)) \<and> confined_path (de_path e)"

definition text_of :: "declared \<Rightarrow> string" where
  "text_of e = as_posix (de_path e)"

lemma relative_parts_nonempty: "\<not> is_absolute (pure_posix_path s) \<Longrightarrow> [] \<notin> set (path_parts (pure_posix_path s))"
  by (auto simp: path_parts_def pure_posix_path_def is_absolute_def)

lemma as_posix_nonempty: "as_posix (pure_posix_path s) = s \<Longrightarrow> s \<noteq> []"
  by (auto simp: as_posix_def pure_posix_path_def path_root_def)

lemma confined_iff:
  "confined_path (pure_posix_path s) \<longleftrightarrow>
     \<not> is_absolute (pure_posix_path s) \<and> ''..'' \<notin> set (path_parts (pure_posix_path s)) \<and> ''.'' \<notin> set (path_parts (pure_posix_path s))"
  using relative_parts_nonempty [of s] by (auto simp: confined_path_def dotted_def list_all_iff)

lemma declare_entry_iff:
  "declare_entry seen raw = Inr seen' \<longleftrightarrow>
     (\<exists>e. declares e raw \<and> text_of e \<notin> set (map text_of seen) \<and> seen' = seen @ [e])"
proof
  assume d: "declare_entry seen raw = Inr seen'"
  then obtain v n h where f: "get raw ''path'' = PStr v" "get raw ''size'' = PInt n" "get raw ''sha256'' = PStr h"
    by (auto simp: declare_entry_def transfer_error_def Let_def split: option.splits)
  then show "\<exists>e. declares e raw \<and> text_of e \<notin> set (map text_of seen) \<and> seen' = seen @ [e]"
    using d
    by (intro exI [of _ "\<lparr>de_path = pure_posix_path v, de_size = n, de_sha256 = h\<rparr>"])
      (auto simp: declare_entry_def transfer_error_def declares_def text_of_def confined_iff Let_def split: if_splits)
next
  assume "\<exists>e. declares e raw \<and> text_of e \<notin> set (map text_of seen) \<and> seen' = seen @ [e]"
  then obtain e where e: "declares e raw" "text_of e \<notin> set (map text_of seen)" "seen' = seen @ [e]" by blast
  define v where "v = as_posix (de_path e)"
  have v: "de_path e = pure_posix_path v" "as_posix (pure_posix_path v) = v" using e(1) by (auto simp: declares_def v_def)
  have "confined_path (pure_posix_path v)" using e(1) v by (simp add: declares_def)
  moreover have "v \<noteq> []" using as_posix_nonempty v(2) by simp
  ultimately show "declare_entry seen raw = Inr seen'"
    using e v by (cases e) (auto simp: declare_entry_def declares_def text_of_def confined_iff)
qed

lemma validated_manifest_iff:
  "validated_manifest_entries manifest = Inr es \<longleftrightarrow> list_all2 declares es manifest \<and> distinct (map text_of es)"
proof -
  have "foldR declare_entry seen raws = Inr es \<longleftrightarrow>
      (\<exists>es'. es = seen @ es' \<and> list_all2 declares es' raws \<and> distinct (map text_of es') \<and>
        set (map text_of es') \<inter> set (map text_of seen) = {})" for seen raws
  proof (induction raws arbitrary: seen)
    case (Cons raw raws)
    show ?case
      by (auto simp: declare_entry_iff Cons.IH list_all2_Cons2; fastforce)
  qed auto
  from this [of "[]" manifest] show ?thesis by (auto simp: validated_manifest_entries_def)
qed

text \<open>A declared file that is there, with its content.\<close>

definition delivered :: "(string \<Rightarrow> string) \<Rightarrow> node \<Rightarrow> declared \<times> string \<Rightarrow> bool" where
  "delivered sha tree f \<longleftrightarrow>
     find_node tree (path_parts (de_path (fst f))) = Found (Regular (snd f)) \<and>
     int (length (snd f)) = de_size (fst f) \<and> sha (snd f) = de_sha256 (fst f)"

lemma check_entry_iff: "check_entry sha tree e = Inr bytes \<longleftrightarrow> delivered sha tree (e, bytes)"
  by (auto simp: check_entry_def delivered_def transfer_error_def Let_def split: found.splits node.splits)

lemma validated_entries_iff:
  "validated_entries sha tree manifest = Inr files \<longleftrightarrow>
     list_all2 declares (map fst files) manifest \<and> distinct (map (text_of \<circ> fst) files) \<and> list_all (delivered sha tree) files"
proof -
  have "mapR (\<lambda>e. bindR (check_entry sha tree e) (\<lambda>bytes. Inr (e, bytes))) es = Inr files \<longleftrightarrow>
      map fst files = es \<and> list_all (delivered sha tree) files" for es
  proof (induction es arbitrary: files)
    case (Cons e es)
    then show ?case by (cases files) (auto simp: check_entry_iff)
  qed auto
  then show ?thesis
    by (auto simp: validated_entries_def validated_manifest_iff simp flip: map_map)
qed

section \<open>Storing files\<close>

lemma store_directory: "store_file ps bytes n = Some n' \<Longrightarrow> \<exists>es. n' = Directory es"
  by (cases "(ps, bytes, n)" rule: store_file.cases) (auto split: if_splits option.splits node.splits)

lemma store_found: "store_file ps bytes n = Some n' \<Longrightarrow> find_node n' ps = Found (Regular bytes)"
proof (induction ps bytes n arbitrary: n' rule: store_file.induct)
  case (1 p ps bytes es)
  show ?case
  proof (cases "ps = []")
    case True
    then show ?thesis using 1(2) by (auto split: option.splits node.splits)
  next
    case False
    let ?m = "case dget es p of None \<Rightarrow> Directory [] | Some n \<Rightarrow> n"
    obtain m' where m': "store_file ps bytes ?m = Some m'" "n' = Directory (dput p m' es)" using 1(2) False by auto
    then show ?thesis using 1(1) [OF False m'(1)] store_directory [OF m'(1)] by auto
  qed
qed auto

section \<open>Writing where no link is in the way\<close>



lemma partial_name_other: "partial_name pid p \<noteq> p"
proof
  assume "partial_name pid p = p"
  then have "length (partial_name pid p) = length p" by simp
  then show False by (simp add: partial_name_def)
qed















section \<open>Transfers are exact\<close>


text \<open>
  C36: a download that returns has delivered the manifest.  Whatever \<open>rclone\<close> did, when \<open>RcloneSFTP.download\<close>
  returns a receipt, every declared path is confined to the destination, distinct from the others, and is there a
  regular file, reached through no symbolic link, of the declared size and hash; and the receipt counts exactly them.
\<close>

theorem download_exact:
  assumes "download cn run sha source_root destination_root destination manifest = (Inr receipt, tree)"
  shows "\<exists>files. list_all2 (\<lambda>f raw. declares (fst f) raw \<and> delivered sha tree f) files manifest \<and>
    distinct (map (\<lambda>f. as_posix (de_path (fst f))) files) \<and> tr_files receipt = int (length manifest) \<and>
    tr_bytes receipt = int (sum_list (map (length \<circ> snd) files))"
proof -
  obtain files where files: "validated_entries sha tree manifest = Inr files" "receipt = receipt_of (map fst files)"
    using assms by (auto simp: download_def Let_def transfer_unavailable_def split: sum.splits if_splits)
  then have v: "list_all2 declares (map fst files) manifest" "distinct (map (text_of \<circ> fst) files)" "list_all (delivered sha tree) files"
    by (simp_all add: validated_entries_iff)
  have "list_all2 (\<lambda>f raw. declares (fst f) raw \<and> delivered sha tree f) files manifest"
    using v(1, 3) by (auto simp: list_all2_conv_all_nth list_all_length)
  moreover have "sum_list (map (de_size \<circ> fst) files) = int (sum_list (map (length \<circ> snd) files))"
    using v(3) by (induction files) (auto simp: delivered_def)
  moreover have "length files = length manifest" using v(1) list_all2_lengthD by fastforce
  ultimately show ?thesis
    using v(2) files(2) by (intro exI [of _ files]) (auto simp: receipt_of_def text_of_def comp_def)
qed


section \<open>Discovery is bounded and confined\<close>

definition sound_file :: "rx \<Rightarrow> remote_file \<Rightarrow> bool" where
  "sound_file matcher f \<longleftrightarrow>
     bounded_relative (rf_path f) \<and> fullmatch matcher (rf_path f) \<and> 0 \<le> rf_size f \<and> rf_modified_at f \<noteq> []"

lemma bounded_relative_posix: "bounded_relative s \<Longrightarrow> as_posix (pure_posix_path s) = s"
  by (simp add: bounded_relative_def Let_def)

lemma discover_item_sound:
  assumes "discover_item matcher limit found entry = Inr found'"
    and "distinct (map rf_path found)" and "list_all (sound_file matcher) found" and "int (length found) \<le> limit"
  shows "distinct (map rf_path found') \<and> list_all (sound_file matcher) found' \<and> int (length found') \<le> limit"
proof -
  obtain f where f: "found' = found @ [f]" "sound_file matcher f" "rf_path f \<notin> set (map rf_path found)"
      "int (length found) + 1 \<le> limit"
    using assms(1) bounded_relative_posix
    by (auto simp: discover_item_def transfer_error_def safe_remote_relative_def sound_file_def Let_def
        split: option.splits if_splits)
  then show ?thesis using assms(2-4) by auto
qed

text \<open>
  C37: discovery is bounded and confined.  Whatever the remote listing says, the files \<open>RcloneSFTP.discover\<close> returns
  are at most as many as asked for, sorted and distinct, and each is a bounded relative path inside the discovery root
  that matches the fixed glob, with a nonnegative size and a modification time.
\<close>

theorem discovery_sound:
  assumes "discover cn run fl source_root pattern max_matches = Inr files"
  shows "\<exists>matcher. discovery_matcher pattern = Inr matcher \<and> int (length files) \<le> max_matches \<and> max_matches \<le> 4096 \<and>
    sorted (map rf_path files) \<and> distinct (map rf_path files) \<and> list_all (sound_file matcher) files"
proof -
  obtain matcher where m: "discovery_matcher pattern = Inr matcher" "0 < max_matches" "max_matches \<le> 4096"
    using assms by (auto simp: discover_def positive_discovery_limit_def transfer_error_def Let_def split: if_splits)
  consider "files = []" | items found where "foldR (discover_item matcher max_matches) [] items = Inr found" "files = sort_key rf_path found"
    using assms m(1)
    by (auto simp: discover_def positive_discovery_limit_def transfer_error_def transfer_unavailable_def Let_def
        split: if_splits sum.splits option.splits)
  then show ?thesis
  proof cases
    case 1
    then show ?thesis using m by auto
  next
    case 2
    have "distinct (map rf_path found) \<and> list_all (sound_file matcher) found \<and> int (length found) \<le> max_matches"
      using foldR_invariant [OF 2(1), of "\<lambda>s. distinct (map rf_path s) \<and> list_all (sound_file matcher) s \<and> int (length s) \<le> max_matches"]
        discover_item_sound m(2) by fastforce
    then show ?thesis using m 2(2) by (auto simp: distinct_map list_all_iff)
  qed
qed

section \<open>Sample transfers\<close>

definition sample_connection :: connection where
  "sample_connection = \<lparr>cn_host = ''host'', cn_port = 22, cn_user = ''root'', cn_key = ''/key'', cn_known_hosts = ''/known''\<rparr>"

definition hash_64 :: "string \<Rightarrow> string" where
  "hash_64 b = replicate 64 (if b = [] then CHR ''0'' else CHR ''a'')"

definition sample_source :: node where
  "sample_source = Directory [(''a'', Directory [(''b.bin'', Regular ''xyz'')]), (''c.txt'', Regular '''')]"

definition sample_declared :: "pydict list" where
  "sample_declared =
     [[(''path'', PStr ''a/b.bin''), (''size'', PInt 3), (''sha256'', PStr (replicate 64 CHR ''a''))],
      [(''path'', PStr ''c.txt''), (''size'', PInt 0), (''sha256'', PStr (replicate 64 CHR ''0''))]]"

definition copying_rclone :: rclone where
  "copying_rclone argv names = \<lparr>an_timeout = False, an_code = 0, an_out = [], an_err = [], an_tree = sample_source\<rparr>"

theorem download_exact_witness:
  "\<exists>files. list_all2 (\<lambda>f raw. declares (fst f) raw \<and> delivered hash_64 sample_source f) files sample_declared"
proof -
  have "download sample_connection copying_rclone hash_64 ''/remote'' ''/local'' (Directory []) sample_declared =
      (Inr \<lparr>tr_files = 2, tr_bytes = 3\<rparr>, sample_source)"
    by code_simp
  from download_exact [OF this] show ?thesis by blast
qed



definition sample_listing :: string where
  "sample_listing =
     json_text rep_15 (PList [PDict [(''IsDir'', PBool False), (''ModTime'', PStr ''t''), (''Path'', PStr ''c/1/m.json''), (''Size'', PInt 9)]])"

definition listing_rclone :: rclone where
  "listing_rclone argv names = \<lparr>an_timeout = False, an_code = 0, an_out = sample_listing, an_err = [], an_tree = Directory []\<rparr>"

theorem discovery_sound_witness:
  "\<exists>matcher. discovery_matcher ''c/*/m.json'' = Inr matcher \<and>
     list_all (sound_file matcher) [\<lparr>rf_path = ''c/1/m.json'', rf_size = 9, rf_modified_at = ''t''\<rparr>]"
proof -
  have "discover sample_connection listing_rclone read_15 ''/remote'' ''c/*/m.json'' 512 =
      Inr [\<lparr>rf_path = ''c/1/m.json'', rf_size = 9, rf_modified_at = ''t''\<rparr>]"
    by code_simp
  from discovery_sound [OF this] show ?thesis by blast
qed

end
