(* ===== verification/Mirror.thy ===== *)
theory Mirror
  imports Transfers Ack CloudApi PyDatetime
begin

text \<open>
  \<open>remote_executor.py\<close>, the mirror of incremental artifacts: completion manifests found on the pod are fetched,
  their files downloaded to a staging directory, verified, published below the run's directory, recorded in a receipt
  and acknowledged.  The run's directory is a tree of \<open>node\<close>s without symbolic links above it; the data plane is a
  record of the operations of \<open>_Transfer\<close> over a world, \<open>rclone_transfer\<close> is the one the program uses.
\<close>

section \<open>The data plane\<close>

text \<open>
  Source files carry their path and what is there.  A download changes the tree at its destination, a fetch goes to a
  fresh directory.
\<close>

record 'w transfer =
  tf_upload :: "string \<Rightarrow> node \<Rightarrow> string \<Rightarrow> pydict list \<Rightarrow> 'w \<Rightarrow> (exn + transfer_receipt) \<times> 'w"
  tf_publish :: "string \<Rightarrow> node option \<Rightarrow> string \<Rightarrow> int \<Rightarrow> string \<Rightarrow> 'w \<Rightarrow> (exn + transfer_receipt) \<times> 'w"
  tf_download :: "string \<Rightarrow> string \<Rightarrow> node \<Rightarrow> pydict list \<Rightarrow> 'w \<Rightarrow> ((exn + transfer_receipt) \<times> node) \<times> 'w"
  tf_discover :: "string \<Rightarrow> string \<Rightarrow> int \<Rightarrow> 'w \<Rightarrow> (exn + remote_file list) \<times> 'w"
  tf_fetch :: "string \<Rightarrow> string \<Rightarrow> remote_file \<Rightarrow> 'w \<Rightarrow> ((exn + content_receipt) \<times> node) \<times> 'w"

text \<open>The world of \<open>RcloneSFTP\<close>: how often it was used, and what \<open>rclone\<close> and the local files do each time.\<close>

record network =
  nw_run :: "nat \<Rightarrow> rclone"
  nw_uuid :: "nat \<Rightarrow> string"
  nw_stat :: "nat \<Rightarrow> file_identity \<times> file_identity option"

definition rclone_transfer ::
  "connection \<Rightarrow> network \<Rightarrow> (string \<Rightarrow> string) \<Rightarrow> (string \<Rightarrow> pyfloat) \<Rightarrow> nat transfer" where
  "rclone_transfer cn net sha fl = \<lparr>
     tf_upload = (\<lambda>source_root source destination manifest n.
       (upload cn (nw_run net n) sha source_root source destination manifest, Suc n)),
     tf_publish = (\<lambda>path source destination bytes sha256 n.
       (publish_atomic cn (nw_run net n) sha (nw_uuid net n) path source (fst (nw_stat net n)) (snd (nw_stat net n))
          destination bytes sha256, Suc n)),
     tf_download = (\<lambda>source_root destination_root destination manifest n.
       (download cn (nw_run net n) sha source_root destination_root destination manifest, Suc n)),
     tf_discover = (\<lambda>source_root pattern max_matches n.
       (discover cn (nw_run net n) fl source_root pattern max_matches, Suc n)),
     tf_fetch = (\<lambda>source_root staging_root f n.
       (fetch cn (nw_run net n) sha source_root staging_root (Directory []) f, Suc n))\<rparr>"

text \<open>
  The surroundings of an executor: the path of the run's directory, directories outside it, the keys and the tools of
  the standard library it uses, the clock and the free space.
\<close>

record 'w surroundings =
  ex_run_dir :: string
  ex_tree :: "string \<Rightarrow> node"
  ex_sha :: "string \<Rightarrow> string"
  ex_digest :: "string \<Rightarrow> string"
  ex_decode :: decoder
  ex_float :: "string \<Rightarrow> pyfloat"
  ex_repr :: "pyfloat \<Rightarrow> string"
  ex_keys :: "key_directory option"
  ex_tool :: keygen_tool
  ex_now :: "'w \<Rightarrow> datetime \<times> 'w"
  ex_free :: "'w \<Rightarrow> (exn + pyval) \<times> 'w"

text \<open>An executor's state: the tree at the run's directory, the receipts it has verified itself, the world.\<close>

record 'w station =
  sn_dir :: node
  sn_verified :: "string list"
  sn_world :: 'w

definition with_world :: "('w \<Rightarrow> (exn + 'a) \<times> 'w) \<Rightarrow> 'w station \<Rightarrow> (exn + 'a) \<times> 'w station" where
  "with_world f s = (case f (sn_world s) of (r, w) \<Rightarrow> (r, s\<lparr>sn_world := w\<rparr>))"

definition with_dir :: "(node \<Rightarrow> (exn + 'a) \<times> node) \<Rightarrow> 'w station \<Rightarrow> (exn + 'a) \<times> 'w station" where
  "with_dir f s = (case f (sn_dir s) of (r, d) \<Rightarrow> (r, s\<lparr>sn_dir := d\<rparr>))"

section \<open>Values\<close>

definition app_error :: "string \<Rightarrow> exn + 'a" where
  "app_error m = Inl (ApplicationError m)"

definition ex_mapping :: "pyval \<Rightarrow> string \<Rightarrow> exn + pydict" where
  "ex_mapping v name = (case as_dict v of None \<Rightarrow> app_error (name @ '' must be an object'') | Some d \<Rightarrow> Inr d)"

definition ex_mapping_sequence :: "pyval \<Rightarrow> string \<Rightarrow> exn + pydict list" where
  "ex_mapping_sequence v name =
     (case as_list v of None \<Rightarrow> app_error (name @ '' must be an array'')
      | Some vs \<Rightarrow> mapR (\<lambda>x. ex_mapping x name) vs)"

definition ex_string :: "pydict \<Rightarrow> string \<Rightarrow> exn + string" where
  "ex_string d key =
     (case as_str (get d key) of
        None \<Rightarrow> app_error (key @ '' must be a non-empty string'')
      | Some s \<Rightarrow> if s = [] then app_error (key @ '' must be a non-empty string'') else Inr s)"

definition required_size :: "pydict \<Rightarrow> exn + int" where
  "required_size entry =
     (case as_int (get entry ''size'') of
        None \<Rightarrow> app_error ''incremental artifact receipt has an invalid size''
      | Some n \<Rightarrow> if n < 0 then app_error ''incremental artifact receipt has an invalid size'' else Inr n)"

definition total_size :: "pydict list \<Rightarrow> exn + int" where
  "total_size entries = bindR (mapR required_size entries) (\<lambda>ns. Inr (sum_list ns))"

text \<open>\<open>json.loads(data, object_pairs_hook=_json_object_no_duplicates)\<close>.\<close>

definition load_object :: "'w surroundings \<Rightarrow> string \<Rightarrow> string \<Rightarrow> exn + pydict" where
  "load_object ex name data =
     (case ex_decode ex data of
        Decoded t \<Rightarrow>
          (case raw_loads (ex_float ex) t of
             Inl _ \<Rightarrow> app_error (name @ '' is invalid JSON'')
           | Inr v \<Rightarrow>
               if duplicate_keys v then app_error ''incremental completion has duplicate key'' else ex_mapping v name)
      | _ \<Rightarrow> app_error (name @ '' is invalid JSON''))"

definition load_incremental_manifest :: "'w surroundings \<Rightarrow> string \<Rightarrow> exn + pydict" where
  "load_incremental_manifest ex data =
     bindR (load_object ex ''incremental completion manifest'' data) (\<lambda>manifest.
       case as_str (get manifest ''protocol'') of
         None \<Rightarrow> app_error ''incremental completion manifest protocol is invalid''
       | Some protocol \<Rightarrow>
           if protocol = [] \<or> 128 < length protocol \<or> list_ex is_control protocol
           then app_error ''incremental completion manifest protocol is invalid''
           else Inr manifest)"

section \<open>Manifests\<close>

definition max_incremental_manifest_bytes :: int where
  "max_incremental_manifest_bytes = 16 * 1024 * 1024"

definition max_incremental_manifests :: int where
  "max_incremental_manifests = 512"

definition max_incremental_files :: nat where
  "max_incremental_files = 16384"

definition max_incremental_total_files :: nat where
  "max_incremental_total_files = 65536"

definition max_incremental_total_bytes :: int where
  "max_incremental_total_bytes = 256 * 1024 ^ 3"

definition min_controller_free_reserve :: int where
  "min_controller_free_reserve = 1024 ^ 3"

definition incremental_file :: "string \<Rightarrow> int \<Rightarrow> string \<Rightarrow> pydict" where
  "incremental_file relative n expected = [(''path'', PStr relative), (''size'', PInt n), (''sha256'', PStr expected)]"

definition incremental_entry :: "posix_path \<Rightarrow> pydict list \<Rightarrow> pydict \<Rightarrow> exn + pydict list" where
  "incremental_entry manifest_path seen entry =
     (case as_str (get entry ''path'') of
        None \<Rightarrow> app_error ''incremental artifact path must be a string''
      | Some raw_path \<Rightarrow>
          (case incremental_relative_path raw_path of
             Inl _ \<Rightarrow> app_error ''unsafe incremental artifact path''
           | Inr p \<Rightarrow>
               let relative = as_posix p; malformed = app_error (''incremental artifact receipt is malformed: '' @ relative) in
               if relative = path_name manifest_path
               then app_error ''incremental completion manifest cannot declare itself''
               else if PStr relative \<in> set (map (\<lambda>e. get e ''path'') seen)
               then app_error (''duplicate incremental artifact path: '' @ relative)
               else (case (as_int (get entry ''size''), as_str (get entry ''sha256'')) of
                  (Some n, Some expected) \<Rightarrow>
                    if n < 0 \<or> \<not> is_sha256 expected then malformed
                    else Inr (seen @ [incremental_file relative n expected])
                | _ \<Rightarrow> malformed)))"

definition incremental_entries :: "pydict \<Rightarrow> posix_path \<Rightarrow> exn + pydict list" where
  "incremental_entries manifest manifest_path =
     bindR (ex_mapping_sequence (get manifest ''files'') ''incremental completion manifest files'') (\<lambda>entries.
       if entries = [] then app_error ''incremental completion manifest has no files''
       else if max_incremental_files < length entries
       then app_error ''incremental completion manifest declares too many files''
       else foldR (incremental_entry manifest_path) [] entries)"

section \<open>Files below the run's directory\<close>

text \<open>
  \<open>path.read_bytes()\<close>: nothing is there, it cannot be read, or its bytes.  A symbolic link cannot be read, as its
  target is not in the tree.
\<close>

datatype file_read = No_such | Unreadable | Bytes string

fun read_file :: "node \<Rightarrow> string list \<Rightarrow> file_read" where
  "read_file (Regular bytes) [] = Bytes bytes"
| "read_file (Directory es) (p # ps) = (case dget es p of None \<Rightarrow> No_such | Some n \<Rightarrow> read_file n ps)"
| "read_file n ps = Unreadable"

definition optional_mapping :: "'w surroundings \<Rightarrow> node \<Rightarrow> string list \<Rightarrow> string \<Rightarrow> exn + pydict option" where
  "optional_mapping ex dir parts name =
     (case read_file dir parts of
        No_such \<Rightarrow> Inr None
      | Unreadable \<Rightarrow> app_error (name @ '' is unavailable'')
      | Bytes data \<Rightarrow> bindR (load_object ex name data) (\<lambda>d. Inr (Some d)))"

text \<open>\<open>_ensure_private_directory\<close>: the directories that were made stay when a later step fails.\<close>

fun make_dirs :: "string list \<Rightarrow> node \<Rightarrow> (exn + unit) \<times> node" where
  "make_dirs [] n = (Inr (), n)"
| "make_dirs (p # ps) (Directory es) =
     (case dget es p of
        None \<Rightarrow> (case make_dirs ps (Directory []) of (r, n) \<Rightarrow> (r, Directory (dput p n es)))
      | Some Symlink \<Rightarrow> (app_error ''incremental receipt directory is a symlink'', Directory es)
      | Some (Regular _) \<Rightarrow> (app_error ''incremental receipt path is not a directory'', Directory es)
      | Some n \<Rightarrow> (case make_dirs ps n of (r, n') \<Rightarrow> (r, Directory (dput p n' es))))"
| "make_dirs ps n = (app_error ''incremental receipt directory is unavailable'', n)"

definition ensure_private_directory :: "string list \<Rightarrow> string list \<Rightarrow> node \<Rightarrow> (exn + unit) \<times> node" where
  "ensure_private_directory anchor relative dir =
     (case find_node dir anchor of
        Found (Directory _) \<Rightarrow> make_dirs (anchor @ relative) dir
      | _ \<Rightarrow> (app_error ''incremental receipt anchor is not a safe directory'', dir))"

definition atomic_bytes :: "string list \<Rightarrow> string \<Rightarrow> node \<Rightarrow> (exn + unit) \<times> node" where
  "atomic_bytes parts data dir =
     (case store_file parts data dir of
        None \<Rightarrow> (Inl (OSError (join slash parts)), dir)
      | Some dir' \<Rightarrow> (Inr (), dir'))"

definition atomic_json :: "'w surroundings \<Rightarrow> string list \<Rightarrow> pydict \<Rightarrow> node \<Rightarrow> (exn + unit) \<times> node" where
  "atomic_json ex parts d = atomic_bytes parts (json_text (ex_repr ex) (PDict d) @ [newline])"

section \<open>Verified files\<close>

text \<open>What is wrong with the mirrored files: they have to be fetched again, or the cache is not safe.\<close>

datatype cache_problem = Cache_miss string | Unsafe exn

definition check_mirrored :: "(string \<Rightarrow> string) \<Rightarrow> node \<Rightarrow> pydict \<Rightarrow> cache_problem + unit" where
  "check_mirrored sha tree entry =
     (case bindR (ex_string entry ''path'') incremental_relative_path of
        Inl e \<Rightarrow> Inl (Unsafe e)
      | Inr p \<Rightarrow>
          (case find_node tree (path_parts p) of
             Through_symlink \<Rightarrow> Inl (Unsafe (ApplicationError (''mirrored incremental artifact is a symlink: '' @ as_posix p)))
           | Found (Regular bytes) \<Rightarrow>
               if \<not> pyeq (PInt (int (length bytes))) (get entry ''size'')
               then Inl (Cache_miss (''mirrored incremental artifact size mismatch: '' @ as_posix p))
               else if \<not> pyeq (PStr (sha bytes)) (get entry ''sha256'')
               then Inl (Cache_miss (''mirrored incremental artifact hash mismatch: '' @ as_posix p))
               else Inr ()
           | _ \<Rightarrow> Inl (Cache_miss (''mirrored incremental artifact is missing: '' @ as_posix p))))"

definition verify_incremental_files :: "(string \<Rightarrow> string) \<Rightarrow> found \<Rightarrow> pydict list \<Rightarrow> cache_problem + unit" where
  "verify_incremental_files sha root_found entries =
     (case root_found of
        Through_symlink \<Rightarrow> Inl (Unsafe (ApplicationError ''mirrored incremental artifact root is a symlink''))
      | Missing \<Rightarrow> Inl (Cache_miss ''mirrored incremental artifact root is missing'')
      | Found (Directory es) \<Rightarrow> bindR (mapR (check_mirrored sha (Directory es)) entries) (\<lambda>_. Inr ())
      | Found _ \<Rightarrow> Inl (Unsafe (ApplicationError ''mirrored incremental artifact root is not a directory'')))"

definition cache_exn :: "cache_problem \<Rightarrow> exn" where
  "cache_exn c = (case c of Cache_miss m \<Rightarrow> ApplicationError m | Unsafe e \<Rightarrow> e)"

definition receipts :: "string \<Rightarrow> string list" where
  "receipts name = [''receipts'', name]"

definition verify_incremental_cache :: "'w surroundings \<Rightarrow> node \<Rightarrow> pydict \<Rightarrow> posix_path \<Rightarrow> exn + unit" where
  "verify_incremental_cache ex dir receipt manifest_relative =
     (if \<not> pyeq (get receipt ''protocol'') (PStr ''incremental-mirror-receipt/1'') \<or>
         \<not> pyeq (get receipt ''status'') (PStr ''verified'') \<or>
         \<not> pyeq (get receipt ''manifest_path'') (PStr (as_posix manifest_relative))
      then app_error ''incremental mirror receipt is malformed''
      else
        let parts = receipts ''incremental'' @ path_parts manifest_relative in
        case find_node dir parts of
          Found (Regular bytes) \<Rightarrow>
            if \<not> pyeq (PStr (ex_sha ex bytes)) (get receipt ''manifest_sha256'')
            then app_error ''verified incremental completion manifest hash mismatch''
            else
              bindR (load_incremental_manifest ex bytes) (\<lambda>manifest.
              bindR (incremental_entries manifest manifest_relative) (\<lambda>entries.
              bindR (ex_mapping_sequence (get receipt ''files'') ''incremental mirror receipt files'') (\<lambda>recorded.
                if \<not> pyeq (PList (map PDict entries)) (PList (map PDict recorded))
                then app_error ''incremental mirror receipt conflicts with its manifest''
                else catchR (verify_incremental_files (ex_sha ex) (find_node dir (butlast parts)) entries) cache_exn)))
        | _ \<Rightarrow> app_error ''verified incremental completion manifest is unavailable'')"

text \<open>The receipts of the mirror, in the order of their names.\<close>

definition receipt_files :: "node \<Rightarrow> (string \<times> node) list" where
  "receipt_files dir =
     (case find_node dir (receipts ''incremental-state'') of
        Found (Directory es) \<Rightarrow> sort_key fst (filter (\<lambda>e. ends_with (fst e) ''.json'') es)
      | _ \<Rightarrow> [])"

definition verified_receipt :: "'w surroundings \<Rightarrow> node \<Rightarrow> string \<times> node \<Rightarrow> bool" where
  "verified_receipt ex dir e =
     (case snd e of
        Regular data \<Rightarrow>
          (case load_object ex ''incremental mirror receipt'' data of
             Inl _ \<Rightarrow> False
           | Inr receipt \<Rightarrow>
               if \<not> pyeq (get receipt ''status'') (PStr ''verified'') then False
               else (case bindR (bindR (ex_string receipt ''manifest_path'') incremental_relative_path)
                             (verify_incremental_cache ex dir receipt) of
                       Inl _ \<Rightarrow> False | Inr _ \<Rightarrow> True))
      | _ \<Rightarrow> False)"

definition has_verified_incremental_artifacts :: "'w surroundings \<Rightarrow> node \<Rightarrow> bool" where
  "has_verified_incremental_artifacts ex dir = list_ex (verified_receipt ex dir) (receipt_files dir)"

section \<open>Limits of a run\<close>

text \<open>One receipt of the state directory, added to the manifests known so far.\<close>

definition count_receipt :: "'w surroundings \<Rightarrow> pydict list dict \<Rightarrow> string \<times> node \<Rightarrow> exn + pydict list dict" where
  "count_receipt ex manifests e =
     (case snd e of
        Regular data \<Rightarrow>
          bindR (load_object ex ''incremental mirror receipt'' data) (\<lambda>receipt.
            if \<not> pyeq (get receipt ''protocol'') (PStr ''incremental-mirror-receipt/1'')
            then app_error ''incremental mirror receipt is malformed''
            else if as_list (get receipt ''status'') \<noteq> None \<or> as_dict (get receipt ''status'') \<noteq> None
            then Inl (TypeError ''unhashable type'')
            else if as_str (get receipt ''status'') \<notin> {Some ''pending'', Some ''verified''}
            then app_error ''incremental mirror receipt is malformed''
            else bindR (bindR (ex_string receipt ''manifest_path'') incremental_relative_path) (\<lambda>p.
              if fst e \<noteq> ex_sha ex (utf8 (as_posix p)) @ ''.json''
              then app_error ''incremental mirror receipt identity mismatch''
              else bindR (incremental_entries [(''files'', get receipt ''files'')] p) (\<lambda>entries.
                case dget manifests (as_posix p) of
                  None \<Rightarrow> Inr (dput (as_posix p) entries manifests)
                | Some existing \<Rightarrow>
                    if \<not> pyeq (PList (map PDict existing)) (PList (map PDict entries))
                    then app_error ''incremental mirror receipt conflicts with current completion''
                    else Inr manifests)))
      | _ \<Rightarrow> app_error ''incremental mirror receipt is not a regular file'')"

definition enforce_incremental_run_limits ::
  "'w surroundings \<Rightarrow> node \<Rightarrow> posix_path \<Rightarrow> pydict list \<Rightarrow> int \<Rightarrow> exn + unit" where
  "enforce_incremental_run_limits ex dir manifest_path entries max_total_bytes =
     bindR (case find_node dir (receipts ''incremental-state'') of
              Through_symlink \<Rightarrow> app_error ''incremental mirror receipt directory is a symlink''
            | Found (Directory _) \<Rightarrow> Inr ()
            | Missing \<Rightarrow> Inr ()
            | Found _ \<Rightarrow> app_error ''incremental mirror receipt directory is not a directory'') (\<lambda>_.
     bindR (foldR (count_receipt ex) [(as_posix manifest_path, entries)] (receipt_files dir)) (\<lambda>manifests.
       if max_incremental_manifests < int (length manifests)
       then app_error ''incremental aggregate manifest count exceeds controller limit''
       else if max_incremental_total_files < sum_list (map length (dvalues manifests))
       then app_error ''incremental aggregate file count exceeds controller limit''
       else bindR (total_size (concat (dvalues manifests))) (\<lambda>total.
         if max_total_bytes < total
         then app_error ''incremental aggregate bytes exceed declared storage capacity'' else Inr ())))"

section \<open>Publishing the files of a manifest\<close>

definition publish_file :: "node \<Rightarrow> string list \<Rightarrow> pydict \<Rightarrow> node \<Rightarrow> (exn + unit) \<times> node" where
  "publish_file staging destination entry dir =
     (case bindR (ex_string entry ''path'') incremental_relative_path of
        Inl e \<Rightarrow> (Inl e, dir)
      | Inr p \<Rightarrow>
          bindW (ensure_private_directory destination (butlast (path_parts p)) dir) (\<lambda>_ dir'.
            case (find_node staging (path_parts p), find_node dir' (destination @ path_parts p)) of
              (_, Through_symlink) \<Rightarrow> (app_error (''mirrored incremental artifact is a symlink: '' @ as_posix p), dir')
            | (_, Found (Directory _)) \<Rightarrow>
                (app_error (''mirrored incremental artifact is not a regular file: '' @ as_posix p), dir')
            | (Found (Regular bytes), _) \<Rightarrow> atomic_bytes (destination @ path_parts p) bytes dir'
            | _ \<Rightarrow> (Inl (OSError (as_posix p)), dir')))"

fun publish_incremental_files :: "node \<Rightarrow> string list \<Rightarrow> pydict list \<Rightarrow> node \<Rightarrow> (exn + unit) \<times> node" where
  "publish_incremental_files staging destination [] dir = (Inr (), dir)"
| "publish_incremental_files staging destination (entry # entries) dir =
     bindW (publish_file staging destination entry dir) (\<lambda>_. publish_incremental_files staging destination entries)"

section \<open>The acknowledgement\<close>

text \<open>\<open>path / text\<close>.\<close>

definition path_div :: "posix_path \<Rightarrow> string \<Rightarrow> posix_path" where
  "path_div p s =
     (let q = pure_posix_path s in if is_absolute q then q else p\<lparr>pp_tail := pp_tail p @ pp_tail q\<rparr>)"

definition remote_artifact_root :: "pydict \<Rightarrow> posix_path \<Rightarrow> exn + posix_path" where
  "remote_artifact_root remote storage_mount =
     (if get remote ''artifact_path_base'' = PNone then Inr storage_mount
      else if \<not> pyeq (get remote ''artifact_path_base'') (PStr ''run-root'')
      then app_error ''remote artifact path base is unsupported''
      else bindR (ex_string remote ''run_id'') (\<lambda>run_id.
        Inr (path_div (path_div (path_div storage_mount ''runpod-jobrunner'') ''runs'') run_id)))"

definition storage_manifest_path :: "pydict \<Rightarrow> posix_path \<Rightarrow> exn + string" where
  "storage_manifest_path remote manifest_relative =
     (if pyeq (get remote ''artifact_path_base'') (PStr ''run-root'')
      then bindR (ex_string remote ''run_id'') (\<lambda>run_id.
        Inr (as_posix (path_div (path_div (path_div (pure_posix_path ''runpod-jobrunner'') ''runs'') run_id)
          (as_posix manifest_relative))))
      else if get remote ''artifact_path_base'' \<noteq> PNone
      then app_error ''remote artifact path base is unsupported''
      else Inr (as_posix manifest_relative))"

definition ack_statement ::
  "pydict \<Rightarrow> string \<Rightarrow> pydict \<Rightarrow> int \<Rightarrow> int \<Rightarrow> string \<Rightarrow> pydict \<Rightarrow> pydict" where
  "ack_statement remote storage_path receipt files bytes receipt_sha256 signer =
     [(''protocol'', PStr ack_protocol), (''run_id'', get remote ''run_id''), (''bundle_hash'', get remote ''bundle_hash''),
      (''image_digest'', get remote ''image_digest''), (''manifest_path'', PStr storage_path),
      (''manifest_size'', get receipt ''remote_size''), (''manifest_sha256'', get receipt ''manifest_sha256''),
      (''file_count'', PInt files), (''file_bytes'', PInt bytes), (''local_receipt_sha256'', PStr receipt_sha256),
      (''signer'', PDict signer)]"

text \<open>What is to be acknowledged, from the configuration, the key and the receipt on disk.\<close>

definition ack_inputs ::
  "'w surroundings \<Rightarrow> pydict \<Rightarrow> pydict \<Rightarrow> pydict \<Rightarrow> node \<Rightarrow> string list \<Rightarrow> pydict \<Rightarrow>
     exn + string \<times> ack_signer \<times> pydict \<times> pydict" where
  "ack_inputs ex ack_config remote controller dir receipt_parts receipt =
     bindR (ex_mapping (get remote ''incremental_mirror_ack'') ''remote.incremental_mirror_ack'') (\<lambda>remote_ack.
       if \<not> pyeq (PDict ack_config) (PDict remote_ack) \<or> \<not> pyeq (get ack_config ''protocol'') (PStr ack_protocol)
       then app_error ''incremental acknowledgement configuration mismatch''
       else
         bindR (ex_mapping (get ack_config ''signer'') ''incremental acknowledgement signer'') (\<lambda>signer_fields.
         bindR (ex_string remote ''run_id'') (\<lambda>run_id.
         bindR (catchR (load_ack_signer (ex_digest ex) (ex_run_dir ex @ ''/secrets/incremental-mirror-ack-key/key'') (ex_keys ex) run_id)
           (\<lambda>e. case e of IncrementalAckError m \<Rightarrow> ApplicationError m | _ \<Rightarrow> e)) (\<lambda>signer.
           if \<not> pyeq (PDict (public_fields signer)) (PDict signer_fields)
           then app_error ''incremental acknowledgement signer differs from run request''
           else case read_file dir receipt_parts of
             Bytes receipt_bytes \<Rightarrow>
               bindR (ex_mapping_sequence (get receipt ''files'') ''incremental mirror receipt files'') (\<lambda>entries.
               bindR (bindR (ex_string receipt ''manifest_path'') incremental_relative_path) (\<lambda>manifest_relative.
               bindR (storage_manifest_path remote manifest_relative) (\<lambda>storage_path.
               bindR (total_size entries) (\<lambda>bytes.
                 Inr (storage_path, signer, signer_fields,
                   ack_statement remote storage_path receipt (int (length entries)) bytes (ex_sha ex receipt_bytes)
                     signer_fields)))))
           | _ \<Rightarrow> Inl (OSError ''incremental mirror receipt'')))))"

text \<open>The acknowledgement on disk: the one that is there when it verifies, a new one otherwise.\<close>

definition local_ack ::
  "'w surroundings \<Rightarrow> string list \<Rightarrow> ack_signer \<Rightarrow> pydict \<Rightarrow> pydict \<Rightarrow> node \<Rightarrow> (exn + string) \<times> node" where
  "local_ack ex ack_parts signer signer_fields unsigned dir =
     (let wrap = \<lambda>r. catchR r (\<lambda>e. case e of IncrementalAckError m \<Rightarrow> ApplicationError m | _ \<Rightarrow> e) in
      case find_node dir ack_parts of
        Found (Regular encoded) \<Rightarrow>
          (bindR (wrap (verify_ack (ex_repr ex) (ex_decode ex) (ex_float ex) (ex_digest ex) (ex_tool ex) encoded unsigned signer_fields))
             (\<lambda>_. Inr encoded), dir)
      | Missing \<Rightarrow>
          (case sign_ack (ex_repr ex) (ex_tool ex) unsigned signer of
             Inl (IncrementalAckError m) \<Rightarrow> (app_error m, dir)
           | Inl e \<Rightarrow> (Inl e, dir)
           | Inr encoded \<Rightarrow> bindW (atomic_bytes ack_parts encoded dir) (\<lambda>_ dir'. (Inr encoded, dir')))
      | _ \<Rightarrow> (app_error ''local incremental acknowledgement is not a regular file'', dir))"

text \<open>Placing it on the pod, unless it is there, and reading it back.\<close>

definition place_ack ::
  "'w surroundings \<Rightarrow> 'w transfer \<Rightarrow> string \<Rightarrow> string \<Rightarrow> string list \<Rightarrow> string \<Rightarrow> 'w station \<Rightarrow> (exn + unit) \<times> 'w station" where
  "place_ack ex t remote_ack_root ack_name ack_parts encoded s =
     bindW (with_world (tf_discover t remote_ack_root ack_name 1) s) (\<lambda>found s1.
     bindW (if found \<noteq> [] then (Inr found, s1)
            else bindW (with_world (tf_publish t (join slash (ex_run_dir ex # ack_parts)) (Some (Regular encoded))
                          (remote_ack_root @ CHR ''/'' # ack_name) (int (length encoded)) (ex_sha ex encoded)) s1) (\<lambda>_ s2.
              with_world (tf_discover t remote_ack_root ack_name 1) s2)) (\<lambda>found s3.
       case found of
         [f] \<Rightarrow>
           if rf_path f \<noteq> ack_name
           then (transfer_unavailable ''incremental acknowledgement publication outcome requires reconciliation'', s3)
           else (case tf_fetch t remote_ack_root ''staging'' f (sn_world s3) of
             ((Inl e, _), w) \<Rightarrow> (Inl e, s3\<lparr>sn_world := w\<rparr>)
           | ((Inr fetched, staging), w) \<Rightarrow>
               (if cr_size fetched \<noteq> int (length encoded) \<or> cr_sha256 fetched \<noteq> ex_sha ex encoded
                then app_error ''remote incremental acknowledgement conflicts''
                else case read_file staging [ack_name] of
                  Bytes bytes \<Rightarrow>
                    if bytes \<noteq> encoded then app_error ''remote incremental acknowledgement conflicts'' else Inr ()
                | _ \<Rightarrow> Inl (OSError ack_name), s3\<lparr>sn_world := w\<rparr>))
       | _ \<Rightarrow>
           (transfer_unavailable ''incremental acknowledgement publication outcome requires reconciliation'', s3)))"

definition publication_record :: "pydict \<Rightarrow> string \<Rightarrow> string \<Rightarrow> pydict" where
  "publication_record remote ack_path ack_sha256 =
     [(''protocol'', PStr ''incremental-ack-publication/1''), (''status'', PStr ''published''),
      (''run_id'', get remote ''run_id''), (''ack_path'', PStr ack_path), (''ack_sha256'', PStr ack_sha256)]"

definition publish_incremental_ack ::
  "'w surroundings \<Rightarrow> 'w transfer \<Rightarrow> pydict \<Rightarrow> pydict \<Rightarrow> string list \<Rightarrow> pydict \<Rightarrow> 'w station \<Rightarrow> (exn + unit) \<times> 'w station" where
  "publish_incremental_ack ex t remote controller receipt_parts receipt s =
     (if get controller ''incremental_mirror_ack'' = PNone then (Inr (), s)
      else case bindR (ex_mapping (get controller ''incremental_mirror_ack'') ''controller.incremental_mirror_ack'') (\<lambda>ack_config.
                  bindR (ack_inputs ex ack_config remote controller (sn_dir s) receipt_parts receipt) (\<lambda>i. Inr (ack_config, i))) of
        Inl e \<Rightarrow> (Inl e, s)
      | Inr (ack_config, storage_path, signer, signer_fields, unsigned) \<Rightarrow>
          let ack_name = ex_sha ex (utf8 storage_path) @ ''.json'';
              ack_parts = receipts ''incremental-acks'' @ [ack_name];
              publication_parts = receipts ''incremental-ack-state'' @ [ack_name]
          in
          bindW (with_dir (ensure_private_directory [] (receipts ''incremental-acks'')) s) (\<lambda>_ s1.
          bindW (with_dir (local_ack ex ack_parts signer signer_fields unsigned) s1) (\<lambda>encoded s2.
          bindW (with_dir (ensure_private_directory [] (receipts ''incremental-ack-state'')) s2) (\<lambda>_ s3.
          bindW (pureW (optional_mapping ex (sn_dir s3) publication_parts ''incremental acknowledgement publication receipt'') s3)
            (\<lambda>publication s4.
            case publication of
              Some p \<Rightarrow>
                (if \<not> pyeq (get p ''protocol'') (PStr ''incremental-ack-publication/1'') \<or>
                    \<not> pyeq (get p ''status'') (PStr ''published'') \<or> \<not> pyeq (get p ''ack_sha256'') (PStr (ex_sha ex encoded))
                 then app_error ''incremental acknowledgement publication is malformed'' else Inr (), s4)
            | None \<Rightarrow>
                bindW (pureW (bindR (ex_string controller ''remote_run_root'') (\<lambda>remote_root.
                         bindR (bindR (ex_string ack_config ''directory'') executor_relative_path) (\<lambda>d.
                           Inr (path_div (pure_posix_path remote_root) (as_posix d), d)))) s4) (\<lambda>(ack_root, d) s5.
                bindW (place_ack ex t (as_posix ack_root) ack_name ack_parts encoded s5) (\<lambda>_.
                  with_dir (atomic_json ex publication_parts
                    (publication_record remote (as_posix d @ CHR ''/'' # ack_name) (ex_sha ex encoded))))))))))"

section \<open>Mirroring a manifest\<close>

definition strftime_second :: "datetime \<Rightarrow> string" where
  "strftime_second t =
     digits_of 4 (dt_year t) @ ''-'' @ digits_of 2 (dt_month t) @ ''-'' @ digits_of 2 (dt_day t) @ ''T'' @
     digits_of 2 (dt_hour t) @ '':'' @ digits_of 2 (dt_minute t) @ '':'' @ digits_of 2 (dt_second t) @ ''Z''"

definition mirror_receipt :: "pydict \<Rightarrow> remote_file \<Rightarrow> string \<Rightarrow> pydict list \<Rightarrow> pydict" where
  "mirror_receipt remote f manifest_sha256 entries =
     [(''protocol'', PStr ''incremental-mirror-receipt/1''), (''status'', PStr ''pending''),
      (''run_id'', get remote ''run_id''), (''manifest_path'', PStr (rf_path f)), (''remote_size'', PInt (rf_size f)),
      (''remote_modified_at'', PStr (rf_modified_at f)), (''manifest_sha256'', PStr manifest_sha256),
      (''files'', PList (map PDict entries))]"

definition same_fingerprint :: "pydict \<Rightarrow> remote_file \<Rightarrow> bool" where
  "same_fingerprint receipt f \<longleftrightarrow>
     pyeq (get receipt ''remote_size'') (PInt (rf_size f)) \<and>
     pyeq (get receipt ''remote_modified_at'') (PStr (rf_modified_at f))"

text \<open>The manifest as it was fetched: its bytes, its hash and its entries.\<close>

definition fetch_manifest ::
  "'w surroundings \<Rightarrow> 'w transfer \<Rightarrow> posix_path \<Rightarrow> remote_file \<Rightarrow> posix_path \<Rightarrow> 'w \<Rightarrow>
     (exn + string \<times> pydict list) \<times> 'w" where
  "fetch_manifest ex t remote_run_root f manifest_relative w =
     (case tf_fetch t (as_posix remote_run_root) ''staging'' f w of
        ((Inl e, _), w') \<Rightarrow> (Inl e, w')
      | ((Inr fetched, staging), w') \<Rightarrow>
          (case read_file staging (path_parts manifest_relative) of
             Bytes bytes \<Rightarrow>
               if cr_sha256 fetched \<noteq> ex_sha ex bytes \<or> cr_size fetched \<noteq> int (length bytes)
               then app_error ''incremental completion manifest receipt mismatch''
               else bindR (load_incremental_manifest ex bytes) (\<lambda>manifest.
                 bindR (incremental_entries manifest manifest_relative) (\<lambda>entries. Inr (bytes, entries)))
           | _ \<Rightarrow> transfer_unavailable ''fetched incremental manifest is unavailable'', w'))"

definition enough_space :: "pyval \<Rightarrow> int \<Rightarrow> bool" where
  "enough_space available declared_bytes \<longleftrightarrow>
     (case as_int available of None \<Rightarrow> False | Some n \<Rightarrow> declared_bytes + min_controller_free_reserve \<le> n)"

text \<open>The files of a manifest that are not mirrored yet: downloaded to a fresh directory, verified and published.\<close>

definition populate ::
  "'w surroundings \<Rightarrow> 'w transfer \<Rightarrow> posix_path \<Rightarrow> posix_path \<Rightarrow> string list \<Rightarrow> pydict list \<Rightarrow> 'w station \<Rightarrow>
     (exn + unit) \<times> 'w station" where
  "populate ex t remote_run_root manifest_parent destination entries s =
     bindW (pureW (total_size entries) s) (\<lambda>declared_bytes s0.
     bindW (with_world (ex_free ex) s0) (\<lambda>available s1.
       if \<not> enough_space available declared_bytes
       then (app_error ''incremental transfer would violate the controller free space reserve'', s1)
       else
         bindW (with_dir (ensure_private_directory (receipts ''incremental'') (drop 2 destination)) s1) (\<lambda>_ s2.
           case tf_download t (as_posix (path_div remote_run_root (as_posix manifest_parent))) ''staging'' (Directory [])
                  entries (sn_world s2) of
             ((r, staging), w) \<Rightarrow>
               bindW (r, s2\<lparr>sn_world := w\<rparr>) (\<lambda>_ s3.
               bindW (pureW (catchR (verify_incremental_files (ex_sha ex) (Found staging) entries) cache_exn) s3) (\<lambda>_ s4.
               bindW (with_dir (publish_incremental_files staging destination entries) s4) (\<lambda>_ s5.
                 pureW (catchR (verify_incremental_files (ex_sha ex) (find_node (sn_dir s5) destination) entries) cache_exn)
                   s5))))))"

definition path_parent :: "posix_path \<Rightarrow> posix_path" where
  "path_parent p = p\<lparr>pp_tail := butlast (pp_tail p)\<rparr>"

text \<open>The manifest is new, or its receipt does not stand for what is on the pod.\<close>

definition mirror_fresh ::
  "'w surroundings \<Rightarrow> 'w transfer \<Rightarrow> posix_path \<Rightarrow> remote_file \<Rightarrow> posix_path \<Rightarrow> pydict \<Rightarrow> int \<Rightarrow> string \<Rightarrow> pydict option \<Rightarrow>
     'w station \<Rightarrow> (exn + pydict) \<times> 'w station" where
  "mirror_fresh ex t remote_run_root f p remote max_total_bytes key receipt s =
     (let receipt_parts = receipts ''incremental-state'' @ [key @ ''.json''];
          destination = receipts ''incremental'' @ butlast (path_parts p) in
      bindW (with_dir (ensure_private_directory [] (receipts ''.incremental-staging'')) s) (\<lambda>_ s1.
      bindW (with_world (fetch_manifest ex t remote_run_root f p) s1) (\<lambda>(bytes, entries) s2.
        let manifest_hash = ex_sha ex bytes;
            existing_hash = (case receipt of None \<Rightarrow> PNone | Some d \<Rightarrow> get d ''manifest_sha256'');
            pending = mirror_receipt remote f manifest_hash entries in
        if existing_hash \<noteq> PNone \<and> \<not> pyeq existing_hash (PStr manifest_hash)
        then (app_error (''conflicting incremental completion for '' @ rf_path f), s2)
        else
          bindW (pureW (enforce_incremental_run_limits ex (sn_dir s2) p entries max_total_bytes) s2) (\<lambda>_ s3.
          bindW (with_dir (atomic_json ex receipt_parts pending) s3) (\<lambda>_ s4.
          bindW (with_dir (ensure_private_directory [] (receipts ''incremental'')) s4) (\<lambda>_ s5.
          bindW (case verify_incremental_files (ex_sha ex) (find_node (sn_dir s5) destination) entries of
                   Inr _ \<Rightarrow> (Inr (), s5)
                 | Inl (Unsafe e) \<Rightarrow> (Inl e, s5)
                 | Inl (Cache_miss _) \<Rightarrow> populate ex t remote_run_root (path_parent p) destination entries s5) (\<lambda>_ s6.
          bindW (with_dir (atomic_bytes (destination @ [path_name p]) bytes) s6) (\<lambda>_ s7.
            case ex_now ex (sn_world s7) of
              (now, w) \<Rightarrow>
                let verified = dput ''verified_at'' (PStr (strftime_second now)) (dput ''status'' (PStr ''verified'') pending) in
                bindW (with_dir (atomic_json ex receipt_parts verified) (s7\<lparr>sn_world := w\<rparr>)) (\<lambda>_ s8.
                  (Inr verified, s8\<lparr>sn_verified := List.insert key (sn_verified s8)\<rparr>))))))))))"

definition mirror_incremental_manifest ::
  "'w surroundings \<Rightarrow> 'w transfer \<Rightarrow> posix_path \<Rightarrow> remote_file \<Rightarrow> pydict \<Rightarrow> pydict \<Rightarrow> int \<Rightarrow> 'w station \<Rightarrow>
     (exn + unit) \<times> 'w station" where
  "mirror_incremental_manifest ex t remote_run_root f remote controller max_total_bytes s =
     bindW (pureW (incremental_relative_path (rf_path f)) s) (\<lambda>p s0.
       let key = ex_sha ex (utf8 (rf_path f));
           receipt_parts = receipts ''incremental-state'' @ [key @ ''.json''] in
       bindW (pureW (optional_mapping ex (sn_dir s0) receipt_parts ''incremental mirror receipt'') s0) (\<lambda>receipt s1.
         let fresh = bindW (mirror_fresh ex t remote_run_root f p remote max_total_bytes key receipt s1)
                       (publish_incremental_ack ex t remote controller receipt_parts) in
         case receipt of
           None \<Rightarrow> fresh
         | Some d \<Rightarrow>
             if pyeq (get d ''status'') (PStr ''verified'') \<and> same_fingerprint d f
             then
               bindW (if key \<in> set (sn_verified s1) then (Inr (), s1)
                      else bindW (pureW (verify_incremental_cache ex (sn_dir s1) d p) s1) (\<lambda>_ s2.
                        (Inr (), s2\<lparr>sn_verified := List.insert key (sn_verified s2)\<rparr>))) (\<lambda>_.
                 publish_incremental_ack ex t remote controller receipt_parts d)
             else fresh))"

fun mirror_each ::
  "'w surroundings \<Rightarrow> 'w transfer \<Rightarrow> posix_path \<Rightarrow> string \<Rightarrow> pydict \<Rightarrow> pydict \<Rightarrow> int \<Rightarrow> remote_file list \<Rightarrow> 'w station \<Rightarrow>
     (exn + unit) \<times> 'w station" where
  "mirror_each ex t remote_run_root fixed_prefix remote controller max_total_bytes [] s = (Inr (), s)"
| "mirror_each ex t remote_run_root fixed_prefix remote controller max_total_bytes (f # fs) s =
     (let path = (if fixed_prefix = [] then pure_posix_path (rf_path f) else path_div (pure_posix_path fixed_prefix) (rf_path f));
          manifest = f\<lparr>rf_path := as_posix path\<rparr> in
      if max_incremental_manifest_bytes < rf_size manifest
      then (app_error (''incremental completion manifest is too large: '' @ rf_path manifest), s)
      else bindW (mirror_incremental_manifest ex t remote_run_root manifest remote controller max_total_bytes s) (\<lambda>_.
        mirror_each ex t remote_run_root fixed_prefix remote controller max_total_bytes fs))"

text \<open>What a mirror needs of the request.\<close>

definition mirror_plan :: "pydict \<Rightarrow> string \<Rightarrow> exn + discovery_pattern \<times> posix_path \<times> int" where
  "mirror_plan remote raw_pattern =
     bindR (catchR (validate_discovery_pattern raw_pattern) (\<lambda>e. ApplicationError (exn_text e))) (\<lambda>discovery.
     bindR (ex_mapping (get remote ''storage'') ''remote.storage'') (\<lambda>storage.
     bindR (ex_string storage ''mount'') (\<lambda>mount.
     bindR (remote_artifact_root remote (pure_posix_path mount)) (\<lambda>remote_run_root.
       case as_int (get storage ''required_gb'') of
         None \<Rightarrow> app_error ''remote storage capacity is invalid''
       | Some required_gb \<Rightarrow>
           if required_gb \<le> 0 then app_error ''remote storage capacity is invalid''
           else Inr (discovery, remote_run_root, min (required_gb * 1000000000) max_incremental_total_bytes)))))"

definition mirror_incremental_artifacts ::
  "'w surroundings \<Rightarrow> 'w transfer \<Rightarrow> pydict \<Rightarrow> pydict \<Rightarrow> 'w station \<Rightarrow> (exn + unit) \<times> 'w station" where
  "mirror_incremental_artifacts ex t remote controller s =
     (if get controller ''incremental_manifest_glob'' = PNone then (Inr (), s)
      else case as_str (get controller ''incremental_manifest_glob'') of
        None \<Rightarrow> (app_error ''incremental manifest glob must be a string'', s)
      | Some raw_pattern \<Rightarrow>
          bindW (pureW (mirror_plan remote raw_pattern) s) (\<lambda>(discovery, remote_run_root, max_total_bytes) s1.
            let discovery_root = (if dp_fixed_prefix discovery = [] then remote_run_root
                                  else path_div remote_run_root (dp_fixed_prefix discovery)) in
            bindW (with_world (tf_discover t (as_posix discovery_root) (dp_relative_pattern discovery)
                     max_incremental_manifests) s1) (\<lambda>manifests.
              mirror_each ex t remote_run_root (dp_fixed_prefix discovery) remote controller max_total_bytes manifests)))"

end
