(* ===== verification/Executor.thy ===== *)
theory Executor
  imports Mirror Engine
begin

text \<open>
  \<open>remote_executor.py\<close>, \<open>RunPodRemoteExecutor\<close>: delivering one request to a pod, following its authenticated status
  and recovering its artifacts.  The pod service, the status channel, the key scan, the clocks and the data plane are
  operations over a world; the loops that wait take fuel, and \<open>None\<close> is running out of it.
\<close>

section \<open>Surroundings\<close>

record 'w executor_parts =
  xp_files :: "'w surroundings"
  xp_get_pod :: "string \<Rightarrow> 'w \<Rightarrow> (exn + pod_observation option) \<times> 'w"
  xp_transfer :: "string \<Rightarrow> int \<Rightarrow> exn + 'w transfer"
  xp_scan :: "string \<Rightarrow> int \<Rightarrow> 'w \<Rightarrow> (exn + string) \<times> 'w"
  xp_status :: "string \<Rightarrow> string \<Rightarrow> 'w \<Rightarrow> (exn + pyval) \<times> 'w"
  xp_sleep :: "'w \<Rightarrow> 'w"
  xp_monotonic :: "'w \<Rightarrow> rat \<times> 'w"

text \<open>\<open>_fetch_status\<close>, the status channel the program uses, over an opener that may answer anything.\<close>

definition fetch_status :: "decoder \<Rightarrow> (string \<Rightarrow> pyfloat) \<Rightarrow> 'w opener \<Rightarrow> string \<Rightarrow> string \<Rightarrow> 'w \<Rightarrow> (exn + pyval) \<times> 'w" where
  "fetch_status decode fl opener url token w =
     (case opener \<lparr>hr_method = ''GET'', hr_url = url, hr_payload = None, hr_authorization = Some (''Bearer '' @ token)\<rparr> w of
        (Http_failed kind, w') \<Rightarrow> (Inl (OSError kind), w')
      | (Http_error code _, w') \<Rightarrow>
          (if code = 401 then app_error ''remote status token was rejected''
           else Inl (OSError (''remote status HTTP '' @ show_int code)), w')
      | (Http_body raw, w') \<Rightarrow>
          (case decode raw of
             Decoded t \<Rightarrow>
               (case loads fl t of
                  Inl _ \<Rightarrow> app_error ''remote status response is invalid JSON''
                | Inr v \<Rightarrow>
                    if as_dict v = None then app_error ''remote status response is not an object'' else Inr v)
           | _ \<Rightarrow> app_error ''remote status response is invalid JSON'', w'))"

text \<open>\<open>_scan_host_key\<close> and \<open>_rclone_factory\<close>: the answer of \<open>ssh-keyscan\<close>, and whether the key file is there.\<close>

definition scan_host_key :: "(string \<Rightarrow> int \<Rightarrow> 'w \<Rightarrow> (int \<times> string) \<times> 'w) \<Rightarrow> string \<Rightarrow> int \<Rightarrow> 'w \<Rightarrow> (exn + string) \<times> 'w" where
  "scan_host_key keyscan host port w =
     (case keyscan host port w of
        ((code, out), w') \<Rightarrow>
          (if code \<noteq> 0 \<or> strip out = [] then app_error ''unable to obtain the ephemeral RunPod SSH host key''
           else Inr out, w'))"

definition rclone_factory ::
  "bool \<Rightarrow> string \<Rightarrow> string \<Rightarrow> network \<Rightarrow> (string \<Rightarrow> string) \<Rightarrow> (string \<Rightarrow> pyfloat) \<Rightarrow> string \<Rightarrow> int \<Rightarrow> exn + nat transfer" where
  "rclone_factory key_there key known_hosts net sha fl host port =
     (if \<not> key_there then app_error ''RunPod SSH key is unavailable''
      else Inr (rclone_transfer \<lparr>cn_host = host, cn_port = port, cn_user = ''root'', cn_key = key,
                  cn_known_hosts = known_hosts\<rparr> net sha fl))"

section \<open>What a run starts from\<close>

definition durable_resource_id :: "'w surroundings \<Rightarrow> node \<Rightarrow> exn + string" where
  "durable_resource_id ex dir =
     (case read_file dir [''state.json''] of
        Bytes data \<Rightarrow>
          (case ex_decode ex data of
             Decoded t \<Rightarrow>
               (case loads (ex_float ex) t of
                  Inl _ \<Rightarrow> app_error ''durable resource state is unavailable''
                | Inr v \<Rightarrow>
                    bindR (ex_mapping v ''state'') (\<lambda>state.
                    bindR (ex_mapping (get state ''resource'') ''state.resource'') (\<lambda>resource. ex_string resource ''id'')))
           | _ \<Rightarrow> Inl (ValueError ''utf-8''))
      | _ \<Rightarrow> app_error ''durable resource state is unavailable'')"

definition status_token :: "'w surroundings \<Rightarrow> node \<Rightarrow> pydict \<Rightarrow> exn + string" where
  "status_token ex dir controller =
     (case read_file dir [''secrets'', ''status-token''] of
        Bytes data \<Rightarrow>
          if \<not> list_all is_ascii data then Inl (ValueError ''ascii'')
          else bindR (ex_string controller ''status_token_sha256'') (\<lambda>expected.
            if strip data = [] \<or> ex_sha ex (strip data) \<noteq> expected
            then app_error ''run-scoped status token does not match durable request'' else Inr (strip data))
      | _ \<Rightarrow> app_error ''run-scoped status token is unavailable'')"

text \<open>\<open>datetime.strptime(value, "%Y-%m-%dT%H:%M:%SZ")\<close>: one or two digits a field, letters of either case.\<close>

definition time_field :: "nat \<Rightarrow> nat \<Rightarrow> string \<Rightarrow> nat option" where
  "time_field lo hi s =
     (if length s \<in> {1, 2} \<and> list_all is_digit s \<and> lo \<le> read_nat s \<and> read_nat s \<le> hi then Some (read_nat s) else None)"

definition day_field :: "string \<Rightarrow> nat option" where
  "day_field s = time_field 1 31 (if length s = 2 \<and> hd s = CHR '' '' then tl s else s)"

definition clock_fields :: "string \<Rightarrow> (nat \<times> nat \<times> nat) option" where
  "clock_fields s =
     (case split_on (CHR '':'') s of
        [h, m, sec] \<Rightarrow>
          (case (time_field 0 23 h, time_field 0 59 m, time_field 0 59 sec) of
             (Some h', Some m', Some s') \<Rightarrow> Some (h', m', s')
           | _ \<Rightarrow> None)
      | _ \<Rightarrow> None)"

definition strptime_utc :: "string \<Rightarrow> datetime option" where
  "strptime_utc s =
     (case split_on (CHR ''-'') s of
        [y, mo, rest] \<Rightarrow>
          let d = takeWhile (\<lambda>c. c \<notin> {CHR ''T'', CHR ''t''}) rest;
              clock = drop (Suc (length d)) rest in
          if length y \<noteq> 4 \<or> \<not> list_all is_digit y \<or> length d = length rest \<or> clock = [] \<or>
             last clock \<notin> {CHR ''Z'', CHR ''z''} then None
          else (case (time_field 1 12 mo, day_field d, clock_fields (butlast clock)) of
             (Some mo', Some d', Some (h, m, sec)) \<Rightarrow>
               let t = \<lparr>dt_year = read_nat y, dt_month = mo', dt_day = d', dt_hour = h, dt_minute = m, dt_second = sec,
                        dt_micro = 0, dt_offset = Some 0\<rparr> in
               if valid_datetime t then Some t else None
           | _ \<Rightarrow> None)
      | _ \<Rightarrow> None)"

definition run_deadline :: "pydict \<Rightarrow> exn + datetime" where
  "run_deadline provider =
     bindR (ex_string provider ''terminate_at'') (\<lambda>v.
       case strptime_utc v of None \<Rightarrow> app_error ''provider termination deadline is invalid'' | Some t \<Rightarrow> Inr t)"

definition ssh_port_at :: "pydict \<Rightarrow> string \<Rightarrow> int option" where
  "ssh_port_at mappings key =
     (case as_int (get mappings key) of None \<Rightarrow> None | Some n \<Rightarrow> if 0 < n \<and> n < 65536 then Some n else None)"

definition ssh_port :: "pydict \<Rightarrow> int option" where
  "ssh_port mappings =
     (case ssh_port_at mappings ''22'' of Some n \<Rightarrow> Some n | None \<Rightarrow> ssh_port_at mappings ''22/tcp'')"

section \<open>Waiting for the pod\<close>

text \<open>How the wait ends: a pod that can be reached and whose storage is attested, none, or too late.\<close>

datatype connectivity = Connected pod_observation | Unconnected | Startup_timeout

definition storage_attested :: "pydict \<Rightarrow> pod_observation \<Rightarrow> exn + bool" where
  "storage_attested storage pod =
     (if get storage ''encrypted'' = PBool False then
        (case as_str (get storage ''network_volume_id'') of
           None \<Rightarrow> app_error ''remote network volume identity is invalid''
         | Some volume \<Rightarrow>
             if volume = [] then app_error ''remote network volume identity is invalid''
             else if po_network_volume_id pod \<noteq> Some volume
             then app_error ''provider network volume attachment differs from the run request''
             else Inr True)
      else Inr (po_volume_encrypted pod = Some True))"

definition reachable_pod :: "pod_observation \<Rightarrow> bool" where
  "reachable_pod pod \<longleftrightarrow>
     po_public_ip pod \<noteq> None \<and> po_public_ip pod \<noteq> Some [] \<and>
     (case po_port_mappings pod of None \<Rightarrow> False | Some m \<Rightarrow> ssh_port m \<noteq> None)"

fun wait_for_connectivity ::
  "'w executor_parts \<Rightarrow> nat \<Rightarrow> string \<Rightarrow> datetime \<Rightarrow> rat \<Rightarrow> pydict \<Rightarrow> 'w \<Rightarrow> ((exn + connectivity) \<times> 'w) option" where
  "wait_for_connectivity x 0 resource_id deadline startup storage w = None"
| "wait_for_connectivity x (Suc n) resource_id deadline startup storage w =
     (case ex_now (xp_files x) w of
        (now, w1) \<Rightarrow>
          if \<not> dt_before now deadline then Some (Inr Unconnected, w1)
          else (case xp_monotonic x w1 of
            (reading, w2) \<Rightarrow>
              if startup \<le> reading then Some (Inr Startup_timeout, w2)
              else (case xp_get_pod x resource_id w2 of
                 (Inl e, w3) \<Rightarrow> Some (Inl e, w3)
               | (Inr None, w3) \<Rightarrow> Some (Inr Unconnected, w3)
               | (Inr (Some pod), w3) \<Rightarrow>
                   (case storage_attested storage pod of
                      Inl e \<Rightarrow> Some (Inl e, w3)
                    | Inr attested \<Rightarrow>
                        if attested \<and> reachable_pod pod then Some (Inr (Connected pod), w3)
                        else wait_for_connectivity x n resource_id deadline startup storage (xp_sleep x w3)))))"

section \<open>Delivery\<close>

text \<open>A subtree of the run's directory: what a transfer reads from, and where one delivers to.\<close>

definition subtree :: "node \<Rightarrow> string list \<Rightarrow> node" where
  "subtree dir parts = (case find_node dir parts of Found n \<Rightarrow> n | _ \<Rightarrow> Directory [])"

fun put_tree :: "string list \<Rightarrow> node \<Rightarrow> node \<Rightarrow> node option" where
  "put_tree [] t n = Some t"
| "put_tree (p # ps) t (Directory es) =
     map_option (\<lambda>n. Directory (dput p n es))
       (put_tree ps t (case dget es p of None \<Rightarrow> Directory [] | Some n \<Rightarrow> n))"
| "put_tree (p # ps) t n = None"

definition download_to ::
  "'w surroundings \<Rightarrow> 'w transfer \<Rightarrow> posix_path \<Rightarrow> string list \<Rightarrow> pydict list \<Rightarrow> 'w station \<Rightarrow> (exn + unit) \<times> 'w station" where
  "download_to ex t source parts manifest s =
     (case tf_download t (as_posix source) (join slash (ex_run_dir ex # parts)) (subtree (sn_dir s) parts) manifest
             (sn_world s) of
        ((r, tree), w) \<Rightarrow>
          (case put_tree parts tree (sn_dir s) of
             None \<Rightarrow> (Inl (OSError (join slash parts)), s\<lparr>sn_world := w\<rparr>)
           | Some dir \<Rightarrow> (bindR r (\<lambda>_. Inr ()), s\<lparr>sn_dir := dir, sn_world := w\<rparr>)))"

definition strict_json :: "'w surroundings \<Rightarrow> pyval \<Rightarrow> exn + string" where
  "strict_json ex v = (if dumpable v then Inr (json_text (ex_repr ex) v) else Inl (ValueError ''json''))"

definition upload_bootstrap ::
  "'w surroundings \<Rightarrow> 'w transfer \<Rightarrow> pydict \<Rightarrow> string \<Rightarrow> string \<Rightarrow> 'w station \<Rightarrow> (exn + unit) \<times> 'w station" where
  "upload_bootstrap ex t remote token remote_root s =
     bindW (pureW (strict_json ex (PDict remote)) s) (\<lambda>request s0.
       let request_bytes = request @ [newline]; token_bytes = token @ [newline];
           entry = (\<lambda>name data. [(''path'', PStr name), (''size'', PInt (int (length data))), (''sha256'', PStr (ex_sha ex data))]) in
       bindW (with_dir (atomic_bytes [''bootstrap'', ''request.json''] request_bytes) s0) (\<lambda>_ s1.
       bindW (with_dir (atomic_bytes [''bootstrap'', ''status-token''] token_bytes) s1) (\<lambda>_ s2.
       bindW (with_world (tf_upload t (ex_run_dir ex @ ''/bootstrap'') (subtree (sn_dir s2) [''bootstrap'']) remote_root
                [entry ''request.json'' request_bytes, entry ''status-token'' token_bytes]) s2) (\<lambda>_ s3. (Inr (), s3)))))"

definition input_size :: "pydict \<Rightarrow> exn + int" where
  "input_size entry =
     (case as_int (get entry ''size'') of
        None \<Rightarrow> app_error ''input manifest entry has an invalid size''
      | Some n \<Rightarrow> if n < 0 then app_error ''input manifest entry has an invalid size'' else Inr n)"

definition launch_receipt :: "string \<Rightarrow> string list" where
  "launch_receipt name = [''receipts'', ''launch'', name]"

definition input_publication ::
  "'w surroundings \<Rightarrow> pydict list \<Rightarrow> string \<Rightarrow> string \<Rightarrow> exn + int \<times> pydict" where
  "input_publication ex input_files remote_root run_id =
     bindR (strict_json ex (PList (map PDict input_files))) (\<lambda>text.
     bindR (mapR input_size input_files) (\<lambda>sizes.
       Inr (sum_list sizes,
         [(''protocol'', PStr ''input-publication/1''), (''run_id'', PStr run_id),
          (''destination_root'', PStr (remote_root @ ''/input'')), (''manifest_sha256'', PStr (ex_sha ex text)),
          (''files'', PInt (int (length input_files))), (''bytes'', PInt (sum_list sizes))])))"

definition ensure_inputs_uploaded ::
  "'w surroundings \<Rightarrow> 'w transfer \<Rightarrow> pydict \<Rightarrow> string \<Rightarrow> string \<Rightarrow> 'w station \<Rightarrow> (exn + unit) \<times> 'w station" where
  "ensure_inputs_uploaded ex t controller remote_root run_id s =
     bindW (pureW (ex_mapping_sequence (get controller ''input_files'') ''input_files'') s) (\<lambda>input_files s1.
     bindW (pureW (input_publication ex input_files remote_root run_id) s1) (\<lambda>(bytes, expected) s2.
     bindW (pureW (optional_mapping ex (sn_dir s2) (launch_receipt ''input-publication.json'') ''input publication receipt'') s2)
       (\<lambda>existing s3.
       case existing of
         Some e \<Rightarrow>
           (if \<not> pyeq (PDict e) (PDict expected)
            then app_error ''input publication receipt conflicts with the run request'' else Inr (), s3)
       | None \<Rightarrow>
           bindW (pureW (ex_string controller ''input_root'') s3) (\<lambda>input_root s4.
           bindW (with_world (tf_upload t input_root (ex_tree ex input_root) (remote_root @ ''/input'') input_files) s4)
             (\<lambda>receipt s5.
             if tr_files receipt \<noteq> int (length input_files) \<or> tr_bytes receipt \<noteq> bytes
             then (app_error ''input transfer receipt differs from the allow-list'', s5)
             else with_dir (atomic_json ex (launch_receipt ''input-publication.json'') expected) s5)))))"

definition as_application :: "exn \<Rightarrow> exn" where
  "as_application e = (case e of LaunchAuthorizationError m \<Rightarrow> ApplicationError m | _ \<Rightarrow> e)"

definition token_file_at :: "node \<Rightarrow> string list \<Rightarrow> token_file" where
  "token_file_at dir parts =
     (case find_node dir parts of
        Found (Regular data) \<Rightarrow> RegularFile data
      | Found _ \<Rightarrow> Special
      | Through_symlink \<Rightarrow> Unopenable
      | Missing \<Rightarrow> NoFile)"

definition launch_token_parts :: "string list" where
  "launch_token_parts = [''secrets'', ''launch-authorization.token'']"

definition ensure_launch_published ::
  "'w surroundings \<Rightarrow> 'w transfer \<Rightarrow> pydict \<Rightarrow> string \<Rightarrow> string \<Rightarrow> 'w station \<Rightarrow> (exn + unit) \<times> 'w station" where
  "ensure_launch_published ex t remote remote_root run_id s =
     bindW (pureW (catchR (bindR (parse_launch_authorization (get remote ''launch_authorization'')) (\<lambda>a.
         bindR (read_token (token_file_at (sn_dir s) launch_token_parts)) (\<lambda>token. Inr (a, token)))) as_application) s)
       (\<lambda>(a, token) s1.
       if int (Suc (length token)) \<noteq> la_size a \<or> ex_sha ex token \<noteq> la_sha256 a
       then (app_error ''local launch token differs from the pinned run request'', s1)
       else
         let expected = [(''protocol'', PStr ''launch-publication/1''), (''run_id'', PStr run_id),
               (''path'', PStr (la_relative_path a)), (''sha256'', PStr (la_sha256 a)), (''size'', PInt (la_size a))] in
         bindW (pureW (optional_mapping ex (sn_dir s1) (launch_receipt ''authorization-publication.json'')
                  ''launch authorization publication receipt'') s1) (\<lambda>existing s2.
           case existing of
             Some e \<Rightarrow>
               (if \<not> pyeq (PDict e) (PDict expected)
                then app_error ''launch authorization publication receipt conflicts'' else Inr (), s2)
           | None \<Rightarrow>
               bindW (with_world (tf_publish t (join slash (ex_run_dir ex # launch_token_parts))
                        (case find_node (sn_dir s2) launch_token_parts of Found n \<Rightarrow> Some n | _ \<Rightarrow> None)
                        (as_posix (path_div (pure_posix_path remote_root) (la_relative_path a))) (la_size a)
                        (ex_sha ex (token @ [newline]))) s2) (\<lambda>receipt s3.
                 if tr_files receipt \<noteq> 1 \<or> tr_bytes receipt \<noteq> la_size a
                 then (app_error ''launch authorization transfer receipt is invalid'', s3)
                 else with_dir (atomic_json ex (launch_receipt ''authorization-publication.json'') expected) s3)))"

section \<open>Artifacts of a terminal run\<close>

text \<open>\<open>path.relative_to(parent)\<close>, where the parent is not absolute.\<close>

definition relative_to :: "posix_path \<Rightarrow> posix_path \<Rightarrow> posix_path option" where
  "relative_to p parent =
     (if \<not> is_absolute p \<and> take (length (pp_tail parent)) (pp_tail p) = pp_tail parent
      then Some (p\<lparr>pp_tail := drop (length (pp_tail parent)) (pp_tail p)\<rparr>) else None)"

definition relative_entry :: "posix_path \<Rightarrow> pydict \<Rightarrow> exn + pydict" where
  "relative_entry manifest_parent entry =
     bindR (bindR (ex_string entry ''path'') executor_relative_path) (\<lambda>p.
       case relative_to p manifest_parent of
         None \<Rightarrow> app_error ''artifact lies outside the declared artifact directory''
       | Some relative \<Rightarrow>
           Inr [(''path'', PStr (as_posix relative)), (''size'', get entry ''size''), (''sha256'', get entry ''sha256'')])"

definition terminal_manifest ::
  "'w surroundings \<Rightarrow> pydict \<Rightarrow> posix_path \<Rightarrow> file_read \<Rightarrow> exn + string \<times> pydict list" where
  "terminal_manifest ex remote manifest_parent f =
     (case f of
        Bytes data \<Rightarrow>
          (case ex_decode ex data of
             Decoded t \<Rightarrow>
               (case loads (ex_float ex) t of
                  Inl _ \<Rightarrow> app_error ''artifact manifest is invalid JSON''
                | Inr v \<Rightarrow>
                    bindR (ex_mapping v ''artifact manifest'') (\<lambda>manifest.
                      if \<not> pyeq (get manifest ''protocol'') (PStr ''artifact-manifest/1'')
                      then app_error ''artifact manifest protocol is unsupported''
                      else if get manifest ''run_id'' \<noteq> PNone \<and> \<not> pyeq (get manifest ''run_id'') (get remote ''run_id'')
                      then app_error ''artifact manifest run identity mismatch''
                      else bindR (ex_mapping_sequence (get manifest ''files'') ''artifact manifest files'') (\<lambda>entries.
                        bindR (mapR (relative_entry manifest_parent) entries) (\<lambda>es. Inr (data, es)))))
           | _ \<Rightarrow> app_error ''artifact manifest is invalid JSON'')
      | _ \<Rightarrow> app_error ''artifact manifest is invalid JSON'')"

text \<open>Where the artifacts are on the pod, and the path of their manifest.\<close>

definition artifact_source :: "pydict \<Rightarrow> pydict \<Rightarrow> exn + posix_path \<times> posix_path" where
  "artifact_source remote controller =
     bindR (ex_mapping (get remote ''storage'') ''remote.storage'') (\<lambda>storage.
     bindR (ex_string storage ''mount'') (\<lambda>mount.
     bindR (remote_artifact_root remote (pure_posix_path mount)) (\<lambda>remote_run_root.
     bindR (bindR (ex_string controller ''artifact_manifest_path'') executor_relative_path) (\<lambda>p.
       Inr (remote_run_root, p)))))"

definition recover_artifacts ::
  "'w surroundings \<Rightarrow> 'w transfer \<Rightarrow> pydict \<Rightarrow> pydict \<Rightarrow> pydict \<Rightarrow> workload_result \<Rightarrow> 'w station \<Rightarrow>
     (exn + artifact_disposition) \<times> 'w station" where
  "recover_artifacts ex t remote controller terminal result s =
     (case (as_str (get terminal ''artifact_manifest_sha256''), as_int (get terminal ''artifact_manifest_size'')) of
        (Some manifest_hash, Some manifest_size) \<Rightarrow>
          bindW (pureW (artifact_source remote controller) s) (\<lambda>(remote_run_root, p) s0.
            let source = path_div remote_run_root (as_posix (path_parent p)); manifest_parts = receipts ''manifest'' in
            bindW (download_to ex t source manifest_parts
                     [[(''path'', PStr (path_name p)), (''size'', PInt manifest_size), (''sha256'', PStr manifest_hash)]] s0) (\<lambda>_ s1.
            bindW (pureW (terminal_manifest ex remote (path_parent p)
                     (read_file (sn_dir s1) (manifest_parts @ [path_name p]))) s1) (\<lambda>(data, entries) s2.
            bindW (download_to ex t source (receipts ''artifacts'') entries s2) (\<lambda>_ s3.
            bindW (with_dir (atomic_bytes [''artifact-manifest.json''] data) s3) (\<lambda>_ s4.
              (Inr (if result = SUCCEEDED then VERIFIED else PARTIAL_RECOVERED), s4))))))
      | _ \<Rightarrow>
          (if result = SUCCEEDED then app_error ''successful remote terminal lacks an artifact manifest receipt''
           else Inr UNAVAILABLE, s))"

section \<open>Observations\<close>

definition observe :: "workload_result \<Rightarrow> artifact_disposition \<Rightarrow> string \<Rightarrow> observation" where
  "observe result disposition detail = \<lparr>ob_result = result, ob_disposition = disposition, ob_detail = detail\<rparr>"

definition failed :: "string \<Rightarrow> observation" where
  "failed detail = observe FAILED UNAVAILABLE detail"

definition partial_disposition :: "'w surroundings \<Rightarrow> 'w station \<Rightarrow> artifact_disposition" where
  "partial_disposition ex s =
     (if sn_verified s \<noteq> [] \<or> has_verified_incremental_artifacts ex (sn_dir s) then PARTIAL_RECOVERED else UNAVAILABLE)"

definition permanent_failure :: "'w surroundings \<Rightarrow> 'w station \<Rightarrow> string \<Rightarrow> observation" where
  "permanent_failure ex s detail = observe FAILED (partial_disposition ex s) detail"

text \<open>\<open>str(v)\<close> in a message; of a container only its kind.\<close>

fun value_text :: "(pyfloat \<Rightarrow> string) \<Rightarrow> pyval \<Rightarrow> string" where
  "value_text rep PNone = ''None''"
| "value_text rep (PBool b) = (if b then ''True'' else ''False'')"
| "value_text rep (PInt i) = show_int i"
| "value_text rep (PFloat f) = rep f"
| "value_text rep (PDec d) = format_f d"
| "value_text rep (PStr s) = s"
| "value_text rep (PList _) = ''list''"
| "value_text rep (PDict _) = ''dict''"

section \<open>Following the run\<close>

text \<open>\<open>float(v) * 3\<close> and \<open>max(30.0, x)\<close>.\<close>

definition stale_limit :: "pydict \<Rightarrow> exn + pyfloat" where
  "stale_limit remote =
     (let v = get remote ''heartbeat_interval_seconds''; bad = app_error ''heartbeat_interval_seconds must be a positive number'' in
      case as_number v of
        None \<Rightarrow> bad
      | Some n \<Rightarrow>
          if fle n (Fin 0) then bad
          else bindR (to_float v) (\<lambda>f.
            let three = (case f of Some (Fin r) \<Rightarrow> Fin (3 * r) | Some other \<Rightarrow> other | None \<Rightarrow> NotANumber) in
            Inr (if flt (Fin 30) three then three else Fin 30)))"

text \<open>What a record says of the run: a reason to give up, or its state and its terminal result.\<close>

datatype reading =
    Rejected_record string
  | Stale_record
  | Live_ready
  | Live_record pyval

text \<open>\<open>state not in {...}\<close> raises \<open>TypeError\<close> for a value without a hash; \<open>float(age)\<close> may overflow.\<close>

definition read_record :: "pydict \<Rightarrow> pydict \<Rightarrow> pyfloat \<Rightarrow> exn + reading" where
  "read_record status remote stale_after =
     (case remote_identity_error status remote of
        Some e \<Rightarrow> Inr (Rejected_record (''authenticated remote runner identity mismatch: '' @ e))
      | None \<Rightarrow>
          let age = get status ''heartbeat_age_seconds''; state = get status ''state'' in
          if (case as_number age of None \<Rightarrow> True | Some a \<Rightarrow> flt a (Fin 0))
          then Inr (Rejected_record ''authenticated remote status has an invalid heartbeat age'')
          else if as_list state \<noteq> None \<or> as_dict state \<noteq> None then Inl (TypeError ''unhashable type'')
          else if as_str state \<notin> {Some ''ready'', Some ''running'', Some ''terminal''}
          then Inr (Rejected_record ''authenticated remote status has an invalid state'')
          else bindR (if state = PStr ''terminal'' then Inr False
                      else bindR (to_float age) (\<lambda>f. Inr (case f of None \<Rightarrow> False | Some a \<Rightarrow> flt stale_after a))) (\<lambda>stale.
            Inr (if stale then Stale_record
                 else if state = PStr ''ready'' then Live_ready else Live_record (get status ''terminal_result''))))"

text \<open>
  How a step of the loop ends: with an observation, or going on after a pause; and what the handlers make of an
  exception: a pause, an observation, or the exception itself.
\<close>

datatype outcome = Observed observation | Pause

definition on_transfer :: "(string \<Rightarrow> observation) \<Rightarrow> (exn + unit) \<times> 'w station \<Rightarrow> (exn + outcome option) \<times> 'w station" where
  "on_transfer h m =
     (case m of
        (Inr _, s) \<Rightarrow> (Inr None, s)
      | (Inl (TransferUnavailable _), s) \<Rightarrow> (Inr (Some Pause), s)
      | (Inl (ApplicationError e), s) \<Rightarrow> (Inr (Some (Observed (h e))), s)
      | (Inl (TransferError e), s) \<Rightarrow> (Inr (Some (Observed (h e))), s)
      | (Inl e, s) \<Rightarrow> (Inl e, s))"

definition follow_ready ::
  "'w surroundings \<Rightarrow> 'w transfer \<Rightarrow> pydict \<Rightarrow> pydict \<Rightarrow> string \<Rightarrow> string \<Rightarrow> 'w station \<Rightarrow> (exn + outcome) \<times> 'w station" where
  "follow_ready ex t remote controller remote_root run_id s =
     (let m = bindW (ensure_inputs_uploaded ex t controller remote_root run_id s)
                (\<lambda>_. ensure_launch_published ex t remote remote_root run_id) in
      bindW (on_transfer (\<lambda>e. permanent_failure ex (snd m) (''launch authorization failed: '' @ e)) m) (\<lambda>o' s'.
        (Inr (case o' of None \<Rightarrow> Pause | Some o'' \<Rightarrow> o''), s')))"

definition finish_terminal ::
  "'w surroundings \<Rightarrow> 'w transfer \<Rightarrow> pydict \<Rightarrow> pydict \<Rightarrow> pyval \<Rightarrow> 'w station \<Rightarrow> (exn + outcome) \<times> 'w station" where
  "finish_terminal ex t remote controller terminal_value s =
     (case as_dict terminal_value of
        None \<Rightarrow>
          (Inr (Observed (permanent_failure ex s
             ''authenticated remote terminal result is invalid: remote terminal result must be an object'')), s)
      | Some terminal \<Rightarrow>
          let result = (if pyeq (get terminal ''outcome'') (PStr ''succeeded'') then SUCCEEDED else FAILED) in
          (case recover_artifacts ex t remote controller terminal result s of
             (Inr disposition, s') \<Rightarrow>
               (Inr (Observed (observe result disposition
                  (''remote outcome: '' @ value_text (ex_repr ex) (get terminal ''outcome'') @ ''; reason: '' @
                   value_text (ex_repr ex) (get terminal ''reason'')))), s')
           | (Inl (TransferUnavailable _), s') \<Rightarrow> (Inr Pause, s')
           | (Inl (ApplicationError e), s') \<Rightarrow>
               (Inr (Observed (permanent_failure ex s' (''terminal artifact recovery failed: '' @ e))), s')
           | (Inl (TransferError e), s') \<Rightarrow>
               (Inr (Observed (permanent_failure ex s' (''terminal artifact recovery failed: '' @ e))), s')
           | (Inl e, s') \<Rightarrow> (Inl e, s')))"

definition follow_live ::
  "'w surroundings \<Rightarrow> 'w transfer \<Rightarrow> pydict \<Rightarrow> pydict \<Rightarrow> pyval \<Rightarrow> 'w station \<Rightarrow> (exn + outcome) \<times> 'w station" where
  "follow_live ex t remote controller terminal_value s =
     (let m = mirror_incremental_artifacts ex t remote controller s in
      bindW (on_transfer (\<lambda>e. permanent_failure ex (snd m) (''incremental artifact contract failed: '' @ e)) m) (\<lambda>o' s'.
        case o' of
          Some o'' \<Rightarrow> (Inr o'', s')
        | None \<Rightarrow>
            if terminal_value = PNone then (Inr Pause, s')
            else finish_terminal ex t remote controller terminal_value s'))"

text \<open>A status record that was fetched, written down and acted upon.\<close>

definition follow_record ::
  "'w surroundings \<Rightarrow> 'w transfer \<Rightarrow> pydict \<Rightarrow> pydict \<Rightarrow> string \<Rightarrow> string \<Rightarrow> pyfloat \<Rightarrow> pydict \<Rightarrow> 'w station \<Rightarrow>
     (exn + outcome) \<times> 'w station" where
  "follow_record ex t remote controller remote_root run_id stale_after status s =
     bindW (with_dir (atomic_json ex [''remote-status.json''] status) s) (\<lambda>_ s1.
     bindW (pureW (read_record status remote stale_after) s1) (\<lambda>r s2.
       case r of
         Rejected_record m \<Rightarrow> (Inr (Observed (permanent_failure ex s2 m)), s2)
       | Stale_record \<Rightarrow> (Inr (Observed (failed ''authenticated remote heartbeat is stale'')), s2)
       | Live_ready \<Rightarrow> follow_ready ex t remote controller remote_root run_id s2
       | Live_record terminal_value \<Rightarrow> follow_live ex t remote controller terminal_value s2))"

text \<open>
  One iteration; the startup deadline is \<open>None\<close> once a record of this run was seen.
\<close>

definition follow_once ::
  "'w executor_parts \<Rightarrow> 'w transfer \<Rightarrow> pydict \<Rightarrow> pydict \<Rightarrow> string \<Rightarrow> string \<Rightarrow> string \<Rightarrow> string \<Rightarrow> pyfloat \<Rightarrow> datetime \<Rightarrow>
     rat option \<Rightarrow> 'w station \<Rightarrow> (exn + outcome \<times> rat option) \<times> 'w station" where
  "follow_once x t remote controller remote_root run_id url token stale_after deadline startup s =
     (let ex = xp_files x in
      case ex_now ex (sn_world s) of
        (now, w1) \<Rightarrow>
          if \<not> dt_before now deadline
          then (Inr (Observed (failed ''provider termination deadline reached before remote terminal status''), startup),
                s\<lparr>sn_world := w1\<rparr>)
          else (case xp_monotonic x w1 of
            (reading, w2) \<Rightarrow>
              if (case startup of None \<Rightarrow> False | Some limit \<Rightarrow> limit \<le> reading)
              then (Inr (Observed (failed ''remote startup deadline reached before authenticated status''), startup),
                    s\<lparr>sn_world := w2\<rparr>)
              else (case xp_status x url token w2 of
                (r, w3) \<Rightarrow>
                  let s' = s\<lparr>sn_world := w3\<rparr>;
                      invalid = (\<lambda>m. (Inr (Observed (permanent_failure ex s' (''authenticated remote status is invalid: '' @ m)),
                                          startup), s')) in
                  (case r of
                     Inl (OSError _) \<Rightarrow> (Inr (Pause, startup), s')
                   | Inl (ApplicationError m) \<Rightarrow> invalid m
                   | Inl (ValueError m) \<Rightarrow> invalid m
                   | Inl e \<Rightarrow> (Inl e, s')
                   | Inr v \<Rightarrow>
                       (case as_dict v of
                          None \<Rightarrow> invalid ''remote status must be an object''
                        | Some status \<Rightarrow>
                            if \<not> pyeq (get status ''protocol'') (PStr ''run-status/1'') \<or>
                               \<not> pyeq (get status ''run_id'') (PStr run_id)
                            then (Inr (Observed (permanent_failure ex s' ''authenticated remote status identity mismatch''),
                                       startup), s')
                            else bindW (follow_record ex t remote controller remote_root run_id stale_after status s')
                              (\<lambda>o' s''. (Inr (o', None), s''))))))
         )"

fun follow ::
  "'w executor_parts \<Rightarrow> nat \<Rightarrow> 'w transfer \<Rightarrow> pydict \<Rightarrow> pydict \<Rightarrow> string \<Rightarrow> string \<Rightarrow> string \<Rightarrow> string \<Rightarrow> pyfloat \<Rightarrow> datetime \<Rightarrow>
     rat option \<Rightarrow> 'w station \<Rightarrow> ((exn + observation) \<times> 'w station) option" where
  "follow x 0 t remote controller remote_root run_id url token stale_after deadline startup s = None"
| "follow x (Suc n) t remote controller remote_root run_id url token stale_after deadline startup s =
     (case follow_once x t remote controller remote_root run_id url token stale_after deadline startup s of
        (Inl e, s') \<Rightarrow> Some (Inl e, s')
      | (Inr (Observed ob, _), s') \<Rightarrow> Some (Inr ob, s')
      | (Inr (Pause, startup'), s') \<Rightarrow>
          follow x n t remote controller remote_root run_id url token stale_after deadline startup'
            (s'\<lparr>sn_world := xp_sleep x (sn_world s')\<rparr>))"

section \<open>Executing a request\<close>

text \<open>What the request and the run's directory say: the parts, the resource and the deadline.\<close>

definition execution_plan ::
  "'w surroundings \<Rightarrow> pydict \<Rightarrow> node \<Rightarrow> exn + pydict \<times> pydict \<times> string \<times> string \<times> datetime" where
  "execution_plan ex request dir =
     bindR (ex_mapping (get request ''controller'') ''request.controller'') (\<lambda>controller.
     bindR (ex_mapping (get request ''remote'') ''request.remote'') (\<lambda>remote.
     bindR (ex_string remote ''run_id'') (\<lambda>run_id.
     bindR (durable_resource_id ex dir) (\<lambda>resource_id.
     bindR (ex_mapping (get request ''provider'') ''request.provider'') (\<lambda>provider.
     bindR (run_deadline provider) (\<lambda>deadline.
       Inr (controller, remote, run_id, resource_id, deadline)))))))"

definition rstrip_space :: "string \<Rightarrow> string" where
  "rstrip_space s = rev (dropWhile is_space (rev s))"

text \<open>From a pod that can be reached to the start of the loop.\<close>

definition deliver_and_follow ::
  "'w executor_parts \<Rightarrow> nat \<Rightarrow> pydict \<Rightarrow> pydict \<Rightarrow> string \<Rightarrow> string \<Rightarrow> datetime \<Rightarrow> rat \<Rightarrow> string \<Rightarrow> int \<Rightarrow> 'w station \<Rightarrow>
     ((exn + observation) \<times> 'w station) option" where
  "deliver_and_follow x fuel controller remote run_id resource_id deadline startup host port s =
     (let ex = xp_files x in
      case bindW (with_world (xp_scan x host port) s) (\<lambda>host_key s1.
           if strip host_key = [] then (app_error ''SSH host key scan returned no key'', s1)
           else
             bindW (with_dir (atomic_bytes [''secrets'', ''known-hosts''] (utf8 (rstrip_space host_key @ [newline]))) s1) (\<lambda>_ s2.
             bindW (pureW (xp_transfer x host port) s2) (\<lambda>t s3.
             bindW (pureW (ex_string controller ''remote_run_root'') s3) (\<lambda>remote_root s4.
             bindW (pureW (status_token ex (sn_dir s4) controller) s4) (\<lambda>token s5.
             bindW (upload_bootstrap ex t remote token remote_root s5) (\<lambda>_ s6.
             bindW (pureW (stale_limit remote) s6) (\<lambda>stale_after s7.
               (Inr (t, remote_root, token, stale_after), s7)))))))) of
        (Inl e, s') \<Rightarrow> Some (Inl e, s')
      | (Inr (t, remote_root, token, stale_after), s') \<Rightarrow>
          follow x fuel t remote controller remote_root run_id
            (''https://'' @ resource_id @ ''-8080.proxy.runpod.net/status'') token stale_after deadline (Some startup) s')"

definition execute ::
  "'w executor_parts \<Rightarrow> nat \<Rightarrow> pydict \<Rightarrow> 'w station \<Rightarrow> ((exn + observation) \<times> 'w station) option" where
  "execute x fuel request s =
     (case execution_plan (xp_files x) request (sn_dir s) of
        Inl e \<Rightarrow> Some (Inl e, s)
      | Inr (controller, remote, run_id, resource_id, deadline) \<Rightarrow>
          (case parse_launch_authorization (get remote ''launch_authorization'') of
             Inl (LaunchAuthorizationError m) \<Rightarrow>
               Some (Inr (failed (''launch authorization contract is invalid: '' @ m)), s)
           | Inl e \<Rightarrow> Some (Inl e, s)
           | Inr authorization \<Rightarrow>
               (case xp_monotonic x (sn_world s) of
                 (reading, w1) \<Rightarrow>
                   let startup = reading + (case la_timeout_seconds authorization of Fin r \<Rightarrow> r | _ \<Rightarrow> 0) in
                   (case ex_mapping (get remote ''storage'') ''remote.storage'' of
                      Inl e \<Rightarrow>
                        Some (Inr (failed (''provider storage attestation failed: '' @ exn_text e)), s\<lparr>sn_world := w1\<rparr>)
                    | Inr storage \<Rightarrow>
                        (case wait_for_connectivity x fuel resource_id deadline startup storage w1 of
                           None \<Rightarrow> None
                         | Some (Inl (ApplicationError m), w2) \<Rightarrow>
                             Some (Inr (failed (''provider storage attestation failed: '' @ m)), s\<lparr>sn_world := w2\<rparr>)
                         | Some (Inl e, w2) \<Rightarrow> Some (Inl e, s\<lparr>sn_world := w2\<rparr>)
                         | Some (Inr Startup_timeout, w2) \<Rightarrow>
                             Some (Inr (failed ''remote startup deadline reached before authenticated status''),
                                   s\<lparr>sn_world := w2\<rparr>)
                         | Some (Inr Unconnected, w2) \<Rightarrow>
                             Some (Inr (failed ''provider resource disappeared before remote delivery''), s\<lparr>sn_world := w2\<rparr>)
                         | Some (Inr (Connected pod), w2) \<Rightarrow>
                             (case (po_public_ip pod, map_option ssh_port (po_port_mappings pod)) of
                                (Some host, Some (Some port)) \<Rightarrow>
                                  deliver_and_follow x fuel controller remote run_id resource_id deadline startup host port
                                    (s\<lparr>sn_world := w2\<rparr>)
                              | _ \<Rightarrow> Some (Inr (failed ''provider did not publish an SSH port mapping''),
                                          s\<lparr>sn_world := w2\<rparr>)))))))"

end
