(* ===== verification/ExecutorProps.thy ===== *)
theory ExecutorProps
  imports Executor
begin

text \<open>
  What the remote executor guarantees: it reports success only on an authenticated record of the run and with the
  artifacts of its manifest verified on disk, and it delivers inputs and launch token once.
\<close>

section \<open>Trees\<close>

lemma put_tree_find:
  "put_tree parts t dir = Some dir' \<Longrightarrow> parts \<noteq> [] \<Longrightarrow> find_node dir' parts = (if t = Symlink then Through_symlink else Found t)"
proof (induction parts arbitrary: dir dir')
  case (Cons p ps)
  obtain es where d: "dir = Directory es" using Cons.prems(1) by (cases dir) auto
  obtain n where n: "put_tree ps t (case dget es p of None \<Rightarrow> Directory [] | Some n \<Rightarrow> n) = Some n" "dir' = Directory (dput p n es)"
    using Cons.prems(1) d by auto
  show ?case
  proof (cases "ps = []")
    case True
    then show ?thesis using n by simp
  next
    case False
    then have "n \<noteq> Symlink" using n(1) by (cases ps; cases "case dget es p of None \<Rightarrow> Directory [] | Some n \<Rightarrow> n") auto
    then show ?thesis using n Cons.IH [OF n(1) False] by simp
  qed
qed simp

lemma put_tree_read: "put_tree parts t dir = Some dir' \<Longrightarrow> read_file dir' (parts @ qs) = read_file t qs"
proof (induction parts arbitrary: dir dir')
  case (Cons p ps)
  then show ?case by (cases dir) auto
qed simp

lemma found_read: "find_node n ps = Found (Regular b) \<Longrightarrow> read_file n ps = Bytes b"
proof (induction n ps rule: find_node.induct)
  case (2 es p ps)
  then show ?case by (auto split: option.splits if_splits)
qed auto

lemma store_other: "store_file [a] bytes dir = Some dir' \<Longrightarrow> q \<noteq> a \<Longrightarrow> find_node dir' (q # qs) = find_node dir (q # qs)"
  by (cases dir) (auto split: option.splits node.splits)

lemma store_read: "store_file parts bytes dir = Some dir' \<Longrightarrow> read_file dir' parts = Bytes bytes"
  by (rule found_read) (rule store_found)

lemma name_parts:
  assumes "name \<in> set (pp_tail (pure_posix_path s))"
  shows "path_parts (pure_posix_path name) = [name]"
proof -
  have "slash \<notin> set name" "name \<noteq> []" "name \<noteq> ''.''"
    using assms split_on_no_sep by (auto simp: pure_posix_path_def)
  moreover from this have "path_root name = []" by (cases name) (auto simp: path_root_def slash_def)
  ultimately show ?thesis by (simp add: pure_posix_path_def path_parts_def split_on_single)
qed

section \<open>The data plane\<close>

text \<open>What the executor relies on: a download that returns has delivered its manifest, a fetch its file.\<close>

locale data_plane =
  fixes t :: "'w transfer" and sha :: "string \<Rightarrow> string"
  assumes download_ok: "tf_download t a b tree manifest w = ((Inr r, tree'), w') \<Longrightarrow>
      \<exists>files. validated_entries sha tree' manifest = Inr files"
    and fetch_ok: "tf_fetch t a b f w = ((Inr c, staging), w') \<Longrightarrow>
      \<exists>bytes. find_node staging (path_parts (pure_posix_path (rf_path f))) = Found (Regular bytes) \<and>
        cr_size c = int (length bytes) \<and> cr_sha256 c = sha bytes"
begin

lemma download_to_delivers:
  assumes "download_to ex t source parts manifest s = (Inr u, s')" "parts \<noteq> []"
  obtains tree files where "validated_entries sha tree manifest = Inr files"
    "put_tree parts tree (sn_dir s) = Some (sn_dir s')"
  using assms download_ok by (fastforce simp: download_to_def split: prod.splits option.splits)

end

interpretation sftp: data_plane "rclone_transfer cn net sha fl" sha for cn net sha fl
proof
  fix a b tree manifest w r tree' w'
  assume "tf_download (rclone_transfer cn net sha fl) a b tree manifest w = ((Inr r, tree'), w')"
  then show "\<exists>files. validated_entries sha tree' manifest = Inr files"
    by (auto simp: rclone_transfer_def download_def Let_def transfer_unavailable_def bindR_eq_Inr split: sum.splits if_splits)
next
  fix a b f w c staging w'
  assume "tf_fetch (rclone_transfer cn net sha fl) a b f w = ((Inr c, staging), w')"
  then obtain p bytes where p: "validated_remote_file f = Inr p" "store_file (path_parts p) bytes (Directory []) = Some staging"
    "c = \<lparr>cr_path = as_posix p, cr_size = rf_size f, cr_sha256 = sha bytes\<rparr>" "int (length bytes) = rf_size f"
    by (auto simp: rclone_transfer_def fetch_def Let_def transfer_unavailable_def transfer_error_def
        split: sum.splits if_splits found.splits node.splits option.splits)
  have "p = pure_posix_path (rf_path f)"
    using p(1) by (auto simp: validated_remote_file_def safe_remote_relative_def transfer_error_def split: if_splits)
  then show "\<exists>bytes. find_node staging (path_parts (pure_posix_path (rf_path f))) = Found (Regular bytes) \<and>
      cr_size c = int (length bytes) \<and> cr_sha256 c = sha bytes"
    using store_found [OF p(2)] p(3,4) by auto
qed

section \<open>What success means\<close>

text \<open>The artifacts of a terminal record are proved: its manifest is on disk, and every file the manifest lists.\<close>

definition artifacts_proved :: "'w surroundings \<Rightarrow> pydict \<Rightarrow> pydict \<Rightarrow> pydict \<Rightarrow> node \<Rightarrow> bool" where
  "artifacts_proved ex remote controller terminal dir \<longleftrightarrow>
     (\<exists>source p data entries files.
        artifact_source remote controller = Inr (source, p) \<and>
        read_file dir [''artifact-manifest.json''] = Bytes data \<and>
        get terminal ''artifact_manifest_sha256'' = PStr (ex_sha ex data) \<and>
        get terminal ''artifact_manifest_size'' = PInt (int (length data)) \<and>
        terminal_manifest ex remote (path_parent p) (Bytes data) = Inr (data, entries) \<and>
        validated_entries (ex_sha ex) (subtree dir (receipts ''artifacts'')) entries = Inr files)"

lemma with_dir_Inr [result_simps]: "with_dir f s = (Inr r, s') \<longleftrightarrow> (\<exists>d. f (sn_dir s) = (Inr r, d) \<and> s' = s\<lparr>sn_dir := d\<rparr>)"
  by (auto simp: with_dir_def split: prod.splits)

lemma with_world_Inr [result_simps]:
  "with_world f s = (Inr r, s') \<longleftrightarrow> (\<exists>w. f (sn_world s) = (Inr r, w) \<and> s' = s\<lparr>sn_world := w\<rparr>)"
  by (auto simp: with_world_def split: prod.splits)

lemma pureW_Inr [result_simps]: "pureW r s = (Inr v, s') \<longleftrightarrow> r = Inr v \<and> s' = s"
  by (auto simp: pureW_def)

lemma atomic_bytes_Inr [result_simps]: "atomic_bytes parts data dir = (Inr u, dir') \<longleftrightarrow> store_file parts data dir = Some dir'"
  by (auto simp: atomic_bytes_def split: option.splits)

lemma as_int_Some: "as_int v = Some n \<longleftrightarrow> v = PInt n"
  by (cases v) auto

lemma as_str_Some: "as_str v = Some s \<longleftrightarrow> v = PStr s"
  by (cases v) auto

lemma single_file:
  assumes "validated_entries sha tree [[(''path'', PStr name), (''size'', PInt n), (''sha256'', PStr h)]] = Inr files"
  obtains data where "find_node tree (path_parts (pure_posix_path name)) = Found (Regular data)" "int (length data) = n"
    "sha data = h" "name \<noteq> []"
proof -
  obtain e data where files: "files = [(e, data)]" "declares e [(''path'', PStr name), (''size'', PInt n), (''sha256'', PStr h)]"
    "delivered sha tree (e, data)"
    using assms by (auto simp: validated_entries_iff list_all2_Cons2)
  then show ?thesis by (intro that [of data]) (auto simp: declares_def delivered_def as_posix_nonempty)
qed

lemma terminal_manifest_data: "terminal_manifest ex remote parent (Bytes data) = Inr (data', entries) \<Longrightarrow> data' = data"
  by (auto simp: terminal_manifest_def app_error_def bindR_eq_Inr split: decoded.splits sum.splits if_splits)

lemma find_in_link: "find_node Symlink ps \<noteq> Found (Regular b)"
  by (cases ps) auto

lemma validated_subtree:
  assumes "validated_entries sha t es = Inr files" "put_tree parts t dir = Some dir'" "parts \<noteq> []"
  shows "validated_entries sha (subtree dir' parts) es = Inr files"
proof (cases "t = Symlink")
  case True
  then have "files = []" using assms(1) find_in_link
    by (cases files) (auto simp: validated_entries_iff delivered_def)
  then show ?thesis using assms(1) by (simp add: validated_entries_iff)
qed (use assms put_tree_find [OF assms(2, 3)] in \<open>simp add: subtree_def\<close>)

text \<open>Writing a file at the top of the run's directory leaves its other subtrees.\<close>

lemma subtree_store: "store_file [a] bytes dir = Some dir' \<Longrightarrow> q \<noteq> a \<Longrightarrow> subtree dir' (q # qs) = subtree dir (q # qs)"
  by (simp add: subtree_def store_other)

context data_plane
begin

lemma recovered_is_proved:
  assumes "recover_artifacts ex t remote controller terminal result s = (Inr d, s')" "result = SUCCEEDED" "ex_sha ex = sha"
  shows "d = VERIFIED \<and> artifacts_proved ex remote controller terminal (sn_dir s')"
proof -
  obtain h n where hn: "get terminal ''artifact_manifest_sha256'' = PStr h" "get terminal ''artifact_manifest_size'' = PInt n"
    using assms(1,2) by (auto simp: recover_artifacts_def app_error_def as_int_Some as_str_Some split: option.splits)
  obtain source p s1 data entries s2 where
    src: "artifact_source remote controller = Inr (source, p)" and
    m: "download_to ex t (path_div source (as_posix (path_parent p))) (receipts ''manifest'')
      [[(''path'', PStr (path_name p)), (''size'', PInt n), (''sha256'', PStr h)]] s = (Inr (), s1)" and
    e: "terminal_manifest ex remote (path_parent p) (read_file (sn_dir s1) (receipts ''manifest'' @ [path_name p])) = Inr (data, entries)" and
    a: "download_to ex t (path_div source (as_posix (path_parent p))) (receipts ''artifacts'') entries s1 = (Inr (), s2)" and
    f: "store_file [''artifact-manifest.json''] data (sn_dir s2) = Some (sn_dir s')" and d: "d = VERIFIED"
    using assms(1,2) hn by (auto simp: recover_artifacts_def Let_def result_simps)
  obtain tree files where t: "validated_entries sha tree [[(''path'', PStr (path_name p)), (''size'', PInt n), (''sha256'', PStr h)]] = Inr files"
    "put_tree (receipts ''manifest'') tree (sn_dir s) = Some (sn_dir s1)"
    by (rule download_to_delivers [OF m]) (simp add: receipts_def)
  obtain bytes where b: "find_node tree (path_parts (pure_posix_path (path_name p))) = Found (Regular bytes)"
    "int (length bytes) = n" "sha bytes = h" "path_name p \<noteq> []"
    by (rule single_file [OF t(1)])
  obtain q where "p = pure_posix_path q"
    using src by (auto simp: artifact_source_def executor_relative_path_Inr result_simps)
  then have "path_parts (pure_posix_path (path_name p)) = [path_name p]"
    using b(4) name_parts [of "path_name p" q] by (auto simp: path_name_def split: if_splits)
  then have r: "read_file (sn_dir s1) (receipts ''manifest'' @ [path_name p]) = Bytes bytes"
    using put_tree_read [OF t(2)] found_read [OF b(1)] by simp
  then have data: "data = bytes" "terminal_manifest ex remote (path_parent p) (Bytes data) = Inr (data, entries)"
    using e terminal_manifest_data by fastforce+
  obtain tree' files' where t': "validated_entries sha tree' entries = Inr files'"
    "put_tree (receipts ''artifacts'') tree' (sn_dir s1) = Some (sn_dir s2)"
    by (rule download_to_delivers [OF a]) (simp add: receipts_def)
  have "validated_entries sha (subtree (sn_dir s') (receipts ''artifacts'')) entries = Inr files'"
    using validated_subtree [OF t'] subtree_store [OF f, of "''receipts''" "[''artifacts'']"] by (simp add: receipts_def)
  then show ?thesis
    using d src data b hn store_read [OF f] assms(3) unfolding artifacts_proved_def by blast
qed

lemma recovered_failure: "recover_artifacts ex t remote controller terminal FAILED s = (Inr d, s') \<Longrightarrow> d \<noteq> VERIFIED"
  by (auto simp: recover_artifacts_def Let_def result_simps split: option.splits)

end

text \<open>An authenticated record of this run that says it succeeded, and its proved artifacts.\<close>

definition success_evidence ::
  "'w executor_parts \<Rightarrow> string \<Rightarrow> string \<Rightarrow> string \<Rightarrow> pydict \<Rightarrow> pydict \<Rightarrow> node \<Rightarrow> bool" where
  "success_evidence x url token run_id remote controller dir \<longleftrightarrow>
     (\<exists>w w' status terminal.
        xp_status x url token w = (Inr (PDict status), w') \<and>
        get status ''protocol'' = PStr ''run-status/1'' \<and> get status ''run_id'' = PStr run_id \<and>
        remote_identity_error status remote = None \<and>
        get status ''terminal_result'' = PDict terminal \<and> get terminal ''outcome'' = PStr ''succeeded'' \<and>
        artifacts_proved (xp_files x) remote controller terminal dir)"

definition claims_success :: "observation \<Rightarrow> bool" where
  "claims_success ob \<longleftrightarrow> ob_result ob = SUCCEEDED \<or> ob_disposition ob = VERIFIED"

lemma modest_observations [simp]: "\<not> claims_success (failed m)" "\<not> claims_success (permanent_failure ex s m)"
  by (auto simp: claims_success_def failed_def permanent_failure_def observe_def partial_disposition_def)

lemma claims_observed [simp]: "claims_success (observe r d m) \<longleftrightarrow> r = SUCCEEDED \<or> d = VERIFIED"
  by (simp add: claims_success_def observe_def)

lemma ob_observed [simp]: "ob_result (observe r d m) = r" "ob_disposition (observe r d m) = d"
  by (simp_all add: observe_def)

lemma on_transfer_modest:
  "on_transfer h m = (Inr (Some (Observed ob)), s) \<Longrightarrow> (\<And>e. \<not> claims_success (h e)) \<Longrightarrow> \<not> claims_success ob"
  by (auto simp: on_transfer_def split: prod.splits sum.splits exn.splits)

lemma pyeq_PStr: "pyeq v (PStr s) \<longleftrightarrow> v = PStr s"
  by (cases v) auto

lemma as_dict_Some: "as_dict v = Some d \<longleftrightarrow> v = PDict d"
  by (cases v) auto

context data_plane
begin

lemma finish_success:
  assumes "finish_terminal ex t remote controller tv s = (Inr (Observed ob), s')" "claims_success ob" "ex_sha ex = sha"
  obtains terminal where "tv = PDict terminal" "get terminal ''outcome'' = PStr ''succeeded''" "ob_result ob = SUCCEEDED"
    "ob_disposition ob = VERIFIED" "artifacts_proved ex remote controller terminal (sn_dir s')"
proof -
  obtain terminal where tv: "tv = PDict terminal"
    using assms(1,2) by (cases "as_dict tv") (auto simp: finish_terminal_def as_dict_Some)
  show ?thesis
  proof (cases "get terminal ''outcome'' = PStr ''succeeded''")
    case True
    then show ?thesis using assms tv recovered_is_proved [of ex remote controller terminal SUCCEEDED s]
      by (intro that [of terminal])
         (auto simp: finish_terminal_def Let_def pyeq_PStr split: prod.splits sum.splits exn.splits)
  next
    case False
    then show ?thesis using assms tv recovered_failure [of ex remote controller terminal s]
      by (auto simp: finish_terminal_def Let_def pyeq_PStr split: prod.splits sum.splits exn.splits)
  qed
qed

lemma live_success:
  assumes "follow_live ex t remote controller tv s = (Inr (Observed ob), s')" "claims_success ob" "ex_sha ex = sha"
  obtains terminal where "tv = PDict terminal" "get terminal ''outcome'' = PStr ''succeeded''" "ob_result ob = SUCCEEDED"
    "ob_disposition ob = VERIFIED" "artifacts_proved ex remote controller terminal (sn_dir s')"
proof -
  obtain s1 where "finish_terminal ex t remote controller tv s1 = (Inr (Observed ob), s')"
    using assms(1,2)
    by (auto simp: follow_live_def Let_def result_simps dest!: on_transfer_modest split: option.splits if_splits)
  from finish_success [OF this assms(2,3)] that show ?thesis by blast
qed

lemma record_success:
  assumes "follow_record ex t remote controller base run_id stale status s = (Inr (Observed ob), s')" "claims_success ob"
    "ex_sha ex = sha"
  obtains terminal where "get status ''terminal_result'' = PDict terminal" "get terminal ''outcome'' = PStr ''succeeded''"
    "remote_identity_error status remote = None" "ob_result ob = SUCCEEDED" "ob_disposition ob = VERIFIED"
    "artifacts_proved ex remote controller terminal (sn_dir s')"
proof -
  obtain s1 tv where r: "read_record status remote stale = Inr (Live_record tv)"
    "follow_live ex t remote controller tv s1 = (Inr (Observed ob), s')"
  proof (cases "read_record status remote stale")
    case (Inr r)
    show ?thesis
      using assms(1,2) Inr that
      by (cases r) (auto simp: follow_record_def follow_ready_def Let_def result_simps dest!: on_transfer_modest
        split: option.splits)
  qed (use assms(1) in \<open>auto simp: follow_record_def result_simps\<close>)
  then have "tv = get status ''terminal_result''" "remote_identity_error status remote = None"
    by (auto simp: read_record_def Let_def result_simps split: option.splits if_splits)
  with live_success [OF r(2) assms(2,3)] that show ?thesis by metis
qed

lemma once_success:
  assumes "follow_once x t remote controller base run_id url token stale deadline startup s = (Inr (Observed ob, st), s')"
    "claims_success ob" "ex_sha (xp_files x) = sha"
  shows "ob_result ob = SUCCEEDED \<and> ob_disposition ob = VERIFIED \<and>
    success_evidence x url token run_id remote controller (sn_dir s')"
proof -
  obtain w status w' s1 where r: "xp_status x url token w = (Inr (PDict status), w')"
    "get status ''protocol'' = PStr ''run-status/1''" "get status ''run_id'' = PStr run_id"
    "follow_record (xp_files x) t remote controller base run_id stale status s1 = (Inr (Observed ob), s')"
    using assms(1,2)
    by (auto simp: follow_once_def Let_def result_simps pyeq_PStr as_dict_Some
        split: prod.splits if_splits sum.splits exn.splits option.splits)
  from record_success [OF r(4) assms(2,3)] r show ?thesis unfolding success_evidence_def by metis
qed

lemma follow_success:
  assumes "follow x n t remote controller base run_id url token stale deadline startup s = Some (Inr ob, s')"
    "claims_success ob" "ex_sha (xp_files x) = sha"
  shows "ob_result ob = SUCCEEDED \<and> ob_disposition ob = VERIFIED \<and>
    success_evidence x url token run_id remote controller (sn_dir s')"
  using assms(1)
proof (induction n arbitrary: startup s)
  case (Suc n)
  then show ?case using once_success [OF _ assms(2,3)]
    by (auto split: prod.splits sum.splits outcome.splits)
qed simp

end

section \<open>The whole execution\<close>

lemma store_beside: "store_file [b] bytes n = Some n' \<Longrightarrow> c \<noteq> b \<Longrightarrow> read_file n' [c] = read_file n [c]"
  by (cases n) (auto split: option.splits node.splits)

lemma store_sibling:
  assumes "store_file [a, b] bytes dir = Some dir'" "c \<noteq> b"
  shows "read_file dir' [a, c] = read_file dir [a, c]"
proof (cases dir)
  case (Directory es)
  then obtain n where "store_file [b] bytes (case dget es a of None \<Rightarrow> Directory [] | Some n \<Rightarrow> n) = Some n"
    "dir' = Directory (dput a n es)"
    using assms(1) by auto
  then show ?thesis using assms(2) Directory store_beside [OF _ assms(2)] by (cases "dget es a") auto
qed (use assms in auto)

lemma stored_key_keeps_token:
  assumes "store_file [''secrets'', ''known-hosts''] bytes dir = Some dir'"
  shows "status_token ex dir' controller = status_token ex dir controller"
  using store_sibling [OF assms, of "''status-token''"] by (simp add: status_token_def)

context data_plane
begin

lemma deliver_success:
  assumes "deliver_and_follow x n controller remote run_id resource deadline startup host port s = Some (Inr ob, s')"
    "claims_success ob" "ex_sha (xp_files x) = sha" "\<And>t'. xp_transfer x host port = Inr t' \<Longrightarrow> t' = t"
  obtains token where "status_token (xp_files x) (sn_dir s) controller = Inr token"
    "ob_result ob = SUCCEEDED" "ob_disposition ob = VERIFIED"
    "success_evidence x (''https://'' @ resource @ ''-8080.proxy.runpod.net/status'') token run_id remote controller (sn_dir s')"
proof -
  obtain base token stale s1 bytes d where f:
    "follow x n t remote controller base run_id (''https://'' @ resource @ ''-8080.proxy.runpod.net/status'') token
       stale deadline (Some startup) s1 = Some (Inr ob, s')"
    "status_token (xp_files x) d controller = Inr token"
    "store_file [''secrets'', ''known-hosts''] bytes (sn_dir s) = Some d"
    using assms(1,4)
    by (auto simp: deliver_and_follow_def Let_def result_simps app_error_def split: sum.splits prod.splits if_splits)
  have "status_token (xp_files x) (sn_dir s) controller = Inr token"
    using f(2) by (simp add: stored_key_keeps_token [OF f(3)])
  then show ?thesis using follow_success [OF f(1) assms(2,3)] that by blast
qed

end

definition proved_success :: "'w executor_parts \<Rightarrow> pydict \<Rightarrow> node \<Rightarrow> node \<Rightarrow> bool" where
  "proved_success x request dir dir' \<longleftrightarrow>
     (\<exists>controller remote run_id resource deadline token.
        execution_plan (xp_files x) request dir = Inr (controller, remote, run_id, resource, deadline) \<and>
        status_token (xp_files x) dir controller = Inr token \<and>
        success_evidence x (''https://'' @ resource @ ''-8080.proxy.runpod.net/status'') token run_id remote controller dir')"

text \<open>
  C11: a run is reported as succeeded, or its artifacts as verified, only together and only on proof: the pod's status,
  fetched with the run's own token, is a record of this run by the requested runner that says it succeeded, the
  manifest on disk has the size and hash of that record, and every file it lists is on disk with its size and hash.
\<close>

theorem success_is_proved:
  assumes "xp_transfer x = rclone_factory there key hosts net (ex_sha (xp_files x)) fl"
    "execute x fuel request s = Some (Inr ob, s')" "ob_result ob = SUCCEEDED \<or> ob_disposition ob = VERIFIED"
  shows "ob_result ob = SUCCEEDED \<and> ob_disposition ob = VERIFIED \<and>
    proved_success x request (sn_dir s) (sn_dir s')"
proof -
  have c: "claims_success ob" using assms(3) by (simp add: claims_success_def)
  obtain controller remote run_id resource deadline startup host port s1 where
    p: "execution_plan (xp_files x) request (sn_dir s) = Inr (controller, remote, run_id, resource, deadline)" and
    d: "deliver_and_follow x fuel controller remote run_id resource deadline startup host port s1 = Some (Inr ob, s')"
      "sn_dir s1 = sn_dir s"
    using assms(2) c
    by (auto simp: execute_def Let_def split: sum.splits prod.splits option.splits exn.splits connectivity.splits if_splits)
  have "t' = rclone_transfer \<lparr>cn_host = host, cn_port = port, cn_user = ''root'', cn_key = key, cn_known_hosts = hosts\<rparr>
      net (ex_sha (xp_files x)) fl" if "xp_transfer x host port = Inr t'" for t'
    using that assms(1) by (auto simp: rclone_factory_def app_error_def split: if_splits)
  from sftp.deliver_success [OF d(1) c refl this] p d(2) show ?thesis unfolding proved_success_def by metis
qed

section \<open>A sample run\<close>

text \<open>The calendar in integers, which evaluate fast.\<close>

lemma valid_datetime_code [code]:
  "valid_datetime t \<longleftrightarrow>
     1 \<le> dt_year t \<and> int (dt_year t) \<le> 9999 \<and> 1 \<le> dt_month t \<and> dt_month t \<le> 12 \<and>
     1 \<le> dt_day t \<and> dt_day t \<le> days_in_month (dt_year t) (dt_month t) \<and>
     dt_hour t < 24 \<and> dt_minute t < 60 \<and> dt_second t < 60 \<and> int (dt_micro t) < 1000000 \<and>
     (case dt_offset t of None \<Rightarrow> True | Some z \<Rightarrow> \<bar>z\<bar> < 86400000000)"
  by (auto simp: valid_datetime_def)

lemma utc_micros_code [code]:
  "utc_micros t =
     ((int (days_before_year (dt_year t) + days_before_month (dt_year t) (dt_month t) + dt_day t) * 86400 +
        (int (dt_hour t) * 3600 + int (dt_minute t) * 60 + int (dt_second t))) * 1000000 + int (dt_micro t))
     - (case dt_offset t of None \<Rightarrow> 0 | Some z \<Rightarrow> z)"
  by (simp add: utc_micros_def)

definition sample_manifest :: string where
  "sample_manifest = json_text rep_15 (PDict [(''files'', PList [PDict [(''path'', PStr ''f''), (''sha256'', PStr (replicate 64 CHR ''a'')),
     (''size'', PInt 2)]]), (''protocol'', PStr ''artifact-manifest/1'')])"

definition sample_tree :: node where
  "sample_tree = Directory [(''m.json'', Regular sample_manifest), (''f'', Regular ''xy'')]"

definition sample_network :: network where
  "sample_network = \<lparr>nw_run = (\<lambda>_ _ _. \<lparr>an_timeout = False, an_code = 0, an_out = [], an_err = [], an_tree = sample_tree\<rparr>),
     nw_uuid = (\<lambda>_. ''u''), nw_stat = (\<lambda>_. ((0, 0, 0, 0), None))\<rparr>"

definition sample_instant :: "nat \<Rightarrow> datetime" where
  "sample_instant n = \<lparr>dt_year = 1, dt_month = 1, dt_day = n, dt_hour = 0, dt_minute = 0, dt_second = 0, dt_micro = 0,
     dt_offset = Some 0\<rparr>"

definition sample_surroundings :: "nat surroundings" where
  "sample_surroundings = \<lparr>ex_run_dir = ''/run'', ex_tree = (\<lambda>_. Directory []), ex_sha = hash_64, ex_digest = (\<lambda>_. ''d''),
     ex_decode = Decoded, ex_float = read_15, ex_repr = rep_15, ex_keys = None, ex_tool = sample_tool,
     ex_now = (\<lambda>w. (sample_instant 1, w)), ex_free = (\<lambda>w. (Inr (PInt 0), w))\<rparr>"

definition sample_majors :: pyval where
  "sample_majors = PDict (map (\<lambda>p. (p, PList [PInt 1])) required_protocols)"

definition sample_record :: pydict where
  "sample_record = [(''protocol'', PStr ''run-status/1''), (''run_id'', PStr ''r''), (''state'', PStr ''terminal''),
     (''heartbeat_age_seconds'', PInt 5), (''runner_version'', PStr ''v''), (''runner_git_commit'', PStr ''c''),
     (''supported_protocol_majors'', sample_majors),
     (''terminal_result'', PDict [(''outcome'', PStr ''succeeded''), (''artifact_manifest_sha256'', PStr (hash_64 sample_manifest)),
        (''artifact_manifest_size'', PInt (int (length sample_manifest)))])]"

definition sample_request :: pydict where
  "sample_request =
     [(''controller'', PDict [(''remote_run_root'', PStr ''/w/r''), (''status_token_sha256'', PStr (hash_64 ''t'')),
        (''artifact_manifest_path'', PStr ''m.json'')]),
      (''provider'', PDict [(''terminate_at'', PStr ''0001-01-02T00:00:00Z'')]),
      (''remote'', PDict [(''run_id'', PStr ''r''), (''runner_version'', PStr ''v''), (''runner_git_commit'', PStr ''c''),
        (''supported_protocol_majors'', sample_majors), (''heartbeat_interval_seconds'', PInt 10),
        (''storage'', PDict [(''mount'', PStr ''/w''), (''encrypted'', PBool True)]),
        (''launch_authorization'', PDict [(''protocol'', PStr launch_protocol), (''path'', PStr launch_relative_path),
           (''sha256'', PStr (hash_64 ''k'')), (''size'', PInt 2), (''timeout_seconds'', PInt 60)])])]"

definition sample_pod :: pod_observation where
  "sample_pod = \<lparr>po_id = ''p'', po_name = ''n'', po_desired_status = None, po_cost_per_hour = None,
     po_volume_encrypted = Some True, po_network_volume_id = None, po_image = None, po_public_ip = Some ''h'',
     po_port_mappings = Some [(''22'', PInt 2200)], po_environment = None\<rparr>"

definition sample_parts :: "nat executor_parts" where
  "sample_parts = \<lparr>xp_files = sample_surroundings, xp_get_pod = (\<lambda>_ w. (Inr (Some sample_pod), w)),
     xp_transfer = rclone_factory True ''/key'' ''/known'' sample_network hash_64 read_15,
     xp_scan = (\<lambda>_ _ w. (Inr ''h key'', w)), xp_status = (\<lambda>_ _ w. (Inr (PDict sample_record), w)),
     xp_sleep = (\<lambda>w. w), xp_monotonic = (\<lambda>w. (0, w))\<rparr>"

definition sample_station :: "nat station" where
  "sample_station = \<lparr>sn_dir = Directory [(''state.json'', Regular (json_text rep_15 (PDict [(''resource'', PDict [(''id'', PStr ''p'')])]))),
       (''secrets'', Directory [(''status-token'', Regular ''t'')])], sn_verified = [], sn_world = 0\<rparr>"

lemma sample_execution:
  "(case execute sample_parts 1 sample_request sample_station of
      Some (Inr ob, _) \<Rightarrow> ob_result ob = SUCCEEDED \<and> ob_disposition ob = VERIFIED | _ \<Rightarrow> False)"
  by code_simp

theorem success_is_proved_witness:
  "\<exists>dir'. proved_success sample_parts sample_request (sn_dir sample_station) dir'"
proof -
  obtain ob s' where e: "execute sample_parts 1 sample_request sample_station = Some (Inr ob, s')" "ob_result ob = SUCCEEDED"
    using sample_execution by (auto split: option.splits prod.splits sum.splits)
  have "xp_transfer sample_parts = rclone_factory True ''/key'' ''/known'' sample_network (ex_sha (xp_files sample_parts)) read_15"
    by (simp add: sample_parts_def sample_surroundings_def)
  from success_is_proved [OF this e(1)] e(2) show ?thesis by blast
qed

end
