(* ===== verification/ExecutorReturns.thy ===== *)
theory ExecutorReturns
  imports ExecutorProps
begin

text \<open>
  The remote executor returns: its loops go on only after a pause and only before the deadline of the run, and nothing
  in between turns the clock back.
\<close>

section \<open>Steady clocks\<close>

text \<open>
  A measure \<open>T\<close> of the worlds is a steady clock of a data plane when no operation turns it back, and one of an executor
  when the clock reads at least \<open>T\<close> and a pause takes some of it.
\<close>

definition steady_transfer :: "('w \<Rightarrow> int) \<Rightarrow> 'w transfer \<Rightarrow> bool" where
  "steady_transfer T t \<longleftrightarrow>
     (\<forall>a b c d w. T w \<le> T (snd (tf_upload t a b c d w))) \<and> (\<forall>a b c d e w. T w \<le> T (snd (tf_publish t a b c d e w))) \<and>
     (\<forall>a b c d w. T w \<le> T (snd (tf_download t a b c d w))) \<and> (\<forall>a b c w. T w \<le> T (snd (tf_discover t a b c w))) \<and>
     (\<forall>a b c w. T w \<le> T (snd (tf_fetch t a b c w)))"

definition steady_files :: "('w \<Rightarrow> int) \<Rightarrow> 'w surroundings \<Rightarrow> bool" where
  "steady_files T ex \<longleftrightarrow>
     (\<forall>w. T w \<le> utc_micros (fst (ex_now ex w))) \<and> (\<forall>w. T w \<le> T (snd (ex_now ex w))) \<and> (\<forall>w. T w \<le> T (snd (ex_free ex w)))"

definition steady :: "('w \<Rightarrow> int) \<Rightarrow> 'w executor_parts \<Rightarrow> bool" where
  "steady T x \<longleftrightarrow>
     steady_files T (xp_files x) \<and> (\<forall>h p t. xp_transfer x h p = Inr t \<longrightarrow> steady_transfer T t) \<and>
     (\<forall>a w. T w \<le> T (snd (xp_get_pod x a w))) \<and> (\<forall>a b w. T w \<le> T (snd (xp_scan x a b w))) \<and>
     (\<forall>a b w. T w \<le> T (snd (xp_status x a b w))) \<and> (\<forall>w. T w \<le> T (snd (xp_monotonic x w))) \<and> (\<forall>w. T w < T (xp_sleep x w))"

definition onward :: "('w \<Rightarrow> int) \<Rightarrow> 'w station \<Rightarrow> 'a \<times> 'w station \<Rightarrow> bool" where
  "onward T s m \<longleftrightarrow> T (sn_world s) \<le> T (sn_world (snd m))"

named_theorems onward_rules

lemma onward_bind [onward_rules]:
  assumes "onward T s m" "\<And>s' a. onward T s' (f a s')"
  shows "onward T s (bindW m f)"
proof (cases m)
  case (Pair r s')
  show ?thesis
  proof (cases r)
    case (Inr a)
    then show ?thesis using assms(1) assms(2) [of s' a] Pair by (simp add: onward_def)
  qed (use assms(1) Pair in \<open>simp add: onward_def\<close>)
qed

lemma onward_same [onward_rules]: "onward T s (r, s)" "onward T s (pureW r s)" "onward T s (r, s\<lparr>sn_verified := v\<rparr>)"
  by (simp_all add: onward_def)

lemma onward_dir [onward_rules]: "onward T s (with_dir f s)"
  by (simp add: onward_def with_dir_def split: prod.split)

lemma onward_world [onward_rules]: "T (sn_world s) \<le> T (snd (f (sn_world s))) \<Longrightarrow> onward T s (with_world f s)"
  by (auto simp: onward_def with_world_def split: prod.split)

lemma onward_moved [onward_rules]:
  "T (sn_world s) \<le> T w \<Longrightarrow> onward T s (r, s\<lparr>sn_world := w\<rparr>)"
  "T (sn_world s) \<le> T w \<Longrightarrow> onward T s (with_dir f (s\<lparr>sn_world := w\<rparr>))"
  by (simp_all add: onward_def with_dir_def split: prod.split)

lemma steady_ops [onward_rules]:
  "steady_transfer T t \<Longrightarrow> T w \<le> T (snd (tf_upload t src tree dst manifest w))"
  "steady_transfer T t \<Longrightarrow> T w \<le> T (snd (tf_publish t src content dst sz h w))"
  "steady_transfer T t \<Longrightarrow> T w \<le> T (snd (tf_download t src dst tree manifest w))"
  "steady_transfer T t \<Longrightarrow> T w \<le> T (snd (tf_discover t src pattern limit w))"
  "steady_transfer T t \<Longrightarrow> T w \<le> T (snd (tf_fetch t src dst f w))"
  "steady_files T ex \<Longrightarrow> T w \<le> T (snd (ex_free ex w))"
  "steady_files T ex \<Longrightarrow> T w \<le> T (snd (ex_now ex w))"
  by (simp_all add: steady_transfer_def steady_files_def)

lemma steady_results:
  "tf_download t src dst tree manifest w = (r, w') \<Longrightarrow> steady_transfer T t \<Longrightarrow> T w \<le> T w'"
  "tf_fetch t src dst f w = (q, w') \<Longrightarrow> steady_transfer T t \<Longrightarrow> T w \<le> T w'"
  "ex_now ex w = (now, w') \<Longrightarrow> steady_files T ex \<Longrightarrow> T w \<le> T w'"
  by (metis snd_conv steady_ops)+

section \<open>The mirror\<close>

lemma place_ack_onward [onward_rules]: "steady_transfer T t \<Longrightarrow> onward T s (place_ack ex t rt name parts enc s)"
  unfolding place_ack_def
  by (auto intro!: onward_rules split: list.split prod.split sum.split if_split intro: steady_results [where T = T])

lemma publish_ack_onward [onward_rules]:
  "steady_transfer T t \<Longrightarrow> onward T s (publish_incremental_ack ex t remote controller parts receipt s)"
  unfolding publish_incremental_ack_def Let_def
  by (auto intro!: onward_rules split: option.split prod.split sum.split)

lemma fetch_manifest_steady [onward_rules]: "steady_transfer T t \<Longrightarrow> T w \<le> T (snd (fetch_manifest ex t rt f p w))"
  by (auto simp: fetch_manifest_def split: prod.split sum.split intro: steady_results [where T = T])

lemma populate_onward [onward_rules]:
  "steady_transfer T t \<Longrightarrow> steady_files T ex \<Longrightarrow> onward T s (populate ex t rt p d es s)"
  unfolding populate_def
  by (auto intro!: onward_rules split: prod.split sum.split) (metis steady_results(1))

lemma mirror_fresh_onward [onward_rules]:
  "steady_transfer T t \<Longrightarrow> steady_files T ex \<Longrightarrow> onward T s (mirror_fresh ex t rt f p remote limit key receipt s)"
  unfolding mirror_fresh_def Let_def
  by (auto intro!: onward_rules split: prod.split sum.split cache_problem.split) (metis steady_results(3))+

lemma mirror_manifest_onward [onward_rules]:
  "steady_transfer T t \<Longrightarrow> steady_files T ex \<Longrightarrow>
     onward T s (mirror_incremental_manifest ex t rt f remote controller limit s)"
  unfolding mirror_incremental_manifest_def Let_def
  by (auto intro!: onward_rules split: option.split)

lemma mirror_each_onward [onward_rules]:
  "steady_transfer T t \<Longrightarrow> steady_files T ex \<Longrightarrow> onward T s (mirror_each ex t rt fixed remote controller limit fs s)"
  by (induction ex t rt fixed remote controller limit fs s rule: mirror_each.induct)
    (auto simp: Let_def intro!: onward_rules)

lemma mirror_onward [onward_rules]:
  "steady_transfer T t \<Longrightarrow> steady_files T ex \<Longrightarrow> onward T s (mirror_incremental_artifacts ex t remote controller s)"
  unfolding mirror_incremental_artifacts_def Let_def
  by (auto intro!: onward_rules split: option.split)

section \<open>Delivery and recovery\<close>

lemma download_to_onward [onward_rules]:
  "steady_transfer T t \<Longrightarrow> onward T s (download_to ex t source parts manifest s)"
  unfolding download_to_def
  by (auto simp: onward_def split: prod.split option.split intro: steady_results [where T = T])

lemma deliveries_onward [onward_rules]:
  assumes "steady_transfer T t"
  shows "onward T s (upload_bootstrap ex t remote token base s)"
    "onward T s (ensure_inputs_uploaded ex t controller base run_id s)"
    "onward T s (ensure_launch_published ex t remote base run_id s)"
    "onward T s (recover_artifacts ex t remote controller terminal result s)"
  using assms
  by (auto simp: upload_bootstrap_def ensure_inputs_uploaded_def ensure_launch_published_def recover_artifacts_def Let_def
      intro!: onward_rules split: option.split prod.split)

lemma on_transfer_onward [onward_rules]: "onward T s m \<Longrightarrow> onward T s (on_transfer h m)"
  by (auto simp: on_transfer_def onward_def split: prod.splits sum.split exn.split)

lemma finish_onward [onward_rules]:
  assumes "steady_transfer T t"
  shows "onward T s (finish_terminal ex t remote controller tv s)"
proof (cases "as_dict tv")
  case (Some terminal)
  define result where "result = (if pyeq (get terminal ''outcome'') (PStr ''succeeded'') then SUCCEEDED else FAILED)"
  obtain q s' where q: "recover_artifacts ex t remote controller terminal result s = (q, s')" by fastforce
  then have "T (sn_world s) \<le> T (sn_world s')"
    using deliveries_onward(4) [OF assms, of s ex remote controller terminal result] by (simp add: onward_def)
  then show ?thesis
    using Some q unfolding result_def by (cases q) (auto simp: finish_terminal_def onward_def Let_def split: exn.split)
qed (simp add: finish_terminal_def onward_same)

lemma live_onward [onward_rules]:
  "steady_transfer T t \<Longrightarrow> steady_files T ex \<Longrightarrow> onward T s (follow_live ex t remote controller tv s)"
  unfolding follow_live_def Let_def
  by (auto intro!: onward_rules split: option.split)

lemma ready_onward [onward_rules]: "steady_transfer T t \<Longrightarrow> onward T s (follow_ready ex t remote controller base run_id s)"
  unfolding follow_ready_def Let_def
  by (auto intro!: onward_rules)

lemma record_onward [onward_rules]:
  "steady_transfer T t \<Longrightarrow> steady_files T ex \<Longrightarrow>
     onward T s (follow_record ex t remote controller base run_id stale status s)"
  unfolding follow_record_def
  by (auto intro!: onward_rules split: reading.split)

section \<open>The loops\<close>

text \<open>What is left of the time before the deadline bounds how often a loop can pause.\<close>

definition time_left :: "('w \<Rightarrow> int) \<Rightarrow> datetime \<Rightarrow> 'w \<Rightarrow> nat" where
  "time_left T deadline w = nat (utc_micros deadline - T w)"

lemma time_left_later: "T w \<le> T w' \<Longrightarrow> time_left T deadline w' \<le> time_left T deadline w"
  by (simp add: time_left_def)

lemma time_left_less: "T w < T w' \<Longrightarrow> T w < utc_micros deadline \<Longrightarrow> time_left T deadline w' < time_left T deadline w"
  by (simp add: time_left_def)

lemma steady_parts:
  assumes "steady T x"
  shows "steady_files T (xp_files x)" "T w \<le> utc_micros (fst (ex_now (xp_files x) w))"
    "T w \<le> T (snd (ex_now (xp_files x) w))" "T w \<le> T (snd (xp_monotonic x w))" "T w \<le> T (snd (xp_get_pod x i w))"
    "T w \<le> T (snd (xp_status x url token w))" "T w \<le> T (snd (xp_scan x h p w))" "T w < T (xp_sleep x w)"
    "xp_transfer x h p = Inr t \<Longrightarrow> steady_transfer T t"
  using assms by (auto simp: steady_def steady_files_def)

lemma wait_returns:
  assumes "steady T x" "time_left T deadline w < n"
  shows "\<exists>r w'. wait_for_connectivity x n i deadline startup storage w = Some (r, w') \<and> T w \<le> T w'"
  using assms(2)
proof (induction n arbitrary: w)
  case (Suc n)
  obtain now w1 where now: "ex_now (xp_files x) w = (now, w1)" by fastforce
  obtain reading w2 where mono: "xp_monotonic x w1 = (reading, w2)" by fastforce
  obtain pod w3 where pod: "xp_get_pod x i w2 = (pod, w3)" by fastforce
  have le: "T w \<le> utc_micros now" "T w \<le> T w1" "T w1 \<le> T w2" "T w2 \<le> T w3" "T w3 < T (xp_sleep x w3)"
    using now mono pod steady_parts(2-5,8) [OF assms(1)] by (metis fst_conv snd_conv)+
  have "\<exists>r w'. wait_for_connectivity x n i deadline startup storage (xp_sleep x w3) = Some (r, w') \<and>
      T (xp_sleep x w3) \<le> T w'" if "dt_before now deadline"
  proof (rule Suc.IH)
    have "time_left T deadline (xp_sleep x w3) < time_left T deadline w"
      using that le by (intro time_left_less) (auto simp: dt_before_def)
    then show "time_left T deadline (xp_sleep x w3) < n" using Suc.prems by simp
  qed
  then show ?case
    using now mono pod le by (auto split: option.split sum.split)
qed simp

lemma once_onward:
  assumes "steady T x" "steady_transfer T t"
  shows "onward T s (follow_once x t remote controller base run_id url token stale deadline startup s)"
proof -
  obtain now w1 where now: "ex_now (xp_files x) (sn_world s) = (now, w1)" by fastforce
  obtain reading w2 where mono: "xp_monotonic x w1 = (reading, w2)" by fastforce
  obtain r w3 where st: "xp_status x url token w2 = (r, w3)" by fastforce
  have le: "T (sn_world s) \<le> T w1" "T w1 \<le> T w2" "T w2 \<le> T w3"
    using now mono st steady_parts(3,4,6) [OF assms(1)] by (metis snd_conv)+
  have rec: "onward T (s\<lparr>sn_world := w3\<rparr>) (bindW (follow_record (xp_files x) t remote controller base run_id stale status
      (s\<lparr>sn_world := w3\<rparr>)) (\<lambda>o' s''. (Inr (o', None :: rat option), s'')))" for status
    using assms steady_parts(1) by (intro onward_rules) auto
  have "T (sn_world s) \<le> T (sn_world (snd (bindW (follow_record (xp_files x) t remote controller base run_id stale status
      (s\<lparr>sn_world := w3\<rparr>)) (\<lambda>o' s''. (Inr (o', None :: rat option), s'')))))" for status
    using rec [of status] le by (simp add: onward_def)
  then show ?thesis
    using now mono st le
    by (auto simp: follow_once_def Let_def onward_def split: sum.split exn.split option.split)
qed

lemma once_pauses_before:
  assumes "steady T x" "follow_once x t remote controller base run_id url token stale deadline startup s = (Inr (Pause, st), s')"
  shows "T (sn_world s) < utc_micros deadline"
proof -
  obtain now w1 where now: "ex_now (xp_files x) (sn_world s) = (now, w1)" by fastforce
  then have "T (sn_world s) \<le> utc_micros now" using steady_parts(2) [OF assms(1)] by (metis fst_conv)
  moreover have "dt_before now deadline" using assms(2) now by (auto simp: follow_once_def Let_def split: if_splits)
  ultimately show ?thesis by (simp add: dt_before_def)
qed

lemma follow_returns:
  assumes "steady T x" "steady_transfer T t" "time_left T deadline (sn_world s) < n"
  shows "follow x n t remote controller base run_id url token stale deadline startup s \<noteq> None"
  using assms(3)
proof (induction n arbitrary: startup s)
  case (Suc n)
  let ?once = "follow_once x t remote controller base run_id url token stale deadline startup s"
  have "follow x n t remote controller base run_id url token stale deadline st (s'\<lparr>sn_world := xp_sleep x (sn_world s')\<rparr>) \<noteq> None"
    if p: "?once = (Inr (Pause, st), s')" for st s'
  proof (rule Suc.IH)
    have "T (sn_world s) \<le> T (sn_world s')" using once_onward [OF assms(1,2)] p by (metis onward_def snd_conv)
    then have "time_left T deadline (xp_sleep x (sn_world s')) < time_left T deadline (sn_world s)"
      using steady_parts(8) [OF assms(1), of "sn_world s'"] once_pauses_before [OF assms(1) p]
      by (intro time_left_less) auto
    then show "time_left T deadline (sn_world (s'\<lparr>sn_world := xp_sleep x (sn_world s')\<rparr>)) < n" using Suc.prems by simp
  qed
  then show ?case by (auto split: prod.split sum.split outcome.split)
qed simp

lemma deliver_returns:
  assumes "steady T x" "time_left T deadline (sn_world s) < n"
  shows "deliver_and_follow x n controller remote run_id resource deadline startup host port s \<noteq> None"
proof -
  let ?start = "\<lambda>ex. bindW (with_world (xp_scan x host port) s) (\<lambda>host_key s1.
           if strip host_key = [] then (app_error ''SSH host key scan returned no key'', s1)
           else
             bindW (with_dir (atomic_bytes [''secrets'', ''known-hosts''] (utf8 (rstrip_space host_key @ [newline]))) s1) (\<lambda>_ s2.
             bindW (pureW (xp_transfer x host port) s2) (\<lambda>t s3.
             bindW (pureW (ex_string controller ''remote_run_root'') s3) (\<lambda>remote_root s4.
             bindW (pureW (status_token ex (sn_dir s4) controller) s4) (\<lambda>token s5.
             bindW (upload_bootstrap ex t remote token remote_root s5) (\<lambda>_ s6.
             bindW (pureW (stale_limit remote) s6) (\<lambda>stale_after s7.
               (Inr (t, remote_root, token, stale_after), s7))))))))"
  have "steady_transfer T t \<and> T (sn_world s) \<le> T (sn_world s')"
    if r: "?start (xp_files x) = (Inr (t, base, token, stale), s')" for t base token stale s'
  proof -
    obtain s1 s2 k u d where t: "xp_transfer x host port = Inr t" "with_world (xp_scan x host port) s = (Inr k, s1)"
      "s2 = s1\<lparr>sn_dir := d\<rparr>" "upload_bootstrap (xp_files x) t remote token base s2 = (Inr u, s')"
      using r by (auto simp: result_simps app_error_def split: if_splits)
    have "T (sn_world s) \<le> T (sn_world s1)"
      using t(2) steady_parts(7) [OF assms(1), of "sn_world s" host port] by (auto simp: with_world_def split: prod.splits)
    moreover have st: "steady_transfer T t" by (rule steady_parts(9) [OF assms(1) t(1)])
    moreover have "T (sn_world s2) \<le> T (sn_world s')"
      using deliveries_onward(1) [OF st] t(4) by (metis onward_def snd_conv)
    ultimately show ?thesis using t(3) by simp
  qed
  note steady_start = this
  show ?thesis
  proof (cases "?start (xp_files x)")
    case (Pair r s')
    show ?thesis
    proof (cases r)
      case (Inl e)
      then show ?thesis using Pair unfolding deliver_and_follow_def Let_def by (simp only: prod.case sum.case) simp
    next
      case (Inr a)
      obtain t base token stale where a: "a = (t, base, token, stale)" by (cases a)
      have st: "steady_transfer T t" "T (sn_world s) \<le> T (sn_world s')"
        using steady_start Pair unfolding Inr a by blast+
      have "time_left T deadline (sn_world s') < n" using time_left_later [where T = T, OF st(2)] assms(2) by (rule order.strict_trans1)
      from follow_returns [OF assms(1) st(1) this] show ?thesis
        using Pair unfolding deliver_and_follow_def Let_def Inr a by (simp only: prod.case sum.case) simp
    qed
  qed
qed

text \<open>
  C12: the executor does not loop for ever.  When no operation turns the clock back and every pause lets time pass, as
  many iterations of its waiting loops as there are microseconds left until the deadline are enough for it to return a
  result, whatever the pod, the network and the status say.  How long a single operation takes is not bounded.
\<close>

theorem execute_returns:
  assumes "steady T x" "0 < n"
    "\<And>controller remote run_id resource deadline.
       execution_plan (xp_files x) request (sn_dir s) = Inr (controller, remote, run_id, resource, deadline) \<Longrightarrow>
       utc_micros deadline - T (sn_world s) < int n"
  shows "execute x n request s \<noteq> None"
proof (cases "execution_plan (xp_files x) request (sn_dir s)")
  case (Inr p)
  obtain controller remote run_id resource deadline where p: "p = (controller, remote, run_id, resource, deadline)"
    by (cases p)
  obtain reading w1 where w1: "xp_monotonic x (sn_world s) = (reading, w1)" by fastforce
  have left: "time_left T deadline (sn_world s) < n" using assms(2) assms(3) Inr p by (fastforce simp: time_left_def)
  have "time_left T deadline w1 < n"
    using time_left_later left w1 steady_parts(4) [OF assms(1)] by (metis order.strict_trans1 snd_conv)
  then have wait: "\<exists>r w'. wait_for_connectivity x n resource deadline startup storage w1 = Some (r, w') \<and>
      time_left T deadline w' < n" for startup storage
    using wait_returns [OF assms(1)] time_left_later by (metis order.strict_trans1)
  have "deliver_and_follow x n controller remote run_id resource deadline startup host port (s\<lparr>sn_world := w\<rparr>) \<noteq> None"
    if "time_left T deadline w < n" for startup host port w
    using deliver_returns [OF assms(1)] that by simp
  note deliver = this
  note plan = execute_def Inr p w1
  show ?thesis
  proof (cases "parse_launch_authorization (get remote ''launch_authorization'')")
    case (Inl e)
    then show ?thesis by (cases e) (simp_all add: plan)
  next
    case authorized: (Inr a)
    show ?thesis
    proof (cases "ex_mapping (get remote ''storage'') ''remote.storage''")
      case (Inr storage)
      obtain r w' where r: "wait_for_connectivity x n resource deadline
          (reading + (case la_timeout_seconds a of Fin r \<Rightarrow> r | _ \<Rightarrow> 0)) storage w1 = Some (r, w')"
        "time_left T deadline w' < n"
        using wait by blast
      note delivered = deliver [OF r(2)]
      show ?thesis
      proof (cases r)
        case (Inl e)
        then show ?thesis using r(1) by (cases e) (simp_all add: plan authorized Inr Let_def)
      next
        case (Inr c)
        show ?thesis
          using r(1) delivered \<open>ex_mapping _ _ = _\<close> unfolding Inr
          by (cases c) (auto simp: plan authorized Let_def split: option.split)
      qed
    qed (simp add: plan authorized Let_def)
  qed
qed (simp add: execute_def)

section \<open>A sample clock\<close>

definition sample_clock :: "nat executor_parts" where
  "sample_clock = sample_parts\<lparr>xp_files := sample_surroundings\<lparr>ex_now := \<lambda>w. ((sample_instant 1)\<lparr>dt_micro := w\<rparr>, w)\<rparr>, xp_sleep := Suc\<rparr>"

definition sample_time :: "nat \<Rightarrow> int" where
  "sample_time w = utc_micros (sample_instant 1) + int w"

lemma sample_plan:
  "execution_plan (xp_files sample_clock) sample_request (sn_dir sample_station) =
     execution_plan sample_surroundings sample_request (sn_dir sample_station)"
  by (simp add: execution_plan_def durable_resource_id_def sample_clock_def cong: file_read.case_cong decoded.case_cong)

lemma sample_deadline:
  "map_sum id (\<lambda>(_, _, _, _, deadline). deadline) (execution_plan sample_surroundings sample_request (sn_dir sample_station)) =
     Inr (sample_instant 2)"
  by code_simp

lemma sample_steady: "steady sample_time sample_clock"
  by (auto simp: steady_def steady_files_def steady_transfer_def sample_clock_def sample_parts_def sample_surroundings_def
      sample_time_def sample_instant_def utc_micros_def rclone_factory_def rclone_transfer_def app_error_def)

theorem execute_returns_witness: "execute sample_clock 86400000001 sample_request sample_station \<noteq> None"
proof (rule execute_returns [OF sample_steady])
  fix controller remote run_id resource deadline
  assume "execution_plan (xp_files sample_clock) sample_request (sn_dir sample_station) =
    Inr (controller, remote, run_id, resource, deadline)"
  then have "deadline = sample_instant 2" using sample_plan sample_deadline by simp
  then show "utc_micros deadline - sample_time (sn_world sample_station) < int 86400000001"
    by (simp add: sample_time_def sample_instant_def utc_micros_def sample_station_def)
qed simp

end
