(* ===== verification/BundleProps.thy ===== *)
theory BundleProps
  imports Bundle Money
begin

text \<open>
  What a checked bundle guarantees: its inputs are exactly the files below its input root, and the run request
  built from it is one the remote runner accepts.
\<close>

section \<open>The inputs\<close>







text \<open>
  What lies at a path below a node, whatever its kind, said without the code's own walks; and the trees a file system
  has, in which a name is not empty and holds no slash.
\<close>

inductive located :: "node \<Rightarrow> string list \<Rightarrow> node \<Rightarrow> bool" where
  here: "located n [] n"
| below: "(p, n) \<in> set es \<Longrightarrow> located n ps m \<Longrightarrow> located (Directory es) (p # ps) m"

inductive_simps located_simps [simp]:
  "located n [] m" "located (Regular bytes) (p # ps) m" "located Symlink (p # ps) m" "located SpecialNode (p # ps) m"
  "located (Directory es) (p # ps) m"











section \<open>The request is one the runner accepts\<close>

text \<open>
  What \<open>schemas/job-spec-1.json\<close> requires of the fields the request takes over.  Its patterns are searched, so
  each of these texts may end with a newline.
\<close>

definition text_ok :: "(string \<Rightarrow> bool) \<Rightarrow> pyval \<Rightarrow> bool" where
  "text_ok ok v \<longleftrightarrow> (case as_str v of None \<Rightarrow> False | Some s \<Rightarrow> ok s)"

definition dict_of :: "pyval \<Rightarrow> pydict" where
  "dict_of v = (case as_dict v of None \<Rightarrow> [] | Some d \<Rightarrow> d)"

definition real_commit :: "string \<Rightarrow> bool" where
  "real_commit s \<longleftrightarrow> git_commit s \<and> \<not> list_all (\<lambda>c. c = CHR ''0'') s"

definition phase_shape :: "pyval \<Rightarrow> bool" where
  "phase_shape v \<longleftrightarrow>
     (case as_bool (get (dict_of v) ''enabled'') of None \<Rightarrow> False
      | Some enabled \<Rightarrow>
          (case as_list (get (dict_of v) ''argv'') of None \<Rightarrow> False
           | Some argv \<Rightarrow> list_all nonempty_string argv \<and> (enabled \<longrightarrow> argv \<noteq> [])) \<and>
          positive_int (get (dict_of v) ''timeout_seconds''))"

definition storage_shape :: "(string \<Rightarrow> bool) \<Rightarrow> pyval \<Rightarrow> bool" where
  "storage_shape volume v \<longleftrightarrow>
     (case as_bool (get (dict_of v) ''encrypted'') of None \<Rightarrow> False
      | Some encrypted \<Rightarrow>
          if encrypted then get (dict_of v) ''network_volume_id'' = PNone
          else text_ok volume (get (dict_of v) ''network_volume_id'')) \<and>
     text_ok (\<lambda>s. s \<noteq> [] \<and> hd s = slash) (get (dict_of v) ''mount'') \<and>
     positive_int (get (dict_of v) ''required_gb'')"

definition volume_text :: "string \<Rightarrow> bool" where
  "volume_text s \<longleftrightarrow> list_ex (\<lambda>c. \<not> is_space c) s \<and> list_all volume_id_char s"

definition spec_shape :: "((string \<Rightarrow> bool) \<Rightarrow> string \<Rightarrow> bool) \<Rightarrow> pydict \<Rightarrow> bool" where
  "spec_shape pattern spec \<longleftrightarrow>
     text_ok (pattern (fullmatch image_digest_rx)) (get spec ''image'') \<and>
     text_ok (pattern (fullmatch semantic_version_rx)) (get (dict_of (get spec ''runner'')) ''version'') \<and>
     text_ok (pattern real_commit) (get (dict_of (get spec ''runner'')) ''git_commit'') \<and>
     list_all (\<lambda>name. phase_shape (get (dict_of (get spec ''phases'')) name)) phase_order \<and>
     positive_int (get (dict_of (get spec ''limits'')) ''max_elapsed_seconds'') \<and>
     positive_int (get spec ''heartbeat_interval_seconds'') \<and>
     (case as_int (get spec ''termination_grace_seconds'') of None \<Rightarrow> False | Some n \<Rightarrow> 0 \<le> n) \<and>
     storage_shape (pattern volume_text) (get (dict_of (get spec ''resources'')) ''storage'')"

text \<open>
  The contract of the validator on this schema file, for a specification without binary floats, which is one that has
  a canonical encoding; and a specification whose pattern-checked texts do not use the leeway of a searched pattern.
\<close>

definition schema_enforced :: "tools \<Rightarrow> bool" where
  "schema_enforced T \<longleftrightarrow>
     (\<forall>spec t. t_schema T ''job-spec/1'' spec \<longrightarrow> canonical_json (PDict spec) = Inr t \<longrightarrow>
        spec_shape before_final_newline spec)"

definition ends_with_newline :: "pyval \<Rightarrow> bool" where
  "ends_with_newline v \<longleftrightarrow> (case as_str v of None \<Rightarrow> False | Some s \<Rightarrow> s \<noteq> [] \<and> last s = newline)"

definition plain_ends :: "pydict \<Rightarrow> bool" where
  "plain_ends spec \<longleftrightarrow>
     \<not> ends_with_newline (get spec ''image'') \<and>
     \<not> ends_with_newline (get (dict_of (get spec ''runner'')) ''version'') \<and>
     \<not> ends_with_newline (get (dict_of (get spec ''runner'')) ''git_commit'') \<and>
     \<not> ends_with_newline (get (dict_of (get (dict_of (get spec ''resources'')) ''storage'')) ''network_volume_id'')"

lemma text_ok_plain: "text_ok (before_final_newline m) v \<Longrightarrow> \<not> ends_with_newline v \<Longrightarrow> text_ok m v"
  by (auto simp: text_ok_def ends_with_newline_def before_final_newline_def newline_def split: option.splits)

lemma plain_spec_shape: "spec_shape before_final_newline spec \<Longrightarrow> plain_ends spec \<Longrightarrow> spec_shape (\<lambda>m. m) spec"
  by (auto simp: spec_shape_def plain_ends_def storage_shape_def text_ok_plain split: option.splits if_splits)

definition fits_float :: "pyval \<Rightarrow> bool" where
  "fits_float v \<longleftrightarrow> (case as_int v of None \<Rightarrow> True | Some i \<Rightarrow> \<bar>i\<bar> < float_overflow)"

definition numbers_fit :: "pydict \<Rightarrow> bool" where
  "numbers_fit spec \<longleftrightarrow>
     fits_float (get (dict_of (get spec ''limits'')) ''max_elapsed_seconds'') \<and>
     fits_float (get spec ''heartbeat_interval_seconds'') \<and>
     fits_float (get spec ''termination_grace_seconds'') \<and>
     list_all (\<lambda>name. fits_float (get (dict_of (get (dict_of (get spec ''phases'')) name)) ''timeout_seconds'')) phase_order"

lemma item_get: "item v k = Inr w \<Longrightarrow> get (dict_of v) k = w"
  by (cases v) (auto simp: item_def dict_of_def get_def split: option.splits)

definition spec_phase :: "pydict \<Rightarrow> string \<Rightarrow> phase_spec" where
  "spec_phase spec name =
     (let p = dict_of (get (dict_of (get spec ''phases'')) name)
      in \<lparr>ps_name = name, ps_enabled = get p ''enabled'',
          ps_argv = (case as_list (get p ''argv'') of None \<Rightarrow> [] | Some xs \<Rightarrow> xs),
          ps_timeout_seconds = get p ''timeout_seconds''\<rparr>)"

lemma phase_of_spec:
  assumes "phase_of (get spec ''phases'') name = Inr p"
  shows "p = spec_phase spec name"
proof -
  from assms obtain q enabled argv timeout xs where
    items: "item (get spec ''phases'') name = Inr q" "item q ''enabled'' = Inr enabled"
      "item q ''argv'' = Inr argv" "item q ''timeout_seconds'' = Inr timeout"
    and p: "as_list argv = Some xs" "p = \<lparr>ps_name = name, ps_enabled = enabled, ps_argv = xs, ps_timeout_seconds = timeout\<rparr>"
    by (auto simp: phase_of_def split: option.splits)
  show ?thesis using items [THEN item_get] p by (simp add: spec_phase_def Let_def)
qed

lemma mapR_unique: "mapR f xs = Inr ys \<Longrightarrow> (\<And>x y. f x = Inr y \<Longrightarrow> y = g x) \<Longrightarrow> ys = map g xs"
  by (induction xs arbitrary: ys) auto

lemma dict_of_PDict [simp]: "dict_of (PDict d) = d"
  by (simp add: dict_of_def)

lemma item_PDict: "item (PDict d) k = Inr w \<Longrightarrow> get d k = w"
  using item_get [of "PDict d"] by simp

lemma bundle_money_positive:
  "bundle_money v n = Inr d \<Longrightarrow> \<exists>c e. d = Dec c e \<and> 0 < c"
proof -
  assume "bundle_money v n = Inr d"
  then have "is_finite d" and "dec_lt dec_zero d"
    by (auto simp: bundle_money_def bundle_error_def split: option.splits if_splits)
  then obtain c e where d: "d = Dec c e" "0 < dec_val d" by (cases d) (auto simp: dec_lt_iff)
  then have "0 < of_int c * (10 powi e :: rat)" by simp
  then have "(0::rat) < of_int c" by (rule zero_less_mult_pos2 [OF _ powi_pos])
  then show ?thesis using d by auto
qed

text \<open>The fields of a checked bundle, in terms of its specification.\<close>

definition bundle_of_spec :: "pydict \<Rightarrow> job_bundle \<Rightarrow> bool" where
  "bundle_of_spec spec b \<longleftrightarrow>
     jb_job_spec b = spec \<and> jb_image_digest b = get spec ''image'' \<and>
     jb_runner_version b = get (dict_of (get spec ''runner'')) ''version'' \<and>
     jb_runner_git_commit b = get (dict_of (get spec ''runner'')) ''git_commit'' \<and>
     jb_phases b = map (spec_phase spec) phase_order \<and>
     jb_max_elapsed_seconds b = get (dict_of (get spec ''limits'')) ''max_elapsed_seconds'' \<and>
     jb_heartbeat_interval_seconds b = get spec ''heartbeat_interval_seconds'' \<and>
     jb_termination_grace_seconds b = get spec ''termination_grace_seconds'' \<and>
     jb_storage b = (let st = dict_of (get (dict_of (get spec ''resources'')) ''storage'') in
       \<lparr>ss_encrypted = get st ''encrypted'', ss_mount = get st ''mount'',
        ss_required_gb = get st ''required_gb'', ss_network_volume_id = get st ''network_volume_id''\<rparr>) \<and>
     (\<exists>c e. jb_max_cost_usd b = Dec c e \<and> 0 < c) \<and> (\<exists>c e. jb_usd_per_hour b = Dec c e \<and> 0 < c)"

lemma assembled_fields:
  assumes "assemble_bundle T spec manifest h inputs = Inr b"
  shows "bundle_of_spec spec b \<and> jb_bundle_hash b = h \<and> (\<exists>t. canonical_json (PDict spec) = Inr t)"
proof -
  from assms obtain phases_value phases limits resources storage protocol name image runner version commit
      encrypted mount required_gb elapsed cost_value cost rate_value rate heartbeat grace spec_hash manifest_hash
    where
      items: "item (PDict spec) ''phases'' = Inr phases_value" "item (PDict spec) ''limits'' = Inr limits"
        "item (PDict spec) ''resources'' = Inr resources" "item resources ''storage'' = Inr storage"
        "item (PDict spec) ''image'' = Inr image" "item (PDict spec) ''runner'' = Inr runner"
        "item runner ''version'' = Inr version" "item runner ''git_commit'' = Inr commit"
        "item storage ''encrypted'' = Inr encrypted" "item storage ''mount'' = Inr mount"
        "item storage ''required_gb'' = Inr required_gb" "item limits ''max_elapsed_seconds'' = Inr elapsed"
        "item (PDict spec) ''heartbeat_interval_seconds'' = Inr heartbeat"
        "item (PDict spec) ''termination_grace_seconds'' = Inr grace"
      and phases: "mapR (phase_of phases_value) phase_order = Inr phases"
      and canonical: "canonical_sha256 (t_sha T) (PDict spec) = Inr spec_hash"
      and money: "bundle_money cost_value ''limits.max_cost_usd'' = Inr cost"
        "bundle_money rate_value ''limits.usd_per_hour'' = Inr rate"
      and b: "b = \<lparr>jb_protocol = protocol, jb_name = name, jb_bundle_hash = h, jb_image_digest = image,
             jb_runner_version = version, jb_runner_git_commit = commit, jb_phases = phases,
             jb_storage = \<lparr>ss_encrypted = encrypted, ss_mount = mount, ss_required_gb = required_gb,
               ss_network_volume_id = (case as_dict storage of None \<Rightarrow> PNone | Some d \<Rightarrow> get d ''network_volume_id'')\<rparr>,
             jb_input_root = fst inputs, jb_inputs = snd inputs, jb_max_elapsed_seconds = elapsed,
             jb_max_cost_usd = cost, jb_usd_per_hour = rate, jb_heartbeat_interval_seconds = heartbeat,
             jb_termination_grace_seconds = grace, jb_job_spec_hash = spec_hash,
             jb_input_manifest_hash = manifest_hash, jb_job_spec = spec, jb_input_manifest = manifest\<rparr>"
    by (auto simp: assemble_bundle_def Let_def)
  have g: "get spec ''phases'' = phases_value" "get spec ''limits'' = limits" "get spec ''resources'' = resources"
    "get spec ''image'' = image" "get spec ''runner'' = runner"
    "get spec ''heartbeat_interval_seconds'' = heartbeat" "get spec ''termination_grace_seconds'' = grace"
    "get (dict_of resources) ''storage'' = storage" "get (dict_of runner) ''version'' = version"
    "get (dict_of runner) ''git_commit'' = commit" "get (dict_of storage) ''encrypted'' = encrypted"
    "get (dict_of storage) ''mount'' = mount" "get (dict_of storage) ''required_gb'' = required_gb"
    "get (dict_of limits) ''max_elapsed_seconds'' = elapsed"
    using items item_PDict item_get by blast+
  have "phases = map (spec_phase spec) phase_order"
    using phases phase_of_spec by (intro mapR_unique [OF phases]) (simp flip: g(1))
  moreover have "(case as_dict storage of None \<Rightarrow> PNone | Some d \<Rightarrow> get d ''network_volume_id'') =
      get (dict_of storage) ''network_volume_id''"
    by (cases storage) (simp_all add: dict_of_def)
  moreover have "\<exists>t. canonical_json (PDict spec) = Inr t"
    using canonical by (auto simp: canonical_sha256_def bindR_eq_Inr)
  ultimately show ?thesis
    using g money [THEN bundle_money_positive] by (simp add: bundle_of_spec_def b)
qed

lemma checked_fields:
  assumes "check_bundle T bundle_root = Inr b"
  shows "bundle_of_spec (jb_job_spec b) b \<and> t_schema T ''job-spec/1'' (jb_job_spec b) \<and>
    (\<exists>t. canonical_json (PDict (jb_job_spec b)) = Inr t) \<and> (\<exists>x. jb_bundle_hash b = t_sha T x)"
proof -
  obtain spec manifest h inputs where schema: "schema_check T spec ''job-spec/1'' ''job.yaml'' = Inr ()"
    and h: "hashes_of T spec manifest = Inr h"
    and b: "assemble_bundle T spec manifest h inputs = Inr b"
    using assms by (auto simp: check_bundle_def bundle_error_def split: option.splits node.splits if_splits)
  have "\<exists>x. h = t_sha T x"
    using h by (auto simp: hashes_of_def compute_bundle_hash_def canonical_sha256_def)
  moreover have "t_schema T ''job-spec/1'' spec" using schema by (simp add: schema_check_def)
  moreover have "jb_job_spec b = spec" using assembled_fields [OF b] by (simp add: bundle_of_spec_def)
  ultimately show ?thesis using assembled_fields [OF b] by auto
qed

lemma money_rx_shape:
  assumes "money_shape ip fp"
  shows "fullmatch money_rx (if fp = [] then ip else ip @ CHR ''.'' # fp)"
proof (cases "hd ip = CHR ''0''")
  case True
  then obtain x where ip: "ip = ''0''" and x: "x \<in> set fp" "x \<noteq> CHR ''0''"
    using assms by (auto simp: money_shape_def)
  then obtain as bs where fp: "fp = as @ x # bs" by (auto dest: split_list)
  have d: "list_all is_digit as" "list_all is_digit bs" "nonzero_digit x"
    using assms x fp by (auto simp: money_shape_def nonzero_digit_def)
  have "matches (RSeq (RStar (RChar is_digit)) (RSeq (RChar nonzero_digit) (RStar (RChar is_digit)))) fp"
    unfolding fp matches_Seq [of "RStar _"] using d
    by (intro exI [of _ as] exI [of _ "x # bs"]) (simp add: matches_star_char matches_char_Seq)
  then have "matches (RSeq (rlit ''0.'') (RSeq (RStar (RChar is_digit)) (RSeq (RChar nonzero_digit) (RStar (RChar is_digit)))))
      (''0.'' @ fp)"
    unfolding matches_Seq [of "rlit _"] by (intro exI [of _ "''0.''"] exI [of _ fp]) (simp del: rlit.simps)
  then show ?thesis using ip x by (auto simp: fullmatch_iff money_rx_def Let_def simp del: rlit.simps)
next
  case False
  then obtain x xs where ip: "ip = x # xs" "nonzero_digit x" "list_all is_digit xs"
    using assms by (cases ip) (auto simp: money_shape_def nonzero_digit_def)
  have tail: "matches (ropt (RSeq (rchar CHR ''.'') (rplus (RChar is_digit))))
      (if fp = [] then [] else CHR ''.'' # fp)"
    using assms by (auto simp: ropt_def rchar_def matches_char_Seq matches_plus_char money_shape_def)
  have "matches (RSeq (RStar (RChar is_digit)) (ropt (RSeq (rchar CHR ''.'') (rplus (RChar is_digit)))))
      (xs @ (if fp = [] then [] else CHR ''.'' # fp))"
    unfolding matches_Seq [of "RStar _"] using tail ip(3)
    by (intro exI [of _ xs] exI [of _ "if fp = [] then [] else CHR ''.'' # fp"]) (simp add: matches_star_char)
  then have "matches (RSeq (RChar nonzero_digit) (RSeq (RStar (RChar is_digit))
      (ropt (RSeq (rchar CHR ''.'') (rplus (RChar is_digit)))))) (x # xs @ (if fp = [] then [] else CHR ''.'' # fp))"
    using ip(2) by (simp add: matches_char_Seq)
  moreover have "(if fp = [] then ip else ip @ CHR ''.'' # fp) = x # xs @ (if fp = [] then [] else CHR ''.'' # fp)"
    using ip(1) by simp
  ultimately show ?thesis by (simp only: fullmatch_iff money_rx_def Let_def matches_Alt simp_thms)
qed

lemma formatted_money_accepted:
  assumes "0 < c"
  shows "positive_decimal_string (PStr (format_f (Dec c e))) n = Inr ()"
proof -
  have "fullmatch money_rx (format_f (Dec c e))"
  proof -
    obtain ip fp where m: "money_shape ip fp" and f: "format_f (Dec c e) = (if fp = [] then ip else ip @ CHR ''.'' # fp)"
      using format_f_shape [OF assms, of e] by blast
    show ?thesis unfolding f by (rule money_rx_shape [OF m])
  qed
  moreover have "dec_of_string (format_f (Dec c e)) = Some (canonical (Dec c e))"
    by (simp only: dec_of_format_canonical is_finite.simps)
  moreover have "is_finite (canonical (Dec c e))" by (simp only: canonical_simps is_finite.simps)
  moreover have "\<not> dec_le (canonical (Dec c e)) dec_zero"
  proof -
    have "0 < dec_val (canonical (Dec c e))"
      unfolding canonical_simps using assms by (simp add: powi_pos)
    then show ?thesis by (simp add: dec_le_iff del: canonical.simps)
  qed
  ultimately show ?thesis by (simp add: positive_decimal_string_def Let_def del: format_f.simps canonical.simps)
qed

lemma positive_int_accepted:
  "positive_int v \<Longrightarrow> fits_float v \<Longrightarrow> positive_number v n = Inr ()"
  by (auto simp: positive_int_def fits_float_def positive_number_def to_float_def split: option.splits)

lemma nonnegative_int_accepted:
  "(case as_int v of None \<Rightarrow> False | Some i \<Rightarrow> 0 \<le> i) \<Longrightarrow> fits_float v \<Longrightarrow> nonnegative_number v n = Inr ()"
  by (auto simp: fits_float_def nonnegative_number_def to_float_def split: option.splits)

lemma text_ok_iff: "text_ok ok v \<longleftrightarrow> (\<exists>s. v = PStr s \<and> ok s)"
  by (cases v) (auto simp: text_ok_def)

lemma phase_accepted:
  assumes "phase_shape (get (dict_of (get spec ''phases'')) name)"
    and "fits_float (get (dict_of (get (dict_of (get spec ''phases'')) name)) ''timeout_seconds'')"
    and "get phases name = snd (request_phase (spec_phase spec name))"
  shows "check_phase phases name = Inr ()"
proof -
  let ?p = "dict_of (get (dict_of (get spec ''phases'')) name)"
  obtain enabled argv where e: "get ?p ''enabled'' = PBool enabled" "get ?p ''argv'' = PList argv"
      "list_all nonempty_string argv" "enabled \<longrightarrow> argv \<noteq> []" "positive_int (get ?p ''timeout_seconds'')"
    using assms(1) by (auto simp: phase_shape_def split: option.splits)
  then show ?thesis
    using assms(2,3) positive_int_accepted [OF e(5) assms(2)]
    by (simp add: check_phase_def req_mapping_def req_sequence_def request_phase_def spec_phase_def Let_def)
qed

lemma phases_accepted:
  assumes "list_all (\<lambda>name. phase_shape (get (dict_of (get spec ''phases'')) name)) phase_order"
    and "list_all (\<lambda>name. fits_float (get (dict_of (get (dict_of (get spec ''phases'')) name)) ''timeout_seconds'')) phase_order"
  shows "check_phases (PDict (map request_phase (map (spec_phase spec) phase_order))) = Inr ()"
proof -
  let ?ps = "map request_phase (map (spec_phase spec) phase_order)"
  have fst: "fst (request_phase (spec_phase spec name)) = name" for name
    by (simp add: request_phase_def spec_phase_def Let_def)
  have "get ?ps name = snd (request_phase (spec_phase spec name))" if "name \<in> set phase_order" for name
    using that fst by (auto simp: phase_order_def get_def map_of_map_restrict split: prod.splits)
  then have "check_phase ?ps name = Inr ()" if "name \<in> set phase_order" for name
    using that assms by (intro phase_accepted) (auto simp: list_all_iff)
  then have "mapR (check_phase ?ps) phase_order = Inr (map (\<lambda>_. ()) phase_order)"
    by (intro mapR_all) simp
  moreover have "dkeys ?ps = phase_order" using fst by (simp add: comp_def)
  ultimately show ?thesis
    unfolding check_phases_def req_mapping_def by (simp only: as_dict.simps option.case bindR_Inr) simp
qed

lemma strip_empty: "strip s = [] \<Longrightarrow> \<forall>c \<in> set s. is_space c"
proof -
  assume "strip s = []"
  then have all: "\<forall>c \<in> set (dropWhile is_space s). is_space c"
    by (simp add: strip_def dropWhile_eq_Nil_conv)
  have "dropWhile is_space s = []"
  proof (rule ccontr)
    assume ne: "dropWhile is_space s \<noteq> []"
    then show False using hd_dropWhile [OF ne] all hd_in_set [OF ne] by blast
  qed
  then show ?thesis by (simp add: dropWhile_eq_Nil_conv)
qed

lemma storage_accepted:
  assumes "storage_shape volume_text v"
    and st: "storage = [(''encrypted'', get (dict_of v) ''encrypted''), (''mount'', get (dict_of v) ''mount''),
      (''required_gb'', get (dict_of v) ''required_gb'')] @
      (if get (dict_of v) ''network_volume_id'' \<noteq> PNone then [(''network_volume_id'', get (dict_of v) ''network_volume_id'')] else [])"
  shows "check_storage (PDict storage) = Inr ()"
proof -
  have g: "get storage ''encrypted'' = get (dict_of v) ''encrypted''" "get storage ''mount'' = get (dict_of v) ''mount''"
    "get storage ''required_gb'' = get (dict_of v) ''required_gb''"
    "get storage ''network_volume_id'' = get (dict_of v) ''network_volume_id''"
    by (simp_all add: st)
  have strip: "volume_text s \<Longrightarrow> strip s \<noteq> [] \<and> list_all volume_id_char s" for s
    using strip_empty [of s] by (auto simp: volume_text_def list_ex_iff)
  obtain m where m: "get (dict_of v) ''mount'' = PStr m" "m \<noteq> []" "hd m = slash"
    using assms(1) by (auto simp: storage_shape_def text_ok_iff)
  have "is_absolute (pure_posix_path m)" using m by (simp add: is_absolute_pure)
  moreover have "\<exists>encrypted. get (dict_of v) ''encrypted'' = PBool encrypted \<and>
    (if encrypted then get (dict_of v) ''network_volume_id'' = PNone else text_ok volume_text (get (dict_of v) ''network_volume_id''))"
    using assms(1) by (cases "get (dict_of v) ''encrypted''") (simp_all add: storage_shape_def)
  moreover have "positive_int (get (dict_of v) ''required_gb'')" using assms(1) by (simp add: storage_shape_def)
  ultimately show ?thesis
    using m(1) strip by (auto simp: check_storage_def req_mapping_def g matching_string_def text_ok_iff)
qed

lemma run_id_accepted: "fullmatch run_id_rx s \<Longrightarrow> length s \<le> 128 \<Longrightarrow> safe_id s"
proof -
  assume "fullmatch run_id_rx s" and len: "length s \<le> 128"
  then obtain c t where s: "s = ''run-'' @ c # t" "is_alnum c" "list_all (\<lambda>c. is_alnum c \<or> c = CHR ''_'' \<or> c = CHR ''-'') t"
    unfolding run_id_rx_def fullmatch_iff matches_Seq [of "rlit _"]
    by (auto simp: matches_char_Seq matches_upto_char simp del: rlit.simps)
  have "list_all id_char t"
    using s(3) by (auto simp: list_all_iff id_char_def)
  moreover have "list_all id_char ''un-''" and "is_alnum CHR ''r''" by code_simp+
  moreover have "id_char c" using s(2) by (simp add: id_char_def)
  ultimately show ?thesis using len s(1) by (simp add: safe_id_iff)
qed

lemma current_majors_accepted: "protocol_majors supported_protocol_majors = Inr current_majors"
  using current_majors_ok by (simp add: supported_protocol_majors_def)

lemma constant_hashes:
  assumes "encodable (PDict spec)" and "encodable (PDict manifest)" and "\<And>x. t_sha T x = h"
  shows "hashes_of T spec manifest = Inr h" and "canonical_sha256 (t_sha T) (PDict spec) = Inr h"
    and "canonical_sha256 (t_sha T) (PDict manifest) = Inr h"
proof -
  have "encodable (PDict (AList.delete ''bundle_hash'' spec))"
    using assms(1) by (auto simp: list_all_iff AList.delete_eq)
  then have all: "encodable (PDict [(''input_manifest'', PDict manifest), (''job_spec'', PDict (AList.delete ''bundle_hash'' spec))])"
    using assms(2) by simp
  have sha: "\<exists>t. canonical_json v = Inr t \<and> canonical_sha256 (t_sha T) v = Inr h" if "encodable v" for v
    using encodable_sha [OF that, of "t_sha T"] assms(3) by auto
  show "canonical_sha256 (t_sha T) (PDict spec) = Inr h" and "canonical_sha256 (t_sha T) (PDict manifest) = Inr h"
    using sha [OF assms(1)] sha [OF assms(2)] by auto
  show "hashes_of T spec manifest = Inr h"
    using sha [OF all] sha [OF assms(1)] sha [OF assms(2)] by (auto simp: hashes_of_def compute_bundle_hash_def)
qed

text \<open>The limits and the storage of a request, and what the runner finds under each key of it.\<close>

definition limits_of :: "job_bundle \<Rightarrow> pydict" where
  "limits_of b = [(''max_elapsed_seconds'', jb_max_elapsed_seconds b),
     (''max_cost_usd'', PStr (format_f (jb_max_cost_usd b))), (''usd_per_hour'', PStr (format_f (jb_usd_per_hour b)))]"

definition storage_fields :: "pydict \<Rightarrow> pydict" where
  "storage_fields st = [(''encrypted'', get st ''encrypted''), (''mount'', get st ''mount''),
     (''required_gb'', get st ''required_gb'')] @
     (if get st ''network_volume_id'' \<noteq> PNone then [(''network_volume_id'', get st ''network_volume_id'')] else [])"

definition spec_storage :: "pydict \<Rightarrow> pydict" where
  "spec_storage spec = dict_of (get (dict_of (get spec ''resources'')) ''storage'')"

lemma request_fields_of_spec:
  assumes "bundle_of_spec spec b" and "to_run_request b run_id = Inr request"
    and r_def: "r = request @ [(''launch_authorization'', auth)]"
  shows "get r ''protocol'' = PStr ''run-request/1''" "get r ''run_id'' = PStr run_id"
    "get r ''bundle_hash'' = PStr (jb_bundle_hash b)" "get r ''image_digest'' = jb_image_digest b"
    "get r ''runner_version'' = jb_runner_version b" "get r ''runner_git_commit'' = jb_runner_git_commit b"
    "get r ''supported_protocol_majors'' = supported_protocol_majors"
    "get r ''phases'' = PDict (map request_phase (jb_phases b))" "get r ''limits'' = PDict (limits_of b)"
    "get r ''heartbeat_interval_seconds'' = jb_heartbeat_interval_seconds b"
    "get r ''termination_grace_seconds'' = jb_termination_grace_seconds b"
    "get r ''artifact_path_base'' = PStr ''run-root''" "get r ''storage'' = PDict (storage_fields (spec_storage spec))"
    "get r ''incremental_mirror_ack'' = PNone" "get r ''launch_authorization'' = auth"
    "get r ''artifact_manifest_path'' = get request ''artifact_manifest_path''"
proof -
  define tail where "tail = (if manifest_path_of b \<noteq> PNone then [(''artifact_manifest_path'', manifest_path_of b)] else [])"
  have st: "jb_storage b = \<lparr>ss_encrypted = get (spec_storage spec) ''encrypted'', ss_mount = get (spec_storage spec) ''mount'',
        ss_required_gb = get (spec_storage spec) ''required_gb'',
        ss_network_volume_id = get (spec_storage spec) ''network_volume_id''\<rparr>"
    using assms(1) by (simp add: bundle_of_spec_def spec_storage_def Let_def)
  have request: "request = request_core b run_id @ tail"
    using assms(2) by (auto simp: to_run_request_def tail_def split: if_splits)
  have core: "request_core b run_id =
              [(''protocol'', PStr ''run-request/1''), (''run_id'', PStr run_id),
               (''bundle_hash'', PStr (jb_bundle_hash b)), (''image_digest'', jb_image_digest b),
               (''runner_version'', jb_runner_version b), (''runner_git_commit'', jb_runner_git_commit b),
               (''supported_protocol_majors'', supported_protocol_majors),
               (''phases'', PDict (map request_phase (jb_phases b))), (''limits'', PDict (limits_of b)),
               (''heartbeat_interval_seconds'', jb_heartbeat_interval_seconds b),
               (''termination_grace_seconds'', jb_termination_grace_seconds b),
               (''artifact_path_base'', PStr ''run-root''), (''storage'', PDict (storage_fields (spec_storage spec)))]"
    unfolding request_core_def Let_def st limits_of_def storage_fields_def by simp
  have tail: "tail = [] \<or> (\<exists>v. tail = [(''artifact_manifest_path'', v)])" by (simp add: tail_def)
  show "get r ''protocol'' = PStr ''run-request/1''" "get r ''run_id'' = PStr run_id"
    "get r ''bundle_hash'' = PStr (jb_bundle_hash b)" "get r ''image_digest'' = jb_image_digest b"
    "get r ''runner_version'' = jb_runner_version b" "get r ''runner_git_commit'' = jb_runner_git_commit b"
    "get r ''supported_protocol_majors'' = supported_protocol_majors"
    "get r ''phases'' = PDict (map request_phase (jb_phases b))" "get r ''limits'' = PDict (limits_of b)"
    "get r ''heartbeat_interval_seconds'' = jb_heartbeat_interval_seconds b"
    "get r ''termination_grace_seconds'' = jb_termination_grace_seconds b"
    "get r ''artifact_path_base'' = PStr ''run-root''" "get r ''storage'' = PDict (storage_fields (spec_storage spec))"
    "get r ''incremental_mirror_ack'' = PNone" "get r ''launch_authorization'' = auth"
    "get r ''artifact_manifest_path'' = get request ''artifact_manifest_path''"
    unfolding r_def request core using tail by (elim disjE exE; simp)+
qed

text \<open>
  C27: what the controller checks is what the runner accepts.  The run request built from any checked bundle
  passes the remote runner's validation, given a launch contract it parses.  The validator enforces the job-spec
  schema, SHA-256 gives lowercase digests, and the specification is within what the two sides agree on: its image,
  runner version, commit and network volume id do not end with a newline, its integers fit a float, the run id has at
  most 128 characters, and the artifact manifest path, if any, is one the runner takes.
\<close>

theorem checked_bundle_request_accepted:
  assumes "check_bundle T bundle_root = Inr b" and "to_run_request b run_id = Inr request"
    and schema: "schema_enforced T"
    and "\<And>x. is_sha256 (t_sha T x)" and "length run_id \<le> 128"
    and plain: "plain_ends (jb_job_spec b)" and "numbers_fit (jb_job_spec b)"
    and "\<And>v. get request ''artifact_manifest_path'' = v \<Longrightarrow> v \<noteq> PNone \<Longrightarrow> \<exists>t. runner_relative_path v ''artifact_manifest_path'' = Inr t"
    and "parse_launch_authorization auth = Inr a"
  shows "validate_request (request @ [(''launch_authorization'', auth)]) =
    Inr (request @ [(''launch_authorization'', auth)])"
proof -
  let ?spec = "jb_job_spec b" and ?r = "request @ [(''launch_authorization'', auth)]"
  have b: "bundle_of_spec ?spec b" and hash: "is_sha256 (jb_bundle_hash b)"
    using checked_fields [OF assms(1)] assms(4) by auto
  note g = request_fields_of_spec [OF b assms(2) refl, of auth]
  have run_id: "fullmatch run_id_rx run_id" using assms(2) by (simp add: to_run_request_def split: if_splits)
  have "spec_shape before_final_newline ?spec"
    using checked_fields [OF assms(1)] schema by (auto simp: schema_enforced_def)
  then have shape: "spec_shape (\<lambda>m. m) ?spec" using plain by (rule plain_spec_shape)
  have identity: "check_identity_fields ?r = Inr ()"
    using shape b current_majors_accepted
    by (auto simp: check_identity_fields_def g bundle_of_spec_def spec_shape_def text_ok_iff
      validate_runner_version_def validate_git_commit_def real_commit_def)
  have image: "matching_string (fullmatch image_digest_rx) (get ?r ''image_digest'')
      (RequestError ''image_digest must pin an image by sha256 digest'') = Inr ()"
    using shape b by (auto simp: g bundle_of_spec_def spec_shape_def text_ok_iff)
  have st: "check_storage (get ?r ''storage'') = Inr ()"
    using shape storage_accepted [OF _ storage_fields_def] by (simp add: g spec_shape_def spec_storage_def)
  have ph: "check_phases (get ?r ''phases'') = Inr ()"
    using shape assms(7) phases_accepted [of ?spec] b
    by (simp add: g bundle_of_spec_def spec_shape_def numbers_fit_def del: map_map)
  obtain c e c' e' where "jb_max_cost_usd b = Dec c e" "0 < c" "jb_usd_per_hour b = Dec c' e'" "0 < c'"
    using b by (auto simp: bundle_of_spec_def)
  then have lim: "check_limits ?r = Inr ()"
    using shape assms(7) b formatted_money_accepted
    by (simp add: check_limits_def g limits_of_def req_mapping_def bundle_of_spec_def spec_shape_def numbers_fit_def
      positive_int_accepted nonnegative_int_accepted del: format_f.simps)
  obtain t where t: "(if get ?r ''artifact_manifest_path'' = PNone then Inr []
      else runner_relative_path (get ?r ''artifact_manifest_path'') ''artifact_manifest_path'') = Inr t"
    using assms(8) by (fastforce simp: g)
  have ids: "matching_string safe_id (get ?r ''run_id'') (RequestError ''run_id must be a safe non-empty identifier'') = Inr ()"
      "matching_string is_sha256 (get ?r ''bundle_hash'') (RequestError ''bundle_hash must be a lowercase sha256 digest'') = Inr ()"
    using run_id_accepted [OF run_id assms(5)] hash by (simp_all add: g)
  show ?thesis
    unfolding validate_request_def
    using identity image st ph lim t ids assms(9) by (simp add: g check_acknowledgement_def)
qed

section \<open>Examples\<close>

definition sample_phase :: pyval where
  "sample_phase = PDict [(''enabled'', PBool False), (''argv'', PList []), (''timeout_seconds'', PInt 60)]"

definition sample_spec :: "string \<Rightarrow> pydict" where
  "sample_spec img =
     [(''protocol'', PStr ''job-spec/1''), (''name'', PStr ''demo''), (''bundle_hash'', PStr (replicate 64 CHR ''a'')),
      (''image'', PStr img),
      (''runner'', PDict [(''version'', PStr ''0.1.12''), (''git_commit'', PStr (replicate 40 CHR ''b''))]),
      (''phases'', PDict (map (\<lambda>n. (n, sample_phase)) phase_order)),
      (''limits'', PDict [(''max_elapsed_seconds'', PInt 3600), (''max_cost_usd'', PStr ''2.50''), (''usd_per_hour'', PStr ''1'')]),
      (''heartbeat_interval_seconds'', PInt 5), (''termination_grace_seconds'', PInt 0),
      (''resources'', PDict [(''storage'', PDict [(''encrypted'', PBool True), (''mount'', PStr ''/workspace''), (''required_gb'', PInt 10)])])]"

definition sample_image :: string where
  "sample_image = ''repo@sha256:'' @ replicate 64 CHR ''c''"

definition sample_tools :: "string \<Rightarrow> tools" where
  "sample_tools img =
     \<lparr>t_utf8 = Some, t_yaml = (\<lambda>_. Some (PDict (sample_spec img))),
      t_json = (\<lambda>_. JsonValue (PDict ([(''protocol'', PStr ''input-manifest/1''), (''root'', PStr ''in'')] @
        [(''files'', PList [PDict [(''path'', PStr ''a''), (''size'', PInt 2), (''sha256'', PStr (replicate 64 CHR ''a''))]])]))),
      t_schema = (\<lambda>p d. if p = ''job-spec/1'' then spec_shape before_final_newline d else True),
      t_sha = (\<lambda>_. replicate 64 CHR ''a'')\<rparr>"

definition sample_bundle :: node where
  "sample_bundle = Directory [(''job.yaml'', Regular []), (''input-manifest.json'', Regular []),
     (''in'', Directory [(''a'', Regular ''xy'')])]"

definition sample_authorization :: pyval where
  "sample_authorization = PDict [(''protocol'', PStr launch_protocol), (''path'', PStr launch_relative_path),
      (''sha256'', PStr (replicate 64 CHR ''a'')), (''size'', PInt 65), (''timeout_seconds'', PInt 600)]"

definition sample_manifest_2 :: pydict where
  "sample_manifest_2 = [(''protocol'', PStr ''input-manifest/1''), (''root'', PStr ''in''),
     (''files'', PList [PDict [(''path'', PStr ''a''), (''size'', PInt 2), (''sha256'', PStr (replicate 64 CHR ''a''))]])]"

lemma sample_inputs:
  "verify_inputs (\<lambda>_. replicate 64 CHR ''a'') sample_bundle sample_manifest_2 =
     Inr ([''in''], [\<lparr>if_relative_path = ''a'', if_source_path = [''in'', ''a''],
                     if_sha256 = replicate 64 CHR ''a'', if_size = 2\<rparr>])"
  by code_simp

lemma sample_encodable: "encodable (PDict (sample_spec img))" "encodable (PDict sample_manifest_2)"
  by (simp_all add: sample_spec_def sample_manifest_2_def phase_order_def sample_phase_def)

lemma sample_spec_get:
  "get (sample_spec img) ''image'' = PStr img"
  "get (sample_spec img) ''runner'' = PDict [(''version'', PStr ''0.1.12''), (''git_commit'', PStr (replicate 40 CHR ''b''))]"
  "get (sample_spec img) ''phases'' = PDict (map (\<lambda>n. (n, sample_phase)) phase_order)"
  "get (sample_spec img) ''limits'' = PDict [(''max_elapsed_seconds'', PInt 3600), (''max_cost_usd'', PStr ''2.50''), (''usd_per_hour'', PStr ''1'')]"
  "get (sample_spec img) ''heartbeat_interval_seconds'' = PInt 5"
  "get (sample_spec img) ''termination_grace_seconds'' = PInt 0"
  "get (sample_spec img) ''resources'' = PDict [(''storage'', PDict [(''encrypted'', PBool True), (''mount'', PStr ''/workspace''), (''required_gb'', PInt 10)])]"
  by (simp_all add: sample_spec_def)

lemma sample_texts:
  "fullmatch image_digest_rx sample_image" "fullmatch semantic_version_rx ''0.1.12''"
  "real_commit (replicate 40 CHR ''b'')"
  by code_simp+

lemma sample_shape:
  assumes "pattern (fullmatch image_digest_rx) img" and "\<And>m s. m s \<Longrightarrow> pattern m s"
  shows "spec_shape pattern (sample_spec img)"
  unfolding spec_shape_def sample_spec_get
  using assms sample_texts
  by (simp add: text_ok_def phase_shape_def sample_phase_def phase_order_def positive_int_def storage_shape_def slash_def)

text \<open>A bundle whose image text is \<open>img\<close> and its checked form.\<close>

lemma sample_check:
  assumes "before_final_newline (fullmatch image_digest_rx) img"
  shows "\<exists>b. check_bundle (sample_tools img) (Some sample_bundle) = Inr b \<and> jb_job_spec b = sample_spec img"
proof -
  let ?T = "sample_tools img" and ?h = "replicate 64 CHR ''a''"
  have sha: "t_sha ?T x = ?h" for x by (simp add: sample_tools_def)
  note hashes = constant_hashes [OF sample_encodable sha]
  have docs: "load_job_spec ?T (Some (Regular [])) = Inr (sample_spec img)"
    "load_input_manifest ?T (Some (Regular [])) = Inr sample_manifest_2"
    by (simp_all add: load_job_spec_def load_input_manifest_def read_regular_file_def sample_tools_def sample_manifest_2_def)
  have shape: "spec_shape before_final_newline (sample_spec img)"
    by (rule sample_shape) (use assms in \<open>auto simp: before_final_newline_def\<close>)
  have schema: "schema_check ?T (sample_spec img) ''job-spec/1'' ''job.yaml'' = Inr ()"
    "schema_check ?T sample_manifest_2 ''input-manifest/1'' ''input-manifest.json'' = Inr ()"
    using shape by (simp_all add: schema_check_def sample_tools_def) (simp_all add: sample_spec_def sample_manifest_2_def)
  have incremental: "check_incremental (sample_spec img) = Inr ()"
    by (simp add: check_incremental_def sample_spec_def)
  have hash_item: "item (PDict (sample_spec img)) ''bundle_hash'' = Inr (PStr ?h)"
    by (simp add: item_def sample_spec_def)
  have inputs: "verify_inputs (t_sha ?T) sample_bundle sample_manifest_2 =
     Inr ([''in''], [\<lparr>if_relative_path = ''a'', if_source_path = [''in'', ''a''], if_sha256 = ?h, if_size = 2\<rparr>])"
    using sample_inputs by (simp add: sample_tools_def)
  have money: "bundle_money (PStr ''2.50'') ''limits.max_cost_usd'' = Inr (Dec 250 (-2))"
    "bundle_money (PStr ''1'') ''limits.usd_per_hour'' = Inr (Dec 1 0)"
    by code_simp+
  have "\<exists>b. assemble_bundle ?T (sample_spec img) sample_manifest_2 ?h inputs = Inr b" for inputs
    using hashes money
    by (simp add: assemble_bundle_def item_def sample_spec_def phase_order_def phase_of_def sample_phase_def)
  then obtain b where b: "assemble_bundle ?T (sample_spec img) sample_manifest_2 ?h
      ([''in''], [\<lparr>if_relative_path = ''a'', if_source_path = [''in'', ''a''], if_sha256 = ?h, if_size = 2\<rparr>]) = Inr b" by blast
  have "check_bundle ?T (Some sample_bundle) = Inr b"
    using docs schema incremental hashes(1) hash_item inputs b
    by (simp add: check_bundle_def sample_bundle_def)
  then show ?thesis using assembled_fields [OF b] by (auto simp: bundle_of_spec_def)
qed

lemma sample_request:
  assumes "jb_job_spec b = sample_spec img"
  shows "to_run_request b ''run-a'' = Inr (request_core b ''run-a'')"
proof -
  have "fullmatch run_id_rx ''run-a''" by code_simp
  moreover have "manifest_path_of b = PNone" by (simp add: manifest_path_of_def assms sample_spec_def)
  ultimately show ?thesis by (simp add: to_run_request_def)
qed

lemma sample_authorization_parses: "\<exists>a. parse_launch_authorization sample_authorization = Inr a"
proof -
  have "is_sha256 (replicate 64 CHR ''a'')" by code_simp
  then show ?thesis
    by (simp add: sample_authorization_def parse_launch_authorization_def to_float_def float_overflow_def)
qed

theorem checked_bundle_request_accepted_witness:
  "\<exists>b. check_bundle (sample_tools sample_image) (Some sample_bundle) = Inr b \<and>
     (\<exists>request. to_run_request b ''run-a'' = Inr request \<and>
        validate_request (request @ [(''launch_authorization'', sample_authorization)]) =
          Inr (request @ [(''launch_authorization'', sample_authorization)]))"
proof -
  obtain b where b: "check_bundle (sample_tools sample_image) (Some sample_bundle) = Inr b"
    and spec: "jb_job_spec b = sample_spec sample_image"
    using sample_check [of sample_image] sample_texts(1) by (auto simp: before_final_newline_def)
  obtain a where a: "parse_launch_authorization sample_authorization = Inr a"
    using sample_authorization_parses by blast
  have "\<not> ends_with_newline (PStr sample_image)" "\<not> ends_with_newline (PStr ''0.1.12'')"
    "\<not> ends_with_newline (PStr (replicate 40 CHR ''b''))" "\<not> ends_with_newline PNone"
    by code_simp+
  then have plain: "plain_ends (jb_job_spec b)" unfolding spec by (simp add: plain_ends_def sample_spec_get)
  have numbers: "numbers_fit (jb_job_spec b)"
    unfolding spec by (simp add: numbers_fit_def fits_float_def sample_spec_def sample_phase_def phase_order_def float_overflow_def)
  have sha: "is_sha256 (t_sha (sample_tools sample_image) x)" for x
    by (simp add: sample_tools_def is_sha256_def list_all_iff is_hex_def is_digit_def less_eq_char_def)
  have schema: "schema_enforced (sample_tools sample_image)" by (simp add: schema_enforced_def sample_tools_def)
  have path: "get (request_core b ''run-a'') ''artifact_manifest_path'' = v \<Longrightarrow> v \<noteq> PNone \<Longrightarrow>
      \<exists>t. runner_relative_path v ''artifact_manifest_path'' = Inr t" for v
    by (simp add: request_core_def Let_def)
  show ?thesis
    using checked_bundle_request_accepted [OF b sample_request [OF spec] schema sha _ plain numbers path a]
      b sample_request [OF spec] by auto
qed

text \<open>
  The agreement does not reach texts that end with a newline.  The schema's patterns are searched, so
  an image digest with a final newline passes the controller's check, and the request built from it is refused
  by the runner, whose pattern must match to the very end.
\<close>

theorem trailing_newline_refused_by_runner:
  "\<exists>b. check_bundle (sample_tools (sample_image @ [newline])) (Some sample_bundle) = Inr b \<and>
     (\<exists>request. to_run_request b ''run-a'' = Inr request \<and>
        validate_request (request @ [(''launch_authorization'', sample_authorization)]) =
          Inl (RequestError ''image_digest must pin an image by sha256 digest''))"
proof -
  let ?img = "sample_image @ [newline]"
  have "before_final_newline (fullmatch image_digest_rx) ?img"
    using sample_texts(1) by (simp add: before_final_newline_def newline_def)
  then obtain b where b: "check_bundle (sample_tools ?img) (Some sample_bundle) = Inr b"
    and spec: "jb_job_spec b = sample_spec ?img"
    using sample_check by blast
  have fields: "jb_image_digest b = PStr ?img" "jb_bundle_hash b = replicate 64 CHR ''a''"
    using checked_fields [OF b] by (auto simp: bundle_of_spec_def spec sample_spec_get sample_tools_def)
  have "\<not> fullmatch image_digest_rx ?img"
  proof
    assume "fullmatch image_digest_rx ?img"
    then obtain u v where uv: "?img = u @ v" "matches (RSeq (rlit ''@sha256:'') (rtimes 64 (RChar is_hex))) v"
      unfolding fullmatch_iff image_digest_rx_def matches_Seq [of "rplus _"] by blast
    then obtain w where w: "v = ''@sha256:'' @ w" "length w = 64" "list_all is_hex w"
      unfolding matches_Seq [of "rlit _"] by (auto simp: matches_times_char simp del: rlit.simps)
    then have "w \<noteq> []" by auto
    then have "last w = newline" using arg_cong [OF uv(1), of last] w(1) by simp
    moreover have "last w \<in> set w" using \<open>w \<noteq> []\<close> by simp
    ultimately show False using w(3) hex_char [of newline] by (auto simp: list_all_iff)
  qed
  moreover have "safe_id ''run-a''" and "is_sha256 (replicate 64 CHR ''a'')" by code_simp+
  ultimately have "validate_request (request_core b ''run-a'' @ [(''launch_authorization'', sample_authorization)]) =
      Inl (RequestError ''image_digest must pin an image by sha256 digest'')"
    using fields by (simp add: validate_request_def request_core_def Let_def matching_string_def)
  then show ?thesis using b sample_request [OF spec] by auto
qed

end
