(* ===== verification/RunnerState.thy ===== *)
theory RunnerState
  imports Artifacts
begin

text \<open>
  The state of \<open>RemoteRunner\<close> in \<open>runner.py\<close>, what it reads and what it makes durable.

  The environment answers by a tick that counts the runner's own observations: the clocks, the stop event, the
  child's exit status, the launch token's file, the storage and the run root may change between any two of them.
  Sleeping is the passing of ticks.  Each durable or external effect is recorded in a trace in the order it
  happens; the disk is the initial disk with those effects applied, so that a crash is a prefix of the trace.  A
  write that fails raises \<open>OSError\<close> out of the runner and is such a crash.  \<open>status.json\<close> and
  \<open>terminal-result.json\<close>, which are replaced atomically, are the JSON values they decode to.

  Clock readings are rational numbers and their sums are exact; \<open>round(x, 6)\<close> is exact rounding half to even.
\<close>

section \<open>Elapsed time and cost\<close>

definition round_half_even :: "rat \<Rightarrow> int" where
  "round_half_even x =
     (let n = \<lfloor>x\<rfloor>; d = x - of_int n in
      if d < 1 / 2 then n else if d > 1 / 2 then n + 1 else if even n then n else n + 1)"

definition micros :: "rat \<Rightarrow> int" where
  "micros x = round_half_even (x * 1000000)"

fun round6 :: "pyfloat \<Rightarrow> pyfloat" where
  "round6 (Fin x) = Fin (of_int (micros x) / 1000000)"
| "round6 f = f"

fun fadd :: "pyfloat \<Rightarrow> rat \<Rightarrow> pyfloat" where
  "fadd (Fin x) y = Fin (x + y)"
| "fadd f y = f"

definition plus :: "rat \<Rightarrow> pyfloat \<Rightarrow> pyfloat" where
  "plus t f = fadd f t"

text \<open>\<open>Decimal(str(x))\<close> of a float with at most six decimals.\<close>

fun decimal_of_float :: "pyfloat \<Rightarrow> decimal" where
  "decimal_of_float (Fin x) = Dec (micros x) (-6)"
| "decimal_of_float PosInf = DInf False"
| "decimal_of_float NegInf = DInf True"
| "decimal_of_float NotANumber = DNaN"

fun dec_mul :: "decimal \<Rightarrow> decimal \<Rightarrow> decimal" where
  "dec_mul (Dec a e) (Dec b f) = round_context (a * b) (e + f)"
| "dec_mul (DInf neg) (Dec b f) = (if b = 0 then DNaN else DInf (neg \<noteq> (b < 0)))"
| "dec_mul (Dec b f) (DInf neg) = (if b = 0 then DNaN else DInf (neg \<noteq> (b < 0)))"
| "dec_mul (DInf neg) (DInf neg') = DInf (neg \<noteq> neg')"
| "dec_mul _ _ = DNaN"

text \<open>An exact quotient loses trailing zeros down to the ideal exponent; any other keeps a sticky digit.\<close>

fun strip_to :: "nat \<Rightarrow> int \<Rightarrow> int \<Rightarrow> int \<times> int" where
  "strip_to 0 q e = (q, e)"
| "strip_to (Suc n) q e = (if q mod 10 = 0 then strip_to n (q div 10) (e + 1) else (q, e))"

fun dec_div :: "decimal \<Rightarrow> decimal \<Rightarrow> decimal" where
  "dec_div (Dec a e) (Dec b f) =
     (if b = 0 then DNaN
      else if a = 0 then Dec 0 (e - f)
      else
        let shift = int (ndigits (nat \<bar>b\<bar>)) - int (ndigits (nat \<bar>a\<bar>)) + int precision + 1;
            num = \<bar>a\<bar> * 10 ^ nat shift; den = \<bar>b\<bar> * 10 ^ nat (- shift);
            q = num div den; sign = sgn a * sgn b
        in if num mod den \<noteq> 0
           then round_context (sign * (if q mod 5 = 0 then q + 1 else q)) (e - f - shift)
           else (case strip_to (nat shift) q (e - f - shift) of (q', e') \<Rightarrow> round_context (sign * q') e'))"
| "dec_div (DInf neg) (Dec b f) = DInf (neg \<noteq> (b < 0))"
| "dec_div _ _ = DNaN"

definition section_of :: "pydict \<Rightarrow> string \<Rightarrow> pydict" where
  "section_of request name = (case as_dict (get request name) of None \<Rightarrow> [] | Some d \<Rightarrow> d)"

definition number_as_float :: "pyval \<Rightarrow> pyfloat" where
  "number_as_float v = (case to_float v of Inr (Some f) \<Rightarrow> f | _ \<Rightarrow> NotANumber)"

definition decimal_of :: "pyval \<Rightarrow> decimal" where
  "decimal_of v =
     (case as_str v of None \<Rightarrow> DNaN
      | Some s \<Rightarrow> (case dec_of_string s of None \<Rightarrow> DNaN | Some d \<Rightarrow> d))"

definition estimated_cost :: "pydict \<Rightarrow> pyfloat \<Rightarrow> decimal" where
  "estimated_cost request elapsed =
     dec_div (dec_mul (decimal_of_float elapsed) (decimal_of (get (section_of request ''limits'') ''usd_per_hour'')))
       (Dec 3600 0)"

definition cost_text :: "decimal \<Rightarrow> string" where
  "cost_text d = (if is_finite d \<and> dec_eq d dec_zero then ''0'' else format_f (dec_normalize d))"

definition cost_reached :: "decimal \<Rightarrow> decimal \<Rightarrow> bool" where
  "cost_reached cost cap = (case cost of DInf neg \<Rightarrow> \<not> neg | DNaN \<Rightarrow> False | Dec c e \<Rightarrow> dec_le cap cost)"

section \<open>What the runner observes\<close>

record environment =
  en_clock :: "nat \<Rightarrow> rat"
  en_wall :: "nat \<Rightarrow> rat"
  en_stop :: "nat \<Rightarrow> string option"
  en_spawn :: "nat \<Rightarrow> int option"
  en_poll :: "nat \<Rightarrow> int option"
  en_wait :: "nat \<Rightarrow> int"
  en_group :: "nat \<Rightarrow> bool"
  en_free :: "nat \<Rightarrow> int option"
  en_token :: "nat \<Rightarrow> token_file"
  en_tree :: "nat \<Rightarrow> node"
  en_linked :: "nat \<Rightarrow> string list \<Rightarrow> (string \<times> node) list option"
  en_own :: "int list"

record platform =
  pl_sha :: "string \<Rightarrow> string"
  pl_decode :: decoder
  pl_fl :: "string \<Rightarrow> pyfloat"
  pl_rep :: "pyfloat \<Rightarrow> string"

section \<open>What it makes durable\<close>

record disk =
  dk_journal :: journal_file
  dk_status :: json_file
  dk_terminal :: "json_file option"

datatype effect =
    Append_event pydict | Write_status pydict | Write_terminal pydict | Spawn string | Terminate | Kill

definition append_bytes :: "journal_file \<Rightarrow> string \<Rightarrow> journal_file" where
  "append_bytes f bytes =
     (case f of JournalBytes b \<Rightarrow> JournalBytes (b @ bytes) | NoJournal \<Rightarrow> JournalBytes bytes | UnreadableJournal \<Rightarrow> f)"

fun apply_effect :: "(pyfloat \<Rightarrow> string) \<Rightarrow> disk \<Rightarrow> effect \<Rightarrow> disk" where
  "apply_effect rep d (Append_event e) = d\<lparr>dk_journal := append_bytes (dk_journal d) (encode_record rep e)\<rparr>"
| "apply_effect rep d (Write_status s) = d\<lparr>dk_status := JsonValue (PDict s)\<rparr>"
| "apply_effect rep d (Write_terminal t) = d\<lparr>dk_terminal := Some (JsonValue (PDict t))\<rparr>"
| "apply_effect rep d _ = d"

record runner =
  rn_tick :: nat
  rn_started :: rat
  rn_sequence :: int
  rn_prior :: pyfloat
  rn_completed :: "string list"
  rn_settled :: "string list"
  rn_exit_codes :: "int dict"
  rn_current :: "string option"
  rn_failure :: "(string \<times> string) option"
  rn_authorized :: bool
  rn_child :: "int option"
  rn_disk :: disk
  rn_trace :: "effect list"

definition tick :: "runner \<Rightarrow> runner" where
  "tick s = s\<lparr>rn_tick := Suc (rn_tick s)\<rparr>"

definition emit :: "platform \<Rightarrow> effect \<Rightarrow> runner \<Rightarrow> runner" where
  "emit pl e s = s\<lparr>rn_disk := apply_effect (pl_rep pl) (rn_disk s) e, rn_trace := rn_trace s @ [e]\<rparr>"

text \<open>\<open>time.monotonic()\<close> and \<open>_elapsed_seconds()\<close>.\<close>

definition monotonic :: "environment \<Rightarrow> runner \<Rightarrow> rat" where
  "monotonic env s = en_clock env (rn_tick s)"

definition elapsed :: "environment \<Rightarrow> runner \<Rightarrow> pyfloat" where
  "elapsed env s = round6 (fadd (rn_prior s) (monotonic env s - rn_started s))"

section \<open>Events, status and results\<close>

definition append_event :: "environment \<Rightarrow> platform \<Rightarrow> string \<Rightarrow> string \<Rightarrow> string option \<Rightarrow> pydict \<Rightarrow> runner \<Rightarrow> runner" where
  "append_event env pl run_id kind phase extra s =
     (let s1 = tick s; s2 = tick s1 in
      emit pl (Append_event (event_record run_id (rn_sequence s + 1) kind phase (elapsed env s)
                 (Fin (en_wall env (rn_tick s1))) extra))
        (s2\<lparr>rn_sequence := rn_sequence s + 1\<rparr>))"

definition child_status :: "environment \<Rightarrow> runner \<Rightarrow> pyval" where
  "child_status env s =
     (case rn_child s of None \<Rightarrow> PNone
      | Some pid \<Rightarrow>
          let code = en_poll env (rn_tick s)
          in PDict [(''pid'', PInt pid), (''running'', PBool (code = None)),
                    (''exit_code'', case code of None \<Rightarrow> PNone | Some c \<Rightarrow> PInt c)])"

definition status_record ::
  "environment \<Rightarrow> runner_identity \<Rightarrow> string \<Rightarrow> string \<Rightarrow> pyval \<Rightarrow> runner \<Rightarrow> pydict" where
  "status_record env identity run_id state terminal s =
     [(''protocol'', PStr ''run-status/1''), (''run_id'', PStr run_id)] @ as_protocol_fields identity @
     [(''state'', PStr state), (''phase'', opt_str (rn_current s)), (''heartbeat_sequence'', PInt (rn_sequence s)),
      (''heartbeat_at_unix'', PFloat (Fin (en_wall env (rn_tick s + 2)))),
      (''heartbeat_monotonic_seconds'', PFloat (elapsed env s)), (''child'', child_status env (tick s)),
      (''latest_event_sequence'', PInt (rn_sequence s)), (''terminal_result'', terminal)]"

definition publish_status ::
  "environment \<Rightarrow> platform \<Rightarrow> runner_identity \<Rightarrow> string \<Rightarrow> string \<Rightarrow> pyval \<Rightarrow> runner \<Rightarrow> runner" where
  "publish_status env pl identity run_id state terminal s =
     emit pl (Write_status (status_record env identity run_id state terminal s)) (tick (tick (tick s)))"

definition limit_reason :: "environment \<Rightarrow> pydict \<Rightarrow> runner \<Rightarrow> string option \<times> runner" where
  "limit_reason env request s =
     (let limits = section_of request ''limits''; seconds = elapsed env s in
      (if fle (number_as_float (get limits ''max_elapsed_seconds'')) seconds then Some ''elapsed_cap''
       else if cost_reached (estimated_cost request seconds) (decimal_of (get limits ''max_cost_usd''))
       then Some ''cost_cap'' else None, tick s))"

definition terminal_result ::
  "environment \<Rightarrow> pydict \<Rightarrow> string \<Rightarrow> string \<Rightarrow> string option \<Rightarrow> runner \<Rightarrow> pydict \<times> runner" where
  "terminal_result env request outcome reason phase s =
     (let seconds = elapsed env s in
      ([(''outcome'', PStr outcome), (''reason'', PStr reason), (''phase'', opt_str phase),
        (''elapsed_seconds'', PFloat seconds), (''estimated_cost_usd'', PStr (cost_text (estimated_cost request seconds))),
        (''completed_phases'', PList (map PStr (rn_completed s))),
        (''phase_exit_codes'', PDict (map (\<lambda>(p, c). (p, PInt c)) (rn_exit_codes s)))], tick s))"

section \<open>The terminal result\<close>

definition read_terminal :: "runner \<Rightarrow> exn + pydict option" where
  "read_terminal s =
     (case dk_terminal (rn_disk s) of
        None \<Rightarrow> Inr None
      | Some NoJson \<Rightarrow> Inl (ValueError ''terminal-result.json is not JSON'')
      | Some (JsonValue v) \<Rightarrow> bindR (req_mapping v ''terminal-result.json'') (\<lambda>d. Inr (Some d)))"

definition write_terminal_once :: "platform \<Rightarrow> pydict \<Rightarrow> runner \<Rightarrow> (exn + pydict) \<times> runner" where
  "write_terminal_once pl result s =
     (case read_terminal s of
        Inl e \<Rightarrow> (Inl e, s)
      | Inr (Some existing) \<Rightarrow> (Inr existing, s)
      | Inr None \<Rightarrow> (Inr result, emit pl (Write_terminal result) s))"

definition add_receipt :: "environment \<Rightarrow> platform \<Rightarrow> pydict \<Rightarrow> string \<Rightarrow> pydict \<Rightarrow> runner \<Rightarrow> pydict \<times> runner" where
  "add_receipt env pl request run_id result s =
     (if pyeq (get result ''outcome'') (PStr ''succeeded'') \<or> dget result ''artifact_manifest_sha256'' \<noteq> None
      then (result, s)
      else
        let manifest = get request ''artifact_manifest_path'';
            tree = ensure_failure_artifact_manifest (pl_sha pl) (pl_rep pl) run_id manifest
                     (en_linked env (rn_tick s)) (en_tree env (rn_tick s))
        in (case artifact_receipt (pl_sha pl) (pl_decode pl) (pl_fl pl) run_id manifest tree of
              Inl _ \<Rightarrow> (result, tick s)
            | Inr receipt \<Rightarrow> (foldl (\<lambda>r (k, v). dput k v r) result receipt, tick s)))"

definition finish ::
  "environment \<Rightarrow> platform \<Rightarrow> runner_identity \<Rightarrow> pydict \<Rightarrow> string \<Rightarrow> pydict \<Rightarrow> runner \<Rightarrow> (exn + pydict) \<times> runner" where
  "finish env pl identity request run_id result s =
     (case add_receipt env pl request run_id result s of
        (result', s1) \<Rightarrow>
          (case write_terminal_once pl result' s1 of
             (Inl e, s2) \<Rightarrow> (Inl e, s2)
           | (Inr persisted, s2) \<Rightarrow>
               (case dget persisted ''outcome'' of
                  None \<Rightarrow> (Inl (KeyError ''outcome''), s2)
                | Some outcome \<Rightarrow>
                    (Inr persisted,
                     publish_status env pl identity run_id ''terminal'' (PDict persisted)
                       (append_event env pl run_id ''terminal'' (rn_current s2) [(''outcome'', outcome)] s2)))))"

end
