(* ===== verification/Runner.thy ===== *)
theory Runner
  imports RunnerState
begin

text \<open>
  \<open>RemoteRunner\<close> in \<open>runner.py\<close>: its construction from the durable history, waiting for the launch
  authorization, the phase loop with its limits and the termination of the child's process group, and \<open>run\<close>.
  A loop that polls takes fuel; \<open>None\<close> is running out of it.
\<close>

section \<open>Paths and the child's environment\<close>

definition mount_of :: "pydict \<Rightarrow> string" where
  "mount_of request = (case as_str (get (section_of request ''storage'') ''mount'') of None \<Rightarrow> [] | Some m \<Rightarrow> m)"

definition run_root :: "pydict \<Rightarrow> string \<Rightarrow> string list" where
  "run_root request run_id = path_parts (pure_posix_path (mount_of request)) @ [''runpod-jobrunner'', ''runs'', run_id]"

definition launch_authorization_path :: "pydict \<Rightarrow> string \<Rightarrow> launch_authorization \<Rightarrow> string list" where
  "launch_authorization_path request run_id auth =
     run_root request run_id @ path_parts (pure_posix_path (la_relative_path auth))"

definition phase_log_path :: "pydict \<Rightarrow> string \<Rightarrow> string \<Rightarrow> string list" where
  "phase_log_path request run_id phase =
     (let parent = (case as_str (get request ''artifact_manifest_path'') of
                      None \<Rightarrow> [] | Some m \<Rightarrow> butlast (path_parts (pure_posix_path m)))
      in run_root request run_id @ parent @ [''diagnostics'', ''phases'', phase @ ''.log''])"

definition environment_names :: "string list" where
  "environment_names =
     [''HOME'', ''LANG'', ''LC_ALL'', ''LD_LIBRARY_PATH'', ''PATH'', ''PYTHONHOME'', ''PYTHONPATH'', ''TMP'', ''TMPDIR'',
      ''XDG_CACHE_HOME'']"

definition environment_prefixes :: "string list" where
  "environment_prefixes =
     [''ACCELERATE_'', ''CUBLAS_'', ''CUDA_'', ''CUDNN_'', ''FLASH_ATTENTION_'', ''LIGER_'', ''MKL_'', ''NCCL_'',
      ''NVIDIA_'', ''OMP_'', ''PEFT_'', ''PYTHON'', ''PYTORCH_'', ''TILELANG_'', ''TOKENIZERS_'', ''TORCH_'',
      ''TRANSFORMERS_'', ''TRITON_'', ''TVM_'']"

definition inherited :: "string \<Rightarrow> bool" where
  "inherited key \<longleftrightarrow> key \<in> set environment_names \<or> list_ex (\<lambda>p. prefix p key) environment_prefixes"

text \<open>\<open>str\<close> of a path given by its parts.\<close>

definition path_text :: "string list \<Rightarrow> string" where
  "path_text parts =
     (case parts of [] \<Rightarrow> ''.''
      | p # ps \<Rightarrow> if p \<noteq> [] \<and> hd p = slash then p @ join slash ps else join slash parts)"

definition child_environment ::
  "string dict \<Rightarrow> pydict \<Rightarrow> string \<Rightarrow> string \<Rightarrow> string option \<Rightarrow> string dict" where
  "child_environment os_environ request run_id status_dir request_path =
     (let own = foldl (\<lambda>e (k, v). dput k v e) (filter (\<lambda>(k, v). inherited k) os_environ)
        [(''RUNPOD_JOBRUNNER_RUN_ID'', run_id), (''RUNPOD_JOBRUNNER_STATUS_DIR'', status_dir),
         (''RUNPOD_JOBRUNNER_STORAGE_MOUNT'', as_posix (pure_posix_path (mount_of request))),
         (''RUNPOD_JOBRUNNER_RUN_ROOT'', path_text (run_root request run_id)),
         (''RUNPOD_JOBRUNNER_INPUT_ROOT'', path_text (run_root request run_id @ [''input'']))]
      in case request_path of None \<Rightarrow> own | Some p \<Rightarrow> dput ''RUNPOD_JOBRUNNER_REQUEST_PATH'' p own)"

section \<open>Construction\<close>

record job =
  jb_request :: pydict
  jb_auth :: launch_authorization
  jb_identity :: runner_identity
  jb_identity_failure :: "string option"
  jb_run_id :: string
  jb_status_token :: "string option"

text \<open>\<open>given\<close> is the argument \<open>runner_identity\<close>, \<open>loaded\<close> what \<open>load_runner_identity\<close> returns.\<close>

definition new_job ::
  "pydict \<Rightarrow> runner_identity option \<Rightarrow> exn + runner_identity \<Rightarrow> string option \<Rightarrow> exn + job" where
  "new_job request given loaded status_token =
     bindR (validate_request request) (\<lambda>request.
     bindR (parse_launch_authorization (get request ''launch_authorization'')) (\<lambda>auth.
     bindR (case given of
              Some i \<Rightarrow> bindR (identity_failure request i) (\<lambda>f. Inr (i, f))
            | None \<Rightarrow>
                (case loaded of
                   Inl (RunnerIdentityError _) \<Rightarrow> Inr (local_source_identity, Some ''runner_identity_unavailable'')
                 | Inl e \<Rightarrow> Inl e
                 | Inr i \<Rightarrow> bindR (identity_failure request i) (\<lambda>f. Inr (i, f)))) (\<lambda>(identity, failure).
       Inr \<lparr>jb_request = request, jb_auth = auth, jb_identity = identity, jb_identity_failure = failure,
            jb_run_id = (case as_str (get request ''run_id'') of None \<Rightarrow> [] | Some r \<Rightarrow> r),
            jb_status_token = status_token\<rparr>)))"

definition last_sequence :: "pydict list \<Rightarrow> int" where
  "last_sequence history =
     (if history = [] then 0 else case as_int (get (last history) ''sequence'') of None \<Rightarrow> 0 | Some n \<Rightarrow> n)"

definition new_runner ::
  "environment \<Rightarrow> platform \<Rightarrow> job \<Rightarrow> disk \<Rightarrow> exn + runner" where
  "new_runner env pl j d =
     (case read_event_history (pl_decode pl) (pl_fl pl) (jb_run_id j) (dk_journal d) of
        (Inl e, _) \<Rightarrow> Inl e
      | (Inr history, journal) \<Rightarrow>
          bindR (prior_elapsed_seconds history (dk_status d) (jb_run_id j)) (\<lambda>prior.
            let r = recover_history history in
            Inr \<lparr>rn_tick = 1, rn_started = en_clock env 0, rn_sequence = last_sequence history, rn_prior = prior,
                 rn_completed = rc_completed r, rn_settled = rc_settled r, rn_exit_codes = rc_exit_codes r,
                 rn_current = rc_active r, rn_failure = rc_failure r,
                 rn_authorized = list_ex (\<lambda>e. pyeq (get e ''kind'') (PStr ''launch_authorized'')) history,
                 rn_child = None, rn_disk = d\<lparr>dk_journal := journal\<rparr>, rn_trace = []\<rparr>))"

section \<open>Steps of the loops\<close>

definition stop_reasons :: "string list" where
  "stop_reasons = [''termination_requested'', ''controller_stop_requested'']"

text \<open>\<open>request_stop\<close>: the reason the runner keeps of the one it was given.\<close>

definition request_stop_reason :: "string \<Rightarrow> string" where
  "request_stop_reason reason = (if reason \<in> set stop_reasons then reason else ''termination_requested'')"

definition stop_requested :: "environment \<Rightarrow> runner \<Rightarrow> string option" where
  "stop_requested env s = map_option request_stop_reason (en_stop env (rn_tick s))"

definition event :: "environment \<Rightarrow> platform \<Rightarrow> job \<Rightarrow> string \<Rightarrow> string option \<Rightarrow> pydict \<Rightarrow> runner \<Rightarrow> runner" where
  "event env pl j kind phase extra s = append_event env pl (jb_run_id j) kind phase extra s"

definition heartbeat :: "environment \<Rightarrow> platform \<Rightarrow> job \<Rightarrow> string \<Rightarrow> runner \<Rightarrow> runner" where
  "heartbeat env pl j state s = publish_status env pl (jb_identity j) (jb_run_id j) state PNone s"

definition heartbeat_interval :: "job \<Rightarrow> pyfloat" where
  "heartbeat_interval j = number_as_float (get (jb_request j) ''heartbeat_interval_seconds'')"

definition result_of :: "environment \<Rightarrow> job \<Rightarrow> string \<Rightarrow> string \<Rightarrow> string option \<Rightarrow> runner \<Rightarrow> pydict \<times> runner" where
  "result_of env j outcome reason phase s = terminal_result env (jb_request j) outcome reason phase s"

section \<open>Waiting for the launch authorization\<close>

definition check_launch_token :: "platform \<Rightarrow> job \<Rightarrow> token_file \<Rightarrow> bool" where
  "check_launch_token pl j f =
     (case f of
        RegularFile data \<Rightarrow>
          (case read_token f of
             Inl _ \<Rightarrow> False
           | Inr token \<Rightarrow> int (length data) = la_size (jb_auth j) \<and> pl_sha pl token = la_sha256 (jb_auth j))
      | _ \<Rightarrow> False)"

fun wait_launch ::
  "environment \<Rightarrow> platform \<Rightarrow> job \<Rightarrow> pyfloat \<Rightarrow> pyfloat \<Rightarrow> nat \<Rightarrow> runner \<Rightarrow> string option option \<times> runner" where
  "wait_launch env pl j deadline next_heartbeat 0 s = (None, s)"
| "wait_launch env pl j deadline next_heartbeat (Suc n) s =
     (case stop_requested env s of
        Some reason \<Rightarrow> (Some (Some reason), tick s)
      | None \<Rightarrow>
          let token = en_token env (rn_tick (tick s)); s2 = tick (tick s) in
          if token \<noteq> NoFile then
            (if \<not> check_launch_token pl j token then (Some (Some ''launch_authorization_invalid''), s2)
             else if rn_authorized s2 then (Some None, s2)
             else (Some None, (event env pl j ''launch_authorized'' None [] s2)\<lparr>rn_authorized := True\<rparr>))
          else
            let t = Fin (monotonic env s2); s3 = tick s2 in
            if fle deadline t then (Some (Some ''launch_authorization_timeout''), s3)
            else if fle next_heartbeat t
            then wait_launch env pl j deadline (plus (monotonic env s2) (heartbeat_interval j)) n
                   (heartbeat env pl j ''ready'' s3)
            else wait_launch env pl j deadline next_heartbeat n s3)"

definition wait_for_launch_authorization ::
  "environment \<Rightarrow> platform \<Rightarrow> job \<Rightarrow> nat \<Rightarrow> runner \<Rightarrow> string option option \<times> runner" where
  "wait_for_launch_authorization env pl j fuel s =
     (if Some (la_sha256 (jb_auth j)) = jb_status_token j then (Some (Some ''launch_authorization_invalid''), s)
      else wait_launch env pl j (plus (monotonic env s) (la_timeout_seconds (jb_auth j)))
             (plus (monotonic env (tick s)) (heartbeat_interval j)) fuel (tick (tick s)))"

section \<open>The child's process group\<close>

text \<open>Polling until the child has exited or the grace period is over.\<close>

fun await_exit :: "environment \<Rightarrow> pyfloat \<Rightarrow> nat \<Rightarrow> runner \<Rightarrow> runner option" where
  "await_exit env deadline 0 s = None"
| "await_exit env deadline (Suc n) s =
     (if en_poll env (rn_tick s) \<noteq> None then Some (tick s)
      else if fle deadline (Fin (monotonic env (tick s))) then Some (tick (tick s))
      else await_exit env deadline n (tick (tick s)))"

definition reap :: "environment \<Rightarrow> runner \<Rightarrow> runner" where
  "reap env s =
     (let code = en_wait env (rn_tick s) in
      (tick s)\<lparr>rn_child := None,
        rn_exit_codes := (case rn_current s of None \<Rightarrow> rn_exit_codes s | Some p \<Rightarrow> dput p code (rn_exit_codes s))\<rparr>)"

definition grace_period :: "job \<Rightarrow> pyfloat" where
  "grace_period j = number_as_float (get (jb_request j) ''termination_grace_seconds'')"

definition terminate_process_group :: "environment \<Rightarrow> platform \<Rightarrow> job \<Rightarrow> nat \<Rightarrow> runner \<Rightarrow> runner option" where
  "terminate_process_group env pl j fuel s =
     (if rn_child s = None then Some s
      else if en_poll env (rn_tick s) \<noteq> None then Some (tick s)
      else
        let s1 = emit pl Terminate (tick s) in
        if \<not> en_group env (rn_tick s1) then Some (tick s1)
        else
          let s2 = tick s1 in
          (case await_exit env (plus (monotonic env s2) (grace_period j)) fuel (tick s2) of
             None \<Rightarrow> None
           | Some s3 \<Rightarrow>
               Some (reap env (if en_poll env (rn_tick s3) = None then emit pl Kill (tick s3) else tick s3))))"

definition recorded_pid :: "environment \<Rightarrow> disk \<Rightarrow> int option" where
  "recorded_pid env d =
     (case dk_status d of
        NoJson \<Rightarrow> None
      | JsonValue v \<Rightarrow>
          (case as_dict v of
             None \<Rightarrow> None
           | Some status \<Rightarrow>
               (case as_dict (get status ''child'') of
                  None \<Rightarrow> None
                | Some child \<Rightarrow>
                    (case as_int (get child ''pid'') of
                       None \<Rightarrow> None
                     | Some pid \<Rightarrow> if pid \<le> 1 \<or> pid \<in> set (en_own env) then None else Some pid))))"

fun await_group :: "environment \<Rightarrow> pyfloat \<Rightarrow> nat \<Rightarrow> runner \<Rightarrow> (bool \<times> runner) option" where
  "await_group env deadline 0 s = None"
| "await_group env deadline (Suc n) s =
     (if fle deadline (Fin (monotonic env s)) then Some (True, tick s)
      else if \<not> en_group env (rn_tick (tick s)) then Some (False, tick (tick s))
      else await_group env deadline n (tick (tick s)))"

definition terminate_recorded_process_group ::
  "environment \<Rightarrow> platform \<Rightarrow> job \<Rightarrow> nat \<Rightarrow> runner \<Rightarrow> runner option" where
  "terminate_recorded_process_group env pl j fuel s =
     (case recorded_pid env (rn_disk s) of
        None \<Rightarrow> Some s
      | Some pid \<Rightarrow>
          let s1 = emit pl Terminate s in
          if \<not> en_group env (rn_tick s1) then Some (tick s1)
          else
            let s2 = tick s1 in
            (case await_group env (plus (monotonic env s2) (grace_period j)) fuel (tick s2) of
               None \<Rightarrow> None
             | Some (overdue, s3) \<Rightarrow> Some (if overdue then emit pl Kill s3 else s3)))"

section \<open>One phase\<close>

text \<open>A phase ends with a terminal result or, on success, without one.\<close>

definition stop_phase ::
  "environment \<Rightarrow> platform \<Rightarrow> job \<Rightarrow> nat \<Rightarrow> string \<Rightarrow> string \<Rightarrow> string \<Rightarrow> runner \<Rightarrow> pydict option option \<times> runner" where
  "stop_phase env pl j fuel outcome reason phase s =
     (case terminate_process_group env pl j fuel s of
        None \<Rightarrow> (None, s)
      | Some s1 \<Rightarrow> (case result_of env j outcome reason (Some phase) s1 of (r, s2) \<Rightarrow> (Some (Some r), s2)))"

definition phase_exited ::
  "environment \<Rightarrow> platform \<Rightarrow> job \<Rightarrow> string \<Rightarrow> int \<Rightarrow> runner \<Rightarrow> pydict option option \<times> runner" where
  "phase_exited env pl j phase code s =
     (let s1 = heartbeat env pl j ''running'' (s\<lparr>rn_exit_codes := dput phase code (rn_exit_codes s)\<rparr>);
          s2 = (event env pl j (if code = 0 then ''phase_completed'' else ''phase_failed'') (Some phase)
                  [(''exit_code'', PInt code)] s1)\<lparr>rn_child := None\<rparr>
      in if code \<noteq> 0
         then (case result_of env j ''failed'' ''phase_nonzero_exit'' (Some phase) s2 of (r, s3) \<Rightarrow> (Some (Some r), s3))
         else (Some None, s2))"

fun poll_phase ::
  "environment \<Rightarrow> platform \<Rightarrow> job \<Rightarrow> string \<Rightarrow> rat \<Rightarrow> pyfloat \<Rightarrow> pyfloat \<Rightarrow> nat \<Rightarrow> runner \<Rightarrow> pydict option option \<times> runner" where
  "poll_phase env pl j phase started timeout next_heartbeat 0 s = (None, s)"
| "poll_phase env pl j phase started timeout next_heartbeat (Suc n) s =
     (case en_poll env (rn_tick s) of
        Some code \<Rightarrow> phase_exited env pl j phase code (tick s)
      | None \<Rightarrow>
          let t = monotonic env (tick s); s2 = tick (tick s) in
          (case stop_requested env s2 of
             Some reason \<Rightarrow> stop_phase env pl j n ''stopped'' reason phase (tick s2)
           | None \<Rightarrow>
               if fle timeout (Fin (t - started)) then stop_phase env pl j n ''timed_out'' ''phase_timeout'' phase (tick s2)
               else (case limit_reason env (jb_request j) (tick s2) of
                  (Some reason, s3) \<Rightarrow> stop_phase env pl j n ''limit_exceeded'' reason phase s3
                | (None, s3) \<Rightarrow>
                    if fle next_heartbeat (Fin t)
                    then poll_phase env pl j phase started timeout (plus t (heartbeat_interval j)) n
                           (heartbeat env pl j ''running'' s3)
                    else poll_phase env pl j phase started timeout next_heartbeat n s3)))"

definition start_phase ::
  "environment \<Rightarrow> platform \<Rightarrow> job \<Rightarrow> pydict \<Rightarrow> nat \<Rightarrow> string \<Rightarrow> runner \<Rightarrow> pydict option option \<times> runner" where
  "start_phase env pl j config fuel phase s =
     (let s1 = event env pl j ''phase_started'' (Some phase) [] (s\<lparr>rn_current := Some phase\<rparr>) in
      case en_spawn env (rn_tick s1) of
        None \<Rightarrow>
          (case result_of env j ''failed'' ''phase_start_failed'' (Some phase)
                  (event env pl j ''phase_start_failed'' (Some phase) [] (tick s1)) of
             (r, s2) \<Rightarrow> (Some (Some r), s2))
      | Some pid \<Rightarrow>
          let s2 = (emit pl (Spawn phase) (tick s1))\<lparr>rn_child := Some pid\<rparr> in
          poll_phase env pl j phase (monotonic env s2) (number_as_float (get config ''timeout_seconds'')) (Fin 0) fuel
            (tick s2))"

definition run_phase ::
  "environment \<Rightarrow> platform \<Rightarrow> job \<Rightarrow> pydict \<Rightarrow> nat \<Rightarrow> string \<Rightarrow> runner \<Rightarrow> pydict option option \<times> runner" where
  "run_phase env pl j config fuel phase s =
     (case limit_reason env (jb_request j) s of
        (Some reason, s1) \<Rightarrow>
          (case result_of env j ''limit_exceeded'' reason (Some phase) s1 of (r, s2) \<Rightarrow> (Some (Some r), s2))
      | (None, s1) \<Rightarrow> start_phase env pl j config fuel phase s1)"

section \<open>The run\<close>

definition phase_enabled :: "pydict \<Rightarrow> bool" where
  "phase_enabled config = (case as_bool (get config ''enabled'') of None \<Rightarrow> False | Some b \<Rightarrow> b)"

fun run_phases ::
  "environment \<Rightarrow> platform \<Rightarrow> job \<Rightarrow> nat \<Rightarrow> string list \<Rightarrow> runner \<Rightarrow> pydict option option \<times> runner" where
  "run_phases env pl j fuel [] s = (Some None, s)"
| "run_phases env pl j fuel (phase # phases) s =
     (if phase \<in> set (rn_settled s) then run_phases env pl j fuel phases s
      else
        let config = section_of (section_of (jb_request j) ''phases'') phase in
        if \<not> phase_enabled config
        then run_phases env pl j fuel phases (event env pl j ''phase_disabled'' (Some phase) [] s)
        else (case run_phase env pl j config fuel phase s of
           (None, s1) \<Rightarrow> (None, s1)
         | (Some (Some terminal), s1) \<Rightarrow> (Some (Some terminal), s1)
         | (Some None, s1) \<Rightarrow>
             run_phases env pl j fuel phases (s1\<lparr>rn_completed := rn_completed s1 @ [phase]\<rparr>)))"

definition storage_reason :: "environment \<Rightarrow> pydict \<Rightarrow> runner \<Rightarrow> string option" where
  "storage_reason env request s =
     (case en_free env (rn_tick s) of
        None \<Rightarrow> Some ''storage_unavailable''
      | Some available \<Rightarrow>
          (case as_int (get (section_of request ''storage'') ''required_gb'') of
             None \<Rightarrow> None
           | Some gb \<Rightarrow> if available < gb * 1000000000 then Some ''storage_capacity_below_request'' else None))"

definition end_run :: "environment \<Rightarrow> platform \<Rightarrow> job \<Rightarrow> pydict \<times> runner \<Rightarrow> (exn + pydict) option \<times> runner" where
  "end_run env pl j rs =
     (case rs of (result, s) \<Rightarrow>
       (case finish env pl (jb_identity j) (jb_request j) (jb_run_id j) result s of (r, s') \<Rightarrow> (Some r, s')))"

definition complete_run :: "environment \<Rightarrow> platform \<Rightarrow> job \<Rightarrow> runner \<Rightarrow> (exn + pydict) option \<times> runner" where
  "complete_run env pl j s =
     (case result_of env j ''succeeded'' ''all_enabled_phases_completed'' None s of
        (terminal, s1) \<Rightarrow>
          (case artifact_receipt (pl_sha pl) (pl_decode pl) (pl_fl pl) (jb_run_id j)
                  (get (jb_request j) ''artifact_manifest_path'') (en_tree env (rn_tick s1)) of
             Inl e \<Rightarrow> end_run env pl j (result_of env j ''failed'' (exn_text e) (Some ''package'') (tick s1))
           | Inr receipt \<Rightarrow> end_run env pl j (foldl (\<lambda>r (k, v). dput k v r) terminal receipt, tick s1)))"

definition run_ready :: "environment \<Rightarrow> platform \<Rightarrow> job \<Rightarrow> nat \<Rightarrow> runner \<Rightarrow> (exn + pydict) option \<times> runner" where
  "run_ready env pl j fuel s =
     (let s1 = heartbeat env pl j ''ready''
                 (event env pl j (if rn_sequence s \<noteq> 0 then ''runner_resumed'' else ''ready'') None [] s) in
      case wait_for_launch_authorization env pl j fuel s1 of
        (None, s2) \<Rightarrow> (None, s2)
      | (Some (Some failure), s2) \<Rightarrow> end_run env pl j (result_of env j ''failed'' failure None s2)
      | (Some None, s2) \<Rightarrow>
          (case run_phases env pl j fuel phase_order s2 of
             (None, s3) \<Rightarrow> (None, s3)
           | (Some (Some terminal), s3) \<Rightarrow> end_run env pl j (terminal, s3)
           | (Some None, s3) \<Rightarrow> complete_run env pl j s3))"

definition run :: "environment \<Rightarrow> platform \<Rightarrow> job \<Rightarrow> nat \<Rightarrow> runner \<Rightarrow> (exn + pydict) option \<times> runner" where
  "run env pl j fuel s =
     (case read_terminal s of
        Inl e \<Rightarrow> (Some (Inl e), s)
      | Inr (Some existing) \<Rightarrow>
          (Some (Inr existing),
           publish_status env pl (jb_identity j) (jb_run_id j) ''terminal'' (PDict existing) s)
      | Inr None \<Rightarrow>
          (case rn_failure s of
             Some (phase, reason) \<Rightarrow>
               end_run env pl j (result_of env j ''failed'' reason (Some phase) (s\<lparr>rn_current := Some phase\<rparr>))
           | None \<Rightarrow>
               (case rn_current s of
                  Some phase \<Rightarrow>
                    (case terminate_recorded_process_group env pl j fuel s of
                       None \<Rightarrow> (None, s)
                     | Some s1 \<Rightarrow>
                         end_run env pl j (result_of env j ''failed'' ''runner_restart_unknown_child'' (Some phase) s1))
                | None \<Rightarrow>
                    (case jb_identity_failure j of
                       Some reason \<Rightarrow> end_run env pl j (result_of env j ''failed'' reason None s)
                     | None \<Rightarrow>
                         (case storage_reason env (jb_request j) s of
                            Some reason \<Rightarrow> end_run env pl j (result_of env j ''failed'' reason None (tick s))
                          | None \<Rightarrow> run_ready env pl j fuel (tick s))))))"

end
