(* ===== verification/RunnerProtocol.thy ===== *)
theory RunnerProtocol
  imports Runner
begin

text \<open>
  What the runner may do, as an automaton over its effects, and the proof that every trace of \<open>run\<close> is one the
  automaton accepts.  The automaton sees the journal's events, whether a started phase has not been spawned yet,
  and whether the terminal result is written.  The lives of a run are its successive runner processes, each
  started from the disk the one before left when it died.
\<close>

section \<open>The automaton\<close>

record monitor =
  mo_events :: "pydict list"
  mo_pending :: bool
  mo_ended :: bool

definition kind_is :: "pydict \<Rightarrow> string \<Rightarrow> bool" where
  "kind_is e k \<longleftrightarrow> get e ''kind'' = PStr k"

definition finite_number :: "pyval \<Rightarrow> bool" where
  "finite_number v \<longleftrightarrow> (case v of PFloat f \<Rightarrow> isfinite f | _ \<Rightarrow> False)"

text \<open>A phase starts when it is enabled, none is active or has failed and it has not settled; the active phase ends.\<close>

definition enabled :: "job \<Rightarrow> string \<Rightarrow> bool" where
  "enabled j p = phase_enabled (section_of (section_of (jb_request j) ''phases'') p)"

definition in_turn :: "job \<Rightarrow> pydict list \<Rightarrow> pydict \<Rightarrow> bool" where
  "in_turn j h e \<longleftrightarrow>
     (case as_str (get e ''phase'') of
        None \<Rightarrow> True
      | Some p \<Rightarrow>
          let r = recover_history h in
          if kind_is e ''phase_started''
          then rc_active r = None \<and> rc_failure r = None \<and> p \<notin> set (rc_settled r) \<and> enabled j p
          else if kind_is e ''phase_completed'' then rc_active r = Some p \<and> get e ''exit_code'' = PInt 0
          else if kind_is e ''phase_failed'' \<or> kind_is e ''phase_start_failed'' then rc_active r = Some p
          else if kind_is e ''phase_disabled'' then \<not> enabled j p
          else True)"

definition plain_outcome :: "pydict \<Rightarrow> bool" where
  "plain_outcome t \<longleftrightarrow> (case as_str (get t ''outcome'') of None \<Rightarrow> False | Some t' \<Rightarrow> plain_text t')"

definition idle :: "monitor \<Rightarrow> bool" where
  "idle m \<longleftrightarrow> rc_active (recover_history (mo_events m)) = None \<and> rc_failure (recover_history (mo_events m)) = None"

definition settled :: "monitor \<Rightarrow> string set" where
  "settled m = set (rc_settled (recover_history (mo_events m)))"

text \<open>A run succeeds when every phase has settled, none has failed and the artifact manifest was verified.\<close>

definition may_end :: "job \<Rightarrow> monitor \<Rightarrow> pydict \<Rightarrow> bool" where
  "may_end j m t \<longleftrightarrow> plain_outcome t \<and>
     (get t ''outcome'' = PStr ''succeeded'' \<longrightarrow>
        idle m \<and> set phase_order \<subseteq> settled m \<and>
        (as_str (get (jb_request j) ''artifact_manifest_path'') \<noteq> None \<longrightarrow>
           dget t ''artifact_manifest_sha256'' \<noteq> None))"

fun allowed :: "platform \<Rightarrow> job \<Rightarrow> monitor \<Rightarrow> effect \<Rightarrow> bool" where
  "allowed pl j m (Append_event e) =
     (good_event (pl_rep pl) (pl_fl pl) (jb_run_id j) (int (length (mo_events m)) + 1) e \<and>
      finite_number (get e ''monotonic_seconds'') \<and> in_turn j (mo_events m) e \<and>
      (mo_ended m \<longrightarrow> kind_is e ''terminal''))"
| "allowed pl j m (Write_status st) = finite_number (get st ''heartbeat_monotonic_seconds'')"
| "allowed pl j m (Write_terminal t) = (\<not> mo_ended m \<and> may_end j m t)"
| "allowed pl j m (Spawn p) =
     (mo_pending m \<and> \<not> mo_ended m \<and> get (last (mo_events m)) ''phase'' = PStr p)"
| "allowed pl j m _ = True"

fun observe :: "monitor \<Rightarrow> effect \<Rightarrow> monitor" where
  "observe m (Append_event e) =
     m\<lparr>mo_events := mo_events m @ [e], mo_pending := kind_is e ''phase_started''\<rparr>"
| "observe m (Write_terminal t) = m\<lparr>mo_ended := True\<rparr>"
| "observe m (Spawn p) = m\<lparr>mo_pending := False\<rparr>"
| "observe m _ = m"

fun conforms :: "platform \<Rightarrow> job \<Rightarrow> monitor \<Rightarrow> effect list \<Rightarrow> bool" where
  "conforms pl j m [] = True"
| "conforms pl j m (e # es) = (allowed pl j m e \<and> conforms pl j (observe m e) es)"

lemma conforms_append:
  "conforms pl j m (es @ es') \<longleftrightarrow> conforms pl j m es \<and> conforms pl j (foldl observe m es) es'"
  by (induction es arbitrary: m) auto

lemma recover_snoc: "recover_history (h @ [e]) = recover_event (recover_history h) e"
  by (simp add: recover_history_def)

section \<open>States that follow the automaton\<close>

definition follows :: "platform \<Rightarrow> job \<Rightarrow> monitor \<Rightarrow> runner \<Rightarrow> monitor \<Rightarrow> bool" where
  "follows pl j m0 s m \<longleftrightarrow>
     conforms pl j m0 (rn_trace s) \<and> m = foldl observe m0 (rn_trace s) \<and>
     rn_sequence s = int (length (mo_events m)) \<and> (\<exists>x. rn_prior s = Fin x) \<and>
     mo_ended m = (dk_terminal (rn_disk s) \<noteq> None) \<and> (\<forall>p. rn_current s = Some p \<longrightarrow> p \<in> set phase_order)"

lemma follows_current:
  "follows pl j m0 s m \<Longrightarrow> p \<in> set phase_order \<Longrightarrow> follows pl j m0 (s\<lparr>rn_current := Some p\<rparr>) m"
  by (auto simp: follows_def)

lemma follows_fields [simp]:
  "follows pl j m0 (tick s) m = follows pl j m0 s m"
  "follows pl j m0 (s\<lparr>rn_exit_codes := x\<rparr>) m = follows pl j m0 s m"
  "follows pl j m0 (s\<lparr>rn_child := h\<rparr>) m = follows pl j m0 s m"
  "follows pl j m0 (s\<lparr>rn_completed := ps\<rparr>) m = follows pl j m0 s m"
  "follows pl j m0 (s\<lparr>rn_authorized := b\<rparr>) m = follows pl j m0 s m"
  by (simp_all add: follows_def tick_def)

lemma settled_fields [simp]:
  "rn_settled (tick s) = rn_settled s" "rn_settled (emit pl e s) = rn_settled s"
  "rn_settled (append_event env pl r k p x s) = rn_settled s" "rn_settled (event env pl j k p x s) = rn_settled s"
  "rn_settled (heartbeat env pl j st s) = rn_settled s" "rn_settled (publish_status env pl i r st t s) = rn_settled s"
  by (simp_all add: tick_def emit_def append_event_def event_def heartbeat_def publish_status_def Let_def)

text \<open>The platform's floats and decoder behave as documented: \<open>float(repr(x)) == x\<close> and ASCII is UTF-8.\<close>

definition faithful :: "platform \<Rightarrow> bool" where
  "faithful pl \<longleftrightarrow> ascii_decoder (pl_decode pl) \<and> (\<forall>x. readable_float (pl_rep pl) (pl_fl pl) (Fin x))"

definition good_job :: "job \<Rightarrow> bool" where
  "good_job j \<longleftrightarrow> plain_text (jb_run_id j)"

lemma elapsed_finite:
  assumes "follows pl j m0 s m"
  shows "\<exists>x. elapsed env s = Fin x"
proof -
  obtain x where "rn_prior s = Fin x" using assms by (auto simp: follows_def)
  then show ?thesis unfolding elapsed_def by (simp only: fadd.simps round6.simps) blast
qed

lemma event_record_gets:
  assumes "good_extra extra"
  shows "get (event_record run_id n kind phase el wall extra) ''kind'' = PStr kind"
    and "get (event_record run_id n kind phase el wall extra) ''phase'' = opt_str phase"
    and "get (event_record run_id n kind phase el wall extra) ''monotonic_seconds'' = PFloat el"
    and "get (event_record run_id n kind phase el wall extra) ''exit_code'' = get extra ''exit_code''"
  using assms by (auto simp: event_record_def good_extra_def)

lemma follows_emit:
  assumes "follows pl j m0 s m" and "allowed pl j m e" and "\<And>ev. e \<noteq> Append_event ev"
  shows "follows pl j m0 (emit pl e s) (observe m e)"
  using assms by (cases e) (auto simp: follows_def emit_def conforms_append)

lemma follows_event:
  assumes f: "follows pl j m0 s m" and pl: "faithful pl" and j: "good_job j"
    and kind: "kind \<in> set event_kinds" and phase: "\<forall>p. phase = Some p \<longrightarrow> p \<in> set phase_order"
    and extra: "good_extra extra" and ended: "mo_ended m \<longrightarrow> kind = ''terminal''"
    and turn: "\<And>e. get e ''kind'' = PStr kind \<Longrightarrow> get e ''phase'' = opt_str phase \<Longrightarrow>
      get e ''exit_code'' = get extra ''exit_code'' \<Longrightarrow> in_turn j (mo_events m) e"
  shows "\<exists>e. follows pl j m0 (event env pl j kind phase extra s) (observe m (Append_event e)) \<and>
    get e ''kind'' = PStr kind \<and> get e ''phase'' = opt_str phase"
proof -
  obtain x where x: "elapsed env s = Fin x" using elapsed_finite [OF f] by blast
  define e where "e = event_record (jb_run_id j) (rn_sequence s + 1) kind phase (Fin x)
      (Fin (en_wall env (rn_tick (tick s)))) extra"
  have g: "get e ''kind'' = PStr kind" "get e ''phase'' = opt_str phase" "get e ''monotonic_seconds'' = PFloat (Fin x)"
    "get e ''exit_code'' = get extra ''exit_code''"
    using event_record_gets [OF extra] by (simp_all add: e_def)
  have n: "rn_sequence s = int (length (mo_events m))" using f by (simp add: follows_def)
  have "good_event (pl_rep pl) (pl_fl pl) (jb_run_id j) (int (length (mo_events m)) + 1) e"
    unfolding e_def n using pl j kind phase extra by (intro good_event_record) (auto simp: faithful_def good_job_def)
  then have "allowed pl j m (Append_event e)"
    using g ended turn [OF g(1, 2, 4)] by (auto simp: finite_number_def kind_is_def)
  moreover have "event env pl j kind phase extra s =
      (emit pl (Append_event e) (tick (tick s)))\<lparr>rn_sequence := rn_sequence s + 1\<rparr>"
    by (simp add: event_def append_event_def Let_def e_def x emit_def tick_def)
  ultimately have "follows pl j m0 (event env pl j kind phase extra s) (observe m (Append_event e))"
    using f by (auto simp: follows_def emit_def tick_def conforms_append)
  then show ?thesis using g by blast
qed

lemma follows_status:
  assumes "follows pl j m0 s m"
  shows "follows pl j m0 (publish_status env pl i r st t s) m"
proof -
  obtain x where x: "elapsed env s = Fin x" using elapsed_finite [OF assms] by blast
  have "get (status_record env i r st t s) ''heartbeat_monotonic_seconds'' = PFloat (elapsed env s)"
    by (simp add: status_record_def as_protocol_fields_def)
  then have "allowed pl j m (Write_status (status_record env i r st t s))" by (simp add: finite_number_def x)
  then show ?thesis
    using follows_emit [of pl j m0 "tick (tick (tick s))" m] assms by (fastforce simp: publish_status_def)
qed

lemma follows_heartbeat: "follows pl j m0 s m \<Longrightarrow> follows pl j m0 (heartbeat env pl j st s) m"
  by (simp add: heartbeat_def follows_status)

lemma follows_signal:
  "follows pl j m0 s m \<Longrightarrow> follows pl j m0 (emit pl Terminate s) m"
  "follows pl j m0 s m \<Longrightarrow> follows pl j m0 (emit pl Kill s) m"
  using follows_emit [of pl j m0 s m Terminate] follows_emit [of pl j m0 s m Kill] by simp_all

section \<open>The loops follow it\<close>

definition steady :: "monitor \<Rightarrow> monitor \<Rightarrow> bool" where
  "steady m m' \<longleftrightarrow> recover_history (mo_events m') = recover_history (mo_events m) \<and> mo_ended m' = mo_ended m"

lemma steady_refl [simp]: "steady m m"
  by (simp add: steady_def)

lemma steady_event: "get e ''phase'' = PNone \<Longrightarrow> steady m (observe m (Append_event e))"
  by (simp add: steady_def recover_snoc recover_event_def)

lemma launched_event:
  assumes "follows pl j m0 s m" and "faithful pl" and "good_job j" and "\<not> mo_ended m"
    and "kind \<in> {''ready'', ''runner_resumed'', ''launch_authorized''}"
  shows "\<exists>m'. follows pl j m0 (event env pl j kind None [] s) m' \<and> steady m m'"
proof -
  have "kind \<in> set event_kinds" using assms(5) by (auto simp: event_kinds_def)
  then obtain e where "follows pl j m0 (event env pl j kind None [] s) (observe m (Append_event e))"
    and "get e ''phase'' = PNone"
    using follows_event [OF assms(1-3), of kind None "[]" env] assms(4)
    by (auto simp: good_extra_def opt_str_def in_turn_def)
  then show ?thesis using steady_event by blast
qed

lemma wait_launch_follows:
  assumes "wait_launch env pl j deadline next_heartbeat n s = (r, s')" and "follows pl j m0 s m"
    and "faithful pl" and "good_job j" and "\<not> mo_ended m"
  shows "\<exists>m'. follows pl j m0 s' m' \<and> steady m m' \<and> rn_settled s' = rn_settled s"
  using assms
proof (induction n arbitrary: next_heartbeat s)
  case (Suc n)
  let ?s2 = "tick (tick s)"
  have launched: "\<exists>m'. follows pl j m0 (event env pl j ''launch_authorized'' None [] ?s2) m' \<and> steady m m'"
    using launched_event [of pl j m0 ?s2 m "''launch_authorized''" env] Suc.prems by simp
  have keep: "\<exists>m'. follows pl j m0 s' m' \<and> steady m m'" if "follows pl j m0 s' m"
    using that steady_refl by blast
  show ?case
    using Suc.prems(1) Suc.IH [OF _ _ Suc.prems(3-5)] Suc.prems(2) launched keep follows_heartbeat
    by (auto simp: Let_def split: option.splits if_splits) fastforce+
qed auto

lemma wait_follows:
  assumes "wait_for_launch_authorization env pl j n s = (r, s')" and "follows pl j m0 s m"
    and "faithful pl" and "good_job j" and "\<not> mo_ended m"
  shows "\<exists>m'. follows pl j m0 s' m' \<and> steady m m' \<and> rn_settled s' = rn_settled s"
proof (cases "Some (la_sha256 (jb_auth j)) = jb_status_token j")
  case True
  then show ?thesis using assms(1, 2) steady_refl by (auto simp: wait_for_launch_authorization_def)
next
  case False
  then show ?thesis
    using assms wait_launch_follows [where s = "tick (tick s)" and m = m]
    by (fastforce simp: wait_for_launch_authorization_def)
qed

lemma await_exit_follows:
  "await_exit env d n s = Some s' \<Longrightarrow> follows pl j m0 s m \<Longrightarrow> follows pl j m0 s' m \<and> rn_settled s' = rn_settled s"
  by (induction n arbitrary: s) (auto split: if_splits)

lemma await_group_follows:
  "await_group env d n s = Some (b, s') \<Longrightarrow> follows pl j m0 s m \<Longrightarrow> follows pl j m0 s' m \<and> rn_settled s' = rn_settled s"
  by (induction n arbitrary: s) (auto split: if_splits)

lemma reap_follows: "follows pl j m0 (reap env s) m = follows pl j m0 s m" "rn_settled (reap env s) = rn_settled s"
  by (auto simp: reap_def Let_def follows_def tick_def split: option.splits)

lemma terminate_follows:
  assumes "terminate_process_group env pl j n s = Some s'" and "follows pl j m0 s m"
  shows "follows pl j m0 s' m \<and> rn_settled s' = rn_settled s"
proof -
  let ?s2 = "tick (emit pl Terminate (tick s))"
  have f: "follows pl j m0 ?s2 m" using follows_signal(1) assms(2) by simp
  consider "s' = s" | "s' = tick s" | "s' = ?s2"
    | s3 where "await_exit env (plus (monotonic env ?s2) (grace_period j)) n (tick ?s2) = Some s3"
        "s' = reap env (if en_poll env (rn_tick s3) = None then emit pl Kill (tick s3) else tick s3)"
    using assms(1) by (auto simp: terminate_process_group_def Let_def split: if_splits option.splits)
  then show ?thesis
  proof cases
    case (4 s3)
    have "follows pl j m0 s3 m \<and> rn_settled s3 = rn_settled s"
      using await_exit_follows [OF 4(1), of pl j m0 m] f by simp
    then show ?thesis using 4(2) follows_signal(2) [of pl j m0 "tick s3" m] by (auto simp: reap_follows)
  qed (use f assms(2) in auto)
qed

lemma terminate_recorded_follows:
  assumes "terminate_recorded_process_group env pl j n s = Some s'" and "follows pl j m0 s m"
  shows "follows pl j m0 s' m"
proof -
  let ?s2 = "tick (emit pl Terminate s)"
  have f: "follows pl j m0 ?s2 m" using follows_signal(1) assms(2) by simp
  consider "s' = s" | "s' = ?s2"
    | b s3 where "await_group env (plus (monotonic env ?s2) (grace_period j)) n (tick ?s2) = Some (b, s3)"
        "s' = (if b then emit pl Kill s3 else s3)"
    using assms(1) by (auto simp: terminate_recorded_process_group_def Let_def split: if_splits option.splits)
  then show ?thesis
  proof cases
    case (3 b s3)
    have "follows pl j m0 s3 m" using await_group_follows [OF 3(1), of pl j m0 m] f by simp
    then show ?thesis using 3(2) follows_signal(2) by simp
  qed (use f assms(2) in auto)
qed

lemma result_follows:
  assumes "result_of env j outcome reason phase s = (r, s')" and "plain_text outcome"
  shows "plain_outcome r" and "follows pl j m0 s m \<Longrightarrow> follows pl j m0 s' m" and "rn_settled s' = rn_settled s"
    and "get r ''outcome'' = PStr outcome"
  using assms by (auto simp: result_of_def terminal_result_def plain_outcome_def Let_def)

lemma plain_outcomes [simp]:
  "plain_text ''failed''" "plain_text ''stopped''" "plain_text ''timed_out''" "plain_text ''limit_exceeded''"
  "plain_text ''succeeded''"
  by code_simp+

text \<open>How a phase leaves the journal: settled and the runner idle, or with a terminal result to write.\<close>

definition failing :: "pydict \<Rightarrow> bool" where
  "failing t \<longleftrightarrow> plain_outcome t \<and> get t ''outcome'' \<noteq> PStr ''succeeded''"

lemma failing_may_end: "failing t \<Longrightarrow> may_end j m t"
  by (simp add: failing_def may_end_def)

definition phase_left ::
  "platform \<Rightarrow> job \<Rightarrow> monitor \<Rightarrow> monitor \<Rightarrow> string set \<Rightarrow> runner \<Rightarrow> pydict option option \<times> runner \<Rightarrow> bool" where
  "phase_left pl j m0 m ps s res \<longleftrightarrow>
     (\<exists>m'. follows pl j m0 (snd res) m' \<and> \<not> mo_ended m' \<and> rn_settled (snd res) = rn_settled s \<and>
        (fst res = Some None \<longrightarrow> idle m' \<and> settled m' = ps \<union> settled m) \<and>
        (\<forall>t. fst res = Some (Some t) \<longrightarrow> failing t))"

definition running :: "string \<Rightarrow> monitor \<Rightarrow> bool" where
  "running p m \<longleftrightarrow> rc_active (recover_history (mo_events m)) = Some p \<and>
     rc_failure (recover_history (mo_events m)) = None \<and> \<not> mo_ended m \<and> p \<in> set phase_order"

lemma phase_left_result:
  assumes "follows pl j m0 s1 m" and "\<not> mo_ended m" and "rn_settled s1 = rn_settled s"
    and "plain_text outcome" and "outcome \<noteq> ''succeeded''"
  shows "phase_left pl j m0 m' ps s (case result_of env j outcome reason phase s1 of (r, s2) \<Rightarrow> (Some (Some r), s2))"
proof -
  obtain r s2 where "result_of env j outcome reason phase s1 = (r, s2)" by fastforce
  then show ?thesis
    using result_follows [of env j outcome reason phase s1 r s2] assms by (auto simp: phase_left_def failing_def)
qed

lemma stop_phase_follows:
  assumes "follows pl j m0 s1 m" and "\<not> mo_ended m" and "rn_settled s1 = rn_settled s" and "plain_text outcome"
    and "outcome \<noteq> ''succeeded''"
  shows "phase_left pl j m0 m' ps s (stop_phase env pl j n outcome reason phase s1)"
proof (cases "terminate_process_group env pl j n s1")
  case None
  then show ?thesis using assms by (auto simp: stop_phase_def phase_left_def)
next
  case (Some s2)
  then show ?thesis
    using terminate_follows [OF Some assms(1)] assms phase_left_result [of pl j m0 s2 m s outcome m' ps env reason "Some phase"]
    by (simp add: stop_phase_def)
qed

lemma note_exit_keeps [simp]:
  "rc_active (note_exit p e r) = rc_active r" "rc_failure (note_exit p e r) = rc_failure r"
  "rc_settled (note_exit p e r) = rc_settled r"
  by (auto simp: note_exit_def split: option.splits)

lemma phase_exited_follows:
  assumes f: "follows pl j m0 s m" and run: "running p m" and pl: "faithful pl" and j: "good_job j"
  shows "phase_left pl j m0 m {p} s (phase_exited env pl j p code s)"
proof -
  let ?kind = "if code = 0 then ''phase_completed'' else ''phase_failed''"
  let ?s1 = "heartbeat env pl j ''running'' (s\<lparr>rn_exit_codes := dput p code (rn_exit_codes s)\<rparr>)"
  have f1: "follows pl j m0 ?s1 m" using f follows_heartbeat by simp
  have "?kind \<in> set event_kinds" by (simp add: event_kinds_def)
  moreover have "good_extra [(''exit_code'', PInt code)]" by (simp add: good_extra_def)
  moreover have "in_turn j (mo_events m) e" if "get e ''kind'' = PStr ?kind" "get e ''phase'' = opt_str (Some p)"
      "get e ''exit_code'' = get [(''exit_code'', PInt code)] ''exit_code''" for e
    using that run by (auto simp: in_turn_def opt_str_def kind_is_def running_def Let_def split: if_splits)
  ultimately obtain e where e: "follows pl j m0 (event env pl j ?kind (Some p) [(''exit_code'', PInt code)] ?s1) (observe m (Append_event e))"
      "get e ''kind'' = PStr ?kind" "get e ''phase'' = PStr p"
    using follows_event [OF f1 pl j, of ?kind "Some p" "[(''exit_code'', PInt code)]" env] run
    by (auto simp: running_def opt_str_def)
  let ?s2 = "(event env pl j ?kind (Some p) [(''exit_code'', PInt code)] ?s1)\<lparr>rn_child := None\<rparr>"
  have f2: "follows pl j m0 ?s2 (observe m (Append_event e))" using e(1) by simp
  show ?thesis
  proof (cases "code = 0")
    case True
    have "idle (observe m (Append_event e)) \<and> settled (observe m (Append_event e)) = {p} \<union> settled m"
      using e(2, 3) run True by (auto simp: idle_def settled_def recover_snoc recover_event_def running_def)
    then show ?thesis
      using f2 run True by (auto simp: phase_exited_def phase_left_def running_def Let_def)
  next
    case False
    then show ?thesis
      using phase_left_result [OF f2, of s "''failed''"] run by (simp add: phase_exited_def Let_def running_def)
  qed
qed

lemma limit_reason_snd: "limit_reason env r s = (x, s') \<Longrightarrow> s' = tick s"
  by (auto simp: limit_reason_def Let_def)

lemma phase_left_settled:
  "rn_settled s1 = rn_settled s \<Longrightarrow> phase_left pl j m0 m ps s1 res = phase_left pl j m0 m ps s res"
  by (simp add: phase_left_def)

lemma poll_phase_follows:
  assumes "follows pl j m0 s m" and "running p m" and "faithful pl" and "good_job j"
  shows "phase_left pl j m0 m {p} s (poll_phase env pl j p started timeout next_heartbeat n s)"
  using assms
proof (induction n arbitrary: next_heartbeat s)
  case 0
  then show ?case by (auto simp: phase_left_def running_def)
next
  case (Suc n)
  let ?s3 = "tick (tick (tick s))"
  have ended: "\<not> mo_ended m" using Suc.prems by (simp add: running_def)
  have stop: "phase_left pl j m0 m {p} s (stop_phase env pl j n outcome reason p s1)"
    if "plain_text outcome" "outcome \<noteq> ''succeeded''" "s1 = ?s3 \<or> s1 = tick ?s3" for outcome reason s1
    using that Suc.prems(1) ended by (intro stop_phase_follows [where m = m]) auto
  have exited: "phase_left pl j m0 m {p} s (phase_exited env pl j p code (tick s))" for code
    using phase_exited_follows [of pl j m0 "tick s" m p env code] Suc.prems by (simp add: phase_left_def)
  have again: "phase_left pl j m0 m {p} s (poll_phase env pl j p started timeout h n s1)"
    if "follows pl j m0 s1 m" "rn_settled s1 = rn_settled s" for h s1
    using Suc.IH [OF that(1) Suc.prems(2-4), of h] that(2) by (simp add: phase_left_def)
  obtain l s4 where lim: "limit_reason env (jb_request j) ?s3 = (l, s4)" by fastforce
  have s4: "s4 = tick ?s3" using limit_reason_snd [OF lim] .
  show ?case
    using exited stop again [of s4] again [of "heartbeat env pl j ''running'' s4"] Suc.prems(1)
      follows_heartbeat [of pl j m0 s4 m env "''running''"]
    by (auto simp: lim s4 Let_def split: option.splits)
qed

lemma settled_emit [simp]: "rn_settled (s\<lparr>rn_child := c\<rparr>) = rn_settled s" "rn_settled (s\<lparr>rn_current := p\<rparr>) = rn_settled s"
  "rn_settled (s\<lparr>rn_completed := ps\<rparr>) = rn_settled s"
  by simp_all

lemma start_phase_follows:
  assumes f: "follows pl j m0 s m" and idle: "idle m" and ended: "\<not> mo_ended m" and fresh: "p \<notin> settled m"
    and p: "p \<in> set phase_order" and pl: "faithful pl" and j: "good_job j" and on: "enabled j p"
  shows "phase_left pl j m0 m {p} s (start_phase env pl j config n p s)"
proof -
  let ?s0 = "s\<lparr>rn_current := Some p\<rparr>"
  have turn: "in_turn j (mo_events m) e" if "get e ''kind'' = PStr ''phase_started''" "get e ''phase'' = opt_str (Some p)" for e
    using that idle fresh on by (simp add: in_turn_def opt_str_def kind_is_def idle_def settled_def Let_def)
  have "''phase_started'' \<in> set event_kinds" by (simp add: event_kinds_def)
  then obtain e where e: "follows pl j m0 (event env pl j ''phase_started'' (Some p) [] ?s0) (observe m (Append_event e))"
      "get e ''kind'' = PStr ''phase_started''" "get e ''phase'' = PStr p"
    using follows_event [OF _ pl j, of m0 ?s0 m "''phase_started''" "Some p" "[]" env] follows_current [OF f p] p ended turn
    by (auto simp: good_extra_def opt_str_def)
  let ?s1 = "event env pl j ''phase_started'' (Some p) [] ?s0" and ?m1 = "observe m (Append_event e)"
  have m1: "running p ?m1" "settled ?m1 = settled m" "mo_pending ?m1" "get (last (mo_events ?m1)) ''phase'' = PStr p"
    using e idle ended p by (auto simp: running_def settled_def idle_def recover_snoc recover_event_def kind_is_def)
  have widen: "phase_left pl j m0 m {p} s res" if "phase_left pl j m0 m' {p} s1 res" "settled m' = settled m"
      "rn_settled s1 = rn_settled s" for m' s1 res
    using that by (auto simp: phase_left_def)
  show ?thesis
  proof (cases "en_spawn env (rn_tick ?s1)")
    case None
    have turn: "in_turn j (mo_events ?m1) e" if "get e ''kind'' = PStr ''phase_start_failed''" "get e ''phase'' = opt_str (Some p)" for e
      using that m1(1) by (simp add: in_turn_def opt_str_def kind_is_def running_def Let_def)
    have "''phase_start_failed'' \<in> set event_kinds" by (simp add: event_kinds_def)
    then obtain e' where "follows pl j m0 (event env pl j ''phase_start_failed'' (Some p) [] (tick ?s1)) (observe ?m1 (Append_event e'))"
      using follows_event [OF _ pl j, of m0 "tick ?s1" ?m1 "''phase_start_failed''" "Some p" "[]" env] e(1) p ended turn
      by (auto simp: good_extra_def)
    then show ?thesis
      using None phase_left_result [of pl j m0 _ "observe ?m1 (Append_event e')" s "''failed''" m "{p}"] ended
      by (simp add: start_phase_def Let_def)
  next
    case (Some pid)
    let ?s2 = "(emit pl (Spawn p) (tick ?s1))\<lparr>rn_child := Some pid\<rparr>"
    have "allowed pl j ?m1 (Spawn p)" using m1 ended by simp
    then have f2: "follows pl j m0 (tick ?s2) (observe ?m1 (Spawn p))"
      using follows_emit [of pl j m0 "tick ?s1" ?m1 "Spawn p"] e(1) by simp
    have run2: "running p (observe ?m1 (Spawn p))" and set2: "settled (observe ?m1 (Spawn p)) = settled m"
      using m1 by (simp_all add: running_def settled_def)
    have "phase_left pl j m0 m {p} s (poll_phase env pl j p (monotonic env ?s2)
        (number_as_float (get config ''timeout_seconds'')) (Fin 0) n (tick ?s2))"
      by (rule widen [OF poll_phase_follows [OF f2 run2 pl j] set2]) simp
    then show ?thesis using Some by (simp add: start_phase_def Let_def)
  qed
qed

lemma run_phase_follows:
  assumes "follows pl j m0 s m" and "idle m" and "\<not> mo_ended m" and "p \<notin> settled m"
    and "p \<in> set phase_order" and "faithful pl" and "good_job j" and "enabled j p"
  shows "phase_left pl j m0 m {p} s (run_phase env pl j config n p s)"
proof -
  obtain l s1 where lim: "limit_reason env (jb_request j) s = (l, s1)" by fastforce
  have s1: "s1 = tick s" using limit_reason_snd [OF lim] .
  show ?thesis
  proof (cases l)
    case None
    have "phase_left pl j m0 m {p} s1 (start_phase env pl j config n p s1)"
      using assms s1 by (intro start_phase_follows) auto
    then show ?thesis using None lim s1 by (simp add: run_phase_def phase_left_def)
  next
    case (Some reason)
    then show ?thesis
      using lim s1 assms phase_left_result [of pl j m0 s1 m s "''limit_exceeded''"] by (simp add: run_phase_def)
  qed
qed

lemma disabled_follows:
  assumes f: "follows pl j m0 s m" and idle: "idle m" and ended: "\<not> mo_ended m"
    and p: "p \<in> set phase_order" and pl: "faithful pl" and j: "good_job j" and off: "\<not> enabled j p"
  shows "\<exists>m'. follows pl j m0 (event env pl j ''phase_disabled'' (Some p) [] s) m' \<and> idle m' \<and> \<not> mo_ended m' \<and>
    settled m' = {p} \<union> settled m"
proof -
  have turn: "in_turn j (mo_events m) e" if "get e ''kind'' = PStr ''phase_disabled''" "get e ''phase'' = opt_str (Some p)" for e
    using that off by (simp add: in_turn_def opt_str_def kind_is_def Let_def)
  have "''phase_disabled'' \<in> set event_kinds" by (simp add: event_kinds_def)
  then obtain e where "follows pl j m0 (event env pl j ''phase_disabled'' (Some p) [] s) (observe m (Append_event e))"
      "get e ''kind'' = PStr ''phase_disabled''" "get e ''phase'' = PStr p"
    using follows_event [OF f pl j, of "''phase_disabled''" "Some p" "[]" env] p ended turn
    by (auto simp: good_extra_def opt_str_def)
  then show ?thesis
    using idle ended by (intro exI [of _ "observe m (Append_event e)"])
      (auto simp: idle_def settled_def recover_snoc recover_event_def)
qed

lemma run_phases_follows:
  assumes "follows pl j m0 s m" and "idle m" and "\<not> mo_ended m" and "faithful pl" and "good_job j"
    and "distinct ps" and "set ps \<subseteq> set phase_order" and "set (rn_settled s) \<subseteq> settled m"
    and "settled m \<inter> set ps \<subseteq> set (rn_settled s)"
  shows "phase_left pl j m0 m (set ps) s (run_phases env pl j n ps s)"
  using assms
proof (induction ps arbitrary: s m)
  case Nil
  then show ?case by (auto simp: phase_left_def)
next
  case (Cons p ps)
  have rest: "phase_left pl j m0 m (set (p # ps)) s (run_phases env pl j n ps s')"
    if "follows pl j m0 s' m'" "idle m'" "\<not> mo_ended m'" "settled m' = {p} \<union> settled m" "rn_settled s' = rn_settled s" for s' m'
  proof -
    have "phase_left pl j m0 m' (set ps) s' (run_phases env pl j n ps s')"
      using that Cons.prems by (intro Cons.IH) auto
    then show ?thesis using that by (fastforce simp: phase_left_def)
  qed
  show ?case
  proof (cases "p \<in> set (rn_settled s)")
    case True
    then have "p \<in> settled m" using Cons.prems(8) by auto
    then show ?thesis using rest [OF Cons.prems(1-3)] True by (auto simp: insert_absorb)
  next
    case False
    let ?config = "section_of (section_of (jb_request j) ''phases'') p"
    have p: "p \<in> set phase_order" "p \<notin> settled m" using Cons.prems False by auto
    show ?thesis
    proof (cases "phase_enabled ?config")
      case off: False
      obtain m' where "follows pl j m0 (event env pl j ''phase_disabled'' (Some p) [] s) m'" "idle m'" "\<not> mo_ended m'"
          "settled m' = {p} \<union> settled m"
        using disabled_follows [OF Cons.prems(1-3) p(1) Cons.prems(4, 5)] off by (auto simp: enabled_def)
      then show ?thesis using rest [of "event env pl j ''phase_disabled'' (Some p) [] s" m'] False off by (simp add: Let_def)
    next
      case True
      obtain r s1 where r: "run_phase env pl j ?config n p s = (r, s1)" by fastforce
      have left: "phase_left pl j m0 m {p} s (r, s1)"
        using run_phase_follows [OF Cons.prems(1-3) p(2, 1) Cons.prems(4, 5), of env ?config n] r True by (simp add: enabled_def)
      show ?thesis
      proof (cases "r = Some None")
        case over: True
        then obtain m' where "follows pl j m0 s1 m'" "idle m'" "\<not> mo_ended m'" "settled m' = {p} \<union> settled m" "rn_settled s1 = rn_settled s"
          using left by (auto simp: phase_left_def)
        then show ?thesis
          using rest [of "s1\<lparr>rn_completed := rn_completed s1 @ [p]\<rparr>" m'] False True r over by (simp add: Let_def)
      next
        case stuck: False
        then have "run_phases env pl j n (p # ps) s = (r, s1)"
          using False True r by (auto simp: Let_def split: option.splits)
        then show ?thesis using left stuck by (auto simp: phase_left_def)
      qed
    qed
  qed
qed

section \<open>Ending the run\<close>

lemma foldl_dput_outcome:
  "\<forall>(k, v) \<in> set kvs. k \<noteq> ''outcome'' \<Longrightarrow> get (foldl (\<lambda>r (k, v). dput k v r) t kvs) ''outcome'' = get t ''outcome''"
  by (induction kvs arbitrary: t) auto

lemma receipt_keys:
  "artifact_receipt sha dec fl r v tree = Inr rec \<Longrightarrow> \<forall>(k, v) \<in> set rec. k \<noteq> ''outcome''"
  by (auto simp: artifact_receipt_def split: option.splits if_splits)

lemma add_receipt_outcome:
  assumes "add_receipt env pl req run_id t s = (t', s')" and "may_end j m t"
  shows "may_end j m t'" and "s' = s \<or> s' = tick s"
proof -
  have "get t' ''outcome'' = get t ''outcome''"
    using assms(1) receipt_keys foldl_dput_outcome
    by (fastforce simp: add_receipt_def Let_def split: if_splits sum.splits)
  moreover have "t' = t" if "get t ''outcome'' = PStr ''succeeded''"
    using assms(1) that by (simp add: add_receipt_def)
  ultimately show "may_end j m t'" using assms(2) by (auto simp: may_end_def plain_outcome_def)
  show "s' = s \<or> s' = tick s"
    using assms(1) by (auto simp: add_receipt_def Let_def split: if_splits sum.splits)
qed

lemma finish_follows:
  assumes f: "follows pl j m0 s m" and ended: "\<not> mo_ended m" and t: "may_end j m t"
    and pl: "faithful pl" and j: "good_job j"
  shows "\<exists>m'. follows pl j m0 (snd (finish env pl i req (jb_run_id j) t s)) m'"
proof -
  obtain t' s1 where a: "add_receipt env pl req (jb_run_id j) t s = (t', s1)" by fastforce
  note ar = add_receipt_outcome [OF a t]
  have f1: "follows pl j m0 s1 m" using ar(2) f by auto
  then have none: "read_terminal s1 = Inr None" using ended by (auto simp: follows_def read_terminal_def)
  let ?s2 = "emit pl (Write_terminal t') s1" and ?m2 = "observe m (Write_terminal t')"
  have f2: "follows pl j m0 ?s2 ?m2" using follows_emit [OF f1, of "Write_terminal t'"] ended ar(1) by simp
  obtain out where out: "get t' ''outcome'' = PStr out" "plain_text out"
    using ar(1) by (auto simp: may_end_def plain_outcome_def split: option.splits)
  have dout: "dget t' ''outcome'' = Some (PStr out)" using out(1) get_not_PNone [of t' "''outcome''"] by simp
  have "''terminal'' \<in> set event_kinds" by (simp add: event_kinds_def)
  moreover have "in_turn j (mo_events ?m2) e" if "get e ''kind'' = PStr ''terminal''" for e
    using that by (simp add: in_turn_def kind_is_def Let_def split: option.splits)
  moreover have "good_extra [(''outcome'', PStr out)]" using out by (simp add: good_extra_def)
  moreover have "\<forall>p. None = Some p \<longrightarrow> p \<in> set phase_order" by simp
  ultimately have ev: "\<exists>e. follows pl j m0 (event env pl j ''terminal'' ph [(''outcome'', PStr out)] ?s2) (observe ?m2 (Append_event e))"
    if "\<forall>p. ph = Some p \<longrightarrow> p \<in> set phase_order" for ph
    using follows_event [OF f2 pl j, of "''terminal''" ph "[(''outcome'', PStr out)]" env] that by blast
  have s2: "write_terminal_once pl t' s1 = (Inr t', ?s2)" using none by (simp add: write_terminal_once_def)
  have "\<forall>p. rn_current ?s2 = Some p \<longrightarrow> p \<in> set phase_order" using f2 by (simp add: follows_def)
  then obtain e where "follows pl j m0 (event env pl j ''terminal'' (rn_current ?s2) [(''outcome'', PStr out)] ?s2)
      (observe ?m2 (Append_event e))"
    using ev by blast
  then have "follows pl j m0 (snd (finish env pl i req (jb_run_id j) t s)) (observe ?m2 (Append_event e))"
    using follows_status by (simp add: finish_def a s2 dout event_def)
  then show ?thesis by blast
qed

end
