(* ===== verification/RunnerLives.thy ===== *)
theory RunnerLives
  imports RunnerProtocol
begin

text \<open>
  The lives of a run: the runner may die after any of its effects or in the middle of an append to its journal, and
  is started again from the disk it left, any number of times, with any clocks, children and signals.
\<close>

section \<open>The whole run follows the automaton\<close>

lemma end_run_follows:
  assumes "follows pl j m0 s m" and "\<not> mo_ended m" and "may_end j m t" and "faithful pl" and "good_job j"
  shows "\<exists>m'. follows pl j m0 (snd (end_run env pl j (t, s))) m'"
  using finish_follows [OF assms, of env "jb_identity j" "jb_request j"]
  by (auto simp: end_run_def split: prod.splits)

lemma end_result_follows:
  assumes "follows pl j m0 s m" and "\<not> mo_ended m" and "plain_text outcome" and "outcome \<noteq> ''succeeded''"
    and "faithful pl" and "good_job j"
  shows "\<exists>m'. follows pl j m0 (snd (end_run env pl j (result_of env j outcome reason phase s))) m'"
proof -
  obtain t s1 where r: "result_of env j outcome reason phase s = (t, s1)" by fastforce
  have "failing t" using result_follows(1, 4) [OF r assms(3)] assms(4) by (simp add: failing_def)
  then show ?thesis
    using end_run_follows [of pl j m0 s1 m t env] result_follows [OF r assms(3)] assms r failing_may_end by simp
qed

lemma receipt_kept:
  assumes "as_str v = Some p" and "artifact_receipt sha dec fl r v tree = Inr rec"
  shows "dget (foldl (\<lambda>t (k, x). dput k x t) t rec) ''artifact_manifest_sha256'' \<noteq> None"
  using assms by (auto simp: artifact_receipt_def result_simps split: option.splits if_splits sum.splits)

lemma complete_run_follows:
  assumes f: "follows pl j m0 s m" and "\<not> mo_ended m" and "faithful pl" and "good_job j"
    and complete: "idle m" "set phase_order \<subseteq> settled m"
  shows "\<exists>m'. follows pl j m0 (snd (complete_run env pl j s)) m'"
proof -
  obtain t s1 where r: "result_of env j ''succeeded'' ''all_enabled_phases_completed'' None s = (t, s1)" by fastforce
  note res = result_follows [OF r]
  let ?receipt = "artifact_receipt (pl_sha pl) (pl_decode pl) (pl_fl pl) (jb_run_id j)
      (get (jb_request j) ''artifact_manifest_path'') (en_tree env (rn_tick s1))"
  show ?thesis
  proof (cases ?receipt)
    case (Inl e)
    then show ?thesis
      using end_result_follows [of pl j m0 "tick s1" m "''failed''" env] res(2) [OF _ f] assms(2-4)
      by (simp add: complete_run_def r)
  next
    case (Inr rec)
    have "get (foldl (\<lambda>r (k, v). dput k v r) t rec) ''outcome'' = get t ''outcome''"
      using foldl_dput_outcome [OF receipt_keys [OF Inr]] .
    then have "may_end j m (foldl (\<lambda>r (k, v). dput k v r) t rec)"
      using res(1) complete receipt_kept [OF _ Inr, of _ t] by (auto simp: may_end_def plain_outcome_def)
    then show ?thesis
      using end_run_follows [of pl j m0 "tick s1" m] res(2) [OF _ f] assms(2-4) Inr by (simp add: complete_run_def r)
  qed
qed

lemma run_ready_follows:
  assumes f: "follows pl j m0 s m" and idle: "idle m" and ended: "\<not> mo_ended m" and pl: "faithful pl" and j: "good_job j"
    and settled: "set (rn_settled s) = settled m"
  shows "\<exists>m'. follows pl j m0 (snd (run_ready env pl j n s)) m'"
proof -
  let ?k = "if rn_sequence s \<noteq> 0 then ''runner_resumed'' else ''ready''"
  have "?k \<in> {''ready'', ''runner_resumed'', ''launch_authorized''}" by simp
  then obtain m1 where m1: "follows pl j m0 (event env pl j ?k None [] s) m1" "steady m m1"
    using launched_event [OF f pl j ended] by blast
  let ?s1 = "heartbeat env pl j ''ready'' (event env pl j ?k None [] s)"
  obtain w s2 where w: "wait_for_launch_authorization env pl j n ?s1 = (w, s2)" by fastforce
  obtain m2 where m2: "follows pl j m0 s2 m2" "steady m1 m2" "rn_settled s2 = rn_settled s"
    using wait_follows [OF w follows_heartbeat [OF m1(1)] pl j] m1(2) ended by (auto simp: steady_def)
  have e2: "\<not> mo_ended m2" "idle m2" "settled m2 = settled m"
    using m1(2) m2(2) ended idle by (simp_all add: steady_def idle_def settled_def)
  obtain r s3 where p: "run_phases env pl j n phase_order s2 = (r, s3)" by fastforce
  have "distinct phase_order" by (simp add: phase_order_def)
  then have left: "phase_left pl j m0 m2 (set phase_order) s2 (r, s3)"
    using run_phases_follows [OF m2(1) e2(2, 1) pl j, of phase_order env n] p e2(3) m2(3) settled by auto
  then obtain m3 where m3: "follows pl j m0 s3 m3" "\<not> mo_ended m3"
      "r = Some None \<longrightarrow> idle m3 \<and> set phase_order \<subseteq> settled m3"
    by (auto simp: phase_left_def)
  have failed: "\<exists>m'. follows pl j m0 (snd (end_run env pl j (result_of env j ''failed'' failure None s2))) m'" for failure
    using end_result_follows [OF m2(1) e2(1) _ _ pl j] by simp
  have success: "\<exists>m'. follows pl j m0 (snd (complete_run env pl j s3)) m'" if "r = Some None"
    using complete_run_follows [OF m3(1, 2) pl j] m3(3) that by simp
  have stopped: "\<exists>m'. follows pl j m0 (snd (end_run env pl j (t, s3))) m'" if "r = Some (Some t)" for t
    using end_run_follows [OF m3(1, 2) failing_may_end pl j] left that by (auto simp: phase_left_def)
  show ?thesis
    using failed success stopped m2(1) m3(1)
    by (auto simp: run_ready_def Let_def w p split: option.splits)
qed

text \<open>The state a runner is constructed in.\<close>

definition started_from :: "platform \<Rightarrow> job \<Rightarrow> monitor \<Rightarrow> runner \<Rightarrow> bool" where
  "started_from pl j m0 s \<longleftrightarrow>
     follows pl j m0 s m0 \<and> rn_current s = rc_active (recover_history (mo_events m0)) \<and>
     rn_failure s = rc_failure (recover_history (mo_events m0)) \<and>
     rn_settled s = rc_settled (recover_history (mo_events m0)) \<and>
     (\<forall>p r. rn_failure s = Some (p, r) \<longrightarrow> p \<in> set phase_order)"

lemma run_follows:
  assumes s: "started_from pl j m0 s" and pl: "faithful pl" and j: "good_job j"
  shows "\<exists>m. follows pl j m0 (snd (run env pl j n s)) m"
proof (cases "dk_terminal (rn_disk s)")
  case (Some f)
  then show ?thesis
    using s follows_status by (fastforce simp: run_def started_from_def read_terminal_def split: json_file.splits sum.splits option.splits)
next
  case None
  have f: "follows pl j m0 s m0" and ended: "\<not> mo_ended m0" using s None by (auto simp: started_from_def follows_def)
  have unwritten: "read_terminal s = Inr None" using None by (simp add: read_terminal_def)
  show ?thesis
  proof (cases "rn_failure s")
    case (Some pr)
    then obtain p r where pr: "pr = (p, r)" by fastforce
    have "follows pl j m0 (s\<lparr>rn_current := Some p\<rparr>) m0"
      using follows_current [OF f] s Some pr by (simp add: started_from_def)
    then show ?thesis using end_result_follows [OF _ ended _ _ pl j] Some pr unwritten by (simp add: run_def)
  next
    case nofail: None
    show ?thesis
    proof (cases "rn_current s")
      case (Some p)
      then show ?thesis
        using nofail unwritten f end_result_follows [OF terminate_recorded_follows [OF _ f] ended _ _ pl j]
        by (auto simp: run_def split: option.splits)
    next
      case idle: None
      have "follows pl j m0 (tick s) m0" using f by simp
      moreover have "idle m0" using s idle nofail by (simp add: started_from_def idle_def)
      moreover have "set (rn_settled (tick s)) = settled m0" using s by (simp add: started_from_def settled_def)
      ultimately show ?thesis
        using nofail idle unwritten f end_result_follows [OF _ ended _ _ pl j] run_ready_follows [OF _ _ ended pl j]
        by (auto simp: run_def split: option.splits)
    qed
  qed
qed

section \<open>Successive lives\<close>

definition unstarted :: disk where
  "unstarted = \<lparr>dk_journal = NoJournal, dk_status = NoJson, dk_terminal = None\<rparr>"

definition fresh :: monitor where
  "fresh = \<lparr>mo_events = [], mo_pending = False, mo_ended = False\<rparr>"

text \<open>
  \<open>lives pl j d es\<close>: any number of runner processes for the job have made the effects \<open>es\<close>, and the last has
  left the disk \<open>d\<close>: it returned, or died between two effects, or died while \<open>os.write\<close> of an event's line was
  cut short.
\<close>

inductive lives :: "platform \<Rightarrow> job \<Rightarrow> disk \<Rightarrow> effect list \<Rightarrow> bool" for pl j where
  first: "lives pl j unstarted []"
| died: "lives pl j d es \<Longrightarrow> new_runner env pl j d = Inr s \<Longrightarrow> prefix es' (rn_trace (snd (run env pl j n s))) \<Longrightarrow>
    lives pl j (foldl (apply_effect (pl_rep pl)) (rn_disk s) es') (es @ es')"
| torn: "lives pl j d es \<Longrightarrow> new_runner env pl j d = Inr s \<Longrightarrow>
    prefix (es' @ [Append_event e]) (rn_trace (snd (run env pl j n s))) \<Longrightarrow>
    strict_prefix q (encode_record (pl_rep pl) e) \<Longrightarrow>
    d' = foldl (apply_effect (pl_rep pl)) (rn_disk s) es' \<Longrightarrow>
    lives pl j (d'\<lparr>dk_journal := append_bytes (dk_journal d') q\<rparr>) (es @ es')"

text \<open>The disk that a monitor's state describes, with the part \<open>q\<close> of a next event's line.\<close>

definition on_disk :: "platform \<Rightarrow> job \<Rightarrow> monitor \<Rightarrow> string \<Rightarrow> disk \<Rightarrow> bool" where
  "on_disk pl j m q d \<longleftrightarrow>
     good_history (pl_rep pl) (pl_fl pl) (jb_run_id j) 1 (mo_events m) \<and>
     (\<forall>e \<in> set (mo_events m). finite_number (get e ''monotonic_seconds'')) \<and>
     (dk_journal d = JournalBytes (journal_bytes (pl_rep pl) (mo_events m) @ q) \<or>
      mo_events m = [] \<and> q = [] \<and> dk_journal d = NoJournal) \<and>
     (q = [] \<or> (\<exists>e. good_event (pl_rep pl) (pl_fl pl) (jb_run_id j) (int (length (mo_events m)) + 1) e \<and>
        strict_prefix q (encode_record (pl_rep pl) e))) \<and>
     (dk_status d = NoJson \<or>
      (\<exists>st. dk_status d = JsonValue (PDict st) \<and> finite_number (get st ''heartbeat_monotonic_seconds''))) \<and>
     (if mo_ended m then (\<exists>t. dk_terminal d = Some (JsonValue (PDict t))) else dk_terminal d = None)"

lemma on_disk_effect:
  assumes "on_disk pl j m [] d" and "allowed pl j m e"
  shows "on_disk pl j (observe m e) [] (apply_effect (pl_rep pl) d e)"
  using assms
  by (cases e) (auto simp: on_disk_def good_history_append journal_bytes_def append_bytes_def add.commute)

lemma on_disk_effects:
  assumes "on_disk pl j m [] d" and "conforms pl j m es"
  shows "on_disk pl j (foldl observe m es) [] (foldl (apply_effect (pl_rep pl)) d es)"
  using assms by (induction es arbitrary: m d) (auto intro: on_disk_effect)

lemma on_disk_torn:
  assumes "on_disk pl j m [] d" and "allowed pl j m (Append_event e)" and "strict_prefix q (encode_record (pl_rep pl) e)"
  shows "on_disk pl j m q (d\<lparr>dk_journal := append_bytes (dk_journal d) q\<rparr>)"
  using assms by (auto simp: on_disk_def append_bytes_def journal_bytes_def)

lemma conforms_prefix: "conforms pl j m es \<Longrightarrow> prefix es' es \<Longrightarrow> conforms pl j m es'"
  by (auto simp: prefix_def conforms_append)

lemma conforms_pending: "conforms pl j (m\<lparr>mo_pending := False\<rparr>) es \<Longrightarrow> conforms pl j m es"
proof (induction es arbitrary: m)
  case (Cons e es)
  have "observe (m\<lparr>mo_pending := False\<rparr>) e \<in> {observe m e, (observe m e)\<lparr>mo_pending := False\<rparr>}" by (cases e) auto
  moreover have "allowed pl j (m\<lparr>mo_pending := False\<rparr>) e \<Longrightarrow> allowed pl j m e"
    by (cases e) (auto simp: may_end_def idle_def settled_def)
  ultimately show ?case using Cons.prems Cons.IH [of "observe m e"] by auto
qed simp

section \<open>Starting again\<close>

lemma finite_number_iff: "finite_number v \<longleftrightarrow> (\<exists>y. v = PFloat (Fin y))"
proof (cases v)
  case (PFloat f)
  then show ?thesis by (cases f) (auto simp: finite_number_def)
qed (auto simp: finite_number_def)

lemma max_elapsed_finite: "finite_number v \<Longrightarrow> \<exists>y. max_elapsed (Fin x) v = Inr (Fin y)"
  by (auto simp: finite_number_iff max_elapsed_def to_float_def)

lemma good_event_wf: "good_event rep fl r n e \<Longrightarrow> wf_dict e"
  by (simp add: good_event_def)

lemma good_history_wf: "good_history rep fl r n es \<Longrightarrow> e \<in> set es \<Longrightarrow> wf_dict e"
  using good_history_event good_event_wf by blast

lemma good_event_phase: "good_event rep fl r n e \<Longrightarrow> as_str (get e ''phase'') = Some p \<Longrightarrow> p \<in> set phase_order"
  by (auto simp: good_event_def check_event_def py_in_strings result_simps split: if_splits)

lemma good_event_sequence: "good_event rep fl r n e \<Longrightarrow> as_int (get e ''sequence'') = Some n"
  by (auto simp: good_event_def check_event_def result_simps split: if_splits)

text \<open>The phases a history names are the runner's.\<close>

definition names_phases :: "recovered \<Rightarrow> bool" where
  "names_phases r \<longleftrightarrow> (\<forall>p. rc_active r = Some p \<longrightarrow> p \<in> set phase_order) \<and>
     (\<forall>p x. rc_failure r = Some (p, x) \<longrightarrow> p \<in> set phase_order)"

lemma recover_names:
  assumes "\<And>e p. e \<in> set es \<Longrightarrow> as_str (get e ''phase'') = Some p \<Longrightarrow> p \<in> set phase_order"
  shows "names_phases (recover_history es)"
proof -
  have step: "names_phases (recover_event r e)" if "names_phases r" "e \<in> set es" for r e
    using that assms [of e] by (auto simp: recover_event_def names_phases_def Let_def split: option.splits)
  have "names_phases (foldl recover_event r es')" if "set es' \<subseteq> set es" "names_phases r" for r es'
    using that step by (induction es' arbitrary: r) auto
  moreover have "names_phases no_history" by (simp add: names_phases_def no_history_def)
  ultimately show ?thesis by (simp add: recover_history_def)
qed


lemma start_reads:
  assumes d: "on_disk pl j m q d" and pl: "faithful pl"
  obtains (read) jf where
      "read_event_history (pl_decode pl) (pl_fl pl) (jb_run_id j) (dk_journal d) = (Inr (map sort_event (mo_events m)), jf)"
      and "jf = JournalBytes (journal_bytes (pl_rep pl) (mo_events m)) \<or> mo_events m = [] \<and> jf = NoJournal"
    | (unended) e where
      "read_event_history (pl_decode pl) (pl_fl pl) (jb_run_id j) (dk_journal d) =
         (Inl (RequestError ''events.jsonl contains an incomplete record terminator''), dk_journal d)"
      and "dk_journal d = JournalBytes (journal_bytes (pl_rep pl) (mo_events m) @ json_text (pl_rep pl) (PDict e))"
proof -
  let ?J = "journal_bytes (pl_rep pl) (mo_events m)"
  have ascii: "ascii_decoder (pl_decode pl)" using pl by (simp add: faithful_def)
  have good: "good_history (pl_rep pl) (pl_fl pl) (jb_run_id j) 1 (mo_events m)" using d by (simp add: on_disk_def)
  consider "dk_journal d = NoJournal" "mo_events m = []" | "dk_journal d = JournalBytes ?J"
    | e where "dk_journal d = JournalBytes (?J @ q)" "strict_prefix q (encode_record (pl_rep pl) e)"
        "good_history (pl_rep pl) (pl_fl pl) (jb_run_id j) 1 (mo_events m @ [e])"
    using d by (auto simp: on_disk_def good_history_append add.commute)
  then show thesis
  proof cases
    case 1
    then show thesis using read [of NoJournal] by (simp add: read_event_history_def)
  next
    case 2
    have "final_fragment ?J = []" using final_fragment_append(1) [OF journal_bytes_ends, of "[]"] by simp
    then show thesis using read [of "JournalBytes ?J"] 2 read_good_history [OF good ascii] by (simp add: read_event_history_def)
  next
    case (3 e)
    have "prefix q (encode_record (pl_rep pl) e)" "q \<noteq> encode_record (pl_rep pl) e" using 3(2) by (auto simp: strict_prefix_def)
    then show thesis
      using torn_append [OF 3(3) ascii] read [of "JournalBytes ?J"] unended [of e] 3(1)
      by (cases "q = json_text (pl_rep pl) (PDict e)") auto
  qed
qed

lemma prior_finite:
  assumes d: "on_disk pl j m q d"
  shows "\<exists>x. prior_elapsed_seconds (map sort_event (mo_events m)) (dk_status d) run_id = Inr (Fin x)"
proof -
  let ?h = "map sort_event (mo_events m)"
  have wf: "wf_dict e" if "e \<in> set (mo_events m)" for e using d that good_history_wf by (auto simp: on_disk_def)
  have last_finite: "finite_number (get (last ?h) ''monotonic_seconds'')" if "mo_events m \<noteq> []"
  proof -
    have "last (mo_events m) \<in> set (mo_events m)" using that by simp
    then have "finite_number (get (last (mo_events m)) ''monotonic_seconds'')" "wf_dict (last (mo_events m))"
      using d wf by (auto simp: on_disk_def)
    then show ?thesis using that by (auto simp: last_map get_sort_event finite_number_iff)
  qed
  then obtain x where x: "(if ?h = [] then Inr (Fin 0) else max_elapsed (Fin 0) (get (last ?h) ''monotonic_seconds'')) = Inr (Fin x)"
    using max_elapsed_finite by (cases "mo_events m = []") auto
  consider "dk_status d = NoJson"
    | st where "dk_status d = JsonValue (PDict st)" "finite_number (get st ''heartbeat_monotonic_seconds'')"
    using d by (auto simp: on_disk_def)
  then show ?thesis
  proof cases
    case 1
    then show ?thesis unfolding prior_elapsed_seconds_def x by simp
  next
    case 2
    then show ?thesis
      using max_elapsed_finite [OF 2(2), of x] unfolding prior_elapsed_seconds_def x by simp
  qed
qed

lemma last_sequence_good:
  assumes "good_history rep fl r 1 es"
  shows "last_sequence (map sort_event es) = int (length es)"
proof (cases es rule: rev_cases)
  case (snoc es' e)
  then have "good_event rep fl r (1 + int (length es')) e" using assms by (simp add: good_history_append)
  then show ?thesis
    using snoc good_event_sequence [of rep fl r _ e] good_event_wf [of rep fl r _ e] by (simp add: last_sequence_def get_sort_event)
qed (simp add: last_sequence_def)

lemma new_runner_starts:
  assumes d: "on_disk pl j m q d" and pl: "faithful pl"
  obtains (starts) s where "new_runner env pl j d = Inr s" and "started_from pl j (m\<lparr>mo_pending := False\<rparr>) s"
      and "on_disk pl j (m\<lparr>mo_pending := False\<rparr>) [] (rn_disk s)" and "rn_trace s = []"
      and "dk_terminal (rn_disk s) = dk_terminal d"
    | (refused) e where
      "new_runner env pl j d = Inl (RequestError ''events.jsonl contains an incomplete record terminator'')"
      and "dk_journal d = JournalBytes (journal_bytes (pl_rep pl) (mo_events m) @ json_text (pl_rep pl) (PDict e))"
  using d pl
proof (cases rule: start_reads)
  case (read jf)
  let ?h = "map sort_event (mo_events m)"
  obtain x where x: "prior_elapsed_seconds ?h (dk_status d) (jb_run_id j) = Inr (Fin x)" using prior_finite [OF d] by blast
  have good: "good_history (pl_rep pl) (pl_fl pl) (jb_run_id j) 1 (mo_events m)" using d by (simp add: on_disk_def)
  have rec: "recover_history ?h = recover_history (mo_events m)" using good_history_wf [OF good] by (rule recover_sorted)
  have "p \<in> set phase_order" if "e \<in> set (mo_events m)" "as_str (get e ''phase'') = Some p" for e p
    using good_history_event [OF good that(1)] good_event_phase that(2) by blast
  then have names: "names_phases (recover_history (mo_events m))" by (rule recover_names)
  obtain s where s: "new_runner env pl j d = Inr s" "rn_trace s = []" "rn_sequence s = int (length (mo_events m))"
      "rn_prior s = Fin x" "rn_current s = rc_active (recover_history (mo_events m))"
      "rn_failure s = rc_failure (recover_history (mo_events m))" "rn_settled s = rc_settled (recover_history (mo_events m))"
      "rn_disk s = d\<lparr>dk_journal := jf\<rparr>"
    using last_sequence_good [OF good] rec by (simp add: new_runner_def read(1) x Let_def)
  have "mo_ended m = (dk_terminal d \<noteq> None)" using d by (auto simp: on_disk_def split: if_splits)
  then have "started_from pl j (m\<lparr>mo_pending := False\<rparr>) s"
    using s names by (auto simp: started_from_def follows_def names_phases_def)
  moreover have "on_disk pl j (m\<lparr>mo_pending := False\<rparr>) [] (rn_disk s)"
    using d read(2) s(8) by (auto simp: on_disk_def)
  ultimately show thesis using s starts by simp
next
  case (unended e)
  then show thesis using refused by (simp add: new_runner_def)
qed


text \<open>A life that starts from a disk the monitor describes conforms from there.\<close>

lemma life_conforms:
  assumes d: "on_disk pl j m q d" and pl: "faithful pl" and j: "good_job j" and start: "new_runner env pl j d = Inr s"
  shows "conforms pl j (m\<lparr>mo_pending := False\<rparr>) (rn_trace (snd (run env pl j n s)))"
    and "on_disk pl j (m\<lparr>mo_pending := False\<rparr>) [] (rn_disk s)"
proof -
  have s: "started_from pl j (m\<lparr>mo_pending := False\<rparr>) s \<and> on_disk pl j (m\<lparr>mo_pending := False\<rparr>) [] (rn_disk s)"
    using d pl by (cases rule: new_runner_starts [where env = env]) (use start in auto)
  then show "conforms pl j (m\<lparr>mo_pending := False\<rparr>) (rn_trace (snd (run env pl j n s)))"
    using run_follows [OF _ pl j, of "m\<lparr>mo_pending := False\<rparr>" s env n] by (auto simp: follows_def)
  show "on_disk pl j (m\<lparr>mo_pending := False\<rparr>) [] (rn_disk s)" using s by blast
qed

lemma fold_pending:
  "\<exists>b. foldl observe m es = (foldl observe (m\<lparr>mo_pending := False\<rparr>) es)\<lparr>mo_pending := b\<rparr>"
proof (induction es arbitrary: m)
  case Nil
  show ?case by (intro exI [of _ "mo_pending m"]) simp
next
  case (Cons e es)
  have same: "\<exists>b. foldl observe m' es = (foldl observe (m'\<lparr>mo_pending := c\<rparr>) es)\<lparr>mo_pending := b\<rparr>" for m' c
    using Cons.IH [of m'] Cons.IH [of "m'\<lparr>mo_pending := c\<rparr>"] by auto
  have "observe (m\<lparr>mo_pending := False\<rparr>) e = (observe m e)\<lparr>mo_pending := mo_pending (observe (m\<lparr>mo_pending := False\<rparr>) e)\<rparr>"
    by (cases e) auto
  then show ?case using same [of "observe m e"] by (metis foldl_Cons)
qed

lemma on_disk_pending: "on_disk pl j (m\<lparr>mo_pending := b\<rparr>) q d = on_disk pl j m q d"
  by (simp add: on_disk_def)

lemma lives_on_disk:
  assumes "lives pl j d es" and pl: "faithful pl" and j: "good_job j"
  shows "conforms pl j fresh es \<and> (\<exists>q. on_disk pl j (foldl observe fresh es) q d)"
  using assms(1)
proof (induction rule: lives.induct)
  case first
  have "on_disk pl j fresh [] unstarted" by (simp add: on_disk_def fresh_def unstarted_def)
  then show ?case by auto
next
  case (died d es env s es' n)
  let ?m = "foldl observe fresh es" and ?m' = "foldl observe (foldl observe fresh es\<lparr>mo_pending := False\<rparr>) es'"
  obtain q where "on_disk pl j ?m q d" using died.IH by blast
  note life = life_conforms [OF this pl j died.hyps(2)]
  have c: "conforms pl j (?m\<lparr>mo_pending := False\<rparr>) es'" using life(1) conforms_prefix died.hyps(3) by blast
  have "on_disk pl j ?m' [] (foldl (apply_effect (pl_rep pl)) (rn_disk s) es')"
    using on_disk_effects [OF life(2) c] .
  then show ?case
    using died.IH conforms_pending [OF c] fold_pending [of ?m es'] by (auto simp: conforms_append on_disk_pending)
next
  case (torn d es env s es' e n q d')
  let ?m = "foldl observe fresh es" and ?m' = "foldl observe (foldl observe fresh es\<lparr>mo_pending := False\<rparr>) es'"
  obtain q' where "on_disk pl j ?m q' d" using torn.IH by blast
  note life = life_conforms [OF this pl j torn.hyps(2)]
  have c: "conforms pl j (?m\<lparr>mo_pending := False\<rparr>) (es' @ [Append_event e])"
    using life(1) conforms_prefix torn.hyps(3) by blast
  then have c': "conforms pl j (?m\<lparr>mo_pending := False\<rparr>) es'" "allowed pl j ?m' (Append_event e)"
    by (auto simp: conforms_append)
  have "on_disk pl j ?m' [] d'" using on_disk_effects [OF life(2) c'(1)] torn.hyps(5) by simp
  then have "on_disk pl j ?m' q (d'\<lparr>dk_journal := append_bytes (dk_journal d') q\<rparr>)"
    using on_disk_torn [OF _ c'(2) torn.hyps(4)] by simp
  then show ?case
    using torn.IH conforms_pending [OF c'(1)] fold_pending [of ?m es'] by (auto simp: conforms_append on_disk_pending)
qed

end
