(* ===== verification/RunnerProps.thy ===== *)
theory RunnerProps
  imports RunnerLives
begin

text \<open>
  What the protocol of \<open>RunnerProtocol\<close> gives over all the lives of a run: a phase is spawned at most once, the
  terminal result is written at most once and is what every later runner returns, success means that every
  enabled phase exited with zero, and a runner that is started again continues from the journal it finds.
\<close>

section \<open>Consequences of the protocol\<close>

text \<open>Induction on a conforming sequence of effects, from its end.\<close>

lemma conforms_induct [consumes 1, case_names start step]:
  assumes "conforms pl j m0 es"
    and "P [] m0"
    and "\<And>es e. conforms pl j m0 es \<Longrightarrow> allowed pl j (foldl observe m0 es) e \<Longrightarrow> P es (foldl observe m0 es) \<Longrightarrow>
      P (es @ [e]) (observe (foldl observe m0 es) e)"
  shows "P es (foldl observe m0 es)"
  using assms(1)
proof (induction es rule: rev_induct)
  case Nil
  then show ?case using assms(2) by simp
next
  case (snoc e es)
  then show ?case using assms(3) [of es e] by (simp add: conforms_append)
qed

definition is_start :: "string \<Rightarrow> pydict \<Rightarrow> bool" where
  "is_start p e \<longleftrightarrow> kind_is e ''phase_started'' \<and> get e ''phase'' = PStr p"

definition starts :: "string \<Rightarrow> monitor \<Rightarrow> nat" where
  "starts p m = length (filter (is_start p) (mo_events m))"

text \<open>A phase that has been started is active, settled, or the run has failed.\<close>

definition accounted :: "string \<Rightarrow> monitor \<Rightarrow> bool" where
  "accounted p m \<longleftrightarrow>
     (let r = recover_history (mo_events m) in
      rc_active r = Some p \<or> p \<in> set (rc_settled r) \<or> rc_failure r \<noteq> None)"

definition awaiting :: "string \<Rightarrow> monitor \<Rightarrow> nat" where
  "awaiting p m = (if mo_pending m \<and> mo_events m \<noteq> [] \<and> is_start p (last (mo_events m)) then 1 else 0)"

lemma accounted_event:
  assumes "in_turn j (mo_events m) e" and "accounted p m"
  shows "accounted p (observe m (Append_event e))"
  using assms
  by (auto simp: accounted_def in_turn_def recover_snoc recover_event_def kind_is_def Let_def split: option.splits if_splits)

lemma started_event:
  assumes "in_turn j (mo_events m) e" and "is_start p e"
  shows "\<not> accounted p m" and "accounted p (observe m (Append_event e))" and "enabled j p"
  using assms by (auto simp: accounted_def is_start_def in_turn_def recover_snoc recover_event_def kind_is_def Let_def)

lemma pending_start:
  assumes "conforms pl j fresh es"
  shows "mo_pending (foldl observe fresh es) \<longrightarrow>
    mo_events (foldl observe fresh es) \<noteq> [] \<and> kind_is (last (mo_events (foldl observe fresh es))) ''phase_started''"
  using assms
proof (induction rule: conforms_induct)
  case (step es e)
  then show ?case by (cases e) auto
qed (simp add: fresh_def)

lemma starts_bounded:
  assumes "conforms pl j fresh es"
  shows "starts p (foldl observe fresh es) \<le> 1 \<and>
    (0 < starts p (foldl observe fresh es) \<longrightarrow> accounted p (foldl observe fresh es) \<and> enabled j p) \<and>
    count_list es (Spawn p) + awaiting p (foldl observe fresh es) \<le> starts p (foldl observe fresh es)"
  using assms
proof (induction rule: conforms_induct)
  case start
  show ?case by (simp add: starts_def awaiting_def fresh_def)
next
  case (step es e)
  let ?m = "foldl observe fresh es"
  show ?case
  proof (cases e)
    case (Append_event ev)
    have turn: "in_turn j (mo_events ?m) ev" using step.hyps(2) Append_event by simp
    show ?thesis
      using step.IH Append_event accounted_event [OF turn] started_event [OF turn]
      by (cases "is_start p ev") (auto simp: starts_def awaiting_def)
  next
    case (Spawn p')
    then have "p' = p \<Longrightarrow> awaiting p ?m = 1"
      using step.hyps pending_start by (simp add: awaiting_def is_start_def)
    moreover have "awaiting p (observe ?m e) = 0" using Spawn by (simp add: awaiting_def)
    moreover have "starts p (observe ?m e) = starts p ?m" "accounted p (observe ?m e) = accounted p ?m"
      using Spawn by (simp_all add: starts_def accounted_def)
    ultimately show ?thesis using step.IH Spawn by auto
  qed (use step.IH in \<open>simp_all add: starts_def awaiting_def accounted_def\<close>)
qed

text \<open>The terminal results written, and what may follow the first.\<close>

fun terminal_of :: "effect \<Rightarrow> pydict list" where
  "terminal_of (Write_terminal t) = [t]"
| "terminal_of e = []"

definition terminals :: "effect list \<Rightarrow> pydict list" where
  "terminals es = concat (map terminal_of es)"

lemma terminals_bounded:
  assumes "conforms pl j fresh es"
  shows "length (terminals es) = (if mo_ended (foldl observe fresh es) then 1 else 0)"
  using assms
proof (induction rule: conforms_induct)
  case (step es e)
  then show ?case by (cases e) (auto simp: terminals_def)
qed (simp add: terminals_def fresh_def)

lemma conforms_after_end: "conforms pl j m es \<Longrightarrow> mo_ended m \<Longrightarrow> Spawn p \<notin> set es \<and> terminals es = []"
proof (induction es arbitrary: m)
  case (Cons e es)
  have "mo_ended (observe m e)" using Cons.prems by (cases e) auto
  then have "Spawn p \<notin> set es \<and> terminals es = []" using Cons.IH [of "observe m e"] Cons.prems by simp
  then show ?case using Cons.prems by (cases e) (auto simp: terminals_def)
qed (simp add: terminals_def)

text \<open>What a settled phase has in the journal.\<close>

definition settled_by :: "job \<Rightarrow> string \<Rightarrow> pydict \<Rightarrow> bool" where
  "settled_by j p e \<longleftrightarrow> get e ''phase'' = PStr p \<and>
     (if enabled j p then kind_is e ''phase_completed'' \<and> get e ''exit_code'' = PInt 0 else kind_is e ''phase_disabled'')"

lemma active_enabled:
  assumes "conforms pl j fresh es"
  shows "rc_active (recover_history (mo_events (foldl observe fresh es))) = Some p \<longrightarrow> enabled j p"
  using assms
proof (induction rule: conforms_induct)
  case start
  show ?case by (simp add: fresh_def recover_history_def no_history_def)
next
  case (step es e)
  then show ?case
    by (cases e) (auto simp: recover_snoc recover_event_def in_turn_def kind_is_def Let_def split: option.splits if_splits)
qed

lemma settled_events:
  assumes "conforms pl j fresh es"
  shows "p \<in> settled (foldl observe fresh es) \<longrightarrow> (\<exists>e. Append_event e \<in> set es \<and> settled_by j p e)"
  using assms
proof (induction rule: conforms_induct)
  case start
  show ?case by (simp add: settled_def fresh_def recover_history_def no_history_def)
next
  case (step es e)
  show ?case
  proof (cases e)
    case (Append_event ev)
    have "p \<in> settled (foldl observe fresh es) \<or> settled_by j p ev"
      if "p \<in> settled (observe (foldl observe fresh es) e)"
      using that step.hyps(2) active_enabled [OF step.hyps(1), of p]
      by (auto simp: Append_event settled_def settled_by_def recover_snoc recover_event_def in_turn_def kind_is_def Let_def
          split: option.splits if_splits)
    then show ?thesis using step.IH Append_event by auto
  qed (use step.IH in \<open>auto simp: settled_def\<close>)
qed

lemma success_settled:
  assumes "conforms pl j fresh es"
  shows "\<forall>t. Write_terminal t \<in> set es \<and> get t ''outcome'' = PStr ''succeeded'' \<longrightarrow>
    (\<forall>p \<in> set phase_order. \<exists>e. Append_event e \<in> set es \<and> settled_by j p e) \<and>
    (as_str (get (jb_request j) ''artifact_manifest_path'') \<noteq> None \<longrightarrow> dget t ''artifact_manifest_sha256'' \<noteq> None)"
  using assms
proof (induction rule: conforms_induct)
  case (step es e)
  have "\<forall>p \<in> set phase_order. \<exists>e. Append_event e \<in> set es \<and> settled_by j p e"
    if "e = Write_terminal t" "get t ''outcome'' = PStr ''succeeded''" for t
    using step.hyps(2) settled_events [OF step.hyps(1)] that by (auto simp: may_end_def)
  then show ?case using step.IH step.hyps(2) by (fastforce simp: may_end_def)
qed simp


section \<open>The disk of a run\<close>

lemma effect_terminal:
  "dk_terminal (foldl (apply_effect rep) d es) =
     (if terminals es = [] then dk_terminal d else Some (JsonValue (PDict (last (terminals es)))))"
proof (induction es rule: rev_induct)
  case (snoc e es)
  then show ?case by (cases e) (auto simp: terminals_def)
qed (simp add: terminals_def)

lemma new_runner_terminal: "new_runner env pl j d = Inr s \<Longrightarrow> dk_terminal (rn_disk s) = dk_terminal d"
  by (auto simp: new_runner_def result_simps Let_def split: prod.splits sum.splits)

lemma terminals_append: "terminals (es @ es') = terminals es @ terminals es'"
  by (simp add: terminals_def)

lemma lives_terminal:
  assumes "lives pl j d es"
  shows "dk_terminal d = (if terminals es = [] then None else Some (JsonValue (PDict (last (terminals es)))))"
  using assms
proof (induction rule: lives.induct)
  case first
  show ?case by (simp add: unstarted_def terminals_def)
next
  case (died d es env s es' n)
  then show ?case by (auto simp: effect_terminal terminals_append new_runner_terminal)
next
  case (torn d es env s es' e n q d')
  then show ?case by (auto simp: effect_terminal terminals_append new_runner_terminal)
qed

section \<open>The job\<close>

lemma new_job_request:
  assumes "new_job request given loaded tok = Inr j"
  shows "validate_request request = Inr request" and "jb_request j = request"
    and "parse_launch_authorization (get request ''launch_authorization'') = Inr (jb_auth j)"
    and "get request ''run_id'' = PStr (jb_run_id j)" and "safe_id (jb_run_id j)"
proof -
  obtain r where r: "validate_request request = Inr r" "jb_request j = r"
      "parse_launch_authorization (get r ''launch_authorization'') = Inr (jb_auth j)"
      "jb_run_id j = (case as_str (get r ''run_id'') of None \<Rightarrow> [] | Some t \<Rightarrow> t)"
    using assms by (auto simp: new_job_def result_simps)
  moreover have "r = request" using validate_request_id [OF r(1)] .
  ultimately show "validate_request request = Inr request" and "jb_request j = request"
    and "parse_launch_authorization (get request ''launch_authorization'') = Inr (jb_auth j)" by simp_all
  obtain t where "get request ''run_id'' = PStr t" "safe_id t"
    using \<open>validate_request request = Inr request\<close> by (auto simp: validate_request_def result_simps)
  then show "get request ''run_id'' = PStr (jb_run_id j)" "safe_id (jb_run_id j)"
    using r \<open>r = request\<close> by simp_all
qed

lemma new_job_good: "new_job request given loaded tok = Inr j \<Longrightarrow> good_job j"
  using new_job_request(5) [of request given loaded tok j] plain_id [of "jb_run_id j"]
  by (cases "jb_run_id j") (auto simp: good_job_def safe_id_iff id_char_def is_alnum_def)

end
