(* ===== verification/RunnerSample.thy ===== *)
theory RunnerSample
  imports RunnerProps
begin

text \<open>
  A run that the hypotheses of the runner's properties hold of: a request with one enabled phase, a platform that
  prints and reads every rational number, and an environment in which the phase exits with zero; and the trace it
  leaves.
\<close>

section \<open>A sample run\<close>

text \<open>Floats written as numerator and denominator, with which every rational number reads back.\<close>

fun show_ratio :: "pyfloat \<Rightarrow> string" where
  "show_ratio (Fin x) = (case quotient_of x of (a, b) \<Rightarrow> show_int a @ ''.'' @ show_nat (nat b))"
| "show_ratio f = ''0.0''"

definition read_integer :: "string \<Rightarrow> int" where
  "read_integer t = (case t of CHR ''-'' # ds \<Rightarrow> - int (read_nat ds) | _ \<Rightarrow> int (read_nat t))"

definition read_ratio :: "string \<Rightarrow> pyfloat" where
  "read_ratio t =
     Fin (of_int (read_integer (takeWhile (\<lambda>c. c \<noteq> CHR ''.'') t)) /
          of_nat (read_nat (drop 1 (dropWhile (\<lambda>c. c \<noteq> CHR ''.'') t))))"

definition sample_platform :: platform where
  "sample_platform = \<lparr>pl_sha = \<lambda>s. s, pl_decode = Decoded, pl_fl = read_ratio, pl_rep = show_ratio\<rparr>"

definition sample_phase :: "bool \<Rightarrow> pyval" where
  "sample_phase on = PDict [(''enabled'', PBool on), (''argv'', PList [PStr ''true'']), (''timeout_seconds'', PInt 60)]"

definition sample_identity :: runner_identity where
  "sample_identity = local_source_identity\<lparr>ri_git_commit := replicate 40 CHR ''c''\<rparr>"

definition sample_request :: pydict where
  "sample_request =
     [(''protocol'', PStr ''run-request/1''), (''run_id'', PStr ''r1''), (''bundle_hash'', PStr (replicate 64 CHR ''a'')),
      (''image_digest'', PStr (''image@sha256:'' @ replicate 64 CHR ''b''))] @
     as_protocol_fields sample_identity @
     [(''storage'', PDict [(''encrypted'', PBool True), (''network_volume_id'', PNone), (''mount'', PStr ''/workspace''),
                          (''required_gb'', PInt 10)]),
      (''phases'', PDict [(''verify'', sample_phase True), (''preflight'', sample_phase False), (''train'', sample_phase False),
                         (''evaluate'', sample_phase False), (''package'', sample_phase False)]),
      (''limits'', PDict [(''max_elapsed_seconds'', PInt 3600), (''max_cost_usd'', PStr ''5''), (''usd_per_hour'', PStr ''1'')]),
      (''heartbeat_interval_seconds'', PInt 5), (''termination_grace_seconds'', PInt 10),
      (''artifact_path_base'', PStr ''run-root''), (''artifact_manifest_path'', PNone), (''incremental_mirror_ack'', PNone),
      (''launch_authorization'', PDict [(''protocol'', PStr launch_protocol), (''path'', PStr launch_relative_path),
         (''sha256'', PStr (replicate 64 CHR ''d'')), (''size'', PInt 65), (''timeout_seconds'', PInt 600)])]"

definition sample_environment :: environment where
  "sample_environment =
     \<lparr>en_clock = \<lambda>_. 0, en_wall = \<lambda>_. 0, en_stop = \<lambda>_. None, en_spawn = \<lambda>_. Some 7, en_poll = \<lambda>_. Some 0,
      en_wait = \<lambda>_. 0, en_group = \<lambda>_. False, en_free = \<lambda>_. Some 100000000000,
      en_token = \<lambda>_. RegularFile (replicate 64 CHR ''d'' @ [newline]), en_tree = \<lambda>_. Directory [],
      en_linked = \<lambda>_ _. None, en_own = []\<rparr>"

text \<open>What the steps leave of a state.\<close>

lemma step_fields [simp]:
  "rn_trace (tick s) = rn_trace s" "rn_prior (tick s) = rn_prior s" "rn_started (tick s) = rn_started s"
  "rn_current (tick s) = rn_current s" "rn_child (tick s) = rn_child s" "rn_authorized (tick s) = rn_authorized s"
  "rn_failure (tick s) = rn_failure s" "rn_disk (tick s) = rn_disk s" "rn_sequence (tick s) = rn_sequence s"
  "rn_trace (emit pl e s) = rn_trace s @ [e]" "rn_prior (emit pl e s) = rn_prior s"
  "rn_started (emit pl e s) = rn_started s" "rn_current (emit pl e s) = rn_current s"
  "rn_child (emit pl e s) = rn_child s" "rn_authorized (emit pl e s) = rn_authorized s"
  "rn_failure (emit pl e s) = rn_failure s" "rn_disk (emit pl e s) = apply_effect (pl_rep pl) (rn_disk s) e"
  "rn_sequence (emit pl e s) = rn_sequence s"
  by (simp_all add: tick_def emit_def)

lemma event_fields [simp]:
  "rn_prior (event env pl j k p x s) = rn_prior s" "rn_started (event env pl j k p x s) = rn_started s"
  "rn_current (event env pl j k p x s) = rn_current s" "rn_child (event env pl j k p x s) = rn_child s"
  "rn_authorized (event env pl j k p x s) = rn_authorized s"
  "dk_terminal (rn_disk (event env pl j k p x s)) = dk_terminal (rn_disk s)"
  by (simp_all add: event_def append_event_def Let_def)

lemma heartbeat_fields [simp]:
  "rn_prior (heartbeat env pl j st s) = rn_prior s" "rn_started (heartbeat env pl j st s) = rn_started s"
  "rn_current (heartbeat env pl j st s) = rn_current s" "rn_child (heartbeat env pl j st s) = rn_child s"
  "rn_authorized (heartbeat env pl j st s) = rn_authorized s"
  "dk_terminal (rn_disk (heartbeat env pl j st s)) = dk_terminal (rn_disk s)"
  by (simp_all add: heartbeat_def publish_status_def)

text \<open>The effects other than statuses, which is what the sample shows of a trace.\<close>

fun effect_name :: "effect \<Rightarrow> (string \<times> pyval) list" where
  "effect_name (Append_event e) = [(''event'', get e ''kind'')]"
| "effect_name (Write_terminal t) = [(''terminal'', get t ''outcome'')]"
| "effect_name (Spawn p) = [(''spawn'', PStr p)]"
| "effect_name e = []"

definition effect_names :: "effect list \<Rightarrow> (string \<times> pyval) list" where
  "effect_names es = concat (map effect_name es)"

lemma effect_names_event:
  "good_extra x \<Longrightarrow> effect_names (rn_trace (event env pl j k p x s)) = effect_names (rn_trace s) @ [(''event'', PStr k)]"
  by (simp add: event_def append_event_def Let_def effect_names_def event_record_gets)

lemma effect_names_status [simp]:
  "effect_names (rn_trace (heartbeat env pl j st s)) = effect_names (rn_trace s)"
  "effect_names (rn_trace (publish_status env pl i r st t s)) = effect_names (rn_trace s)"
  by (simp_all add: heartbeat_def publish_status_def effect_names_def)

lemma effect_names_emit [simp]: "effect_names (es @ [e]) = effect_names es @ effect_name e"
  by (simp add: effect_names_def)

definition sample_job :: job where
  "sample_job =
     \<lparr>jb_request = sample_request,
      jb_auth = \<lparr>la_relative_path = launch_relative_path, la_sha256 = replicate 64 CHR ''d'', la_size = 65,
                 la_timeout_seconds = Fin 600\<rparr>,
      jb_identity = sample_identity, jb_identity_failure = None, jb_run_id = ''r1'', jb_status_token = None\<rparr>"

definition sample_start :: runner where
  "sample_start =
     \<lparr>rn_tick = 1, rn_started = 0, rn_sequence = 0, rn_prior = Fin 0, rn_completed = [], rn_settled = [],
      rn_exit_codes = [], rn_current = None, rn_failure = None, rn_authorized = False, rn_child = None,
      rn_disk = unstarted, rn_trace = []\<rparr>"

lemma sample_new_job: "new_job sample_request (Some sample_identity) (Inl (OSError [])) None = Inr sample_job"
  by code_simp

lemma sample_new_runner: "new_runner sample_environment sample_platform sample_job unstarted = Inr sample_start"
  by (simp add: new_runner_def unstarted_def read_event_history_def prior_elapsed_seconds_def last_sequence_def
      recover_history_def no_history_def sample_start_def sample_environment_def)

lemma sample_elapsed: "rn_prior s = Fin 0 \<Longrightarrow> rn_started s = 0 \<Longrightarrow> elapsed sample_environment s = Fin 0"
  by (simp add: elapsed_def monotonic_def sample_environment_def micros_def round_half_even_def)

lemma sample_limit:
  "rn_prior s = Fin 0 \<Longrightarrow> rn_started s = 0 \<Longrightarrow> limit_reason sample_environment sample_request s = (None, tick s)"
proof -
  have lim: "\<not> fle (number_as_float (get (section_of sample_request ''limits'') ''max_elapsed_seconds'')) (Fin 0)"
    "\<not> cost_reached (estimated_cost sample_request (Fin 0)) (decimal_of (get (section_of sample_request ''limits'') ''max_cost_usd''))"
    by code_simp+
  assume "rn_prior s = Fin 0" "rn_started s = 0"
  then show ?thesis using lim by (simp add: limit_reason_def sample_elapsed Let_def)
qed

lemma sample_config:
  "phase_enabled (section_of (section_of sample_request ''phases'') p) = (p = ''verify'')" if "p \<in> set phase_order" for p
proof -
  have "list_all (\<lambda>p. phase_enabled (section_of (section_of sample_request ''phases'') p) = (p = ''verify'')) phase_order"
    by code_simp
  then show ?thesis using that by (simp add: list_all_iff)
qed

lemma sample_ready: "check_launch_token sample_platform sample_job (en_token sample_environment n)"
  "get sample_request ''artifact_manifest_path'' = PNone" "storage_reason sample_environment sample_request s = None"
proof -
  have "check_launch_token sample_platform sample_job (RegularFile (replicate 64 CHR ''d'' @ [newline]))"
    "get sample_request ''artifact_manifest_path'' = PNone"
    "as_int (get (section_of sample_request ''storage'') ''required_gb'') = Some 10" by code_simp+
  then show "check_launch_token sample_platform sample_job (en_token sample_environment n)"
    "get sample_request ''artifact_manifest_path'' = PNone" "storage_reason sample_environment sample_request s = None"
    by (simp_all add: sample_environment_def storage_reason_def)
qed

lemma sample_observes [simp]:
  "en_stop sample_environment n = None" "en_spawn sample_environment n = Some 7" "en_poll sample_environment n = Some 0"
  "en_token sample_environment n \<noteq> NoFile" "stop_requested sample_environment s = None"
  by (simp_all add: sample_environment_def stop_requested_def)

lemma sample_job_fields [simp]:
  "jb_request sample_job = sample_request" "jb_identity_failure sample_job = None"
  "(Some (la_sha256 (jb_auth sample_job)) = jb_status_token sample_job) = False"
  by (simp_all add: sample_job_def)

lemma sample_wait:
  assumes "\<not> rn_authorized s"
  shows "\<exists>s'. wait_for_launch_authorization sample_environment sample_platform sample_job (Suc n) s = (Some None, s'\<lparr>rn_authorized := True\<rparr>) \<and>
    s' = event sample_environment sample_platform sample_job ''launch_authorized'' None [] (tick (tick (tick (tick s))))"
  using assms sample_ready(1) by (simp add: wait_for_launch_authorization_def)

lemma sample_verify:
  assumes "rn_prior s = Fin 0" and "rn_started s = 0"
  shows "\<exists>s'. run_phase sample_environment sample_platform sample_job config (Suc n) ''verify'' s = (Some None, s') \<and>
    rn_settled s' = rn_settled s \<and> rn_prior s' = Fin 0 \<and> rn_started s' = 0 \<and>
    dk_terminal (rn_disk s') = dk_terminal (rn_disk s) \<and>
    effect_names (rn_trace s') = effect_names (rn_trace s) @
      [(''event'', PStr ''phase_started''), (''spawn'', PStr ''verify''), (''event'', PStr ''phase_completed'')]"
  using assms sample_limit [of s]
  by (simp add: run_phase_def start_phase_def phase_exited_def effect_names_event good_extra_def Let_def)

lemma sample_phases:
  assumes "rn_prior s = Fin 0" and "rn_started s = 0" and "rn_settled s = []"
  shows "\<exists>s'. run_phases sample_environment sample_platform sample_job (Suc n) phase_order s = (Some None, s') \<and>
    rn_prior s' = Fin 0 \<and> rn_started s' = 0 \<and> dk_terminal (rn_disk s') = dk_terminal (rn_disk s) \<and>
    effect_names (rn_trace s') = effect_names (rn_trace s) @
      [(''event'', PStr ''phase_started''), (''spawn'', PStr ''verify''), (''event'', PStr ''phase_completed''),
       (''event'', PStr ''phase_disabled''), (''event'', PStr ''phase_disabled''), (''event'', PStr ''phase_disabled''),
       (''event'', PStr ''phase_disabled'')]"
proof -
  obtain s' where s': "run_phase sample_environment sample_platform sample_job
      (section_of (section_of sample_request ''phases'') ''verify'') (Suc n) ''verify'' s = (Some None, s')"
    "rn_settled s' = []" "rn_prior s' = Fin 0" "rn_started s' = 0" "dk_terminal (rn_disk s') = dk_terminal (rn_disk s)"
    "effect_names (rn_trace s') = effect_names (rn_trace s) @
      [(''event'', PStr ''phase_started''), (''spawn'', PStr ''verify''), (''event'', PStr ''phase_completed'')]"
    using sample_verify [OF assms(1, 2)] assms(3) by metis
  show ?thesis
    using s' assms(3) sample_config
    by (simp add: phase_order_def Let_def effect_names_event good_extra_def)
qed

lemma no_manifest_receipt [simp]: "artifact_receipt sha dec fl r PNone tree = Inr []"
  by (simp add: artifact_receipt_def)

lemma sample_run:
  "\<exists>t s'. run sample_environment sample_platform sample_job (Suc n) sample_start = (Some (Inr t), s') \<and>
    get t ''outcome'' = PStr ''succeeded'' \<and>
    effect_names (rn_trace s') =
      [(''event'', PStr ''ready''), (''event'', PStr ''launch_authorized''),
       (''event'', PStr ''phase_started''), (''spawn'', PStr ''verify''), (''event'', PStr ''phase_completed''),
       (''event'', PStr ''phase_disabled''), (''event'', PStr ''phase_disabled''), (''event'', PStr ''phase_disabled''),
       (''event'', PStr ''phase_disabled''), (''terminal'', PStr ''succeeded''), (''event'', PStr ''terminal'')]"
proof -
  let ?s1 = "heartbeat sample_environment sample_platform sample_job ''ready''
      (event sample_environment sample_platform sample_job ''ready'' None [] (tick sample_start))"
  let ?s2 = "event sample_environment sample_platform sample_job ''launch_authorized'' None [] (tick (tick (tick (tick ?s1))))"
  have w: "wait_for_launch_authorization sample_environment sample_platform sample_job (Suc n) ?s1 =
      (Some None, ?s2\<lparr>rn_authorized := True\<rparr>)"
    using sample_wait [of ?s1 n] by (simp add: sample_start_def)
  have fields: "rn_prior ?s2 = Fin 0" "rn_started ?s2 = 0" "rn_settled ?s2 = []" "dk_terminal (rn_disk ?s2) = None"
    "effect_names (rn_trace ?s2) = [(''event'', PStr ''ready''), (''event'', PStr ''launch_authorized'')]"
    by (simp_all add: sample_start_def unstarted_def effect_names_event good_extra_def effect_names_def [of "[]"])
  obtain s3 where s3: "run_phases sample_environment sample_platform sample_job (Suc n) phase_order (?s2\<lparr>rn_authorized := True\<rparr>) = (Some None, s3)"
    "dk_terminal (rn_disk s3) = None"
    "effect_names (rn_trace s3) = effect_names (rn_trace ?s2) @
      [(''event'', PStr ''phase_started''), (''spawn'', PStr ''verify''), (''event'', PStr ''phase_completed''),
       (''event'', PStr ''phase_disabled''), (''event'', PStr ''phase_disabled''), (''event'', PStr ''phase_disabled''),
       (''event'', PStr ''phase_disabled'')]"
    using sample_phases [of "?s2\<lparr>rn_authorized := True\<rparr>" n] fields by auto
  have start: "read_terminal sample_start = Inr None" "rn_failure sample_start = None" "rn_current sample_start = None"
    "rn_sequence (tick sample_start) = 0"
    by (simp_all add: sample_start_def unstarted_def read_terminal_def)
  have "run sample_environment sample_platform sample_job (Suc n) sample_start =
      complete_run sample_environment sample_platform sample_job s3"
    using start w s3(1) sample_ready(3) by (simp add: run_def run_ready_def)
  then show ?thesis
    using s3(2, 3) fields(5) sample_ready(2)
    by (simp add: complete_run_def result_of_def terminal_result_def end_run_def finish_def add_receipt_def
        write_terminal_once_def read_terminal_def Let_def effect_names_event [unfolded event_def] good_extra_def)
qed

section \<open>The sample platform is faithful\<close>

lemma show_digits [simp]: "list_all is_digit (show_nat n)"
  by (auto simp: list_all_iff dest: show_nat_digits)

lemma digits_no_dot: "list_all is_digit ds \<Longrightarrow> c \<in> set ds \<Longrightarrow> c \<noteq> CHR ''.'' \<and> c \<noteq> CHR ''-''"
  by (auto simp: list_all_iff is_digit_iff)

lemma show_int_no_dot: "c \<in> set (show_int i) \<Longrightarrow> c \<noteq> CHR ''.''"
  using digits_no_dot [OF show_digits] by (auto simp: show_int_def split: if_splits)

lemma read_show_integer: "read_integer (show_int i) = i"
proof (cases "i < 0")
  case True
  then show ?thesis by (simp add: show_int_def read_integer_def)
next
  case False
  obtain c cs where c: "show_nat (nat i) = c # cs" using show_nat_nonempty [of "nat i"] by (cases "show_nat (nat i)") auto
  then have "c \<noteq> CHR ''-''" using digits_no_dot [OF show_digits, of c "nat i"] by simp
  then have "read_integer (show_nat (nat i)) = int (read_nat (show_nat (nat i)))"
    by (simp add: read_integer_def c split: char.splits bool.splits)
  then show ?thesis using False by (simp add: show_int_def)
qed

lemma read_show_ratio: "read_ratio (show_ratio (Fin x)) = Fin x"
proof -
  obtain a b where ab: "quotient_of x = (a, b)" by fastforce
  have "takeWhile (\<lambda>c. c \<noteq> CHR ''.'') (show_int a @ ''.'' @ show_nat (nat b)) = show_int a"
    "dropWhile (\<lambda>c. c \<noteq> CHR ''.'') (show_int a @ ''.'' @ show_nat (nat b)) = ''.'' @ show_nat (nat b)"
    using show_int_no_dot [of _ a] by (auto simp: takeWhile_append dropWhile_append)
  then have "read_ratio (show_ratio (Fin x)) = Fin (of_int a / of_nat (nat b))"
    by (simp add: ab read_ratio_def read_show_integer)
  moreover have "0 < b" "x = of_int a / of_int b" using quotient_of_denom_pos [OF ab] quotient_of_div [OF ab] by simp_all
  ultimately show ?thesis by simp
qed

lemma ratio_literal: "float_literal (show_ratio (Fin x))"
proof -
  obtain a b where ab: "quotient_of x = (a, b)" by fastforce
  obtain sg ip where "show_int a = sg @ ip" "number_parts sg ip [] []" using show_int_parts [of a] by blast
  then have "number_parts sg ip (''.'' @ show_nat (nat b)) []" "show_ratio (Fin x) = sg @ ip @ (''.'' @ show_nat (nat b)) @ []"
    by (simp_all add: ab number_parts_def)
  then show ?thesis unfolding float_literal_def by (metis append_Cons append_Nil list.distinct(1))
qed

lemma sample_faithful: "faithful sample_platform"
  by (simp add: faithful_def sample_platform_def ascii_decoder_def readable_float_def read_show_ratio ratio_literal
      del: show_ratio.simps)

text \<open>The lives of the sample job: one runner, which returned.\<close>

lemma effect_names_mem:
  "(''terminal'', PStr v) \<in> set (effect_names es) \<Longrightarrow> \<exists>t. Write_terminal t \<in> set es \<and> get t ''outcome'' = PStr v"
  "(''spawn'', PStr p) \<in> set (effect_names es) \<Longrightarrow> Spawn p \<in> set es"
proof -
  have "\<exists>t. e = Write_terminal t \<and> get t ''outcome'' = PStr v" if "(''terminal'', PStr v) \<in> set (effect_name e)" for e
    using that by (cases e) auto
  then show "(''terminal'', PStr v) \<in> set (effect_names es) \<Longrightarrow> \<exists>t. Write_terminal t \<in> set es \<and> get t ''outcome'' = PStr v"
    by (force simp: effect_names_def)
  have "e = Spawn p" if "(''spawn'', PStr p) \<in> set (effect_name e)" for e
    using that by (cases e) auto
  then show "(''spawn'', PStr p) \<in> set (effect_names es) \<Longrightarrow> Spawn p \<in> set es"
    by (force simp: effect_names_def)
qed

lemma sample_lives:
  obtains d es t where "lives sample_platform sample_job d es" and "Write_terminal t \<in> set es"
    and "get t ''outcome'' = PStr ''succeeded''" and "Spawn ''verify'' \<in> set es"
proof -
  obtain r s' where run: "run sample_environment sample_platform sample_job (Suc 0) sample_start = (r, s')"
    and names: "(''terminal'', PStr ''succeeded'') \<in> set (effect_names (rn_trace s'))"
      "(''spawn'', PStr ''verify'') \<in> set (effect_names (rn_trace s'))"
    using sample_run [of 0] by fastforce
  have "lives sample_platform sample_job
      (foldl (apply_effect (pl_rep sample_platform)) (rn_disk sample_start) (rn_trace s')) ([] @ rn_trace s')"
    using lives.died [OF lives.first sample_new_runner, of "rn_trace s'" "Suc 0"] run by simp
  then show thesis using that effect_names_mem(1) [OF names(1)] effect_names_mem(2) [OF names(2)] by auto
qed

end
