(* ===== verification/RunnerClaims.thy ===== *)
theory RunnerClaims
  imports RunnerSample
begin

text \<open>
  The properties of the remote runner over all its lives, with the sample run of \<open>RunnerSample\<close> as their witness.
\<close>

text \<open>
  C23: refinement of the abstract protocol.  Whatever the clocks, signals, children and storage do, and however
  often the runner dies (between two effects or in the middle of writing an event) and is started again, the
  effects of all its lives together are accepted by the automaton: events are numbered from one without a gap and
  well formed, a phase starts only when it is enabled, unsettled and nothing else is active or failed, a child is
  spawned only after its start is journaled, and nothing but terminal events follows the terminal result.
\<close>

theorem runs_follow_protocol:
  assumes "new_job request given loaded tok = Inr j" and "faithful pl" and "lives pl j d es"
  shows "conforms pl j fresh es"
  using lives_on_disk [OF assms(3, 2) new_job_good [OF assms(1)]] by blast

theorem runs_follow_protocol_witness:
  "\<exists>d es. Spawn ''verify'' \<in> set es \<and> lives sample_platform sample_job d es \<and> conforms sample_platform sample_job fresh es"
proof -
  obtain d es where l: "lives sample_platform sample_job d es" "Spawn ''verify'' \<in> set es" using sample_lives by blast
  show ?thesis using runs_follow_protocol [OF sample_new_job sample_faithful l(1)] l by blast
qed

text \<open>
  C20: over all the lives of a run, the command of a phase is started at most once, and only when the request
  enables the phase: a runner that restarts never repeats work that may already have begun.
\<close>

theorem phase_spawned_at_most_once:
  assumes "new_job request given loaded tok = Inr j" and "faithful pl" and "lives pl j d es"
  shows "count_list es (Spawn p) \<le> 1 \<and> (Spawn p \<in> set es \<longrightarrow> enabled j p)"
proof -
  have c: "conforms pl j fresh es" using lives_on_disk [OF assms(3, 2) new_job_good [OF assms(1)]] by blast
  note b = starts_bounded [OF c, of p]
  have "0 < count_list es (Spawn p)" if "Spawn p \<in> set es" using that count_list_0_iff [of es "Spawn p"] by simp
  then show ?thesis using b by auto
qed

theorem phase_spawned_at_most_once_witness:
  "\<exists>d es. Spawn ''verify'' \<in> set es \<and> lives sample_platform sample_job d es \<and> count_list es (Spawn ''verify'') \<le> 1"
proof -
  obtain d es where l: "lives sample_platform sample_job d es" "Spawn ''verify'' \<in> set es" using sample_lives by blast
  show ?thesis using phase_spawned_at_most_once [OF sample_new_job sample_faithful l(1), of "''verify''"] l by blast
qed

text \<open>
  C21: the terminal result is immutable.  It is written at most once over all the lives; nothing is spawned after it;
  and every runner that is started later returns exactly it, whatever has changed in its environment since.
\<close>

theorem terminal_result_immutable:
  assumes "new_job request given loaded tok = Inr j" and "faithful pl"
    and "lives pl j d (es @ Write_terminal t # es')"
  shows "terminals es = [] \<and> terminals es' = [] \<and> Spawn p \<notin> set es' \<and>
    (new_runner env pl j d = Inr s \<longrightarrow> fst (run env pl j n s) = Some (Inr t))"
proof -
  have c: "conforms pl j fresh (es @ Write_terminal t # es')"
    using lives_on_disk [OF assms(3, 2) new_job_good [OF assms(1)]] by blast
  then have "mo_ended (observe (foldl observe fresh es) (Write_terminal t))"
    and "conforms pl j (observe (foldl observe fresh es) (Write_terminal t)) es'" by (simp_all add: conforms_append)
  then have after: "Spawn p \<notin> set es' \<and> terminals es' = []" using conforms_after_end by blast
  have all: "terminals (es @ Write_terminal t # es') = terminals es @ t # terminals es'"
    by (simp add: terminals_def)
  have before: "terminals es = []" using terminals_bounded [OF c] unfolding all by (auto split: if_splits)
  have "dk_terminal d = Some (JsonValue (PDict t))"
    using lives_terminal [OF assms(3)] unfolding all by (simp add: after before)
  then have "fst (run env pl j n s) = Some (Inr t)" if "new_runner env pl j d = Inr s"
    using new_runner_terminal [OF that] by (simp add: run_def read_terminal_def req_mapping_def)
  then show ?thesis using after before by blast
qed

theorem terminal_result_immutable_witness:
  "\<exists>d es t es'. lives sample_platform sample_job d (es @ Write_terminal t # es') \<and>
     terminals es = [] \<and> terminals es' = [] \<and> Spawn ''verify'' \<notin> set es'"
proof -
  obtain d es t where l: "lives sample_platform sample_job d es" "Write_terminal t \<in> set es" using sample_lives by blast
  obtain es1 es2 where es: "es = es1 @ Write_terminal t # es2" using split_list [OF l(2)] by blast
  show ?thesis
    using terminal_result_immutable [OF sample_new_job sample_faithful l(1) [unfolded es], of "''verify''"] l(1)
    unfolding es by blast
qed

text \<open>
  C22: success means done.  When a run's terminal result says \<open>succeeded\<close>, then over its lives every phase was
  journaled as completed with exit code zero, or as disabled and the request does disable it; and the result has
  the digest of the artifact manifest if the request names one.
\<close>

theorem success_means_every_phase_settled:
  assumes "new_job request given loaded tok = Inr j" and "faithful pl" and "lives pl j d es"
    and "Write_terminal t \<in> set es" and "get t ''outcome'' = PStr ''succeeded''" and "p \<in> set phase_order"
  shows "(\<exists>e. Append_event e \<in> set es \<and> get e ''phase'' = PStr p \<and>
      (if enabled j p then get e ''kind'' = PStr ''phase_completed'' \<and> get e ''exit_code'' = PInt 0
       else get e ''kind'' = PStr ''phase_disabled'')) \<and>
    (as_str (get (jb_request j) ''artifact_manifest_path'') = None \<or> dget t ''artifact_manifest_sha256'' \<noteq> None)"
proof -
  have c: "conforms pl j fresh es" using lives_on_disk [OF assms(3, 2) new_job_good [OF assms(1)]] by blast
  obtain e where e: "Append_event e \<in> set es" "settled_by j p e"
    using success_settled [OF c] assms(4-6) by blast
  have "as_str (get (jb_request j) ''artifact_manifest_path'') = None \<or> dget t ''artifact_manifest_sha256'' \<noteq> None"
    using success_settled [OF c] assms(4, 5) by blast
  then show ?thesis using e by (auto simp: settled_by_def kind_is_def split: if_splits)
qed

theorem success_means_every_phase_settled_witness:
  "\<exists>d es. lives sample_platform sample_job d es \<and>
     (\<exists>e. Append_event e \<in> set es \<and> get e ''phase'' = PStr ''verify'' \<and> get e ''kind'' = PStr ''phase_completed'' \<and>
        get e ''exit_code'' = PInt 0)"
proof -
  obtain d es t where l: "lives sample_platform sample_job d es" "Write_terminal t \<in> set es"
      "get t ''outcome'' = PStr ''succeeded''"
    using sample_lives by blast
  have "''verify'' \<in> set phase_order" by (simp add: phase_order_def)
  moreover have "enabled sample_job ''verify''" using calculation sample_config by (simp add: enabled_def)
  ultimately show ?thesis
    using success_means_every_phase_settled [OF sample_new_job sample_faithful l, of "''verify''"] l(1) by auto
qed

text \<open>
  C24: a runner that is started again continues where the disk says the run is: its sequence is the number of events
  all earlier lives have written, and it takes up their settled phases, active phase and failure.  The only disk
  it refuses is one on which an append lost nothing but its newline.
\<close>

theorem restart_continues:
  assumes "new_job request given loaded tok = Inr j" and "faithful pl" and "lives pl j d es"
  shows "let events = mo_events (foldl observe fresh es); r = recover_history events in
    case new_runner env pl j d of
      Inr s \<Rightarrow> rn_sequence s = int (length events) \<and> rn_settled s = rc_settled r \<and> rn_current s = rc_active r \<and>
        rn_failure s = rc_failure r \<and> rn_trace s = [] \<and>
        (dk_journal (rn_disk s) = JournalBytes (journal_bytes (pl_rep pl) events) \<or>
         events = [] \<and> dk_journal (rn_disk s) = NoJournal)
    | Inl err \<Rightarrow> err = RequestError ''events.jsonl contains an incomplete record terminator'' \<and>
        (\<exists>e. dk_journal d = JournalBytes (journal_bytes (pl_rep pl) events @ json_text (pl_rep pl) (PDict e)))"
proof -
  obtain q where "on_disk pl j (foldl observe fresh es) q d"
    using lives_on_disk [OF assms(3, 2) new_job_good [OF assms(1)]] by blast
  then show ?thesis using assms(2)
  proof (cases rule: new_runner_starts [where env = env])
    case (starts s)
    then show ?thesis by (auto simp: started_from_def follows_def on_disk_def Let_def)
  next
    case (refused e)
    then show ?thesis by auto
  qed
qed

theorem restart_continues_witness:
  "\<exists>d es s. Spawn ''verify'' \<in> set es \<and> lives sample_platform sample_job d es \<and>
     (case new_runner sample_environment sample_platform sample_job d of
        Inr s \<Rightarrow> rn_sequence s = int (length (mo_events (foldl observe fresh es)))
      | Inl err \<Rightarrow> err = RequestError ''events.jsonl contains an incomplete record terminator'')"
proof -
  obtain d es where l: "lives sample_platform sample_job d es" "Spawn ''verify'' \<in> set es" using sample_lives by blast
  show ?thesis
    using restart_continues [OF sample_new_job sample_faithful l(1), of sample_environment] l
    by (fastforce simp: Let_def split: sum.splits)
qed

end
