(* ===== verification/RunnerReturns.thy ===== *)
theory RunnerReturns
  imports RunnerSample
begin

text \<open>
  Every loop of the runner ends: with a clock that grows without bound, \<open>run\<close> returns, whatever the child, the
  signals, the storage and the launch token do, because the waiting, each phase and each grace period have finite
  timeouts.  Enough fuel gives the result, and more fuel gives the same.
\<close>

section \<open>Enough fuel\<close>

definition settles :: "(nat \<Rightarrow> 'a option \<times> 'b) \<Rightarrow> bool" where
  "settles f \<longleftrightarrow> (\<exists>N r s. \<forall>n \<ge> N. f n = (Some r, s))"

definition yields :: "(nat \<Rightarrow> 'a option) \<Rightarrow> bool" where
  "yields f \<longleftrightarrow> (\<exists>N y. \<forall>n \<ge> N. f n = Some y)"

lemma settles_now [simp]: "settles (\<lambda>n. (Some r, s))"
  by (auto simp: settles_def)

lemma yields_now [simp]: "yields (\<lambda>n. Some y)"
  by (auto simp: yields_def)

lemma settles_Suc:
  assumes "settles (\<lambda>n. f (Suc n))"
  shows "settles f"
proof -
  obtain N r s where N: "\<forall>n \<ge> N. f (Suc n) = (Some r, s)" using assms by (auto simp: settles_def)
  have "f n = (Some r, s)" if "n \<ge> Suc N" for n using N that by (cases n) auto
  then show ?thesis unfolding settles_def by blast
qed

lemma yields_Suc:
  assumes "yields (\<lambda>n. f (Suc n))"
  shows "yields f"
proof -
  obtain N y where N: "\<forall>n \<ge> N. f (Suc n) = Some y" using assms by (auto simp: yields_def)
  have "f n = Some y" if "n \<ge> Suc N" for n using N that by (cases n) auto
  then show ?thesis unfolding yields_def by blast
qed

text \<open>Branches that do not depend on the fuel, and a loop followed by what depends on its result.\<close>

lemma settles_if: "(b \<Longrightarrow> settles f) \<Longrightarrow> (\<not> b \<Longrightarrow> settles g) \<Longrightarrow> settles (\<lambda>n. if b then f n else g n)"
  by (cases b) simp_all

lemma yields_if: "(b \<Longrightarrow> yields f) \<Longrightarrow> (\<not> b \<Longrightarrow> yields g) \<Longrightarrow> yields (\<lambda>n. if b then f n else g n)"
  by (cases b) simp_all

lemma settles_option:
  "(x = None \<Longrightarrow> settles f) \<Longrightarrow> (\<And>a. x = Some a \<Longrightarrow> settles (g a)) \<Longrightarrow>
    settles (\<lambda>n. case x of None \<Rightarrow> f n | Some a \<Rightarrow> g a n)"
  by (cases x) simp_all

lemma settles_pair: "(\<And>a b. x = (a, b) \<Longrightarrow> settles (f a b)) \<Longrightarrow> settles (\<lambda>n. case x of (a, b) \<Rightarrow> f a b n)"
  by (cases x) simp

lemma yields_bind:
  assumes "yields f" and "\<And>y. \<exists>z. h y = Some z"
  shows "yields (\<lambda>n. case f n of None \<Rightarrow> None | Some y \<Rightarrow> h y)"
proof -
  obtain N y where "\<forall>n \<ge> N. f n = Some y" using assms(1) by (auto simp: yields_def)
  moreover obtain z where "h y = Some z" using assms(2) by blast
  ultimately have "\<forall>n \<ge> N. (case f n of None \<Rightarrow> None | Some y \<Rightarrow> h y) = Some z" by simp
  then show ?thesis unfolding yields_def by blast
qed

lemma settles_yields:
  assumes "yields f" and "\<And>y. settles (g y)"
  shows "settles (\<lambda>n. case f n of None \<Rightarrow> (None, s) | Some y \<Rightarrow> g y n)"
proof -
  obtain N y where N: "\<forall>n \<ge> N. f n = Some y" using assms(1) by (auto simp: yields_def)
  obtain M r' s' where M: "\<forall>n \<ge> M. g y n = (Some r', s')" using assms(2) unfolding settles_def by blast
  have "\<forall>n \<ge> max N M. (case f n of None \<Rightarrow> (None, s) | Some y \<Rightarrow> g y n) = (Some r', s')" using N M by simp
  then show ?thesis unfolding settles_def by blast
qed

lemma settles_bind:
  assumes "settles f" and "\<And>r s. settles (\<lambda>n. g n (Some r, s))"
  shows "settles (\<lambda>n. g n (f n))"
proof -
  obtain N r s where N: "\<forall>n \<ge> N. f n = (Some r, s)" using assms(1) by (auto simp: settles_def)
  obtain M r' s' where M: "\<forall>n \<ge> M. g n (Some r, s) = (Some r', s')" using assms(2) unfolding settles_def by blast
  have "\<forall>n \<ge> max N M. g n (f n) = (Some r', s')" using N M by simp
  then show ?thesis unfolding settles_def by blast
qed

lemmas settling = settles_if yields_if settles_option settles_pair settles_yields yields_bind settles_now yields_now

section \<open>The loops\<close>

definition advancing :: "environment \<Rightarrow> bool" where
  "advancing env \<longleftrightarrow> (\<forall>x. \<exists>k. \<forall>i \<ge> k. x \<le> en_clock env i)"

lemma tick_fields [simp]:
  "rn_tick (tick s) = Suc (rn_tick s)" "rn_tick (heartbeat env pl j st s) = rn_tick s + 3" "rn_tick (emit pl e s) = rn_tick s"
  by (simp_all add: tick_def emit_def heartbeat_def publish_status_def)

lemma await_exit_yields:
  assumes "advancing env"
  shows "yields (\<lambda>n. await_exit env (Fin d) n s)"
proof -
  obtain k where k: "\<And>i. k \<le> i \<Longrightarrow> d \<le> en_clock env i" using assms unfolding advancing_def by blast
  show ?thesis
  proof (induction "k - rn_tick s" arbitrary: s rule: less_induct)
    case less
    have "yields (\<lambda>n. await_exit env (Fin d) n (tick (tick s)))" if "\<not> fle (Fin d) (Fin (monotonic env (tick s)))"
    proof -
      have "\<not> k \<le> Suc (rn_tick s)" using k that by (auto simp: monotonic_def)
      then show ?thesis by (intro less) simp
    qed
    then show ?case
      by (intro yields_Suc [where f = "\<lambda>n. await_exit env (Fin d) n s"]) (auto intro!: yields_if simp del: fle.simps)
  qed
qed

lemma await_group_yields:
  assumes "advancing env"
  shows "yields (\<lambda>n. await_group env (Fin d) n s)"
proof -
  obtain k where k: "\<And>i. k \<le> i \<Longrightarrow> d \<le> en_clock env i" using assms unfolding advancing_def by blast
  show ?thesis
  proof (induction "k - rn_tick s" arbitrary: s rule: less_induct)
    case less
    have "yields (\<lambda>n. await_group env (Fin d) n (tick (tick s)))" if "\<not> fle (Fin d) (Fin (monotonic env s))"
    proof -
      have "\<not> k \<le> rn_tick s" using k that by (auto simp: monotonic_def)
      then show ?thesis by (intro less) simp
    qed
    then show ?case
      by (intro yields_Suc [where f = "\<lambda>n. await_group env (Fin d) n s"]) (auto intro!: yields_if simp del: fle.simps)
  qed
qed

lemma plus_Fin [simp]: "plus t (Fin x) = Fin (x + t)"
  by (simp add: plus_def)

text \<open>What a validated request gives: every timeout is a finite number.\<close>

definition timed :: "job \<Rightarrow> bool" where
  "timed j \<longleftrightarrow> (\<exists>x. la_timeout_seconds (jb_auth j) = Fin x) \<and> (\<exists>x. grace_period j = Fin x) \<and>
     (\<forall>p \<in> set phase_order.
        \<exists>x. number_as_float (get (section_of (section_of (jb_request j) ''phases'') p) ''timeout_seconds'') = Fin x)"

lemma terminate_yields:
  assumes "advancing env" and "timed j"
  shows "yields (\<lambda>n. terminate_process_group env pl j n s)"
proof -
  obtain g where g: "grace_period j = Fin g" using assms(2) by (auto simp: timed_def)
  show ?thesis
    unfolding terminate_process_group_def g Let_def plus_Fin by (intro settling await_exit_yields [OF assms(1)]) auto
qed

lemma terminate_recorded_yields:
  assumes "advancing env" and "timed j"
  shows "yields (\<lambda>n. terminate_recorded_process_group env pl j n s)"
proof -
  obtain g where g: "grace_period j = Fin g" using assms(2) by (auto simp: timed_def)
  show ?thesis
    unfolding terminate_recorded_process_group_def g Let_def plus_Fin
    by (cases "recorded_pid env (rn_disk s)")
      (auto intro!: yields_if yields_bind await_group_yields [OF assms(1)])
qed

lemma stop_phase_settles:
  assumes "advancing env" and "timed j"
  shows "settles (\<lambda>n. stop_phase env pl j n outcome reason p s)"
  unfolding stop_phase_def by (intro settling terminate_yields [OF assms])

lemma wait_launch_settles:
  assumes "advancing env"
  shows "settles (\<lambda>n. wait_launch env pl j (Fin d) h n s)"
proof -
  obtain k where k: "\<And>i. k \<le> i \<Longrightarrow> d \<le> en_clock env i" using assms unfolding advancing_def by blast
  show ?thesis
  proof (induction "k - rn_tick s" arbitrary: h s rule: less_induct)
    case less
    have again: "settles (\<lambda>n. wait_launch env pl j (Fin d) h' n s')"
      if "\<not> fle (Fin d) (Fin (monotonic env (tick (tick s))))" "rn_tick s < rn_tick s'" for h' s'
    proof -
      have "\<not> k \<le> Suc (Suc (rn_tick s))" using k that(1) by (auto simp: monotonic_def)
      then show ?thesis using that(2) by (intro less) simp
    qed
    show ?case
      by (rule settles_Suc [where f = "\<lambda>n. wait_launch env pl j (Fin d) h n s"])
        (unfold wait_launch.simps Let_def, intro settling again; simp del: fle.simps)
  qed
qed

lemma wait_settles:
  assumes "advancing env" and "timed j"
  shows "settles (\<lambda>n. wait_for_launch_authorization env pl j n s)"
proof -
  obtain x where x: "la_timeout_seconds (jb_auth j) = Fin x" using assms(2) by (auto simp: timed_def)
  show ?thesis
    unfolding wait_for_launch_authorization_def x plus_Fin by (intro settling wait_launch_settles [OF assms(1)])
qed

lemma poll_phase_settles:
  assumes "advancing env" and "timed j"
  shows "settles (\<lambda>n. poll_phase env pl j p started (Fin t) h n s)"
proof -
  obtain k where k: "\<And>i. k \<le> i \<Longrightarrow> started + t \<le> en_clock env i"
    using assms(1) unfolding advancing_def by blast
  show ?thesis
  proof (induction "k - rn_tick s" arbitrary: h s rule: less_induct)
    case less
    have again: "settles (\<lambda>n. poll_phase env pl j p started (Fin t) h' n s')"
      if "\<not> fle (Fin t) (Fin (monotonic env (tick s) - started))" "rn_tick s < rn_tick s'" for h' s'
    proof -
      have "\<not> k \<le> Suc (rn_tick s)" using k [of "Suc (rn_tick s)"] that(1) by (auto simp: monotonic_def)
      then show ?thesis using that(2) by (intro less) simp
    qed
    obtain l s4 where lim: "limit_reason env (jb_request j) (tick (tick (tick s))) = (l, s4)" by fastforce
    have s4: "rn_tick s < rn_tick s4" using limit_reason_snd [OF lim] by simp
    have limited: "settles (\<lambda>n. case (l, s4) of
        (None, s3) \<Rightarrow>
          if fle h (Fin (monotonic env (tick s)))
          then poll_phase env pl j p started (Fin t) (plus (monotonic env (tick s)) (heartbeat_interval j)) n
                 (heartbeat env pl j ''running'' s3)
          else poll_phase env pl j p started (Fin t) h n s3
      | (Some reason, s3) \<Rightarrow> stop_phase env pl j n ''limit_exceeded'' reason p s3)"
      if "\<not> fle (Fin t) (Fin (monotonic env (tick s) - started))"
      using again [OF that] s4 stop_phase_settles [OF assms] by (cases l) (auto intro!: settles_if simp del: fle.simps)
    show ?case
      by (rule settles_Suc [where f = "\<lambda>n. poll_phase env pl j p started (Fin t) h n s"])
        (unfold poll_phase.simps Let_def lim, intro settling stop_phase_settles [OF assms] limited;
          simp add: phase_exited_def Let_def case_prod_beta)
  qed
qed

lemma run_phase_settles:
  assumes "advancing env" and "timed j" and "number_as_float (get config ''timeout_seconds'') = Fin t"
  shows "settles (\<lambda>n. run_phase env pl j config n p s)"
  unfolding run_phase_def start_phase_def Let_def assms(3)
  by (intro settling poll_phase_settles [OF assms(1, 2)])

lemma run_phases_settles:
  assumes "advancing env" and "timed j" and "set ps \<subseteq> set phase_order"
  shows "settles (\<lambda>n. run_phases env pl j n ps s)"
  using assms(3)
proof (induction ps arbitrary: s)
  case Nil
  then show ?case by simp
next
  case (Cons p ps)
  let ?config = "section_of (section_of (jb_request j) ''phases'') p"
  obtain t where t: "number_as_float (get ?config ''timeout_seconds'') = Fin t"
    using assms(2) Cons.prems by (auto simp: timed_def)
  have ps: "settles (\<lambda>n. run_phases env pl j n ps s')" for s' using Cons by simp
  have "settles (\<lambda>n. case run_phase env pl j ?config n p s of
        (None, s1) \<Rightarrow> (None, s1)
      | (Some (Some terminal), s1) \<Rightarrow> (Some (Some terminal), s1)
      | (Some None, s1) \<Rightarrow> run_phases env pl j n ps (s1\<lparr>rn_completed := rn_completed s1 @ [p]\<rparr>))"
    by (rule settles_bind [OF run_phase_settles [OF assms(1, 2) t]])
      (auto intro!: settles_option ps)
  then show ?case using ps by (auto simp: Let_def intro!: settles_if)
qed

lemma end_run_settles: "settles (\<lambda>n. end_run env pl j rs)"
  by (simp add: end_run_def case_prod_beta)

lemma run_ready_settles:
  assumes "advancing env" and "timed j"
  shows "settles (\<lambda>n. run_ready env pl j n s)"
proof -
  have complete: "settles (\<lambda>n. complete_run env pl j s')" for s'
    by (auto simp: complete_run_def intro!: end_run_settles split: prod.splits sum.splits)
  have phases: "settles (\<lambda>n. case run_phases env pl j n phase_order s' of
        (None, s3) \<Rightarrow> (None, s3)
      | (Some (Some terminal), s3) \<Rightarrow> end_run env pl j (terminal, s3)
      | (Some None, s3) \<Rightarrow> complete_run env pl j s3)" for s'
    by (rule settles_bind [OF run_phases_settles [OF assms subset_refl]])
      (auto intro!: settles_option end_run_settles complete)
  show ?thesis
    unfolding run_ready_def Let_def
    by (rule settles_bind [OF wait_settles [OF assms]]) (auto intro!: settles_option end_run_settles phases)
qed

lemma run_settles:
  assumes "advancing env" and "timed j"
  shows "settles (\<lambda>n. run env pl j n s)"
proof -
  have interrupted: "settles (\<lambda>n. case terminate_recorded_process_group env pl j n s of
        None \<Rightarrow> (None, s)
      | Some s1 \<Rightarrow> end_run env pl j (result_of env j ''failed'' ''runner_restart_unknown_child'' (Some p) s1))" for p
    by (intro settles_yields terminate_recorded_yields [OF assms] end_run_settles)
  show ?thesis
  proof (cases "read_terminal s")
    case (Inl e)
    then show ?thesis by (simp add: run_def)
  next
    case (Inr existing)
    then show ?thesis
      by (cases existing)
        (auto simp: run_def intro!: settling interrupted end_run_settles run_ready_settles [OF assms])
  qed
qed

section \<open>A validated request is timed\<close>

lemma positive_number_Fin:
  assumes "positive_number v name = Inr u"
  shows "\<exists>x. number_as_float v = Fin x"
proof -
  obtain f where f: "to_float v = Inr (Some f)" "isfinite f"
    using assms by (auto simp: positive_number_def result_simps split: option.splits)
  then show ?thesis by (cases f) (auto simp: number_as_float_def)
qed

lemma nonnegative_number_Fin:
  assumes "nonnegative_number v name = Inr u"
  shows "\<exists>x. number_as_float v = Fin x"
proof -
  obtain f where f: "to_float v = Inr (Some f)" "isfinite f"
    using assms by (auto simp: nonnegative_number_def result_simps split: option.splits)
  then show ?thesis by (cases f) (auto simp: number_as_float_def)
qed

lemma new_job_timed:
  assumes "new_job request given loaded tok = Inr j"
  shows "timed j"
proof -
  note r = new_job_request [OF assms]
  obtain u where "check_phases (get request ''phases'') = Inr u" and "check_limits request = Inr u"
    using r(1) by (auto simp: validate_request_def result_simps)
  then obtain phases us where phases: "get request ''phases'' = PDict phases" "mapR (check_phase phases) phase_order = Inr us"
    and grace: "nonnegative_number (get request ''termination_grace_seconds'') ''termination_grace_seconds'' = Inr ()"
    by (auto simp: check_phases_def check_limits_def result_simps simp del: mapR_Inr_iff)
  have "\<exists>x. number_as_float (get (section_of (section_of request ''phases'') p) ''timeout_seconds'') = Fin x"
    if p: "p \<in> set phase_order" for p
  proof -
    obtain config name where "get phases p = PDict config" "positive_number (get config ''timeout_seconds'') name = Inr ()"
      using mapR_member [OF phases(2) p] by (auto simp: check_phase_def result_simps split: option.splits)
    then show ?thesis using positive_number_Fin by (simp add: section_of_def phases(1))
  qed
  moreover have "\<exists>x. la_timeout_seconds (jb_auth j) = Fin x"
  proof -
    obtain d where d: "get request ''launch_authorization'' = PDict d"
      using r(3) by (auto simp: parse_launch_authorization_def split: option.split_asm)
    have "flt (Fin 0) (la_timeout_seconds a) \<and> fle (la_timeout_seconds a) (Fin 3600)"
      if "parse_launch_authorization (PDict d) = Inr a" for a
      using that
      by (cases "to_float (get d ''timeout_seconds'')")
        (auto simp: parse_launch_authorization_def split: option.split_asm if_split_asm)
    then have "flt (Fin 0) (la_timeout_seconds (jb_auth j)) \<and> fle (la_timeout_seconds (jb_auth j)) (Fin 3600)"
      using r(3) unfolding d by blast
    then show ?thesis by (cases "la_timeout_seconds (jb_auth j)") auto
  qed
  ultimately show ?thesis
    using nonnegative_number_Fin [OF grace] r(2) by (simp add: timed_def grace_period_def)
qed

section \<open>Returning\<close>

text \<open>
  C25: the runner always returns.  For every validated request and every clock that grows without bound there is an
  amount of fuel from which on \<open>run\<close> gives one and the same result, whatever the environment does: a child that
  never exits, a launch token that never appears, a process group that ignores its signals.
\<close>

theorem run_returns:
  assumes "new_job request given loaded tok = Inr j" and "advancing env"
  shows "\<exists>N result s'. \<forall>n. N \<le> n \<longrightarrow> run env pl j n s = (Some result, s')"
  using run_settles [OF assms(2) new_job_timed [OF assms(1)], of pl s] by (auto simp: settles_def)

text \<open>A child that never exits, and a token that never comes.\<close>

definition stuck_environment :: environment where
  "stuck_environment = sample_environment\<lparr>en_clock := of_nat, en_poll := \<lambda>_. None, en_group := \<lambda>_. True\<rparr>"

theorem run_returns_witness:
  "\<exists>N result s'. \<forall>n. N \<le> n \<longrightarrow> run stuck_environment sample_platform sample_job n sample_start = (Some result, s')"
proof -
  have "x \<le> of_nat i" if "nat \<lceil>x\<rceil> \<le> i" for x :: rat and i
    using that by (metis le_of_int_ceiling nat_le_iff of_int_le_iff of_int_of_nat_eq order_trans)
  then have "advancing stuck_environment" unfolding advancing_def stuck_environment_def by auto
  then show ?thesis by (rule run_returns [OF sample_new_job])
qed

end
