(* ===== verification/Spec2Isabelle.thy ===== *)
theory Spec2Isabelle
  imports Budget LifecycleClaims EngineClaims RunRefines CloudClaims ExecutorReturns BundleProps RunnerClaims RunnerReturns
begin

text \<open>
  A verification development for runpod-jobrunner (\<open>src/runpod_jobrunner/\<close>), which runs one job on one rented pod:
  a controller plans the run and reserves its budget, provisions the pod, delivers the request, follows it, recovers
  its artifacts, deletes everything it created and closes the run; a runner on the pod executes the phases of the
  request and leaves a durable record of what happened.  Money is spent while a pod exists and work must not be done
  twice, so most properties are about what stays true when a process dies at the worst moment and is started again.

  \<^bold>\<open>Parts and theories\<close>

  \<^item> Language and library: \<open>Prelude\<close> (exceptions as values of \<open>exn + 'a\<close>, dictionaries as association lists, strings),
    \<open>PyDecimal\<close>, \<open>PyDatetime\<close>, \<open>PyRegex\<close> (matching by derivatives, proved against the language of a pattern), \<open>PyValue\<close>
    (values as JSON gives them, \<open>==\<close>, \<open>isinstance\<close>), \<open>PyJson\<close> (the text of \<open>json.dumps\<close>, the scanner of \<open>json.loads\<close>
    with the position of its errors), \<open>Money\<close>.
  \<^item> \<open>Budget\<close> models \<open>budget.py\<close>: the ledger of authorized money, \<open>reserve\<close> and its projection.
  \<^item> \<open>Canonical\<close> models the canonical JSON of \<open>protocol.py\<close>, which intents and manifests are hashed by.
  \<^item> \<open>Identity\<close>, \<open>LaunchAuth\<close> and \<open>Paths\<close> model \<open>identity.py\<close>, \<open>launch_authorization.py\<close> and the path and glob
    validators of \<open>bundle.py\<close>, \<open>runner.py\<close>, \<open>transfer.py\<close> and \<open>remote_executor.py\<close>, which check the same texts in four places.
  \<^item> \<open>Request\<close> models the runner's \<open>_validate_request\<close>; \<open>Bundle\<close> models \<open>bundle.py\<close>: checking a job bundle and building the
    request from it; \<open>BundleProps\<close> proves that the second is accepted by the first.
  \<^item> \<open>Provider\<close> models \<open>provider.py\<close>: the provider seam as a record of operations over a world, its in-memory fake, and the
    contract of a well-behaved provider as the locale \<open>provider_contract\<close>, interpreted by the fake.
  \<^item> \<open>RunJournal\<close> models \<open>run_store.py\<close> on the bytes of its files: the encoding of a record, its append, deaths after any
    number of bytes, the classification of a torn tail, reads, commits, receipts and creation.  \<open>RunStore\<close> is the same store
    on decoded records, over which the lifecycle and the engine are proved (the locale \<open>state_store\<close> is what a client relies
    on, interpreted by it); \<open>RunRefines\<close> proves that it is what the bytes come to, for texts that the encoding carries.
  \<^item> \<open>Lifecycle\<close> models \<open>lifecycle.py\<close>, one handler per state; \<open>LifecycleInv\<close> has the executions (any provider, clock,
    order of calls, and deaths inside provider calls) and their invariant; \<open>LifecycleProps\<close> and \<open>LifecycleClaims\<close> its
    consequences.  \<open>Engine\<close> models \<open>SupervisorEngine\<close> of \<open>application.py\<close>, the loop that drives a run to its closeout,
    and \<open>EngineClaims\<close> proves that the whole stack is safe with any provider and closes the run with a good one (the
    locale \<open>live_provider\<close> extends the provider's contract and is interpreted by the fake).
  \<^item> \<open>Journal\<close> and \<open>Artifacts\<close> model the event journal and the artifact manifests of \<open>runner.py\<close>; \<open>RunnerState\<close> and
    \<open>Runner\<close> model the class \<open>RemoteRunner\<close> operation by operation.  \<open>RunnerProtocol\<close> has the abstract automaton of a run
    and the proof that every operation follows it; \<open>RunnerLives\<close> has the successive lives of a run and the proof that a
    restart resumes it; \<open>RunnerProps\<close>, \<open>RunnerClaims\<close> and \<open>RunnerReturns\<close> have the consequences, \<open>RunnerSample\<close> a run
    evaluated step by step.
  \<^item> \<open>Transfers\<close> models \<open>transfer.py\<close>: manifests, the local upload, and the SFTP transfer through \<open>rclone\<close>.
  \<^item> \<open>CloudApi\<close> and \<open>CloudProvider\<close> model \<open>runpod_provider.py\<close>: the client with its requests and the classification of what
    can go wrong (the locale \<open>pod_service\<close> is what its users rely on, interpreted by it as \<open>http\<close>), and the adapter that
    keeps a policy for every operation on disk and refuses pods that break it.  \<open>CloudProps\<close> has what a policy ensures,
    \<open>CloudClaims\<close> the consequences.
  \<^item> \<open>Ack\<close> models \<open>incremental_ack.py\<close>: keys, canonical statements, signing and verifying.
  \<^item> \<open>Mirror\<close> and \<open>Executor\<close> model \<open>remote_executor.py\<close>: the mirror of incremental artifacts, and the executor that waits for
    the pod, delivers the request, follows the status and recovers the artifacts.  \<open>ExecutorProps\<close> states the data plane as
    the locale \<open>data_plane\<close>, interpreted by the SFTP transfer, and proves that success is proved; \<open>ExecutorReturns\<close> that the
    executor returns.

  \<^bold>\<open>How state and effects are modelled\<close>

  A function that may raise returns \<open>exn + 'a\<close>; a method that changes state returns the new state beside its result.
  The files of a run are a record of decoded contents (\<open>RunStore.run_files\<close>) or of bytes (\<open>RunJournal.run_disk\<close>,
  \<open>RunnerState.disk\<close>);
  directories that are only read or checked are trees of \<open>node\<close>.  What a process observes (clocks, signals, child
  processes, files that others write) is an environment: a function of a tick that counts its observations, so that
  anything may change between two of them.  The runner's effects are a trace in order, and the disk is the initial disk
  with those effects applied: a death is a prefix of the trace, or an append of which only a prefix of the bytes
  arrived.  \<open>RunnerLives.lives\<close> and \<open>LifecycleInv.run_step\<close> are the inductive relations of all executions.

  \<^bold>\<open>What the groups of lemmas show\<close>

  \<^item> Lifecycle: a pod is created at most once, a run is closed only with a proof that nothing it pays for is left, states
    only move forward.
  \<^item> Store: the bytes of a journal read back as the projections committed to it, however commits died; a receipt that a death
    left out is written by the next read; a run is created once; the decoded store refines to the bytes.
  \<^item> Budget: reservations never exceed the authority and are permanent; where the rounding of \<open>Decimal\<close> breaks this.
  \<^item> Requests: a checked bundle yields a request that the runner accepts, and what the three validators of paths,
    identities and launch tokens agree on; round trips of the encoders.
  \<^item> Runner: all lives of a run together refine one protocol, so that a phase is spawned at most once, the terminal
    result is written once and returned by every later runner, and success means that every enabled phase exited with
    zero; a torn journal is repaired; the runner returns.
  \<^item> Transfers: a download that returns has delivered exactly its manifest, and a discovery is bounded and confined,
    whatever \<open>rclone\<close> and the remote listing answer.
  \<^item> Cloud: a resource the adapter reports rests on a pod of the service's own answer that meets the policy on disk; a create
    that fails says what may be left behind.
  \<^item> Executor: a run is reported as succeeded only on proof, with its artifacts on disk; an acknowledgement that verifies is
    bound to its statement and signer.

  \<^bold>\<open>Bounds and fuel\<close>

  The JSON scanner has fuel \<open>2 * length + 2\<close>, which \<open>PyJson.scan_fuel\<close> shows to be enough.  The engine's loop has the step
  budget the code has.  The loops of \<open>Runner\<close> and \<open>Executor\<close> that poll take fuel, and \<open>None\<close> is running out of it.  For the
  executor one more than the microseconds left until the deadline is enough (\<open>execute_returns\<close>); \<open>run_returns\<close> shows
  that enough fuel exists for every validated request when the clock grows without bound, and that more fuel gives the
  same result.  The safety properties hold for every amount of fuel, that is, for a runner that is stopped anywhere.

  \<^bold>\<open>Parameters and hypotheses\<close>

  SHA-256, UTF-8, \<open>repr\<close> and \<open>float\<close> of floats, the YAML and JSON-schema libraries, and the \<open>rclone\<close>, \<open>ssh-keygen\<close> and
  \<open>ssh-keyscan\<close> processes are parameters, and so are the network (an opener that may answer anything, over a world) and
  where symbolic links lead.  What the theorems assume of them is stated in named hypotheses: a float reads back from its
  \<open>repr\<close> and ASCII decodes to itself (\<open>RunnerProtocol.faithful\<close>, \<open>RunJournal.carried\<close>, \<open>ascii_decoder\<close>), \<open>ssh-keygen\<close>
  verifies what it signed for plain identities (\<open>Ack.signing_contract\<close>), the validator enforces the shapes of the job-spec
  schema (\<open>BundleProps.schema_enforced\<close>), the runner's clock grows without bound (\<open>RunnerReturns.advancing\<close>), and the
  executor's clock is not turned back and its pauses take time (\<open>ExecutorReturns.steady\<close>).

  \<^bold>\<open>Limits\<close>

  A \<open>char\<close> is a code point below 256.  Clock readings are rational numbers with exact sums, so the rounding of float
  addition is not modelled; decimals are rounded as the code does.  Replacing a file is atomic; only appends are torn.  A
  symbolic link is a leaf of a tree; where the code follows one, what it leads to is a parameter, and it never leads back
  into the tree.  Directories that cannot be listed are not represented.  The key directory and a policy file are written in
  one step, and operation ids are plain names.  Messages name containers by their kind only.  The theorems about the bytes of
  journals are about ASCII texts without characters that JSON writes as an escape of four hex digits; of other texts the code
  does not always read back what it wrote.

  \<^bold>\<open>Not modelled\<close>

  The command line (\<open>cli.py\<close>) and \<open>supervision.py\<close> are argument parsing and subprocess glue, the status server
  (\<open>status_http.py\<close>) serves one file.  Of \<open>application.py\<close> the facade \<open>JobRunner\<close> with the local executor is left out, of
  \<open>RemoteRunner\<close> \<open>retain_status\<close> and \<open>main\<close>, of \<open>LocalTransfer\<close> everything but the upload, and of the run store the
  locks, which make each operation one step.
\<close>

end
